(* ===== verification/Prelude.thy ===== *)
theory Prelude
  imports Main "HOL-Library.Word" "HOL-Library.Monad_Syntax"
begin

text \<open>
  Shared ground of the development: the kernel's 64-bit signed integers over \<^typ>\<open>int\<close>,
  the bit identities behind its masks and shifts, the counting loop every
  \<open>while i < n: ...; i += 1\<close> of the sources is translated to, with its total-correctness rule,
  and a few list facts.
\<close>

unbundle bit_operations_syntax

named_theorems mask_simps \<open>bitwise masks of the sources as arithmetic\<close>

section \<open>Machine integers\<close>

text \<open>
  The kernel is compiled by Codon, whose \<open>int\<close> is a 64-bit two's complement integer.
  A value is an \<^typ>\<open>int\<close> in the signed 64-bit range; \<open>i64\<close> is the wrap-around of
  an arithmetic result, written where the sum can leave that range.  On \<^typ>\<open>int\<close> the operations
  \<open>AND\<close>, \<open>OR\<close>, \<open>NOT\<close> and \<^const>\<open>drop_bit\<close> (an arithmetic shift right) agree with the
  64-bit ones on every value in the range.
\<close>

definition i64 :: "int \<Rightarrow> int" where
  "i64 x = signed_take_bit 63 x"

definition in64 :: "int \<Rightarrow> bool" where
  "in64 x \<longleftrightarrow> - (2 ^ 63) \<le> x \<and> x < 2 ^ 63"

lemma i64_id: "in64 x \<Longrightarrow> i64 x = x"
  by (simp add: i64_def in64_def signed_take_bit_int_eq_self)

lemma in64_i64 [simp, intro]: "in64 (i64 x)"
  using signed_take_bit_int_greater_eq_minus_exp [of 63 x] signed_take_bit_int_less_exp [of 63 x]
  unfolding i64_def in64_def by simp

lemma i64_i64 [simp]: "i64 (i64 x) = i64 x"
  by (rule i64_id) simp

lemma i64_mod: "i64 (x mod 2 ^ 64) = i64 x"
  by (simp add: i64_def signed_take_bit_eq_iff_take_bit_eq take_bit_eq_mod)

lemma i64_cases:
  assumes "- (2 ^ 64) \<le> x" "x < 2 ^ 64"
  shows "i64 x = (if x < - (2 ^ 63) then x + 2 ^ 64 else if x < 2 ^ 63 then x else x - 2 ^ 64)"
proof -
  have *: "i64 (x + 2 ^ 64) = i64 x" "i64 (x - 2 ^ 64) = i64 x"
    using i64_mod [of "x + 2 ^ 64"] i64_mod [of "x - 2 ^ 64"] i64_mod [of x] by simp_all
  show ?thesis
    using assms i64_id [of x] i64_id [of "x + 2 ^ 64"] i64_id [of "x - 2 ^ 64"] *
    by (auto simp: in64_def)
qed

lemma in64I: "- 9223372036854775808 \<le> x \<Longrightarrow> x < 9223372036854775808 \<Longrightarrow> in64 x"
  by (simp add: in64_def)

lemma in64D: "in64 x \<Longrightarrow> - 9223372036854775808 \<le> x \<and> x < 9223372036854775808"
  by (simp add: in64_def)

lemma in64_small [simp]: "in64 0" "in64 1"
  by (simp_all add: in64_def)

section \<open>Masks and shifts\<close>

lemma and_mask_mod: "(x :: int) AND (2 ^ n - 1) = x mod 2 ^ n"
  by (simp flip: take_bit_eq_mod add: take_bit_eq_mask mask_eq_exp_minus_1)

lemma and_not_mask: "(x :: int) AND NOT (2 ^ n - 1) = x - x mod 2 ^ n"
proof -
  have "x AND NOT (mask n) = push_bit n (drop_bit n x)"
    by (rule bit_eqI) (auto simp: bit_simps)
  then show ?thesis
    by (simp add: push_bit_eq_mult drop_bit_eq_div mask_eq_exp_minus_1 minus_mod_eq_div_mult)
qed

lemma or_disjoint_add:
  assumes "2 ^ n dvd (a :: int)" "0 \<le> f" "f < 2 ^ n"
  shows "a OR f = a + f"
proof -
  from assms(1) obtain k where a: "a = push_bit n k"
    by (auto simp: push_bit_eq_mult ac_simps elim: dvdE)
  have "take_bit n f = f" using assms(2,3) by (simp add: take_bit_int_eq_self)
  then show ?thesis
    using concat_bit_def [of n f k] concat_bit_eq [of n f k] by (simp add: a ac_simps)
qed

lemma and_4095 [mask_simps]: "(x :: int) AND 4095 = x mod 4096"
  using and_mask_mod [of x 12] by simp

lemma and_7 [mask_simps]: "(x :: int) AND 7 = x mod 8"
  using and_mask_mod [of x 3] by simp

lemma and_3 [mask_simps]: "(x :: int) AND 3 = x mod 4"
  using and_mask_mod [of x 2] by simp

lemma and_511 [mask_simps]: "(x :: int) AND 511 = x mod 512"
  using and_mask_mod [of x 9] by simp

lemma and_1FFFFF [mask_simps]: "(x :: int) AND 2097151 = x mod 2097152"
  using and_mask_mod [of x 21] by simp

lemma drop_bit_12 [mask_simps]: "drop_bit 12 (x :: int) = x div 4096"
  by (simp add: drop_bit_eq_div)

lemma aligned_gap:
  assumes "(x :: int) mod n = 0" "y mod n = 0" "x < y" "0 < n"
  shows "x + n \<le> y"
proof -
  obtain a b where "x = n * a" "y = n * b" using assms(1,2) by (auto simp: mod_eq_0_iff_dvd elim!: dvdE)
  with assms(3,4) have "n * (a + 1) \<le> n * b" by (intro mult_left_mono) auto
  with \<open>x = n * a\<close> \<open>y = n * b\<close> show ?thesis by (simp add: algebra_simps)
qed

section \<open>Counting loops\<close>

text \<open>
  \<open>for_range lo hi body s\<close> is \<open>i = lo; while i < hi: body; i += 1\<close> over the state \<open>s\<close>:
  \<^const>\<open>None\<close> when an iteration halts the kernel.
\<close>

function for_range :: "int \<Rightarrow> int \<Rightarrow> (int \<Rightarrow> 's \<Rightarrow> 's option) \<Rightarrow> 's \<Rightarrow> 's option" where
  "for_range i hi body s =
     (if i < hi then do { s \<leftarrow> body i s; for_range (i + 1) hi body s } else Some s)"
  by pat_completeness auto
termination
  by (relation "measure (\<lambda>(i, hi, body, s). nat (hi - i))") auto

declare for_range.simps [simp del]

lemma for_range_done [simp]: "hi \<le> i \<Longrightarrow> for_range i hi body s = Some s"
  by (simp add: for_range.simps)

lemma for_range_step: "i < hi \<Longrightarrow> for_range i hi body s = do { s \<leftarrow> body i s; for_range (i + 1) hi body s }"
  by (simp add: for_range.simps [of i])

text \<open>Total correctness: the body never halts under the invariant, so the loop returns.\<close>

lemma for_range_total:
  assumes "lo \<le> hi" and "P lo s"
    and "\<And>i s. lo \<le> i \<Longrightarrow> i < hi \<Longrightarrow> P i s \<Longrightarrow> \<exists>s'. body i s = Some s' \<and> P (i + 1) s'"
  shows "\<exists>s'. for_range lo hi body s = Some s' \<and> P hi s'"
  using assms
proof (induction lo hi body s rule: for_range.induct)
  case (1 i hi body s)
  show ?case
  proof (cases "i < hi")
    case True
    then obtain s' where s': "body i s = Some s'" "P (i + 1) s'" using "1.prems" by blast
    have "\<exists>s''. for_range (i + 1) hi body s' = Some s'' \<and> P hi s''"
      by (rule "1.IH") (use True s' "1.prems" in auto)
    then show ?thesis using True s' by (simp add: for_range_step)
  next
    case False
    then show ?thesis using "1.prems" by auto
  qed
qed

text \<open>Partial correctness: what every completed iteration keeps holds of the result.\<close>

lemma for_range_inv:
  assumes "for_range lo hi body s = Some s'" and "P lo s" and "lo \<le> hi"
    and "\<And>i s s'. lo \<le> i \<Longrightarrow> i < hi \<Longrightarrow> P i s \<Longrightarrow> body i s = Some s' \<Longrightarrow> P (i + 1) s'"
  shows "P hi s'"
  using assms
proof (induction lo hi body s rule: for_range.induct)
  case (1 i hi body s)
  show ?case
  proof (cases "i < hi")
    case True
    then obtain t where t: "body i s = Some t" "for_range (i + 1) hi body t = Some s'"
      using "1.prems"(1) by (auto simp: for_range_step Option.bind_eq_Some_conv)
    show ?thesis
      by (rule "1.IH" [OF True t]) (use True t "1.prems" in auto)
  next
    case False
    then show ?thesis using "1.prems" by auto
  qed
qed

text \<open>Loops that test a condition of each index, and loops that fold a list.\<close>

lemma for_range_all:
  assumes "\<And>i. lo \<le> i \<Longrightarrow> i < hi \<Longrightarrow> body i True = Some (Q i)"
    and "\<And>i. lo \<le> i \<Longrightarrow> i < hi \<Longrightarrow> body i False = Some False"
  shows "for_range lo hi body b = Some (b \<and> (\<forall>i. lo \<le> i \<longrightarrow> i < hi \<longrightarrow> Q i))"
  using assms
proof (induction lo hi body b rule: for_range.induct)
  case (1 i hi body b)
  show ?case
  proof (cases "i < hi")
    case True
    have split: "(\<forall>j. i \<le> j \<longrightarrow> j < hi \<longrightarrow> Q j) \<longleftrightarrow> Q i \<and> (\<forall>j. i + 1 \<le> j \<longrightarrow> j < hi \<longrightarrow> Q j)"
      using True by (metis order_le_less zless_imp_add1_zle add1_zle_eq order_refl)
    have "body i b = Some (b \<and> Q i)" using "1.prems" True by (cases b) auto
    moreover from this have "for_range (i + 1) hi body (b \<and> Q i) =
        Some ((b \<and> Q i) \<and> (\<forall>j. i + 1 \<le> j \<longrightarrow> j < hi \<longrightarrow> Q j))"
      by (intro "1.IH") (use True "1.prems" in auto)
    ultimately show ?thesis using True by (simp add: for_range_step split conj_assoc)
  qed simp
qed

lemma for_range_ex:
  assumes "\<And>i. lo \<le> i \<Longrightarrow> i < hi \<Longrightarrow> body i False = Some (Q i)"
    and "\<And>i. lo \<le> i \<Longrightarrow> i < hi \<Longrightarrow> body i True = Some True"
  shows "for_range lo hi body b = Some (b \<or> (\<exists>i. lo \<le> i \<and> i < hi \<and> Q i))"
  using assms
proof (induction lo hi body b rule: for_range.induct)
  case (1 i hi body b)
  show ?case
  proof (cases "i < hi")
    case True
    have split: "(\<exists>j. i \<le> j \<and> j < hi \<and> Q j) \<longleftrightarrow> Q i \<or> (\<exists>j. i + 1 \<le> j \<and> j < hi \<and> Q j)"
      using True by (metis order_le_less zless_imp_add1_zle add1_zle_eq order_refl)
    have "body i b = Some (b \<or> Q i)" using "1.prems" True by (cases b) auto
    moreover from this have "for_range (i + 1) hi body (b \<or> Q i) =
        Some ((b \<or> Q i) \<or> (\<exists>j. i + 1 \<le> j \<and> j < hi \<and> Q j))"
      by (intro "1.IH") (use True "1.prems" in auto)
    ultimately show ?thesis using True by (simp add: for_range_step split disj_assoc)
  qed auto
qed

lemma for_range_foldl:
  assumes "\<And>i a. 0 \<le> i \<Longrightarrow> i < int (length xs) \<Longrightarrow> body i a = Some (f a (xs ! nat i))"
  shows "for_range (int k) (int (length xs)) body a = Some (foldl f a (drop k xs))"
proof (induction "length xs - k" arbitrary: k a)
  case 0
  then show ?case by simp
next
  case (Suc n)
  then have k: "k < length xs" by simp
  have "for_range (int (Suc k)) (int (length xs)) body (f a (xs ! k)) = Some (foldl f (f a (xs ! k)) (drop (Suc k) xs))"
    by (rule Suc.hyps) (use Suc.hyps(2) in simp)
  then show ?case using k assms [of "int k" a]
    by (simp add: for_range_step Cons_nth_drop_Suc [symmetric] add.commute)
qed

end
