(* ===== verification/Machine.thy ===== *)
theory Machine
  imports Prelude
begin

text \<open>
  The machine the kernel runs on and its lowest layer: \<^verbatim>\<open>khal.py\<close> with the assembly routines
  behind it (\<^verbatim>\<open>src/arch/x86_64/interrupts.s\<close>, \<^verbatim>\<open>runtime.s\<close>) and \<^verbatim>\<open>ksupport.py\<close>.
  Memory is a function from addresses to bytes; every kernel object lives in it, as in the sources.
  A function that may call \<open>panic\<close> returns an option: \<^const>\<open>None\<close> is the kernel halted in
  \<open>seq_terminate\<close>, which never returns.
\<close>

section \<open>The machine\<close>

record machine =
  mem :: "int \<Rightarrow> 8 word"
  heap_space :: int
  heap_end :: int
  heap_ptr :: int
  cr3 :: int
  tss_rsp0 :: int
  idt_register :: "int \<times> int"
  active_scheduler :: int
  timer_irq_count :: int
  lapic_eoi_reg :: int
  msr :: "int \<Rightarrow> int"
  ports :: "(int \<times> int) list"
  serial_in :: "8 word list"
  serial_out :: "8 word list"
  apic_id :: int
  cr2 :: int
  has_apic :: int
  regs :: "int list"
  symbol :: "string \<Rightarrow> int"

text \<open>
  \<^const>\<open>regs\<close> are the registers a context holds, in the order of \<^verbatim>\<open>context_slot_rsp\<close> to
  \<^verbatim>\<open>context_slot_r15\<close>; \<^const>\<open>idt_register\<close> is the limit and base the processor finds its interrupt table by;
  \<^const>\<open>symbol\<close> are the link-time addresses of assembly entry points.
\<close>

definition panic :: "string \<Rightarrow> 'a option" where
  "panic msg = None"

definition panic_region_access :: "string \<Rightarrow> int \<Rightarrow> int \<Rightarrow> int \<Rightarrow> 'a option" where
  "panic_region_access msg base_ptr index limit = None"

lemmas panic_simps [simp] = panic_def panic_region_access_def

section \<open>Little-endian loads and stores\<close>

primrec le_load :: "nat \<Rightarrow> (int \<Rightarrow> 8 word) \<Rightarrow> int \<Rightarrow> int" where
  "le_load 0 m a = 0"
| "le_load (Suc n) m a = uint (m a) + 256 * le_load n m (a + 1)"

primrec le_store :: "nat \<Rightarrow> (int \<Rightarrow> 8 word) \<Rightarrow> int \<Rightarrow> int \<Rightarrow> (int \<Rightarrow> 8 word)" where
  "le_store 0 m a v = m"
| "le_store (Suc n) m a v = le_store n (m(a := word_of_int v)) (a + 1) (v div 256)"

lemma le_store_frame: "b < a \<or> a + int n \<le> b \<Longrightarrow> le_store n m a v b = m b"
  by (induction n arbitrary: m a v) auto

lemma le_load_cong: "(\<And>b. a \<le> b \<Longrightarrow> b < a + int n \<Longrightarrow> m b = m' b) \<Longrightarrow> le_load n m a = le_load n m' a"
  by (induction n arbitrary: a) auto

lemma le_load_store: "le_load n (le_store n m a v) a = v mod 256 ^ n"
proof (induction n arbitrary: m a v)
  case 0
  then show ?case by simp
next
  case (Suc n)
  have "uint (word_of_int v :: 8 word) = v mod 256" by (simp add: uint_word_of_int)
  moreover have "v mod (256 * 256 ^ n) = 256 * (v div 256 mod 256 ^ n) + v mod 256"
    by (rule zmod_zmult2_eq) simp
  ultimately show ?case by (simp add: le_store_frame Suc.IH)
qed

lemma le_load_range: "0 \<le> le_load n m a \<and> le_load n m a < 256 ^ n"
proof (induction n arbitrary: a)
  case 0
  then show ?case by simp
next
  case (Suc n)
  have "0 \<le> uint (m a) \<and> uint (m a) < 256" using uint_bounded [of "m a"] by simp
  moreover have "le_load n m (a + 1) \<le> 256 ^ n - 1" "0 \<le> le_load n m (a + 1)"
    using Suc [of "a + 1"] by auto
  ultimately show ?case by (simp add: algebra_simps)
qed

section \<open>The hardware layer\<close>

definition load_byte :: "machine \<Rightarrow> int \<Rightarrow> int" where
  "load_byte s addr = uint (mem s addr)"

definition store_byte :: "machine \<Rightarrow> int \<Rightarrow> int \<Rightarrow> machine" where
  "store_byte s addr value = s\<lparr>mem := (mem s)(addr := word_of_int value)\<rparr>"

definition load_dword :: "machine \<Rightarrow> int \<Rightarrow> int" where
  "load_dword s addr = le_load 4 (mem s) addr"

definition store_dword :: "machine \<Rightarrow> int \<Rightarrow> int \<Rightarrow> machine" where
  "store_dword s addr value = s\<lparr>mem := le_store 4 (mem s) addr value\<rparr>"

definition load_qword :: "machine \<Rightarrow> int \<Rightarrow> int" where
  "load_qword s addr = i64 (le_load 8 (mem s) addr)"

definition put_qword :: "machine \<Rightarrow> int \<Rightarrow> int \<Rightarrow> machine" where
  "put_qword s addr value = s\<lparr>mem := le_store 8 (mem s) addr value\<rparr>"

definition frame_qword :: "machine \<Rightarrow> int \<Rightarrow> int \<Rightarrow> int" where
  "frame_qword s base_ptr slot = load_qword s (base_ptr + slot * 8)"

definition store_qword :: "machine \<Rightarrow> int \<Rightarrow> int \<Rightarrow> int \<Rightarrow> machine" where
  "store_qword s base_ptr slot value = put_qword s (base_ptr + slot * 8) value"

definition read_msr :: "machine \<Rightarrow> int \<Rightarrow> int" where
  "read_msr s r = msr s r"

definition write_msr :: "machine \<Rightarrow> int \<Rightarrow> int \<Rightarrow> machine" where
  "write_msr s r value = s\<lparr>msr := (msr s)(r := value)\<rparr>"

definition outb :: "machine \<Rightarrow> int \<Rightarrow> int \<Rightarrow> machine" where
  "outb s port value = s\<lparr>ports := ports s @ [(port, value)]\<rparr>"

definition set_lapic_eoi_reg :: "machine \<Rightarrow> int \<Rightarrow> machine" where
  "set_lapic_eoi_reg s addr = s\<lparr>lapic_eoi_reg := addr\<rparr>"

definition read_timer_irq_count :: "machine \<Rightarrow> int" where
  "read_timer_irq_count s = timer_irq_count s"

definition clear_timer_irq_count :: "machine \<Rightarrow> machine" where
  "clear_timer_irq_count s = s\<lparr>timer_irq_count := 0\<rparr>"

definition set_active_scheduler :: "machine \<Rightarrow> int \<Rightarrow> machine" where
  "set_active_scheduler s addr = s\<lparr>active_scheduler := addr\<rparr>"

definition get_active_scheduler :: "machine \<Rightarrow> int" where
  "get_active_scheduler s = active_scheduler s"

definition set_tss_rsp0 :: "machine \<Rightarrow> int \<Rightarrow> machine" where
  "set_tss_rsp0 s addr = s\<lparr>tss_rsp0 := addr\<rparr>"

definition read_cr3 :: "machine \<Rightarrow> int" where
  "read_cr3 s = cr3 s"

definition load_cr3 :: "machine \<Rightarrow> int \<Rightarrow> machine" where
  "load_cr3 s root = s\<lparr>cr3 := root\<rparr>"

text \<open>
  \<^verbatim>\<open>context_switch_asm\<close> saves the callee-saved registers in the old context and loads the new one;
  \<^verbatim>\<open>restore_task_context_asm\<close> only loads.  Both then return on the stack they loaded.
\<close>

definition restore_task_context :: "machine \<Rightarrow> int \<Rightarrow> machine" where
  "restore_task_context s ctx_ptr = s\<lparr>regs := map (\<lambda>k. load_qword s (ctx_ptr + k * 8)) [0..6]\<rparr>"

definition context_switch :: "machine \<Rightarrow> int \<Rightarrow> int \<Rightarrow> machine" where
  "context_switch s old_ctx_ptr new_ctx_ptr =
     restore_task_context
       (fold (\<lambda>k s. put_qword s (old_ctx_ptr + int k * 8) (regs s ! k)) [0..<7] s) new_ctx_ptr"

definition task_trampoline_addr :: "machine \<Rightarrow> int" where
  "task_trampoline_addr s = symbol s ''task_trampoline_asm''"

definition user_task_trampoline_addr :: "machine \<Rightarrow> int" where
  "user_task_trampoline_addr s = symbol s ''user_task_trampoline_asm''"

definition interrupt_return_trampoline_addr :: "machine \<Rightarrow> int" where
  "interrupt_return_trampoline_addr s = symbol s ''interrupt_return_trampoline_asm''"

definition user_demo_entry_addr :: "machine \<Rightarrow> int" where
  "user_demo_entry_addr s = symbol s ''user_demo_entry_asm''"

definition user_hello_entry_addr :: "machine \<Rightarrow> int" where
  "user_hello_entry_addr s = symbol s ''user_hello_entry_asm''"

definition read_apic_id :: "machine \<Rightarrow> int" where
  "read_apic_id s = apic_id s"

text \<open>
  \<^verbatim>\<open>seq_alloc_atomic\<close>: a bump allocator over the static heap; sizes are rounded up to 16 and the
  limit test is an unsigned comparison.
\<close>

definition seq_alloc_atomic :: "machine \<Rightarrow> int \<Rightarrow> int \<times> machine" where
  "seq_alloc_atomic s sz =
     (let rax = (if heap_ptr s \<noteq> 0 then heap_ptr s else heap_space s);
          rdx = (rax + ((sz + 15) AND NOT 15)) mod 2 ^ 64
      in if rdx > heap_end s then (0, s) else (rax, s\<lparr>heap_ptr := rdx\<rparr>))"

section \<open>Support routines\<close>

definition align_down :: "int \<Rightarrow> int \<Rightarrow> int" where
  "align_down v align = v AND NOT (align - 1)"

definition align_up :: "int \<Rightarrow> int \<Rightarrow> int" where
  "align_up v align = (v + align - 1) AND NOT (align - 1)"

definition load_qword_region :: "machine \<Rightarrow> int \<Rightarrow> int \<Rightarrow> int \<Rightarrow> int option" where
  "load_qword_region s base_ptr qword_count slot =
     (if base_ptr = 0 then panic ''qword region base is null''
      else if base_ptr AND 0x7 \<noteq> 0 then panic ''qword region base is unaligned''
      else if qword_count \<le> 0 then panic ''qword region is empty''
      else if slot < 0 \<or> slot \<ge> qword_count
        then panic_region_access ''qword slot out of range'' base_ptr slot qword_count
      else Some (frame_qword s base_ptr slot))"

definition store_qword_region :: "machine \<Rightarrow> int \<Rightarrow> int \<Rightarrow> int \<Rightarrow> int \<Rightarrow> machine option" where
  "store_qword_region s base_ptr qword_count slot value =
     (if base_ptr = 0 then panic ''qword region base is null''
      else if base_ptr AND 0x7 \<noteq> 0 then panic ''qword region base is unaligned''
      else if qword_count \<le> 0 then panic ''qword region is empty''
      else if slot < 0 \<or> slot \<ge> qword_count
        then panic_region_access ''qword slot out of range'' base_ptr slot qword_count
      else Some (store_qword s base_ptr slot value))"

definition load_dword_region :: "machine \<Rightarrow> int \<Rightarrow> int \<Rightarrow> int \<Rightarrow> int option" where
  "load_dword_region s base_ptr byte_count offset =
     (if base_ptr = 0 then panic ''dword region base is null''
      else if base_ptr AND 0x3 \<noteq> 0 then panic ''dword region base is unaligned''
      else if byte_count < 4 then panic ''dword region is too small''
      else if offset AND 0x3 \<noteq> 0 then panic ''dword region offset is unaligned''
      else if offset < 0 \<or> offset + 4 > byte_count
        then panic_region_access ''dword offset out of range'' base_ptr offset byte_count
      else Some (load_dword s (base_ptr + offset)))"

definition load_byte_region :: "machine \<Rightarrow> int \<Rightarrow> int \<Rightarrow> int \<Rightarrow> int option" where
  "load_byte_region s base_ptr byte_count offset =
     (if base_ptr = 0 then panic ''byte region base is null''
      else if byte_count \<le> 0 then panic ''byte region is empty''
      else if offset < 0 \<or> offset \<ge> byte_count
        then panic_region_access ''byte offset out of range'' base_ptr offset byte_count
      else Some (load_byte s (base_ptr + offset)))"

definition store_dword_region :: "machine \<Rightarrow> int \<Rightarrow> int \<Rightarrow> int \<Rightarrow> int \<Rightarrow> machine option" where
  "store_dword_region s base_ptr byte_count offset value =
     (if base_ptr = 0 then panic ''dword region base is null''
      else if base_ptr AND 0x3 \<noteq> 0 then panic ''dword region base is unaligned''
      else if byte_count < 4 then panic ''dword region is too small''
      else if offset AND 0x3 \<noteq> 0 then panic ''dword region offset is unaligned''
      else if offset < 0 \<or> offset + 4 > byte_count
        then panic_region_access ''dword offset out of range'' base_ptr offset byte_count
      else Some (store_dword s (base_ptr + offset) value))"

definition store_byte_region :: "machine \<Rightarrow> int \<Rightarrow> int \<Rightarrow> int \<Rightarrow> int \<Rightarrow> machine option" where
  "store_byte_region s base_ptr byte_count offset value =
     (if base_ptr = 0 then panic ''byte region base is null''
      else if byte_count \<le> 0 then panic ''byte region is empty''
      else if offset < 0 \<or> offset \<ge> byte_count
        then panic_region_access ''byte offset out of range'' base_ptr offset byte_count
      else Some (store_byte s (base_ptr + offset) value))"

definition alloc_bytes :: "machine \<Rightarrow> int \<Rightarrow> (int \<times> machine) option" where
  "alloc_bytes s sz =
     (let (addr, s) = seq_alloc_atomic s sz
      in if addr = 0 then panic ''early heap exhausted'' else Some (addr, s))"

section \<open>The memory interface\<close>

text \<open>
  What the kernel's data structures rely on: a quadword store is read back at its own address and
  is not seen at any other quadword.  The lemmas on filled arrays carry every initialisation and
  copy loop of the sources.
\<close>

locale qword_memory =
  fixes load :: "'m \<Rightarrow> int \<Rightarrow> int" and store :: "'m \<Rightarrow> int \<Rightarrow> int \<Rightarrow> 'm"
  assumes load_store_same: "in64 v \<Longrightarrow> load (store m a v) a = v"
    and load_store_other: "a + 8 \<le> b \<or> b + 8 \<le> a \<Longrightarrow> load (store m a v) b = load m b"
    and load_in64: "in64 (load m a)"
begin

lemma fill_total:
  assumes "0 \<le> n"
    and body: "\<And>i m. 0 \<le> i \<Longrightarrow> i < n \<Longrightarrow> Q m \<Longrightarrow> body i m = Some (store m (base + i * 8) (f i))"
    and Q: "Q m" "\<And>i m. 0 \<le> i \<Longrightarrow> i < n \<Longrightarrow> Q m \<Longrightarrow> Q (store m (base + i * 8) (f i))"
    and f: "\<And>i. 0 \<le> i \<Longrightarrow> i < n \<Longrightarrow> in64 (f i)"
  shows "\<exists>m'. for_range 0 n body m = Some m' \<and> Q m'
    \<and> (\<forall>i. 0 \<le> i \<longrightarrow> i < n \<longrightarrow> load m' (base + i * 8) = f i)"
proof -
  have "\<exists>m'. for_range 0 n body m = Some m' \<and> Q m'
    \<and> (\<forall>j. 0 \<le> j \<longrightarrow> j < n \<longrightarrow> load m' (base + j * 8) = f j)"
  proof (rule for_range_total [where P = "\<lambda>i m. Q m
      \<and> (\<forall>j. 0 \<le> j \<longrightarrow> j < i \<longrightarrow> load m (base + j * 8) = f j)"])
    fix i t
    assume i: "0 \<le> i" "i < n"
      and t: "Q t \<and> (\<forall>j. 0 \<le> j \<longrightarrow> j < i \<longrightarrow> load t (base + j * 8) = f j)"
    have "load (store t (base + i * 8) (f i)) (base + j * 8) = f j" if "0 \<le> j" "j < i + 1" for j
      using that t i f load_store_other [of "base + i * 8" "base + j * 8" t "f i"]
      by (cases "j = i") (auto simp: load_store_same)
    then show "\<exists>s'. body i t = Some s' \<and> Q s'
        \<and> (\<forall>j. 0 \<le> j \<longrightarrow> j < i + 1 \<longrightarrow> load s' (base + j * 8) = f j)"
      using body i t Q(2) by auto
  qed (use assms in auto)
  then show ?thesis by blast
qed

end

lemma le_load_256_8: "le_load 8 m a mod 2 ^ 64 = le_load 8 m a"
  using le_load_range [of 8 m a] by simp

lemma load_put_qword: "load_qword (put_qword s a v) a = i64 v"
  using i64_mod [of v] by (simp add: load_qword_def put_qword_def le_load_store)

lemma load_put_qword_other:
  "a + 8 \<le> b \<or> b + 8 \<le> a \<Longrightarrow> load_qword (put_qword s a v) b = load_qword s b"
  unfolding load_qword_def put_qword_def
  by (intro arg_cong [of _ _ i64] le_load_cong) (auto simp: le_store_frame)

interpretation memory: qword_memory load_qword put_qword
  by unfold_locales (auto simp: load_put_qword i64_id load_put_qword_other, simp add: load_qword_def)

section \<open>Region accesses\<close>

text \<open>A pointer the quadword accessors accept.\<close>

definition qword_ptr :: "int \<Rightarrow> bool" where
  "qword_ptr p \<longleftrightarrow> p \<noteq> 0 \<and> p mod 8 = 0"

lemma load_qword_region_eq:
  "load_qword_region s p n k =
     (if qword_ptr p \<and> 0 \<le> k \<and> k < n then Some (load_qword s (p + k * 8)) else None)"
  by (simp add: load_qword_region_def qword_ptr_def mask_simps frame_qword_def)

lemma store_qword_region_eq:
  "store_qword_region s p n k v =
     (if qword_ptr p \<and> 0 \<le> k \<and> k < n then Some (put_qword s (p + k * 8) v) else None)"
  by (simp add: store_qword_region_def qword_ptr_def mask_simps store_qword_def)

lemma load_byte_region_eq:
  "load_byte_region s p n k =
     (if p \<noteq> 0 \<and> 0 \<le> k \<and> k < n then Some (load_byte s (p + k)) else None)"
  by (simp add: load_byte_region_def)

lemma store_byte_region_eq:
  "store_byte_region s p n k v =
     (if p \<noteq> 0 \<and> 0 \<le> k \<and> k < n then Some (store_byte s (p + k) v) else None)"
  by (simp add: store_byte_region_def)

lemmas region_simps = load_qword_region_eq store_qword_region_eq load_byte_region_eq
  store_byte_region_eq

lemma align_down_eq [mask_simps]: "align_down v (2 ^ n) = v - v mod 2 ^ n"
  by (simp add: align_down_def and_not_mask)

lemma align_up_eq [mask_simps]: "align_up v (2 ^ n) = (v + 2 ^ n - 1) - (v + 2 ^ n - 1) mod 2 ^ n"
  by (simp add: align_up_def and_not_mask)

lemma align_down_4096 [mask_simps]: "align_down v 4096 = v - v mod 4096"
  using align_down_eq [of v 12] by simp

lemma align_up_4096 [mask_simps]: "align_up v 4096 = (v + 4095) - (v + 4095) mod 4096"
  using align_up_eq [of v 12] by (simp add: add.commute)

lemma align_down_2M [mask_simps]: "align_down v 2097152 = v - v mod 2097152"
  using align_down_eq [of v 21] by simp

section \<open>Framing\<close>

text \<open>\<open>writes_in A s s'\<close>: from \<open>s\<close> to \<open>s'\<close> nothing changed but bytes at addresses in \<open>A\<close>.\<close>

definition writes_in :: "int set \<Rightarrow> machine \<Rightarrow> machine \<Rightarrow> bool" where
  "writes_in A s s' \<longleftrightarrow> s' = s\<lparr>mem := mem s'\<rparr> \<and> (\<forall>a. a \<notin> A \<longrightarrow> mem s' a = mem s a)"

lemma writes_in_refl [simp, intro]: "writes_in A s s"
  by (simp add: writes_in_def)

lemma writes_in_trans [trans]: "writes_in A s t \<Longrightarrow> writes_in A t u \<Longrightarrow> writes_in A s u"
  unfolding writes_in_def by (metis machine.update_convs(1) machine.select_convs(1) machine.surjective)

lemma writes_in_mono: "writes_in A s t \<Longrightarrow> A \<subseteq> B \<Longrightarrow> writes_in B s t"
  unfolding writes_in_def by blast

lemma writes_in_put [intro]:
  assumes "{a..<a + 8} \<subseteq> A"
  shows "writes_in A s (put_qword s a v)"
proof -
  have "b < a \<or> a + int 8 \<le> b" if "b \<notin> A" for b
  proof -
    have "b \<notin> {a..<a + 8}" using assms that by blast
    then show ?thesis by auto
  qed
  then show ?thesis by (simp add: writes_in_def put_qword_def le_store_frame)
qed

lemma writes_in_byte [intro]: "a \<in> A \<Longrightarrow> writes_in A s (store_byte s a v)"
  by (auto simp: writes_in_def store_byte_def)

lemma writes_in_load:
  assumes "writes_in A s s'" and "{b..<b + 8} \<inter> A = {}"
  shows "load_qword s' b = load_qword s b"
  unfolding load_qword_def
proof (intro arg_cong [of _ _ i64] le_load_cong)
  fix a assume "b \<le> a" "a < b + int 8"
  then have "a \<notin> A" using assms(2) by auto
  then show "mem s' a = mem s a" using assms(1) by (simp add: writes_in_def)
qed

lemma interval_disjoint: "{a..<b} \<inter> A = {} \<Longrightarrow> a \<le> c \<Longrightarrow> d \<le> b \<Longrightarrow> {c..<d} \<inter> A = {}" for a :: int
  using ivl_subset [of c d a b] by blast

lemma writes_in_load_byte: "writes_in A s s' \<Longrightarrow> a \<notin> A \<Longrightarrow> load_byte s' a = load_byte s a"
  by (simp add: load_byte_def writes_in_def)

lemma writes_in_fields:
  assumes "writes_in A s s'"
  shows "heap_space s' = heap_space s" "heap_end s' = heap_end s" "heap_ptr s' = heap_ptr s"
    "cr3 s' = cr3 s" "active_scheduler s' = active_scheduler s" "tss_rsp0 s' = tss_rsp0 s"
    "timer_irq_count s' = timer_irq_count s" "serial_out s' = serial_out s"
  using assms unfolding writes_in_def
  by (metis machine.select_convs machine.surjective machine.update_convs(1))+

section \<open>The early heap\<close>

text \<open>
  With room left, an allocation returns the current end of the heap and moves it by the size
  rounded up to sixteen.
\<close>

definition round16 :: "int \<Rightarrow> int" where
  "round16 sz = sz + 15 - (sz + 15) mod 16"

lemma round16_bounds: "sz \<le> round16 sz" "round16 sz \<le> sz + 15" "round16 sz mod 16 = 0"
  by (simp_all add: round16_def mod_eq_0_iff_dvd)

lemma alloc_bytes_eq:
  assumes "0 < heap_ptr s" "0 \<le> sz" "heap_ptr s + round16 sz \<le> heap_end s" "heap_end s < 2 ^ 62"
  shows "alloc_bytes s sz = Some (heap_ptr s, s\<lparr>heap_ptr := heap_ptr s + round16 sz\<rparr>)"
proof -
  have "(sz + 15) AND NOT 15 = round16 sz"
    using and_not_mask [of "sz + 15" 4] by (simp add: round16_def)
  moreover have "(heap_ptr s + round16 sz) mod 2 ^ 64 = heap_ptr s + round16 sz"
    using assms round16_bounds [of sz] by (intro mod_pos_pos_trivial) auto
  ultimately show ?thesis using assms by (simp add: alloc_bytes_def seq_alloc_atomic_def Let_def)
qed

section \<open>Sample machines\<close>

text \<open>A machine with zeroed memory, and the same with some quadwords filled in.\<close>

definition blank_machine :: machine where
  "blank_machine = \<lparr>mem = (\<lambda>_. 0), heap_space = 0x110000, heap_end = 0x180000, heap_ptr = 0x110000, cr3 = 0,
     tss_rsp0 = 0, idt_register = (0, 0), active_scheduler = 0, timer_irq_count = 0, lapic_eoi_reg = 0, msr = (\<lambda>_. 0), ports = [],
     serial_in = [], serial_out = [], apic_id = 0, cr2 = 0, has_apic = 1, regs = [0, 0, 0, 0, 0, 0, 0],
     symbol = (\<lambda>_. 0x100000)\<rparr>"

definition poke :: "(int \<times> int) list \<Rightarrow> machine \<Rightarrow> machine" where
  "poke xs s = fold (\<lambda>(a, v) s. put_qword s a v) xs s"

lemma poke_simps [simp]: "poke [] s = s" "poke (x # xs) s = poke xs (put_qword s (fst x) (snd x))"
  by (simp_all add: poke_def case_prod_beta)

lemma le_load_zero: "le_load n (\<lambda>_. 0) a = 0"
  by (induction n arbitrary: a) simp_all

lemma load_qword_blank [simp]: "load_qword blank_machine a = 0"
  by (simp add: load_qword_def blank_machine_def le_load_zero i64_id in64_def)

lemma put_qword_fields [simp]:
  "heap_ptr (put_qword s a v) = heap_ptr s" "heap_end (put_qword s a v) = heap_end s"
  "heap_space (put_qword s a v) = heap_space s" "cr3 (put_qword s a v) = cr3 s"
  "serial_out (put_qword s a v) = serial_out s" "active_scheduler (put_qword s a v) = active_scheduler s"
  "timer_irq_count (put_qword s a v) = timer_irq_count s" "tss_rsp0 (put_qword s a v) = tss_rsp0 s"
  by (simp_all add: put_qword_def)

lemmas sample_simps = load_put_qword load_put_qword_other i64_id in64_def qword_ptr_def

end
