(* ===== verification/Console.thy ===== *)
theory Console
  imports Machine
begin

text \<open>
  The serial console, \<^verbatim>\<open>kconsole.py\<close>.  Bytes sent to the UART are collected in
  \<^const>\<open>serial_out\<close>, bytes waiting in its receive buffer are \<^const>\<open>serial_in\<close>.  The number
  printers are shown to be inverted by reading the digits back.
\<close>

section \<open>Output\<close>

definition serial_write_byte :: "machine \<Rightarrow> 8 word \<Rightarrow> machine" where
  "serial_write_byte s ch = s\<lparr>serial_out := serial_out s @ [ch]\<rparr>"

fun print_msg :: "machine \<Rightarrow> string \<Rightarrow> int \<Rightarrow> int \<Rightarrow> int \<Rightarrow> machine" where
  "print_msg s [] line color i = s"
| "print_msg s (c # cs) line color i =
     (if c = CHR 0x00 then s
      else print_msg
        (store_byte (store_byte s (0xB8000 + (line * 80 + i) * 2) (of_char c))
          (0xB8000 + (line * 80 + i) * 2 + 1) color) cs line color (i + 1))"

definition init_console :: "machine \<Rightarrow> machine" where
  "init_console s = s"

definition enable_vga_console :: "machine \<Rightarrow> machine" where
  "enable_vga_console s = s"

definition console_put_byte :: "machine \<Rightarrow> 8 word \<Rightarrow> machine" where
  "console_put_byte s ch =
     (let s = (if ch = 10 then serial_write_byte s 13 else s) in serial_write_byte s ch)"

fun console_write :: "machine \<Rightarrow> string \<Rightarrow> machine" where
  "console_write s [] = s"
| "console_write s (c # cs) =
     (if c = CHR 0x00 then s else console_write (console_put_byte s (of_char c)) cs)"

definition console_write_ptr_len :: "machine \<Rightarrow> int \<Rightarrow> int \<Rightarrow> int \<times> machine" where
  "console_write_ptr_len s ptr len =
     (if ptr = 0 \<or> len \<le> 0 then (0, s)
      else (len, fold (\<lambda>i s. console_put_byte s (word_of_int (load_byte s (ptr + i)))) [0..len - 1] s))"

text \<open>The string printer stops at the first zero byte; \<^const>\<open>None\<close> where there is none.\<close>

partial_function (option) console_write_ptr_from :: "machine \<Rightarrow> int \<Rightarrow> int \<Rightarrow> machine option" where
  "console_write_ptr_from s ptr i =
     (if load_byte s (ptr + i) \<noteq> 0
      then console_write_ptr_from (console_put_byte s (word_of_int (load_byte s (ptr + i)))) ptr (i + 1)
      else Some s)"

definition console_write_ptr :: "machine \<Rightarrow> int \<Rightarrow> machine option" where
  "console_write_ptr s ptr = console_write_ptr_from s ptr 0"

definition console_write_line :: "machine \<Rightarrow> string \<Rightarrow> machine" where
  "console_write_line s msg = console_write (console_write s msg) [CHR 0x0A]"

lemma abs_i64_le: "\<bar>i64 x\<bar> \<le> \<bar>x\<bar>"
proof (cases "in64 x")
  case True
  then show ?thesis by (simp add: i64_id)
next
  case False
  moreover have "\<bar>i64 x\<bar> \<le> 2 ^ 63" using in64_i64 [of x] unfolding in64_def by linarith
  ultimately show ?thesis unfolding in64_def by linarith
qed

function console_write_u64 :: "machine \<Rightarrow> int \<Rightarrow> machine" where
  "console_write_u64 s v =
     (let s = (if v < 0 then console_put_byte s 45 else s);
          v = (if v < 0 then i64 (- v) else v);
          s = (if v \<ge> 10 then console_write_u64 s (v div 10) else s)
      in console_put_byte s (word_of_int (48 + v mod 10)))"
  by pat_completeness auto
termination
proof (relation "measure (\<lambda>(s, v). nat \<bar>v\<bar>)", goal_cases)
  case 1
  show ?case by simp
next
  case (2 s v t w)
  have "\<bar>w\<bar> \<le> \<bar>v\<bar>" using 2 abs_i64_le [of "- v"] by (auto split: if_splits)
  then show ?case using 2 by auto
qed

declare console_write_u64.simps [simp del]

function console_hex_loop :: "machine \<Rightarrow> int \<Rightarrow> int \<Rightarrow> machine" where
  "console_hex_loop s v shift =
     (if shift \<ge> 0 then
        let nibble = drop_bit (nat shift) v AND 0xF;
            s = (if nibble < 10 then console_put_byte s (word_of_int (48 + nibble))
                 else console_put_byte s (word_of_int (55 + nibble)))
        in console_hex_loop s v (shift - 4)
      else s)"
  by pat_completeness auto
termination
  by (relation "measure (\<lambda>(s, v, shift). nat (shift + 4))") auto

declare console_hex_loop.simps [simp del]

definition console_write_hex :: "machine \<Rightarrow> int \<Rightarrow> machine" where
  "console_write_hex s v = console_hex_loop (console_put_byte (console_put_byte s 48) 120) v 60"

definition console_write_label_hex :: "machine \<Rightarrow> string \<Rightarrow> int \<Rightarrow> machine" where
  "console_write_label_hex s label v =
     console_write (console_write_hex (console_write s label) v) [CHR 0x0A]"

definition console_write_label_u64 :: "machine \<Rightarrow> string \<Rightarrow> int \<Rightarrow> machine" where
  "console_write_label_u64 s label v =
     console_write (console_write_u64 (console_write s label) v) [CHR 0x0A]"

definition console_write_register :: "machine \<Rightarrow> string \<Rightarrow> int \<Rightarrow> machine" where
  "console_write_register s name v =
     console_write (console_write_hex (console_write (console_write s name) ''='') v) [CHR 0x0A]"

section \<open>Input\<close>

definition console_input_ready :: "machine \<Rightarrow> bool" where
  "console_input_ready s \<longleftrightarrow> serial_in s \<noteq> []"

definition console_read_byte :: "machine \<Rightarrow> int \<times> machine" where
  "console_read_byte s = (uint (hd (serial_in s)), s\<lparr>serial_in := tl (serial_in s)\<rparr>)"

function console_read_loop :: "machine \<Rightarrow> int \<Rightarrow> int \<Rightarrow> int \<Rightarrow> int \<times> machine" where
  "console_read_loop s ptr len count =
     (if count < len \<and> console_input_ready s then
        let (ch, s) = console_read_byte s;
            ch = (if ch = 13 then 10 else ch)
        in console_read_loop (store_byte s (ptr + count) ch) ptr len (count + 1)
      else (count, s))"
  by pat_completeness auto
termination
  by (relation "measure (\<lambda>(s, ptr, len, count). nat (len - count))") auto

declare console_read_loop.simps [simp del]

definition console_read_ptr_len :: "machine \<Rightarrow> int \<Rightarrow> int \<Rightarrow> int \<times> machine" where
  "console_read_ptr_len s ptr len =
     (if ptr = 0 \<or> len \<le> 0 then (0, s) else console_read_loop s ptr len 0)"

section \<open>Numbers read back\<close>

definition digit_value :: "8 word \<Rightarrow> int" where
  "digit_value d = (if uint d < 58 then uint d - 48 else uint d - 55)"

definition read_digits :: "int \<Rightarrow> 8 word list \<Rightarrow> int" where
  "read_digits radix ds = foldl (\<lambda>acc d. acc * radix + digit_value d) 0 ds"

lemma read_digits_snoc: "read_digits r (ds @ [d]) = read_digits r ds * r + digit_value d"
  by (simp add: read_digits_def)

lemma uint_byte: "0 \<le> c \<Longrightarrow> c < 256 \<Longrightarrow> uint (word_of_int c :: 8 word) = c"
  by (subst uint_word_of_int) simp

lemma put_printable:
  assumes "0 \<le> c" "c < 256" "c \<noteq> 10"
  shows "serial_out (console_put_byte s (word_of_int c)) = serial_out s @ [word_of_int c]"
proof -
  have "word_of_int c \<noteq> (10 :: 8 word)" using uint_byte [OF assms(1,2)] assms(3) by auto
  then show ?thesis by (simp add: console_put_byte_def serial_write_byte_def)
qed

lemma put_decimal:
  assumes "0 \<le> d" "d < 10"
  shows "serial_out (console_put_byte s (word_of_int (48 + d))) = serial_out s @ [word_of_int (48 + d)]"
    and "digit_value (word_of_int (48 + d)) = d"
  using assms put_printable [of "48 + d" s] uint_byte [of "48 + d"]
  by (simp_all add: digit_value_def)

lemma put_hexadecimal:
  assumes "0 \<le> d" "d < 16"
  defines "c \<equiv> (if d < 10 then 48 + d else 55 + d)"
  shows "serial_out (console_put_byte s (word_of_int c)) = serial_out s @ [word_of_int c]"
    and "digit_value (word_of_int c) = d"
  using assms put_printable [of c s] uint_byte [of c]
  by (simp_all add: digit_value_def c_def)

text \<open>The decimal printer is inverted by reading the digits.\<close>

lemma console_write_u64_digits:
  assumes "0 \<le> v"
  shows "\<exists>ds. serial_out (console_write_u64 s v) = serial_out s @ ds \<and> read_digits 10 ds = v
    \<and> ds \<noteq> [] \<and> (1 \<le> v \<longrightarrow> digit_value (hd ds) \<noteq> 0)"
  using assms
proof (induction "nat v" arbitrary: s v rule: less_induct)
  case less
  note step = console_write_u64.simps [of s v]
  have last: "digit_value (word_of_int (48 + v mod 10)) = v mod 10" by (rule put_decimal) simp_all
  show ?case
  proof (cases "v \<ge> 10")
    case True
    have "nat (v div 10) < nat v" "0 \<le> v div 10" using True by auto
    from less.hyps [OF this] obtain ds where
      ds: "serial_out (console_write_u64 s (v div 10)) = serial_out s @ ds"
        "read_digits 10 ds = v div 10" "ds \<noteq> []" "1 \<le> v div 10 \<longrightarrow> digit_value (hd ds) \<noteq> 0"
      by blast
    have "serial_out (console_write_u64 s v) = serial_out s @ ds @ [word_of_int (48 + v mod 10)]"
      using True ds(1) put_decimal(1) [of "v mod 10" "console_write_u64 s (v div 10)"]
      by (simp add: step)
    moreover have "read_digits 10 (ds @ [word_of_int (48 + v mod 10)]) = v"
      using ds(2) last by (simp add: read_digits_snoc)
    ultimately show ?thesis
      using ds(3,4) True by (intro exI [of _ "ds @ [word_of_int (48 + v mod 10)]"]) auto
  next
    case False
    then show ?thesis using less.prems put_decimal(1) [of "v mod 10" s] last
      by (simp add: step read_digits_def)
  qed
qed

text \<open>A negative number is printed as a sign and its magnitude.\<close>

lemma console_write_u64_signed:
  assumes "- (2 ^ 63) < v"
  shows "\<exists>ds. serial_out (console_write_u64 s v) = serial_out s @ (if v < 0 then [45] else []) @ ds \<and> read_digits 10 ds = \<bar>v\<bar>
    \<and> ds \<noteq> [] \<and> (v \<noteq> 0 \<longrightarrow> digit_value (hd ds) \<noteq> 0)"
proof (cases "v < 0")
  case True
  let ?u = "console_put_byte s 45"
  have "i64 (- v) = - v" using assms True by (intro i64_id in64I) auto
  then have "console_write_u64 s v = console_write_u64 ?u (- v)"
    using True by (simp add: console_write_u64.simps [of s v] console_write_u64.simps [of ?u "- v"])
  moreover have "serial_out ?u = serial_out s @ [45]" using put_printable [of 45 s] by simp
  ultimately show ?thesis using console_write_u64_digits [of "- v" ?u] True by auto
next
  case False
  then show ?thesis using console_write_u64_digits [of v s] by auto
qed

lemma read_digits_Cons:
  "read_digits r (d # ds) = digit_value d * r ^ length ds + read_digits r ds"
proof (induction ds rule: rev_induct)
  case Nil
  then show ?case by (simp add: read_digits_def)
next
  case (snoc x xs)
  then show ?case
    using read_digits_snoc [of r "d # xs" x] read_digits_snoc [of r xs x]
    by (simp add: algebra_simps)
qed

lemma console_hex_loop_digits:
  "\<exists>ds. serial_out (console_hex_loop s v (4 * int k - 4)) = serial_out s @ ds
     \<and> length ds = k \<and> read_digits 16 ds = v mod 16 ^ k"
proof (induction k arbitrary: s)
  case 0
  then show ?case by (simp add: console_hex_loop.simps read_digits_def)
next
  case (Suc k)
  define d where "d = v div 16 ^ k mod 16"
  define c where "c = (if d < 10 then 48 + d else 55 + d)"
  have d: "0 \<le> d" "d < 16" by (simp_all add: d_def)
  have nibble: "drop_bit (nat (4 * int k)) v AND 15 = d"
  proof -
    have "nat (4 * int k) = 4 * k" by simp
    moreover have "drop_bit (4 * k) v = v div 16 ^ k"
      by (simp add: drop_bit_eq_div power_mult)
    ultimately show ?thesis using and_mask_mod [of _ 4] by (simp add: d_def)
  qed
  have step: "console_hex_loop s v (4 * int (Suc k) - 4) =
    console_hex_loop (console_put_byte s (word_of_int c)) v (4 * int k - 4)"
    using nibble by (simp add: console_hex_loop.simps [of s v "4 * int k"] Let_def c_def)
  from Suc obtain ds where ds:
    "serial_out (console_hex_loop (console_put_byte s (word_of_int c)) v (4 * int k - 4)) =
       serial_out (console_put_byte s (word_of_int c)) @ ds"
    "length ds = k" "read_digits 16 ds = v mod 16 ^ k" by blast
  have "v mod 16 ^ Suc k = 16 ^ k * d + v mod 16 ^ k"
    using zmod_zmult2_eq [of 16 v "16 ^ k"] by (simp add: d_def mult.commute)
  then have "read_digits 16 (word_of_int c # ds) = v mod 16 ^ Suc k"
    using ds(2,3) put_hexadecimal(2) [OF d] by (simp add: read_digits_Cons c_def)
  then show ?case
    using ds put_hexadecimal(1) [OF d, of s] step unfolding c_def [symmetric]
    by (intro exI [of _ "word_of_int c # ds"]) simp
qed

section \<open>Printing changes the transcript only\<close>

definition prints :: "machine \<Rightarrow> machine \<Rightarrow> bool" where
  "prints s s' \<longleftrightarrow> (\<exists>bs. s' = s\<lparr>serial_out := serial_out s @ bs\<rparr>)"

lemma prints_refl [simp, intro]: "prints s s"
  by (auto simp: prints_def intro: exI [of _ "[]"])

lemma prints_trans [trans]: "prints s t \<Longrightarrow> prints t u \<Longrightarrow> prints s u"
  by (auto simp: prints_def)

lemma prints_put_byte [intro]: "prints s t \<Longrightarrow> prints s (console_put_byte t c)"
  by (auto simp: prints_def console_put_byte_def serial_write_byte_def)

lemma prints_write [intro]: "prints s t \<Longrightarrow> prints s (console_write t msg)"
  by (induction t msg rule: console_write.induct) auto

lemma prints_write_u64 [intro]: "prints s t \<Longrightarrow> prints s (console_write_u64 t v)"
proof (induction t v rule: console_write_u64.induct)
  case (1 t v)
  have start: "prints s (if v < 0 then console_put_byte t 45 else t)" using "1.prems" by auto
  show ?case using start "1.IH" [OF refl refl]
    unfolding console_write_u64.simps [of t v] Let_def by auto
qed

lemma prints_hex_loop [intro]: "prints s t \<Longrightarrow> prints s (console_hex_loop t v k)"
proof (induction t v k rule: console_hex_loop.induct)
  case (1 t v k)
  show ?case using "1.prems" "1.IH" [OF _ refl refl] prints_put_byte [OF "1.prems"]
    unfolding console_hex_loop.simps [of t v k] Let_def by simp
qed

lemma prints_write_hex [intro]: "prints s t \<Longrightarrow> prints s (console_write_hex t v)"
  unfolding console_write_hex_def by blast

lemma prints_lines [intro]:
  "prints s t \<Longrightarrow> prints s (console_write_line t msg)"
  "prints s t \<Longrightarrow> prints s (console_write_label_hex t msg v)"
  "prints s t \<Longrightarrow> prints s (console_write_label_u64 t msg v)"
  "prints s t \<Longrightarrow> prints s (console_write_register t msg v)"
  unfolding console_write_line_def console_write_label_hex_def console_write_label_u64_def
    console_write_register_def
  by blast+

lemma prints_mem: "prints s s' \<Longrightarrow> mem s' = mem s"
  by (auto simp: prints_def)

lemma prints_load: "prints s s' \<Longrightarrow> load_qword s' a = load_qword s a"
  by (simp add: load_qword_def prints_mem)

end
