(* ===== verification/Boot.thy ===== *)
theory Boot
  imports Console
begin

text \<open>
  The boot information block handed over by the loader and its dump, \<^verbatim>\<open>kboot.py\<close>.
\<close>

definition boot_info_qword :: "machine \<Rightarrow> int \<Rightarrow> int \<Rightarrow> int option" where
  "boot_info_qword s boot_info_ptr slot = load_qword_region s boot_info_ptr 23 slot"

definition boot_memory_map_qword :: "machine \<Rightarrow> int \<Rightarrow> int \<Rightarrow> int option" where
  "boot_memory_map_qword s entry_ptr slot = load_qword_region s entry_ptr 4 slot"

definition dump_boot_memory_map :: "machine \<Rightarrow> int \<Rightarrow> machine option" where
  "dump_boot_memory_map s boot_info_ptr = do {
     mmap_ptr \<leftarrow> boot_info_qword s boot_info_ptr 3;
     mmap_count \<leftarrow> boot_info_qword s boot_info_ptr 4;
     let s = console_write_label_hex s ''boot.mmap.ptr='' mmap_ptr;
     let s = console_write_label_u64 s ''boot.mmap.count='' mmap_count;
     if mmap_ptr = 0 \<or> mmap_count = 0 then Some (console_write_line s ''boot memory map unavailable'')
     else for_range 0 (min mmap_count 12) (\<lambda>entry_index s. do {
       let entry = mmap_ptr + entry_index * 32;
       let s = console_write_u64 (console_write s ''mmap['') entry_index;
       q0 \<leftarrow> boot_memory_map_qword s entry 0;
       let s = console_write_hex (console_write s ''] base='') q0;
       q1 \<leftarrow> boot_memory_map_qword s entry 1;
       let s = console_write_hex (console_write s '' len='') q1;
       q2 \<leftarrow> boot_memory_map_qword s entry 2;
       let s = console_write_u64 (console_write s '' type='') q2;
       q3 \<leftarrow> boot_memory_map_qword s entry 3;
       let s = console_write_hex (console_write s '' attrs='') q3;
       Some (console_write s [CHR 0x0A]) }) s }"

definition dump_boot_info :: "machine \<Rightarrow> int \<Rightarrow> machine option" where
  "dump_boot_info s boot_info_ptr = do {
     magic \<leftarrow> boot_info_qword s boot_info_ptr 0;
     version \<leftarrow> boot_info_qword s boot_info_ptr 1;
     boot_method \<leftarrow> boot_info_qword s boot_info_ptr 2;
     let s = console_write_label_hex s ''boot.info.ptr='' boot_info_ptr;
     let s = console_write_label_hex s ''boot.info.magic='' magic;
     let s = console_write_label_u64 s ''boot.info.version='' version;
     if magic \<noteq> 0x50434F424F4F5431 then panic ''boot info magic mismatch'' else do {
     let s = console_write s ''boot.method='';
     let s = (if boot_method = 1 then console_write_line s ''multiboot-fallback''
              else if boot_method = 2 then console_write_line s ''uefi-loader''
              else console_write (console_write_u64 (console_write s ''unknown '') boot_method) [CHR 0x0A]);
     q13 \<leftarrow> boot_info_qword s boot_info_ptr 13;
     let s = console_write_label_hex s ''boot.kernel.phys.start='' q13;
     q14 \<leftarrow> boot_info_qword s boot_info_ptr 14;
     let s = console_write_label_hex s ''boot.kernel.phys.end='' q14;
     q15 \<leftarrow> boot_info_qword s boot_info_ptr 15;
     let s = console_write_label_hex s ''boot.kernel.virt.start='' q15;
     q16 \<leftarrow> boot_info_qword s boot_info_ptr 16;
     let s = console_write_label_hex s ''boot.kernel.virt.end='' q16;
     q18 \<leftarrow> boot_info_qword s boot_info_ptr 18;
     let s = console_write_label_u64 s ''boot.cpu.count_hint='' q18;
     let s = console_write_label_u64 s ''boot.cpu.current_apic='' (read_apic_id s);
     q19 \<leftarrow> boot_info_qword s boot_info_ptr 19;
     let s = console_write_label_hex s ''boot.raw.ptr='' q19;
     q20 \<leftarrow> boot_info_qword s boot_info_ptr 20;
     let s = console_write_label_hex s ''boot.raw.magic='' q20;
     q21 \<leftarrow> boot_info_qword s boot_info_ptr 21;
     let s = console_write_label_hex s ''boot.initramfs.ptr='' q21;
     q22 \<leftarrow> boot_info_qword s boot_info_ptr 22;
     let s = console_write_label_u64 s ''boot.initramfs.size='' q22;
     dump_boot_memory_map s boot_info_ptr } }"

end
