(* ===== verification/Pmm.thy ===== *)
theory Pmm
  imports Boot
begin

text \<open>
  The physical page allocator of \<^verbatim>\<open>kmemory.py\<close> (lines 18 to 223): a state block of seven
  quadwords, a table of at most 64 regions and a stack of at most 2048 recycled pages, all in kernel
  memory.  The operations are translated over the machine's memory; \<open>pmm_view\<close> reads the state block
  back as a record, and the operations are shown to implement a set of free pages.
\<close>

section \<open>Operations\<close>

definition pmm_state_qword :: "machine \<Rightarrow> int \<Rightarrow> int \<Rightarrow> int option" where
  "pmm_state_qword s state_ptr slot = load_qword_region s state_ptr 7 slot"

definition set_pmm_state_qword :: "machine \<Rightarrow> int \<Rightarrow> int \<Rightarrow> int \<Rightarrow> machine option" where
  "set_pmm_state_qword s state_ptr slot v = store_qword_region s state_ptr 7 slot v"

definition pmm_region_entry_ptr :: "int \<Rightarrow> int \<Rightarrow> int option" where
  "pmm_region_entry_ptr region_table_ptr index =
     (if index < 0 \<or> index \<ge> 64 then panic ''pmm region index out of range''
      else Some (region_table_ptr + index * 16))"

definition pmm_region_start :: "machine \<Rightarrow> int \<Rightarrow> int \<Rightarrow> int option" where
  "pmm_region_start s region_table_ptr index = do {
     entry_ptr \<leftarrow> pmm_region_entry_ptr region_table_ptr index;
     load_qword_region s entry_ptr 2 0 }"

definition pmm_region_end :: "machine \<Rightarrow> int \<Rightarrow> int \<Rightarrow> int option" where
  "pmm_region_end s region_table_ptr index = do {
     entry_ptr \<leftarrow> pmm_region_entry_ptr region_table_ptr index;
     load_qword_region s entry_ptr 2 1 }"

definition set_pmm_region :: "machine \<Rightarrow> int \<Rightarrow> int \<Rightarrow> int \<Rightarrow> int \<Rightarrow> machine option" where
  "set_pmm_region s region_table_ptr index start end' = do {
     entry_ptr \<leftarrow> pmm_region_entry_ptr region_table_ptr index;
     s \<leftarrow> store_qword_region s entry_ptr 2 0 start;
     store_qword_region s entry_ptr 2 1 end' }"

definition pmm_stack_push :: "machine \<Rightarrow> int \<Rightarrow> int \<Rightarrow> int \<Rightarrow> machine option" where
  "pmm_stack_push s stack_ptr index v = store_qword_region s stack_ptr 2048 index v"

definition pmm_stack_pop :: "machine \<Rightarrow> int \<Rightarrow> int \<Rightarrow> int option" where
  "pmm_stack_pop s stack_ptr index = load_qword_region s stack_ptr 2048 index"

definition pmm_add_region :: "machine \<Rightarrow> int \<Rightarrow> int \<Rightarrow> int \<Rightarrow> machine option" where
  "pmm_add_region s state_ptr start end' =
     (if start \<ge> end' then Some s else
      let pages = drop_bit 12 (end' - start)
      in if pages = 0 then Some s else do {
        region_count \<leftarrow> pmm_state_qword s state_ptr 1;
        if region_count \<ge> 64 then panic ''pmm region table full'' else do {
        region_table_ptr \<leftarrow> pmm_state_qword s state_ptr 0;
        s \<leftarrow> set_pmm_region s region_table_ptr region_count start end';
        s \<leftarrow> set_pmm_state_qword s state_ptr 1 (region_count + 1);
        total \<leftarrow> pmm_state_qword s state_ptr 5;
        s \<leftarrow> set_pmm_state_qword s state_ptr 5 (total + pages);
        free \<leftarrow> pmm_state_qword s state_ptr 6;
        set_pmm_state_qword s state_ptr 6 (free + pages) } })"

definition init_pmm_entry :: "int \<Rightarrow> int \<Rightarrow> int \<Rightarrow> int \<Rightarrow> int \<Rightarrow> machine \<Rightarrow> machine option" where
  "init_pmm_entry state_ptr mmap_ptr kernel_start kernel_end entry_index s = do {
     let entry = mmap_ptr + entry_index * 32;
     base \<leftarrow> load_qword_region s entry 4 0;
     length \<leftarrow> load_qword_region s entry 4 1;
     entry_type \<leftarrow> load_qword_region s entry 4 2;
     if entry_type = 7 \<and> length \<noteq> 0 then do {
       let start = align_up base 4096;
       let end' = align_down (i64 (base + length)) 4096;
       if end' > 0x100000 then do {
         let start = (if start < 0x100000 then 0x100000 else start);
         (start, s) \<leftarrow>
           (if start < kernel_start \<and> end' > kernel_start then do {
              s \<leftarrow> pmm_add_region s state_ptr start kernel_start;
              Some (kernel_end, s) }
            else if start \<ge> kernel_start \<and> start < kernel_end then Some (kernel_end, s)
            else Some (start, s));
         if start < end' then pmm_add_region s state_ptr start end' else Some s }
       else Some s }
     else Some s }"

definition init_pmm :: "machine \<Rightarrow> int \<Rightarrow> (int \<times> machine) option" where
  "init_pmm s boot_info_ptr = do {
     mmap_ptr \<leftarrow> boot_info_qword s boot_info_ptr 3;
     mmap_count \<leftarrow> boot_info_qword s boot_info_ptr 4;
     k13 \<leftarrow> boot_info_qword s boot_info_ptr 13;
     let kernel_start = align_down k13 4096;
     k14 \<leftarrow> boot_info_qword s boot_info_ptr 14;
     let kernel_end = align_up k14 4096;
     (state_ptr, s) \<leftarrow> alloc_bytes s (7 * 8);
     (region_table_ptr, s) \<leftarrow> alloc_bytes s (64 * 16);
     (recycle_stack_ptr, s) \<leftarrow> alloc_bytes s (2048 * 8);
     if mmap_ptr = 0 \<or> mmap_count = 0 then panic ''pmm requires a boot memory map'' else do {
     s \<leftarrow> set_pmm_state_qword s state_ptr 0 region_table_ptr;
     s \<leftarrow> set_pmm_state_qword s state_ptr 1 0;
     s \<leftarrow> set_pmm_state_qword s state_ptr 2 0;
     s \<leftarrow> set_pmm_state_qword s state_ptr 3 recycle_stack_ptr;
     s \<leftarrow> set_pmm_state_qword s state_ptr 4 0;
     s \<leftarrow> set_pmm_state_qword s state_ptr 5 0;
     s \<leftarrow> set_pmm_state_qword s state_ptr 6 0;
     s \<leftarrow> for_range 0 mmap_count (init_pmm_entry state_ptr mmap_ptr kernel_start kernel_end) s;
     region_count \<leftarrow> pmm_state_qword s state_ptr 1;
     if region_count = 0 then panic ''pmm found no usable regions'' else Some (state_ptr, s) } }"

function pmm_alloc_scan :: "int \<Rightarrow> int \<Rightarrow> int \<Rightarrow> int \<Rightarrow> int \<Rightarrow> machine \<Rightarrow> (int \<times> machine) option" where
  "pmm_alloc_scan state_ptr region_table_ptr region_count free_pages region_index s =
     (if region_index < region_count then do {
        start \<leftarrow> pmm_region_start s region_table_ptr region_index;
        end' \<leftarrow> pmm_region_end s region_table_ptr region_index;
        if start + 4096 \<le> end' then do {
          let next_page = start + 4096;
          s \<leftarrow> set_pmm_region s region_table_ptr region_index next_page end';
          s \<leftarrow> (if next_page \<ge> end' then set_pmm_state_qword s state_ptr 2 (region_index + 1)
               else Some s);
          s \<leftarrow> set_pmm_state_qword s state_ptr 6 (free_pages - 1);
          Some (start, s) }
        else do {
          s \<leftarrow> set_pmm_state_qword s state_ptr 2 (region_index + 1);
          pmm_alloc_scan state_ptr region_table_ptr region_count free_pages (region_index + 1) s } }
      else Some (0, s))"
  by pat_completeness auto
termination
  by (relation "measure (\<lambda>(p, t, n, f, i, s). nat (n - i))") auto

declare pmm_alloc_scan.simps [simp del]

definition pmm_alloc_page :: "machine \<Rightarrow> int \<Rightarrow> (int \<times> machine) option" where
  "pmm_alloc_page s state_ptr = do {
     free_pages \<leftarrow> pmm_state_qword s state_ptr 6;
     if free_pages = 0 then Some (0, s) else do {
     recycle_count \<leftarrow> pmm_state_qword s state_ptr 4;
     if recycle_count \<noteq> 0 then do {
       let recycle_count = recycle_count - 1;
       stack_ptr \<leftarrow> pmm_state_qword s state_ptr 3;
       page \<leftarrow> pmm_stack_pop s stack_ptr recycle_count;
       s \<leftarrow> set_pmm_state_qword s state_ptr 4 recycle_count;
       s \<leftarrow> set_pmm_state_qword s state_ptr 6 (free_pages - 1);
       Some (page, s) }
     else do {
       region_index \<leftarrow> pmm_state_qword s state_ptr 2;
       region_count \<leftarrow> pmm_state_qword s state_ptr 1;
       region_table_ptr \<leftarrow> pmm_state_qword s state_ptr 0;
       pmm_alloc_scan state_ptr region_table_ptr region_count free_pages region_index s } } }"

definition pmm_free_page :: "machine \<Rightarrow> int \<Rightarrow> int \<Rightarrow> machine option" where
  "pmm_free_page s state_ptr page =
     (if page = 0 then panic ''cannot free null page''
      else if page AND 0xFFF \<noteq> 0 then panic ''cannot free unaligned page''
      else do {
        recycle_count \<leftarrow> pmm_state_qword s state_ptr 4;
        if recycle_count \<ge> 2048 then panic ''pmm recycle stack full'' else do {
        stack_ptr \<leftarrow> pmm_state_qword s state_ptr 3;
        s \<leftarrow> pmm_stack_push s stack_ptr recycle_count page;
        s \<leftarrow> set_pmm_state_qword s state_ptr 4 (recycle_count + 1);
        free \<leftarrow> pmm_state_qword s state_ptr 6;
        set_pmm_state_qword s state_ptr 6 (free + 1) } })"

definition dump_pmm_summary :: "machine \<Rightarrow> int \<Rightarrow> machine option" where
  "dump_pmm_summary s state_ptr = do {
     q1 \<leftarrow> pmm_state_qword s state_ptr 1;
     let s = console_write_label_u64 s ''pmm.regions='' q1;
     q5 \<leftarrow> pmm_state_qword s state_ptr 5;
     let s = console_write_label_u64 s ''pmm.total_pages='' q5;
     q6 \<leftarrow> pmm_state_qword s state_ptr 6;
     let s = console_write_label_u64 s ''pmm.free_pages='' q6;
     region_table_ptr \<leftarrow> pmm_state_qword s state_ptr 0;
     region_count \<leftarrow> pmm_state_qword s state_ptr 1;
     for_range 0 (min region_count 8) (\<lambda>region_index s. do {
       let s = console_write_u64 (console_write s ''pmm.region['') region_index;
       let s = console_write s ''] start='';
       start \<leftarrow> pmm_region_start s region_table_ptr region_index;
       let s = console_write (console_write_hex s start) '' end='';
       end' \<leftarrow> pmm_region_end s region_table_ptr region_index;
       Some (console_write (console_write_hex s end') [CHR 0x0A]) }) s }"

definition pmm_self_test :: "machine \<Rightarrow> int \<Rightarrow> machine option" where
  "pmm_self_test s state_ptr = do {
     free_before \<leftarrow> pmm_state_qword s state_ptr 6;
     (page0, s) \<leftarrow> pmm_alloc_page s state_ptr;
     (page1, s) \<leftarrow> pmm_alloc_page s state_ptr;
     (page2, s) \<leftarrow> pmm_alloc_page s state_ptr;
     if page0 = 0 \<or> page1 = 0 \<or> page2 = 0 then panic ''pmm alloc failed''
     else if page0 = page1 \<or> page0 = page2 \<or> page1 = page2 then panic ''pmm returned duplicate pages''
     else if page0 AND 0xFFF \<noteq> 0 \<or> page1 AND 0xFFF \<noteq> 0 \<or> page2 AND 0xFFF \<noteq> 0
       then panic ''pmm returned unaligned page''
     else do {
     let s = console_write_label_hex s ''pmm.test.page0='' page0;
     let s = console_write_label_hex s ''pmm.test.page1='' page1;
     let s = console_write_label_hex s ''pmm.test.page2='' page2;
     s \<leftarrow> pmm_free_page s state_ptr page2;
     s \<leftarrow> pmm_free_page s state_ptr page1;
     s \<leftarrow> pmm_free_page s state_ptr page0;
     free_after \<leftarrow> pmm_state_qword s state_ptr 6;
     if free_after \<noteq> free_before then panic ''pmm free count mismatch''
     else Some (console_write_line s ''pmm self-test ok'') } }"

section \<open>The state block read back\<close>

record pmm =
  regions :: "(int \<times> int) list"
  region_index :: nat
  recycled :: "int list"
  total_pages :: int
  free_pages :: int

definition pmm_view :: "machine \<Rightarrow> int \<Rightarrow> pmm" where
  "pmm_view s p =
     \<lparr>regions = map (\<lambda>i. (load_qword s (load_qword s p + int i * 16),
                        load_qword s (load_qword s p + int i * 16 + 8)))
                   [0..<nat (load_qword s (p + 8))],
      region_index = nat (load_qword s (p + 16)),
      recycled = map (\<lambda>i. load_qword s (load_qword s (p + 24) + int i * 8))
                   [0..<nat (load_qword s (p + 32))],
      total_pages = load_qword s (p + 40),
      free_pages = load_qword s (p + 48)\<rparr>"

text \<open>
  The blocks lie in the order \<open>init_pmm\<close> allocates them, without overlap, and the counters are
  in range.
\<close>

definition pmm_layout :: "machine \<Rightarrow> int \<Rightarrow> bool" where
  "pmm_layout s p \<longleftrightarrow> 0 < p \<and> qword_ptr p \<and> qword_ptr (load_qword s p) \<and> qword_ptr (load_qword s (p + 24))
     \<and> p + 56 \<le> load_qword s p \<and> load_qword s p + 1024 \<le> load_qword s (p + 24)
     \<and> 0 \<le> load_qword s (p + 8) \<and> load_qword s (p + 8) \<le> 64
     \<and> 0 \<le> load_qword s (p + 16) \<and> load_qword s (p + 16) \<le> 64
     \<and> 0 \<le> load_qword s (p + 32) \<and> load_qword s (p + 32) \<le> 2048"

definition pmm_area :: "machine \<Rightarrow> int \<Rightarrow> int set" where
  "pmm_area s p = {p..<p + 56} \<union> {load_qword s p..<load_qword s p + 1024}
     \<union> {load_qword s (p + 24)..<load_qword s (p + 24) + 16384}"

lemma qword_ptr_shift [simp]: "qword_ptr t \<Longrightarrow> 0 \<le> i \<Longrightarrow> 0 < t \<Longrightarrow> qword_ptr (t + i * 16)"
  by (simp add: qword_ptr_def) presburger

lemma pmm_put_slot:
  assumes L: "pmm_layout s p" and v: "in64 v"
  shows "0 \<le> v \<Longrightarrow> v \<le> 64 \<Longrightarrow> pmm_layout (put_qword s (p + 16) v) p
      \<and> pmm_view (put_qword s (p + 16) v) p = (pmm_view s p)\<lparr>region_index := nat v\<rparr>"
    and "pmm_layout (put_qword s (p + 40) v) p
      \<and> pmm_view (put_qword s (p + 40) v) p = (pmm_view s p)\<lparr>total_pages := v\<rparr>"
    and "pmm_layout (put_qword s (p + 48) v) p
      \<and> pmm_view (put_qword s (p + 48) v) p = (pmm_view s p)\<lparr>free_pages := v\<rparr>"
  using L v unfolding pmm_layout_def pmm_view_def
  by (auto simp: load_put_qword i64_id load_put_qword_other)

lemma pmm_pop:
  assumes L: "pmm_layout s p" and c: "load_qword s (p + 32) \<noteq> 0"
  defines "c \<equiv> load_qword s (p + 32)" and "s' \<equiv> put_qword s (p + 32) (load_qword s (p + 32) - 1)"
  shows "pmm_layout s' p" "recycled (pmm_view s p) \<noteq> []"
    and "pmm_view s' p = (pmm_view s p)\<lparr>recycled := butlast (recycled (pmm_view s p))\<rparr>"
    and "load_qword s (load_qword s (p + 24) + (c - 1) * 8) = last (recycled (pmm_view s p))"
proof -
  have c64: "in64 (c - 1)" "0 < c" using L c unfolding pmm_layout_def in64_def c_def by auto
  then have suc: "nat c = Suc (nat (c - 1))" by auto
  have new: "load_qword s' (p + 32) = c - 1"
    using c64 by (simp add: s'_def c_def load_put_qword i64_id)
  show "pmm_layout s' p" using L c64 unfolding pmm_layout_def s'_def c_def
    by (simp add: load_put_qword i64_id load_put_qword_other)
  show "recycled (pmm_view s p) \<noteq> []" using suc by (simp add: pmm_view_def c_def)
  show "pmm_view s' p = (pmm_view s p)\<lparr>recycled := butlast (recycled (pmm_view s p))\<rparr>"
    using L new suc unfolding pmm_layout_def
    by (simp add: pmm_view_def s'_def c_def [symmetric] load_put_qword_other map_butlast [symmetric])
  show "load_qword s (load_qword s (p + 24) + (c - 1) * 8) = last (recycled (pmm_view s p))"
    using suc c64 by (simp add: pmm_view_def c_def [symmetric])
qed

lemma pmm_push:
  assumes L: "pmm_layout s p" and c: "load_qword s (p + 32) < 2048" and x: "in64 x"
  defines "c \<equiv> load_qword s (p + 32)"
  defines "s' \<equiv> put_qword (put_qword s (load_qword s (p + 24) + c * 8) x) (p + 32) (c + 1)"
  shows "pmm_layout s' p"
    and "pmm_view s' p = (pmm_view s p)\<lparr>recycled := recycled (pmm_view s p) @ [x]\<rparr>"
proof -
  have c64: "in64 (c + 1)" "0 \<le> c" using L c unfolding pmm_layout_def in64_def c_def by auto
  then have suc: "nat (c + 1) = Suc (nat c)" by auto
  have slots: "load_qword s' (p + 32) = c + 1" "load_qword s' p = load_qword s p"
    "\<And>j. j \<in> {8, 16, 24, 40, 48} \<Longrightarrow> load_qword s' (p + j) = load_qword s (p + j)"
    using L c64 unfolding s'_def pmm_layout_def by (auto simp: load_put_qword i64_id load_put_qword_other)
  have table: "load_qword s' (load_qword s p + int k * 16) = load_qword s (load_qword s p + int k * 16)"
    "load_qword s' (load_qword s p + int k * 16 + 8) = load_qword s (load_qword s p + int k * 16 + 8)"
    if "k < nat (load_qword s (p + 8))" for k
  proof -
    have "int k < 64" using that L unfolding pmm_layout_def by linarith
    then show "load_qword s' (load_qword s p + int k * 16) = load_qword s (load_qword s p + int k * 16)"
      "load_qword s' (load_qword s p + int k * 16 + 8) = load_qword s (load_qword s p + int k * 16 + 8)"
      using L c64 unfolding s'_def pmm_layout_def by (simp_all add: load_put_qword_other)
  qed
  have stack: "load_qword s' (load_qword s (p + 24) + int k * 8) =
    load_qword s (load_qword s (p + 24) + int k * 8)" if "k < nat c" for k
  proof -
    have "int k < c" using that by linarith
    then show ?thesis using L c64 unfolding s'_def pmm_layout_def by (simp add: load_put_qword_other)
  qed
  have top: "load_qword s' (load_qword s (p + 24) + c * 8) = x"
    using L c64 x unfolding s'_def pmm_layout_def
    by (simp add: load_put_qword i64_id load_put_qword_other)
  show "pmm_layout s' p" using L c64 c slots unfolding pmm_layout_def c_def by simp
  show "pmm_view s' p = (pmm_view s p)\<lparr>recycled := recycled (pmm_view s p) @ [x]\<rparr>"
    using suc c64 unfolding pmm_view_def c_def [symmetric]
    by (auto simp: slots table stack top)
qed

lemma pmm_put_region:
  assumes L: "pmm_layout s p" and i: "0 \<le> i" "i < 64" and xy: "in64 x" "in64 y"
  defines "s' \<equiv> put_qword (put_qword s (load_qword s p + i * 16) x) (load_qword s p + i * 16 + 8) y"
  shows "pmm_view s' p = (pmm_view s p)\<lparr>regions := (regions (pmm_view s p))[nat i := (x, y)]\<rparr>"
    and "pmm_layout s' p"
proof -
  have slots: "load_qword s' (p + j) = load_qword s (p + j)" if "0 \<le> j" "j \<le> 48" for j
    using that L i unfolding s'_def pmm_layout_def by (simp add: load_put_qword_other)
  have base: "load_qword s' p = load_qword s p" using slots [of 0] by simp
  have stack: "load_qword s' (load_qword s (p + 24) + int k * 8) = load_qword s (load_qword s (p + 24) + int k * 8)" for k
    using L i unfolding s'_def pmm_layout_def by (simp add: load_put_qword_other)
  have table: "load_qword s' (load_qword s p + int k * 16) = (if k = nat i then x else load_qword s (load_qword s p + int k * 16))"
    "load_qword s' (load_qword s p + int k * 16 + 8) = (if k = nat i then y else load_qword s (load_qword s p + int k * 16 + 8))" for k
  proof -
    have eq: "(k = nat i) = (int k = i)" using i by auto
    consider "int k = i" | "int k + 1 \<le> i" | "i + 1 \<le> int k" by linarith
    then have "load_qword s' (load_qword s p + int k * 16) = (if k = nat i then x else load_qword s (load_qword s p + int k * 16))
      \<and> load_qword s' (load_qword s p + int k * 16 + 8) = (if k = nat i then y else load_qword s (load_qword s p + int k * 16 + 8))"
      using i xy unfolding s'_def eq by cases (simp_all add: load_put_qword i64_id load_put_qword_other)
    then show "load_qword s' (load_qword s p + int k * 16) = (if k = nat i then x else load_qword s (load_qword s p + int k * 16))"
      "load_qword s' (load_qword s p + int k * 16 + 8) = (if k = nat i then y else load_qword s (load_qword s p + int k * 16 + 8))"
      by blast+
  qed
  show "pmm_layout s' p" using L slots base unfolding pmm_layout_def by simp
  show "pmm_view s' p = (pmm_view s p)\<lparr>regions := (regions (pmm_view s p))[nat i := (x, y)]\<rparr>"
    unfolding pmm_view_def by (simp add: slots base stack table list_eq_iff_nth_eq nth_list_update)
qed

section \<open>The free pages\<close>

definition page_list :: "int \<times> int \<Rightarrow> int list" where
  "page_list r = map (\<lambda>i. fst r + int i * 4096) [0..<nat ((snd r - fst r) div 4096)]"

definition free_list :: "pmm \<Rightarrow> int list" where
  "free_list a = recycled a @ concat (map page_list (regions a))"

lemma page_list_Nil: "y < x + 4096 \<Longrightarrow> page_list (x, y) = []"
  by (auto simp: page_list_def)

lemma page_list_Cons:
  assumes "x + 4096 \<le> y"
  shows "page_list (x, y) = x # page_list (x + 4096, y)"
proof -
  have "nat ((y - x) div 4096) = Suc (nat ((y - (x + 4096)) div 4096))"
    using assms by auto
  then show ?thesis
    by (simp add: page_list_def upt_conv_Cons map_Suc_upt [symmetric] algebra_simps del: upt_Suc)
qed

text \<open>
  The allocator's invariant: regions are page aligned and above page zero, the ones the scan has
  passed are exhausted, no page is listed twice, and the free counter counts the free pages.
\<close>

definition pmm_ok :: "pmm \<Rightarrow> bool" where
  "pmm_ok a \<longleftrightarrow>
     (\<forall>(x, y) \<in> set (regions a). x mod 4096 = 0 \<and> y mod 4096 = 0 \<and> 4096 \<le> x \<and> x \<le> y \<and> y < 2 ^ 62)
     \<and> (\<forall>i < region_index a. i < length (regions a) \<longrightarrow> fst (regions a ! i) = snd (regions a ! i))
     \<and> (\<forall>q \<in> set (recycled a). q mod 4096 = 0 \<and> 4096 \<le> q \<and> q < 2 ^ 62)
     \<and> distinct (free_list a)
     \<and> free_pages a = int (length (free_list a))"

definition pmm_pages :: "machine \<Rightarrow> int \<Rightarrow> int set" where
  "pmm_pages s p = set (free_list (pmm_view s p))"

definition pmm_inv :: "machine \<Rightarrow> int \<Rightarrow> bool" where
  "pmm_inv s p \<longleftrightarrow> pmm_layout s p \<and> pmm_ok (pmm_view s p)"

lemma free_list_region_step:
  assumes "regions a ! i = (x, y)" "i < length (regions a)" "x + 4096 \<le> y" "recycled a = []"
    and "\<forall>j < i. page_list (regions a ! j) = []"
  shows "free_list a = x # free_list (a\<lparr>regions := (regions a)[i := (x + 4096, y)]\<rparr>)"
proof -
  obtain pre post where split: "regions a = pre @ (x, y) # post" and pre: "length pre = i"
    using assms(1,2) id_take_nth_drop [of i "regions a"]
    by (metis length_take less_imp_le min.absorb2)
  have "page_list r = []" if "r \<in> set pre" for r
    using that assms(5) pre by (metis in_set_conv_nth nth_append split)
  then have nil: "concat (map page_list pre) = []" by simp
  have "(regions a)[i := (x + 4096, y)] = pre @ (x + 4096, y) # post"
    using split pre list_update_length by metis
  then show ?thesis
    unfolding free_list_def using assms(4) split page_list_Cons [OF assms(3)] by (simp add: nil)
qed

lemma pmm_ok_passed: "pmm_ok a \<Longrightarrow> j < region_index a \<Longrightarrow> j < length (regions a) \<Longrightarrow> page_list (regions a ! j) = []"
  unfolding pmm_ok_def page_list_def by simp

lemma pmm_ok_region:
  assumes "pmm_ok a" "i < length (regions a)" "regions a ! i = (x, y)"
  shows "x mod 4096 = 0" "y mod 4096 = 0" "4096 \<le> x" "x \<le> y" "y < 2 ^ 62"
  using assms nth_mem [OF assms(2)] unfolding pmm_ok_def by auto

text \<open>Taking the first page of the region the scan stands on keeps the invariant.\<close>

lemma pmm_ok_take:
  assumes ok: "pmm_ok a" and i: "i = region_index a" "i < length (regions a)"
    and r: "regions a ! i = (x, y)" and le: "x + 4096 \<le> y" and empty: "recycled a = []"
    and j: "j = (if x + 4096 \<ge> y then Suc i else i)"
  defines "a' \<equiv> a\<lparr>regions := (regions a)[i := (x + 4096, y)], region_index := j, free_pages := free_pages a - 1\<rparr>"
  shows "pmm_ok a'" and "free_list a = x # free_list a'"
proof -
  have "\<forall>j < i. page_list (regions a ! j) = []" using pmm_ok_passed [OF ok] i by simp
  then show fl: "free_list a = x # free_list a'"
    using free_list_region_step [OF r i(2) le empty] by (simp add: a'_def free_list_def)
  have "x + 4096 \<le> y" "(x + 4096) mod 4096 = 0" using le pmm_ok_region [OF ok i(2) r] by simp_all
  then have regs: "\<forall>(u, v) \<in> set (regions a'). u mod 4096 = 0 \<and> v mod 4096 = 0 \<and> 4096 \<le> u \<and> u \<le> v \<and> v < 2 ^ 62"
    using pmm_ok_region [OF ok i(2) r] ok set_update_subset_insert [of "regions a" i "(x + 4096, y)"]
    unfolding a'_def pmm_ok_def by fastforce
  have "\<forall>k < region_index a'. k < length (regions a') \<longrightarrow> fst (regions a' ! k) = snd (regions a' ! k)"
    using ok i le unfolding a'_def pmm_ok_def j by (auto simp: nth_list_update less_Suc_eq)
  moreover have "distinct (free_list a') \<and> free_pages a' = int (length (free_list a'))"
    using ok fl unfolding pmm_ok_def by (simp add: a'_def)
  ultimately show "pmm_ok a'" using regs ok empty unfolding pmm_ok_def by (simp add: a'_def)
qed

text \<open>Skipping an exhausted region keeps it too.\<close>

lemma pmm_ok_skip:
  assumes ok: "pmm_ok a" and i: "i = region_index a" "i < length (regions a)"
    and r: "regions a ! i = (x, y)" and "\<not> x + 4096 \<le> y"
  shows "pmm_ok (a\<lparr>region_index := Suc i\<rparr>)"
proof -
  have "x = y" using pmm_ok_region [OF ok i(2) r] assms(5) aligned_gap [of x 4096 y] by fastforce
  moreover have "\<forall>k < i. k < length (regions a) \<longrightarrow> fst (regions a ! k) = snd (regions a ! k)"
    using ok i(1) unfolding pmm_ok_def by blast
  ultimately have "\<forall>k < Suc i. k < length (regions a) \<longrightarrow> fst (regions a ! k) = snd (regions a ! k)"
    using r by (metis fst_conv snd_conv less_antisym)
  moreover have "free_list (a\<lparr>region_index := Suc i\<rparr>) = free_list a" by (simp add: free_list_def)
  ultimately show ?thesis using ok unfolding pmm_ok_def by simp
qed

lemma set_page_list:
  assumes "x mod 4096 = 0" "y mod 4096 = 0"
  shows "set (page_list (x, y)) = {q. x \<le> q \<and> q < y \<and> q mod 4096 = 0}"
proof -
  obtain a b where xy: "x = 4096 * a" "y = 4096 * b"
    using assms by (auto simp: mod_eq_0_iff_dvd elim!: dvdE)
  have "(\<exists>i. i < nat (b - a) \<and> q = x + int i * 4096) \<longleftrightarrow> x \<le> q \<and> q < y \<and> q mod 4096 = 0" for q
  proof
    assume "\<exists>i. i < nat (b - a) \<and> q = x + int i * 4096"
    then obtain i where i: "i < nat (b - a)" "q = 4096 * (a + int i)" using xy by auto
    then have "a + int i < b" by linarith
    then show "x \<le> q \<and> q < y \<and> q mod 4096 = 0" using i xy by simp
  next
    assume q: "x \<le> q \<and> q < y \<and> q mod 4096 = 0"
    then obtain c where c: "q = 4096 * c" by (auto simp: mod_eq_0_iff_dvd elim!: dvdE)
    then have "nat (c - a) < nat (b - a)" "q = x + int (nat (c - a)) * 4096" using q xy by auto
    then show "\<exists>i. i < nat (b - a) \<and> q = x + int i * 4096" by blast
  qed
  moreover have "y - x = (b - a) * 4096" using xy by simp
  then have "(y - x) div 4096 = b - a" by simp
  then have "set (page_list (x, y)) = {q. \<exists>i. i < nat (b - a) \<and> q = x + int i * 4096}"
    unfolding page_list_def by (simp add: image_def Bex_def)
  ultimately show ?thesis by simp
qed

lemma pmm_ok_pages:
  assumes "pmm_ok a" "q \<in> set (free_list a)"
  shows "q mod 4096 = 0" "4096 \<le> q" "q < 2 ^ 62"
proof -
  have *: "q mod 4096 = 0 \<and> 4096 \<le> q \<and> q < 2 ^ 62"
  proof (cases "q \<in> set (recycled a)")
    case True
    then show ?thesis using assms(1) unfolding pmm_ok_def by blast
  next
    case False
    then obtain x y where xy: "(x, y) \<in> set (regions a)" "q \<in> set (page_list (x, y))"
      using assms(2) by (auto simp: free_list_def)
    then have "x mod 4096 = 0" "y mod 4096 = 0" "4096 \<le> x" "y < 2 ^ 62"
      using assms(1) unfolding pmm_ok_def by auto
    then show ?thesis using xy(2) set_page_list [of x y] by auto
  qed
  show "q mod 4096 = 0" "4096 \<le> q" "q < 2 ^ 62" using * by auto
qed

lemma pmm_ok_count:
  assumes "pmm_ok a"
  shows "int (length (free_list a)) \<le> 2 ^ 62"
proof -
  have "card (set (free_list a)) \<le> card {0..<(2 ^ 62 :: int)}"
    using pmm_ok_pages [OF assms] by (intro card_mono subsetI) force+
  then show ?thesis using assms by (simp add: pmm_ok_def distinct_card)
qed

text \<open>Popping and pushing the recycle stack.\<close>

lemma pmm_ok_pop:
  assumes ok: "pmm_ok a" and r: "recycled a = xs @ [x]"
  defines "a' \<equiv> a\<lparr>recycled := xs, free_pages := free_pages a - 1\<rparr>"
  shows "pmm_ok a'" "x \<in> set (free_list a)" "set (free_list a') = set (free_list a) - {x}"
  using ok unfolding pmm_ok_def free_list_def a'_def by (auto simp: r)

lemma pmm_ok_push:
  assumes ok: "pmm_ok a" and x: "x \<notin> set (free_list a)" "x mod 4096 = 0" "4096 \<le> x" "x < 2 ^ 62"
  defines "a' \<equiv> a\<lparr>recycled := recycled a @ [x], free_pages := free_pages a + 1\<rparr>"
  shows "pmm_ok a'" "set (free_list a') = insert x (set (free_list a))"
  using ok x unfolding pmm_ok_def free_list_def a'_def by auto

section \<open>Contracts of the operations\<close>

text \<open>An operation of the allocator writes its own blocks only and does not move them.\<close>

definition pmm_step :: "int \<Rightarrow> machine \<Rightarrow> machine \<Rightarrow> bool" where
  "pmm_step p s s' \<longleftrightarrow> writes_in (pmm_area s p) s s' \<and> load_qword s' p = load_qword s p
     \<and> load_qword s' (p + 24) = load_qword s (p + 24)"

lemma pmm_step_refl [simp, intro]: "pmm_step p s s"
  by (simp add: pmm_step_def)

lemma pmm_step_area: "pmm_step p s s' \<Longrightarrow> pmm_area s' p = pmm_area s p"
  by (simp add: pmm_step_def pmm_area_def)

lemma pmm_step_trans [trans]: "pmm_step p s t \<Longrightarrow> pmm_step p t u \<Longrightarrow> pmm_step p s u"
  using pmm_step_area [of p s t] unfolding pmm_step_def by (auto intro: writes_in_trans)

lemma pmm_step_slot:
  assumes "pmm_layout s p" "j = 8 \<or> j = 16 \<or> j = 32 \<or> j = 40 \<or> j = 48"
  shows "pmm_step p s (put_qword s (p + j) v)"
proof -
  have "{p + j..<p + j + 8} \<subseteq> pmm_area s p" using assms(2) by (auto simp: pmm_area_def)
  then show ?thesis using assms unfolding pmm_step_def pmm_layout_def
    by (auto simp: load_put_qword_other)
qed

lemma pmm_step_table:
  assumes "pmm_layout s p" "0 \<le> j" "j + 8 \<le> 1024"
  shows "pmm_step p s (put_qword s (load_qword s p + j) v)"
proof -
  have "{load_qword s p + j..<load_qword s p + j + 8} \<subseteq> pmm_area s p"
    using assms(2,3) by (auto simp: pmm_area_def)
  then show ?thesis using assms unfolding pmm_step_def pmm_layout_def
    by (auto simp: load_put_qword_other)
qed

lemma pmm_step_stack:
  assumes "pmm_layout s p" "0 \<le> j" "j + 8 \<le> 16384"
  shows "pmm_step p s (put_qword s (load_qword s (p + 24) + j) v)"
proof -
  have "{load_qword s (p + 24) + j..<load_qword s (p + 24) + j + 8} \<subseteq> pmm_area s p"
    using assms(2,3) by (auto simp: pmm_area_def)
  then show ?thesis using assms unfolding pmm_step_def pmm_layout_def
    by (auto simp: load_put_qword_other)
qed

lemma pmm_region_ptr:
  assumes "pmm_layout s p" "0 \<le> i" "i < 64"
  shows "pmm_region_entry_ptr (load_qword s p) i = Some (load_qword s p + i * 16)"
    and "qword_ptr (load_qword s p + i * 16)"
  using assms unfolding pmm_layout_def by (simp_all add: pmm_region_entry_ptr_def)

lemma pmm_region_access:
  assumes "pmm_layout s p" "0 \<le> i" "i < load_qword s (p + 8)"
  shows "pmm_region_start s (load_qword s p) i = Some (fst (regions (pmm_view s p) ! nat i))"
    and "pmm_region_end s (load_qword s p) i = Some (snd (regions (pmm_view s p) ! nat i))"
proof -
  have "i < 64" using assms unfolding pmm_layout_def by linarith
  note ptr = pmm_region_ptr [OF assms(1,2) this]
  show "pmm_region_start s (load_qword s p) i = Some (fst (regions (pmm_view s p) ! nat i))"
    "pmm_region_end s (load_qword s p) i = Some (snd (regions (pmm_view s p) ! nat i))"
    using assms(2,3) ptr unfolding pmm_view_def
    by (simp_all add: pmm_region_start_def pmm_region_end_def load_qword_region_eq)
qed

lemma pmm_set_region:
  assumes "pmm_layout s p" "0 \<le> i" "i < 64"
  shows "set_pmm_region s (load_qword s p) i x y =
    Some (put_qword (put_qword s (load_qword s p + i * 16) x) (load_qword s p + i * 16 + 8) y)"
  using pmm_region_ptr [OF assms] by (simp add: set_pmm_region_def store_qword_region_eq)

lemma pmm_step_region:
  assumes L: "pmm_layout s p" and i: "0 \<le> i" "i < 64"
  shows "pmm_step p s (put_qword (put_qword s (load_qword s p + i * 16) x) (load_qword s p + i * 16 + 8) y)"
proof -
  let ?s = "put_qword s (load_qword s p + i * 16) x"
  have 1: "pmm_step p s ?s" using pmm_step_table [OF L, of "i * 16"] i by simp
  have "load_qword ?s p = load_qword s p" using 1 by (simp add: pmm_step_def)
  moreover have "pmm_layout ?s p"
    using L i unfolding pmm_layout_def by (simp add: load_put_qword_other)
  ultimately have "pmm_step p ?s (put_qword ?s (load_qword s p + i * 16 + 8) y)"
    using pmm_step_table [of ?s p "i * 16 + 8"] i by (simp add: add.assoc)
  then show ?thesis using 1 pmm_step_trans by blast
qed

lemma pmm_state_access:
  assumes "pmm_layout s p" "0 \<le> j" "j < 7"
  shows "pmm_state_qword s p j = Some (load_qword s (p + j * 8))"
    and "set_pmm_state_qword s p j v = Some (put_qword s (p + j * 8) v)"
  using assms unfolding pmm_layout_def
  by (simp_all add: pmm_state_qword_def set_pmm_state_qword_def load_qword_region_eq store_qword_region_eq)

lemma pmm_view_slots:
  "nat (load_qword s (p + 8)) = length (regions (pmm_view s p))"
  "nat (load_qword s (p + 16)) = region_index (pmm_view s p)"
  "nat (load_qword s (p + 32)) = length (recycled (pmm_view s p))"
  "load_qword s (p + 40) = total_pages (pmm_view s p)"
  "load_qword s (p + 48) = free_pages (pmm_view s p)"
  by (simp_all add: pmm_view_def)

lemma pmm_exhausted:
  assumes "pmm_ok a" "length (regions a) \<le> region_index a" "recycled a = []"
  shows "free_list a = []"
proof -
  have "page_list r = []" if "r \<in> set (regions a)" for r
    using that pmm_ok_passed [OF assms(1)] assms(2) by (metis in_set_conv_nth order_less_le_trans)
  then show ?thesis using assms(3) by (simp add: free_list_def)
qed

lemma pmm_scan_take:
  assumes L: "pmm_layout s p" and ok: "pmm_ok (pmm_view s p)" and rc: "recycled (pmm_view s p) = []"
    and i: "i < load_qword s (p + 8)" "i = load_qword s (p + 16)"
    and r: "regions (pmm_view s p) ! nat i = (x, y)" and le: "x + 4096 \<le> y"
  shows "\<exists>s'. pmm_alloc_scan p (load_qword s p) (load_qword s (p + 8)) (load_qword s (p + 48)) i s = Some (x, s')
    \<and> pmm_inv s' p \<and> pmm_step p s s' \<and> free_list (pmm_view s p) = x # free_list (pmm_view s' p)
    \<and> recycled (pmm_view s' p) = []"
proof -
  let ?a = "pmm_view s p" and ?t = "load_qword s p" and ?f = "load_qword s (p + 48)"
  define j where "j = (if x + 4096 \<ge> y then i + 1 else i)"
  define s1 where "s1 = put_qword (put_qword s (?t + i * 16) (x + 4096)) (?t + i * 16 + 8) y"
  define s2 where "s2 = (if x + 4096 \<ge> y then put_qword s1 (p + 16) j else s1)"
  define s3 where "s3 = put_qword s2 (p + 48) (?f - 1)"
  have i64: "0 \<le> i" "i < 64" using L i unfolding pmm_layout_def by linarith+
  have ni: "nat i = region_index ?a" "nat i < length (regions ?a)"
    using i pmm_view_slots [of s p] i64 by simp_all
  have xy: "in64 (x + 4096)" "in64 y" using pmm_ok_region [OF ok ni(2) r] le by (auto simp: in64_def)
  note v1 = pmm_put_region [OF L i64 xy, folded s1_def]
  have v2: "pmm_layout s2 p \<and> pmm_view s2 p = (pmm_view s1 p)\<lparr>region_index := nat j\<rparr>"
    using pmm_put_slot(1) [OF v1(2), of j] i64 v1 ni by (auto simp: s2_def j_def in64_def)
  have f: "in64 (?f - 1)"
    using le free_list_region_step [OF r ni(2) le rc] pmm_ok_passed [OF ok] ni ok
      in64D [OF memory.load_in64 [of s "p + 48"]]
    unfolding pmm_ok_def by (simp add: in64_def pmm_view_slots)
  have v3: "pmm_layout s3 p" "pmm_view s3 p = (pmm_view s2 p)\<lparr>free_pages := ?f - 1\<rparr>"
    using pmm_put_slot(3) [of s2 p "?f - 1"] v2 f by (simp_all add: s3_def)
  have v: "pmm_view s3 p = ?a\<lparr>regions := (regions ?a)[nat i := (x + 4096, y)], region_index := nat j,
      free_pages := free_pages ?a - 1\<rparr>"
    using v1 v2 v3 by (simp add: pmm_view_slots)
  have nj: "nat j = (if x + 4096 \<ge> y then Suc (nat i) else nat i)" using i64 by (auto simp: j_def)
  have ok3: "pmm_ok (pmm_view s3 p)" "free_list ?a = x # free_list (pmm_view s3 p)"
    using pmm_ok_take [OF ok ni r le rc nj] unfolding v by simp_all
  have "pmm_step p s s1" using pmm_step_region [OF L i64] by (simp add: s1_def)
  also have "pmm_step p s1 s2" using pmm_step_slot [OF v1(2)] by (simp add: s2_def)
  also have "pmm_step p s2 s3" using pmm_step_slot [of s2] v2 by (simp add: s3_def)
  finally have step: "pmm_step p s s3" .
  have acc: "pmm_region_start s ?t i = Some x" "pmm_region_end s ?t i = Some y"
    using pmm_region_access [OF L i64(1) i(1)] r by simp_all
  have run: "set_pmm_region s ?t i (x + 4096) y = Some s1"
    "(if x + 4096 \<ge> y then set_pmm_state_qword s1 p 2 (i + 1) else Some s1) = Some s2"
    "set_pmm_state_qword s2 p 6 (?f - 1) = Some s3"
    using pmm_set_region [OF L i64] pmm_state_access(2) [OF v1(2), of 2] pmm_state_access(2) [of s2 p 6] v2
    by (simp_all add: s1_def s2_def s3_def j_def)
  have "pmm_alloc_scan p ?t (load_qword s (p + 8)) ?f i s = Some (x, s3)"
    using i(1) acc le run by (auto simp: pmm_alloc_scan.simps Let_def split: if_splits)
  moreover have "recycled (pmm_view s3 p) = []" using rc by (simp add: v)
  ultimately show ?thesis using ok3 v3(1) step by (auto simp: pmm_inv_def)
qed

lemma pmm_scan:
  assumes "pmm_layout s p" "pmm_ok (pmm_view s p)" "recycled (pmm_view s p) = []"
    and "free_list (pmm_view s p) \<noteq> []"
  shows "\<exists>page s'. pmm_alloc_scan p (load_qword s p) (load_qword s (p + 8)) (load_qword s (p + 48))
      (load_qword s (p + 16)) s = Some (page, s')
    \<and> pmm_inv s' p \<and> pmm_step p s s' \<and> free_list (pmm_view s p) = page # free_list (pmm_view s' p)
    \<and> recycled (pmm_view s' p) = []"
  using assms
proof (induction "nat (load_qword s (p + 8) - load_qword s (p + 16))" arbitrary: s rule: less_induct)
  case less
  note L = less.prems(1) and ok = less.prems(2) and rc = less.prems(3)
  let ?i = "load_qword s (p + 16)" and ?n = "load_qword s (p + 8)"
  have i: "?i < ?n"
    using pmm_exhausted [OF ok _ rc] less.prems(4) pmm_view_slots(1,2) [of s p] nat_mono [of ?n ?i]
    by fastforce
  have i0: "0 \<le> ?i" "?i + 1 \<le> 64" using L i unfolding pmm_layout_def by linarith+
  obtain x y where r: "regions (pmm_view s p) ! nat ?i = (x, y)" by fastforce
  show ?case
  proof (cases "x + 4096 \<le> y")
    case True
    then show ?thesis using pmm_scan_take [OF L ok rc i refl r] by blast
  next
    case False
    let ?s = "put_qword s (p + 16) (?i + 1)"
    have v: "pmm_layout ?s p" "pmm_view ?s p = (pmm_view s p)\<lparr>region_index := nat (?i + 1)\<rparr>"
      using pmm_put_slot(1) [OF L, of "?i + 1"] i0 by (auto simp: in64_def)
    have ni: "nat ?i = region_index (pmm_view s p)" "nat ?i < length (regions (pmm_view s p))"
      using i i0 pmm_view_slots [of s p] by simp_all
    have "nat (?i + 1) = Suc (nat ?i)" using i0 by simp
    then have ok': "pmm_ok (pmm_view ?s p)" using pmm_ok_skip [OF ok ni r False] v by simp
    have same: "load_qword ?s p = load_qword s p" "load_qword ?s (p + 8) = ?n"
      "load_qword ?s (p + 48) = load_qword s (p + 48)" "load_qword ?s (p + 16) = ?i + 1"
      using i0 by (simp_all add: load_put_qword_other load_put_qword i64_id in64_def)
    have fl: "free_list (pmm_view ?s p) = free_list (pmm_view s p)" "recycled (pmm_view ?s p) = []"
      using v rc by (simp_all add: free_list_def)
    have "\<exists>page s'. pmm_alloc_scan p (load_qword s p) ?n (load_qword s (p + 48)) (?i + 1) ?s = Some (page, s')
      \<and> pmm_inv s' p \<and> pmm_step p ?s s' \<and> free_list (pmm_view s p) = page # free_list (pmm_view s' p)
      \<and> recycled (pmm_view s' p) = []"
      using less.hyps [of ?s] v(1) ok' fl less.prems(4) i same by simp
    then obtain page s' where *: "pmm_alloc_scan p (load_qword s p) ?n (load_qword s (p + 48)) (?i + 1) ?s = Some (page, s')"
      "pmm_inv s' p" "pmm_step p ?s s'" "free_list (pmm_view s p) = page # free_list (pmm_view s' p)"
      "recycled (pmm_view s' p) = []" by blast
    have "pmm_alloc_scan p (load_qword s p) ?n (load_qword s (p + 48)) ?i s = Some (page, s')"
      using *(1) i False pmm_region_access [OF L i0(1) i] r pmm_state_access [OF L, of 2]
      by (simp add: pmm_alloc_scan.simps [of p _ _ _ ?i])
    moreover have "pmm_step p s s'" using pmm_step_slot [OF L, of 16] *(3) pmm_step_trans by blast
    ultimately show ?thesis using * by blast
  qed
qed

text \<open>
  Allocation: with free pages it returns one of them and removes exactly it; without, it returns 0
  and changes nothing.  It never halts the kernel.
\<close>

theorem pmm_alloc_page_contract:
  assumes "pmm_inv s p"
  shows "(pmm_pages s p = {} \<and> pmm_alloc_page s p = Some (0, s))
    \<or> (\<exists>page s'. pmm_alloc_page s p = Some (page, s') \<and> pmm_inv s' p \<and> pmm_step p s s'
        \<and> page \<in> pmm_pages s p \<and> pmm_pages s' p = pmm_pages s p - {page}
        \<and> length (recycled (pmm_view s' p)) = length (recycled (pmm_view s p)) - 1)"
proof -
  note L = assms [unfolded pmm_inv_def, THEN conjunct1]
    and ok = assms [unfolded pmm_inv_def, THEN conjunct2]
  note slot = pmm_state_access [OF L]
  have f: "load_qword s (p + 48) = int (length (free_list (pmm_view s p)))"
    using ok unfolding pmm_ok_def by (simp add: pmm_view_slots)
  show ?thesis
  proof (cases "load_qword s (p + 48) = 0")
    case True
    then show ?thesis using f by (simp add: pmm_alloc_page_def slot pmm_pages_def)
  next
    case nonempty: False
    then have fl: "free_list (pmm_view s p) \<noteq> []" using f by auto
    have dist: "distinct (free_list (pmm_view s p))" using ok unfolding pmm_ok_def by blast
    show ?thesis
    proof (cases "load_qword s (p + 32) = 0")
      case True
      then have rc: "recycled (pmm_view s p) = []" using pmm_view_slots(3) [of s p] by simp
      from pmm_scan [OF L ok rc fl] obtain page s' where *:
        "pmm_alloc_page s p = Some (page, s')" "pmm_inv s' p" "pmm_step p s s'"
        "free_list (pmm_view s p) = page # free_list (pmm_view s' p)" "recycled (pmm_view s' p) = []"
        using True nonempty by (auto simp: pmm_alloc_page_def slot)
      then show ?thesis using dist rc unfolding pmm_pages_def by auto
    next
      case False
      let ?a = "pmm_view s p"
      define s1 where "s1 = put_qword s (p + 32) (load_qword s (p + 32) - 1)"
      define s2 where "s2 = put_qword s1 (p + 48) (load_qword s (p + 48) - 1)"
      note pop = pmm_pop [OF L False, folded s1_def]
      have f1: "in64 (load_qword s (p + 48) - 1)"
        using in64D [OF memory.load_in64 [of s "p + 48"]] f by (simp add: in64_def)
      note v2 = pmm_put_slot(3) [OF pop(1) f1, folded s2_def]
      have view: "pmm_view s2 p = ?a\<lparr>recycled := butlast (recycled ?a), free_pages := free_pages ?a - 1\<rparr>"
        using v2 pop(3) by (simp add: pmm_view_slots)
      let ?page = "last (recycled ?a)"
      note popped = pmm_ok_pop [OF ok append_butlast_last_id [OF pop(2), symmetric], folded view]
      then have inv: "pmm_inv s2 p" using v2 by (simp add: pmm_inv_def)
      have "pmm_step p s s2"
        using pmm_step_slot [OF L, of 32] pmm_step_slot [OF pop(1), of 48] pmm_step_trans
        unfolding s2_def s1_def by blast
      moreover have "pmm_alloc_page s p = Some (?page, s2)"
        using False nonempty pop(4) L slot pmm_state_access [OF pop(1)] unfolding pmm_layout_def
        by (simp add: pmm_alloc_page_def pmm_stack_pop_def load_qword_region_eq s1_def [symmetric] s2_def)
      moreover have "?page \<in> pmm_pages s p" "pmm_pages s2 p = pmm_pages s p - {?page}"
        using popped(2,3) unfolding pmm_pages_def by simp_all
      moreover have "length (recycled (pmm_view s2 p)) = length (recycled ?a) - 1"
        by (simp add: view)
      ultimately show ?thesis using inv by blast
    qed
  qed
qed

text \<open>
  Freeing a page that is not free puts it back; a null, unaligned or surplus page halts the kernel.
\<close>

theorem pmm_free_page_contract:
  assumes "pmm_inv s p"
  shows "pmm_free_page s p page = None \<longleftrightarrow>
      page = 0 \<or> page mod 4096 \<noteq> 0 \<or> length (recycled (pmm_view s p)) = 2048"
    and "page \<notin> pmm_pages s p \<Longrightarrow> page mod 4096 = 0 \<Longrightarrow> 4096 \<le> page \<Longrightarrow> page < 2 ^ 62 \<Longrightarrow>
      length (recycled (pmm_view s p)) < 2048 \<Longrightarrow>
      \<exists>s'. pmm_free_page s p page = Some s' \<and> pmm_inv s' p \<and> pmm_step p s s'
        \<and> pmm_pages s' p = insert page (pmm_pages s p)
        \<and> length (recycled (pmm_view s' p)) = length (recycled (pmm_view s p)) + 1"
proof -
  note L = assms [unfolded pmm_inv_def, THEN conjunct1]
    and ok = assms [unfolded pmm_inv_def, THEN conjunct2]
  note slot = pmm_state_access [OF L]
  let ?c = "load_qword s (p + 32)" and ?k = "load_qword s (p + 24)"
  have c: "0 \<le> ?c" "?c \<le> 2048" "nat ?c = length (recycled (pmm_view s p))"
    using L unfolding pmm_layout_def by (simp_all add: pmm_view_slots)
  have free: "pmm_free_page s p page = Some (put_qword (put_qword (put_qword s (?k + ?c * 8) page) (p + 32) (?c + 1))
      (p + 48) (load_qword s (p + 48) + 1))" if "?c < 2048" "page \<noteq> 0" "page mod 4096 = 0"
  proof -
    let ?s = "put_qword s (?k + ?c * 8) page"
    have "pmm_layout ?s p" using that L c unfolding pmm_layout_def by (simp add: load_put_qword_other)
    moreover have "load_qword (put_qword ?s (p + 32) (?c + 1)) (p + 48) = load_qword s (p + 48)"
      using L c unfolding pmm_layout_def by (simp add: load_put_qword_other)
    moreover have "pmm_layout (put_qword ?s (p + 32) (?c + 1)) p"
      using calculation(1) that c unfolding pmm_layout_def
      by (simp add: load_put_qword_other load_put_qword i64_id in64_def)
    ultimately show ?thesis
      using that c slot L pmm_state_access [of ?s p] pmm_state_access [of "put_qword ?s (p + 32) (?c + 1)" p]
      unfolding pmm_layout_def
      by (simp add: pmm_free_page_def pmm_stack_push_def store_qword_region_eq mask_simps)
  qed
  show "pmm_free_page s p page = None \<longleftrightarrow>
      page = 0 \<or> page mod 4096 \<noteq> 0 \<or> length (recycled (pmm_view s p)) = 2048"
    using free c slot by (cases "?c < 2048") (auto simp: pmm_free_page_def mask_simps)
  assume page: "page \<notin> pmm_pages s p" "page mod 4096 = 0" "4096 \<le> page" "page < 2 ^ 62"
    and room: "length (recycled (pmm_view s p)) < 2048"
  have lt: "?c < 2048" using room c by linarith
  have p64: "in64 page" using page by (auto simp: in64_def)
  define s1 where "s1 = put_qword (put_qword s (?k + ?c * 8) page) (p + 32) (?c + 1)"
  define s2 where "s2 = put_qword s1 (p + 48) (load_qword s (p + 48) + 1)"
  note push = pmm_push [OF L lt p64, folded s1_def]
  show "\<exists>s'. pmm_free_page s p page = Some s' \<and> pmm_inv s' p \<and> pmm_step p s s'
        \<and> pmm_pages s' p = insert page (pmm_pages s p)
        \<and> length (recycled (pmm_view s' p)) = length (recycled (pmm_view s p)) + 1"
  proof (intro exI conjI)
    show "pmm_free_page s p page = Some s2"
      using free lt page by (simp add: s2_def s1_def)
    have f: "load_qword s (p + 48) = free_pages (pmm_view s p)" by (simp add: pmm_view_slots)
    have f64: "in64 (load_qword s (p + 48) + 1)"
      using pmm_ok_count [OF ok] ok unfolding f pmm_ok_def in64_def by simp
    note v2 = pmm_put_slot(3) [OF push(1) f64, folded s2_def]
    have view: "pmm_view s2 p = (pmm_view s p)\<lparr>recycled := recycled (pmm_view s p) @ [page],
        free_pages := free_pages (pmm_view s p) + 1\<rparr>"
      using v2 push(2) f by simp
    note pushed = pmm_ok_push [OF ok page(1) [unfolded pmm_pages_def] page(2-4), folded view]
    show "pmm_inv s2 p" using pushed v2 by (simp add: pmm_inv_def)
    show "length (recycled (pmm_view s2 p)) = length (recycled (pmm_view s p)) + 1" by (simp add: view)
    show "pmm_pages s2 p = insert page (pmm_pages s p)" using pushed by (simp add: pmm_pages_def)
    have st: "pmm_step p s (put_qword s (?k + ?c * 8) page)"
      using pmm_step_stack [OF L, of "?c * 8"] c lt by simp
    moreover have "pmm_layout (put_qword s (?k + ?c * 8) page) p"
      using L c lt unfolding pmm_layout_def by (simp add: load_put_qword_other)
    then have "pmm_step p (put_qword s (?k + ?c * 8) page) s1"
      unfolding s1_def by (rule pmm_step_slot) simp
    moreover have "pmm_step p s1 s2" using pmm_step_slot [OF push(1), of 48] by (simp add: s2_def)
    ultimately show "pmm_step p s s2" using pmm_step_trans by blast
  qed
qed

section \<open>The allocator as an interface\<close>

lemma pmm_frame:
  assumes L: "pmm_layout s p" and eq: "\<And>a. a \<in> pmm_area s p \<Longrightarrow> mem s' a = mem s a"
  shows "pmm_view s' p = pmm_view s p" "pmm_layout s' p" "pmm_area s' p = pmm_area s p"
    "pmm_pages s' p = pmm_pages s p" "pmm_inv s' p \<longleftrightarrow> pmm_inv s p"
proof -
  have ld: "load_qword s' b = load_qword s b" if "{b..<b + 8} \<subseteq> pmm_area s p" for b
    unfolding load_qword_def using that eq
    by (intro arg_cong [of _ _ i64] le_load_cong) (metis atLeastLessThan_iff of_nat_numeral subsetD)
  have slot: "load_qword s' (p + j) = load_qword s (p + j)" if "0 \<le> j" "j \<le> 48" for j
    using that by (intro ld) (auto simp: pmm_area_def)
  have base: "load_qword s' p = load_qword s p" using slot [of 0] by simp
  have tbl: "load_qword s' (load_qword s p + int k * 16) = load_qword s (load_qword s p + int k * 16)"
    "load_qword s' (load_qword s p + int k * 16 + 8) = load_qword s (load_qword s p + int k * 16 + 8)"
    if "k < nat (load_qword s (p + 8))" for k
  proof -
    have "int k < 64" using that L unfolding pmm_layout_def by linarith
    then show "load_qword s' (load_qword s p + int k * 16) = load_qword s (load_qword s p + int k * 16)"
      "load_qword s' (load_qword s p + int k * 16 + 8) = load_qword s (load_qword s p + int k * 16 + 8)"
      by (intro ld, auto simp: pmm_area_def)+
  qed
  have stk: "load_qword s' (load_qword s (p + 24) + int k * 8) = load_qword s (load_qword s (p + 24) + int k * 8)"
    if "k < nat (load_qword s (p + 32))" for k
  proof -
    have "int k < 2048" using that L unfolding pmm_layout_def by linarith
    then show ?thesis by (intro ld) (auto simp: pmm_area_def)
  qed
  show v: "pmm_view s' p = pmm_view s p" unfolding pmm_view_def by (simp add: slot base tbl stk)
  show l: "pmm_layout s' p" using L unfolding pmm_layout_def by (simp add: slot base)
  show "pmm_area s' p = pmm_area s p" by (simp add: pmm_area_def slot base)
  show "pmm_pages s' p = pmm_pages s p" "pmm_inv s' p \<longleftrightarrow> pmm_inv s p"
    using v l L by (simp_all add: pmm_pages_def pmm_inv_def)
qed

text \<open>
  A page allocator as its clients see it: a set of free pages, a bounded stack of returned ones,
  and an environment that may do anything that leaves the allocator's own memory alone.
\<close>

locale page_allocator =
  fixes inv :: "'s \<Rightarrow> bool" and pages :: "'s \<Rightarrow> int set" and stack :: "'s \<Rightarrow> nat" and cap :: nat
    and valid :: "int \<Rightarrow> bool"
    and alloc :: "'s \<Rightarrow> (int \<times> 's) option" and free :: "'s \<Rightarrow> int \<Rightarrow> 's option"
    and env :: "'s \<Rightarrow> 's \<Rightarrow> bool"
  assumes alloc_law: "inv s \<Longrightarrow> (pages s = {} \<and> alloc s = Some (0, s)) \<or>
      (\<exists>page s'. alloc s = Some (page, s') \<and> inv s' \<and> page \<in> pages s \<and> pages s' = pages s - {page}
        \<and> stack s' = stack s - 1)"
    and free_law: "inv s \<Longrightarrow> valid page \<Longrightarrow> page \<notin> pages s \<Longrightarrow> stack s < cap \<Longrightarrow>
      \<exists>s'. free s page = Some s' \<and> inv s' \<and> pages s' = insert page (pages s) \<and> stack s' = stack s + 1"
    and env_law: "inv s \<Longrightarrow> env s s' \<Longrightarrow> inv s' \<and> pages s' = pages s \<and> stack s' = stack s"
    and pages_valid: "inv s \<Longrightarrow> page \<in> pages s \<Longrightarrow> valid page"
    and zero_invalid: "\<not> valid 0"
begin

text \<open>A client that holds the pages \<open>K\<close>, with no bound on their number.\<close>

definition holds :: "'s \<Rightarrow> int set \<Rightarrow> bool" where
  "holds s K \<longleftrightarrow> inv s \<and> finite K \<and> K \<inter> pages s = {} \<and> (\<forall>q \<in> K. valid q)"

lemma holds_alloc:
  assumes "holds s K" "alloc s = Some (page, s')"
  shows "holds s' (if page = 0 then K else insert page K)
    \<and> (if page = 0 then K else insert page K) \<union> pages s' = K \<union> pages s"
proof (cases "pages s = {}")
  case True
  then have "page = 0" "s' = s" using alloc_law [of s] assms unfolding holds_def by auto
  then show ?thesis using assms(1) by simp
next
  case False
  then have *: "inv s'" "page \<in> pages s" "pages s' = pages s - {page}"
    using alloc_law [of s] assms unfolding holds_def by auto
  then have v: "valid page" using pages_valid [of s page] assms(1) unfolding holds_def by blast
  then have "page \<noteq> 0" using zero_invalid by auto
  then show ?thesis using * v assms(1) unfolding holds_def by auto
qed

lemma holds_free:
  assumes "holds s K" "page \<in> K" "stack s < cap"
  shows "\<exists>s'. free s page = Some s' \<and> holds s' (K - {page}) \<and> pages s' = insert page (pages s)"
proof -
  obtain s' where "free s page = Some s'" "inv s'" "pages s' = insert page (pages s)"
    using free_law [of s page] assms unfolding holds_def by blast
  then show ?thesis using assms unfolding holds_def by auto
qed

lemma holds_env: "holds s K \<Longrightarrow> env s s' \<Longrightarrow> holds s' K \<and> pages s' = pages s"
  using env_law [of s s'] unfolding holds_def by auto

text \<open>A client whose pages all fit on the stack when they come back.\<close>

definition owns :: "'s \<Rightarrow> int set \<Rightarrow> bool" where
  "owns s K \<longleftrightarrow> inv s \<and> finite K \<and> K \<inter> pages s = {} \<and> (\<forall>q \<in> K. valid q) \<and> stack s + card K \<le> cap"

lemma owns_alloc:
  assumes "owns s K" "card K < cap" "alloc s = Some (page, s')" "page \<noteq> 0"
  shows "owns s' (insert page K)" "page \<notin> K" "page \<in> pages s" "pages s' = pages s - {page}"
proof -
  have *: "inv s' \<and> page \<in> pages s \<and> pages s' = pages s - {page} \<and> stack s' = stack s - 1"
    using alloc_law [of s] assms unfolding owns_def by auto
  then show "page \<notin> K" "page \<in> pages s" "pages s' = pages s - {page}"
    using assms(1) unfolding owns_def by auto
  then show "owns s' (insert page K)"
    using * assms(1,2) pages_valid [of s page] unfolding owns_def by (auto simp: card_insert_if)
qed

lemma owns_free:
  assumes "owns s K" "page \<in> K"
  shows "\<exists>s'. free s page = Some s' \<and> owns s' (K - {page}) \<and> pages s' = insert page (pages s)"
proof -
  have "card K > 0" using assms unfolding owns_def by (auto simp: card_gt_0_iff)
  then have "stack s < cap" using assms(1) unfolding owns_def by simp
  then obtain s' where "free s page = Some s' \<and> inv s' \<and> pages s' = insert page (pages s)
      \<and> stack s' = stack s + 1"
    using free_law [of s page] assms unfolding owns_def by blast
  then show ?thesis using assms \<open>card K > 0\<close> unfolding owns_def by (auto simp: card_Diff_singleton_if)
qed

lemma owns_env: "owns s K \<Longrightarrow> env s s' \<Longrightarrow> owns s' K \<and> pages s' = pages s"
  using env_law [of s s'] unfolding owns_def by auto

end

definition page_valid :: "int \<Rightarrow> bool" where
  "page_valid q \<longleftrightarrow> q mod 4096 = 0 \<and> 4096 \<le> q \<and> q < 2 ^ 62"

definition outside_pmm :: "int \<Rightarrow> machine \<Rightarrow> machine \<Rightarrow> bool" where
  "outside_pmm p s s' \<longleftrightarrow> (\<forall>a \<in> pmm_area s p. mem s' a = mem s a)"

lemma pmm_inv_frame: "pmm_inv s p \<Longrightarrow> outside_pmm p s s' \<Longrightarrow>
    pmm_inv s' p \<and> pmm_pages s' p = pmm_pages s p \<and> pmm_view s' p = pmm_view s p"
  using pmm_frame [of s p s'] unfolding pmm_inv_def outside_pmm_def by auto

interpretation page: page_allocator "\<lambda>s. pmm_inv s p" "\<lambda>s. pmm_pages s p"
  "\<lambda>s. length (recycled (pmm_view s p))" 2048 page_valid "\<lambda>s. pmm_alloc_page s p"
  "\<lambda>s. pmm_free_page s p" "outside_pmm p"
proof unfold_locales
  fix s page s'
  assume "pmm_inv s p"
  note inv = this
  show "(pmm_pages s p = {} \<and> pmm_alloc_page s p = Some (0, s)) \<or>
      (\<exists>page s'. pmm_alloc_page s p = Some (page, s') \<and> pmm_inv s' p \<and> page \<in> pmm_pages s p
        \<and> pmm_pages s' p = pmm_pages s p - {page}
        \<and> length (recycled (pmm_view s' p)) = length (recycled (pmm_view s p)) - 1)"
    using pmm_alloc_page_contract [OF inv] by blast
  show "\<exists>s'. pmm_free_page s p page = Some s' \<and> pmm_inv s' p \<and> pmm_pages s' p = insert page (pmm_pages s p)
      \<and> length (recycled (pmm_view s' p)) = length (recycled (pmm_view s p)) + 1"
    if "page_valid page" "page \<notin> pmm_pages s p" "length (recycled (pmm_view s p)) < 2048"
    using pmm_free_page_contract(2) [OF inv, of page] that by (auto simp: page_valid_def)
  show "pmm_inv s' p \<and> pmm_pages s' p = pmm_pages s p
      \<and> length (recycled (pmm_view s' p)) = length (recycled (pmm_view s p))" if "outside_pmm p s s'"
    using pmm_inv_frame [OF inv that] by simp
  show "page_valid page" if "page \<in> pmm_pages s p"
    using inv that pmm_ok_pages unfolding pmm_inv_def pmm_pages_def page_valid_def by blast
qed (simp add: page_valid_def)

end
