(* ===== verification/PmmInit.thy ===== *)
theory PmmInit
  imports Pmm
begin

text \<open>
  Whole runs of the page allocator and its initialisation from the boot memory map.
\<close>

section \<open>Clients of the allocator\<close>

text \<open>
  A run: the kernel allocates pages and frees pages it holds, in any order, with arbitrary writes
  outside the allocator's own blocks in between.  \<open>K\<close> is the set of pages held.
\<close>

inductive pmm_run :: "int \<Rightarrow> machine \<Rightarrow> machine \<Rightarrow> int set \<Rightarrow> bool" for p s0 where
  run_start: "pmm_run p s0 s0 {}"
| run_alloc: "pmm_run p s0 s K \<Longrightarrow> pmm_alloc_page s p = Some (page, s') \<Longrightarrow>
    pmm_run p s0 s' (if page = 0 then K else insert page K)"
| run_free: "pmm_run p s0 s K \<Longrightarrow> page \<in> K \<Longrightarrow> pmm_free_page s p page = Some s' \<Longrightarrow>
    pmm_run p s0 s' (K - {page})"
| run_client: "pmm_run p s0 s K \<Longrightarrow> outside_pmm p s s' \<Longrightarrow> pmm_run p s0 s' K"

lemma pmm_stack_le:
  assumes "pmm_inv s p"
  shows "length (recycled (pmm_view s p)) \<le> 2048"
proof -
  have "load_qword s (p + 32) \<le> 2048" using assms by (simp add: pmm_inv_def pmm_layout_def)
  then show ?thesis using pmm_view_slots(3) [of s p] by linarith
qed

text \<open>A free of a held page halts on a full stack only.\<close>

lemma holds_free_page:
  assumes "page.holds p s K" "q \<in> K"
  shows "pmm_free_page s p q = None \<longleftrightarrow> length (recycled (pmm_view s p)) = 2048"
    and "pmm_free_page s p q = Some t \<Longrightarrow> page.holds p t (K - {q}) \<and> pmm_pages t p = insert q (pmm_pages s p)"
proof -
  have inv: "pmm_inv s p" "page_valid q" using assms by (auto simp: page.holds_def)
  show n: "pmm_free_page s p q = None \<longleftrightarrow> length (recycled (pmm_view s p)) = 2048"
    using pmm_free_page_contract(1) [OF inv(1), of q] inv(2) by (auto simp: page_valid_def)
  assume t: "pmm_free_page s p q = Some t"
  then have "length (recycled (pmm_view s p)) < 2048" using n pmm_stack_le [OF inv(1)] by simp
  then show "page.holds p t (K - {q}) \<and> pmm_pages t p = insert q (pmm_pages s p)"
    using page.holds_free [OF assms] t by auto
qed

lemma pmm_run_holds:
  assumes "pmm_run p s0 s K" "pmm_inv s0 p"
  shows "page.holds p s K \<and> K \<union> pmm_pages s p = pmm_pages s0 p"
  using assms
proof (induction rule: pmm_run.induct)
  case run_start
  then show ?case by (simp add: page.holds_def)
next
  case (run_alloc s K page s')
  then show ?case using page.holds_alloc [of p s K page s'] by auto
next
  case (run_free s K page s')
  then show ?case using holds_free_page(2) [of p s K page s'] by auto
next
  case (run_client s K s')
  then show ?case using page.holds_env [of p s K s'] by auto
qed

section \<open>Adding a region\<close>

lemma pmm_ok_add:
  fixes t :: int
  assumes ok: "pmm_ok a" and idx: "region_index a \<le> length (regions a)"
    and r: "x mod 4096 = 0" "y mod 4096 = 0" "4096 \<le> x" "x < y" "y < 2 ^ 62"
    and new: "set (page_list (x, y)) \<inter> set (free_list a) = {}"
  defines "a' \<equiv> a\<lparr>regions := regions a @ [(x, y)], total_pages := t, free_pages := free_pages a + (y - x) div 4096\<rparr>"
  shows "pmm_ok a'" "set (free_list a') = set (page_list (x, y)) \<union> set (free_list a)"
proof -
  have d: "distinct (page_list (x, y))" by (auto simp: page_list_def distinct_map inj_on_def)
  have l: "int (length (page_list (x, y))) = (y - x) div 4096" using r by (simp add: page_list_def)
  have f: "free_list a' = free_list a @ page_list (x, y)" by (simp add: a'_def free_list_def)
  then show "set (free_list a') = set (page_list (x, y)) \<union> set (free_list a)" by auto
  have "distinct (free_list a')" "free_pages a' = int (length (free_list a'))"
    using ok d l new unfolding f pmm_ok_def by (auto simp: a'_def)
  then show "pmm_ok a'" using ok r idx unfolding pmm_ok_def by (auto simp: a'_def nth_append)
qed

lemma pmm_append_region:
  assumes L: "pmm_layout s p" and n: "load_qword s (p + 8) < 64" and xy: "in64 x" "in64 y"
  defines "n \<equiv> load_qword s (p + 8)" and "t \<equiv> load_qword s p"
  defines "s' \<equiv> put_qword (put_qword (put_qword s (t + n * 16) x) (t + n * 16 + 8) y) (p + 8) (n + 1)"
  shows "pmm_layout s' p"
    and "pmm_view s' p = (pmm_view s p)\<lparr>regions := regions (pmm_view s p) @ [(x, y)]\<rparr>"
proof -
  define s1 where "s1 = put_qword (put_qword s (t + n * 16) x) (t + n * 16 + 8) y"
  have n64: "0 \<le> n" "n < 64" "in64 (n + 1)" using L n unfolding pmm_layout_def n_def in64_def by auto
  note v1 = pmm_put_region [OF L n64(1,2) xy, folded t_def, folded s1_def]
  have same: "load_qword s1 p = t" "load_qword s1 (p + 8) = n" "load_qword s1 (t + n * 16) = x"
    "load_qword s1 (t + n * 16 + 8) = y"
    using L n64 xy unfolding s1_def n_def t_def pmm_layout_def
    by (simp_all add: load_put_qword_other load_put_qword i64_id)
  have s': "s' = put_qword s1 (p + 8) (n + 1)" by (simp add: s'_def s1_def)
  have ld: "load_qword s' (p + 8) = n + 1" "\<And>b. b + 8 \<le> p + 8 \<or> p + 16 \<le> b \<Longrightarrow> load_qword s' b = load_qword s1 b"
    using n64 unfolding s' by (auto simp: load_put_qword i64_id load_put_qword_other)
  show "pmm_layout s' p" using v1(2) n64 unfolding pmm_layout_def by (simp add: ld same)
  have "nat (n + 1) = Suc (nat n)" using n64 by auto
  moreover have "pmm_layout s1 p" by (rule v1)
  ultimately have "pmm_view s' p = (pmm_view s1 p)\<lparr>regions := regions (pmm_view s1 p) @ [(x, y)]\<rparr>"
    using same n64 unfolding pmm_view_def pmm_layout_def by (simp add: ld)
  moreover have "length (regions (pmm_view s p)) = nat n" by (simp add: pmm_view_def n_def)
  then have "pmm_view s1 p = pmm_view s p" using v1(1) by (simp add: list_update_beyond)
  ultimately show "pmm_view s' p = (pmm_view s p)\<lparr>regions := regions (pmm_view s p) @ [(x, y)]\<rparr>" by simp
qed

text \<open>The state the boot loop works on: nothing handed out yet, both counters equal.\<close>

definition pmm_booting :: "machine \<Rightarrow> int \<Rightarrow> bool" where
  "pmm_booting s p \<longleftrightarrow> pmm_inv s p \<and> region_index (pmm_view s p) = 0 \<and> recycled (pmm_view s p) = []
     \<and> total_pages (pmm_view s p) = free_pages (pmm_view s p)"

lemma pmm_add_region_ok:
  assumes B: "pmm_booting s p" and n: "length (regions (pmm_view s p)) < 64"
    and r: "x mod 4096 = 0" "y mod 4096 = 0" "4096 \<le> x" "x < y" "y < 2 ^ 62"
    and new: "set (page_list (x, y)) \<inter> pmm_pages s p = {}"
  shows "\<exists>s'. pmm_add_region s p x y = Some s' \<and> pmm_booting s' p \<and> pmm_step p s s'
    \<and> pmm_pages s' p = set (page_list (x, y)) \<union> pmm_pages s p
    \<and> length (regions (pmm_view s' p)) = length (regions (pmm_view s p)) + 1"
proof -
  have L: "pmm_layout s p" and ok: "pmm_ok (pmm_view s p)"
    using B unfolding pmm_booting_def pmm_inv_def by blast+
  let ?n = "load_qword s (p + 8)" and ?t = "load_qword s p" and ?k = "(y - x) div 4096"
  let ?f = "free_pages (pmm_view s p)"
  have n64: "0 \<le> ?n" "?n < 64"
    using L n pmm_view_slots(1) [of s p] unfolding pmm_layout_def by linarith+
  have xy: "in64 x" "in64 y" using r by (auto simp: in64_def)
  define s1 where "s1 = put_qword (put_qword s (?t + ?n * 16) x) (?t + ?n * 16 + 8) y"
  define s2 where "s2 = put_qword s1 (p + 8) (?n + 1)"
  define s3 where "s3 = put_qword s2 (p + 40) (?f + ?k)"
  define s4 where "s4 = put_qword s3 (p + 48) (?f + ?k)"
  note v2 = pmm_append_region [OF L n64(2) xy, folded s1_def, folded s2_def]
  note okn = pmm_ok_add [OF ok _ r new [unfolded pmm_pages_def], of "?f + ?k"]
  have ok4: "pmm_ok ((pmm_view s p)\<lparr>regions := regions (pmm_view s p) @ [(x, y)], total_pages := ?f + ?k,
      free_pages := ?f + ?k\<rparr>)"
    and set4: "set (free_list ((pmm_view s p)\<lparr>regions := regions (pmm_view s p) @ [(x, y)], total_pages := ?f + ?k,
      free_pages := ?f + ?k\<rparr>)) = set (page_list (x, y)) \<union> pmm_pages s p"
    using okn B unfolding pmm_booting_def pmm_pages_def by simp_all
  have fk: "in64 (?f + ?k)" using pmm_ok_count [OF ok4] ok4 unfolding pmm_ok_def in64_def by simp
  note v3 = pmm_put_slot(2) [OF v2(1) fk, folded s3_def]
  note v4 = pmm_put_slot(3) [OF v3 [THEN conjunct1] fk, folded s4_def]
  have view: "pmm_view s4 p = (pmm_view s p)\<lparr>regions := regions (pmm_view s p) @ [(x, y)],
      total_pages := ?f + ?k, free_pages := ?f + ?k\<rparr>"
    using v2 v3 v4 by simp
  have "pmm_step p s s1" using pmm_step_region [OF L n64] by (simp add: s1_def)
  also have "pmm_step p s1 s2" unfolding s2_def
    by (rule pmm_step_slot) (use pmm_put_region [OF L n64 xy] in \<open>simp_all add: s1_def\<close>)
  also have "pmm_step p s2 s3" unfolding s3_def by (rule pmm_step_slot [OF v2(1)]) simp
  also have "pmm_step p s3 s4" unfolding s4_def by (rule pmm_step_slot [OF v3 [THEN conjunct1]]) simp
  finally have step: "pmm_step p s s4" .
  have k: "?k \<noteq> 0" "drop_bit 12 (y - x) = ?k"
    using aligned_gap [OF r(1,2,4)] by (simp_all add: mask_simps)
  have "load_qword s2 (p + 40) = ?f" "load_qword s3 (p + 48) = ?f"
    using B v2(2) v3 unfolding pmm_booting_def by (simp_all add: pmm_view_slots)
  moreover have "pmm_layout s1 p" using pmm_put_region(2) [OF L n64 xy] by (simp add: s1_def)
  ultimately have "pmm_add_region s p x y = Some s4"
    using r(4) k n64 pmm_state_access [OF L] pmm_set_region [OF L n64] pmm_state_access [of s1 p]
      pmm_state_access [OF v2(1)] pmm_state_access [OF v3 [THEN conjunct1]]
    by (simp add: pmm_add_region_def Let_def s1_def [symmetric] s2_def [symmetric] s3_def [symmetric] s4_def)
  then show ?thesis
    using B step ok4 set4 v4 [THEN conjunct1] unfolding pmm_booting_def pmm_inv_def pmm_pages_def view
    by (auto simp: view)
qed

section \<open>Initialisation from the boot memory map\<close>

text \<open>
  Entry \<open>i\<close> of the memory map at \<open>mp\<close>: base, length and type.  A page is usable when it lies
  whole in a conventional-memory entry, at or above one mebibyte, and outside the kernel image.
\<close>

definition mmap_base :: "machine \<Rightarrow> int \<Rightarrow> int \<Rightarrow> int" where
  "mmap_base s mp i = load_qword s (mp + i * 32)"

definition mmap_len :: "machine \<Rightarrow> int \<Rightarrow> int \<Rightarrow> int" where
  "mmap_len s mp i = load_qword s (mp + i * 32 + 8)"

definition mmap_type :: "machine \<Rightarrow> int \<Rightarrow> int \<Rightarrow> int" where
  "mmap_type s mp i = load_qword s (mp + i * 32 + 16)"

definition usable_pages :: "int \<Rightarrow> int \<Rightarrow> int \<Rightarrow> int \<Rightarrow> int \<Rightarrow> int set" where
  "usable_pages base len typ ks ke =
     (if typ = 7 then {q. q mod 4096 = 0 \<and> 0x100000 \<le> q \<and> base \<le> q \<and> q + 4096 \<le> base + len
        \<and> \<not> (ks \<le> q \<and> q < ke)} else {})"

lemma align_up_bounds: "x \<le> align_up x 4096" "align_up x 4096 < x + 4096" "align_up x 4096 mod 4096 = 0"
  by (simp_all add: mask_simps)

lemma align_down_bounds: "align_down x 4096 \<le> x" "x < align_down x 4096 + 4096" "align_down x 4096 mod 4096 = 0"
  by (simp_all add: mask_simps)

lemma align_le_iff:
  assumes "q mod 4096 = 0"
  shows "align_up b 4096 \<le> q \<longleftrightarrow> b \<le> q" "q < align_down e 4096 \<longleftrightarrow> q + 4096 \<le> e"
  using align_up_bounds [of b] align_down_bounds [of e] assms
    aligned_gap [of q 4096 "align_up b 4096"] aligned_gap [of q 4096 "align_down e 4096"]
    aligned_gap [of "align_down e 4096" 4096 "q + 4096"]
  by fastforce+


text \<open>\<open>pmm_grows p s s' P k\<close>: the boot loop went from \<open>s\<close> to \<open>s'\<close> adding the pages \<open>P\<close> in \<open>k\<close> regions.\<close>

definition pmm_grows :: "int \<Rightarrow> machine \<Rightarrow> machine \<Rightarrow> int set \<Rightarrow> nat \<Rightarrow> bool" where
  "pmm_grows p s s' P k \<longleftrightarrow> pmm_booting s' p \<and> pmm_step p s s' \<and> pmm_pages s' p = P \<union> pmm_pages s p
     \<and> length (regions (pmm_view s' p)) = length (regions (pmm_view s p)) + k"

lemma pmm_grows_refl: "pmm_booting s p \<Longrightarrow> pmm_grows p s s {} 0"
  by (simp add: pmm_grows_def)

lemma pmm_grows_trans:
  "pmm_grows p s t P j \<Longrightarrow> pmm_grows p t u Q k \<Longrightarrow> pmm_grows p s u (P \<union> Q) (j + k)"
  unfolding pmm_grows_def using pmm_step_trans by fastforce

text \<open>The table has 64 places; the next region halts the kernel.\<close>

definition grown :: "int \<Rightarrow> machine \<Rightarrow> machine option \<Rightarrow> int set \<Rightarrow> nat \<Rightarrow> bool" where
  "grown p s r P k \<longleftrightarrow> (if length (regions (pmm_view s p)) + k \<le> 64 then \<exists>s'. r = Some s' \<and> pmm_grows p s s' P k else r = None)"

lemma pmm_add_region_grows:
  assumes B: "pmm_booting s p"
    and r: "x mod 4096 = 0" "y mod 4096 = 0" "4096 \<le> x" "y < 2 ^ 62"
    and new: "{q. x \<le> q \<and> q < y \<and> q mod 4096 = 0} \<inter> pmm_pages s p = {}"
  shows "grown p s (pmm_add_region s p x y) {q. x \<le> q \<and> q < y \<and> q mod 4096 = 0} (if x < y then 1 else 0)"
proof (cases "x < y")
  case True
  have L: "pmm_layout s p" using B by (simp add: pmm_booting_def pmm_inv_def)
  show ?thesis
  proof (cases "length (regions (pmm_view s p)) < 64")
    case small: True
    then show ?thesis
      using pmm_add_region_ok [OF B small r(1-3) True r(4)] new set_page_list [OF r(1,2)] True
      by (auto simp: pmm_grows_def grown_def)
  next
    case False
    have "drop_bit 12 (y - x) \<noteq> 0" using aligned_gap [OF r(1,2) True] by (simp add: mask_simps)
    moreover have "64 \<le> load_qword s (p + 8)" using False pmm_view_slots(1) [of s p] by linarith
    ultimately have "pmm_add_region s p x y = None"
      using True pmm_state_access(1) [OF L, of 1] by (simp add: pmm_add_region_def Let_def)
    then show ?thesis using False True by (simp add: grown_def)
  qed
next
  case False
  then have *: "{q. x \<le> q \<and> q < y \<and> q mod 4096 = 0} = {}" by auto
  have "length (regions (pmm_view s p)) \<le> 64"
    using B pmm_view_slots(1) [of s p] by (auto simp: pmm_booting_def pmm_inv_def pmm_layout_def)
  then show ?thesis using False pmm_grows_refl [OF B] unfolding * by (simp add: pmm_add_region_def grown_def)
qed

text \<open>The regions a set of pages takes when it is cut at the kernel image.\<close>

definition page_runs :: "int set \<Rightarrow> int \<Rightarrow> nat" where
  "page_runs P ks = (if \<exists>q \<in> P. q < ks then 1 else 0) + (if \<exists>q \<in> P. ks \<le> q then 1 else 0)"

lemma page_runs_one: "x \<in> E \<Longrightarrow> (\<forall>q \<in> E. q < ks) \<or> (\<forall>q \<in> E. ks \<le> q) \<Longrightarrow> page_runs E ks = 1"
  unfolding page_runs_def by (elim disjE) (force simp: not_le [symmetric] simp del: not_le)+

text \<open>What \<open>init_pmm\<close> relies on the loader for, entry by entry.\<close>

definition mmap_entry_ok :: "machine \<Rightarrow> int \<Rightarrow> int \<Rightarrow> bool" where
  "mmap_entry_ok s mp i \<longleftrightarrow> 0 \<le> mmap_base s mp i \<and> 0 \<le> mmap_len s mp i
     \<and> mmap_base s mp i + mmap_len s mp i < 2 ^ 62"

abbreviation entry_pages :: "machine \<Rightarrow> int \<Rightarrow> int \<Rightarrow> int \<Rightarrow> int \<Rightarrow> int set" where
  "entry_pages s mp ks ke i \<equiv> usable_pages (mmap_base s mp i) (mmap_len s mp i) (mmap_type s mp i) ks ke"

lemma pmm_two_regions:
  assumes B: "pmm_booting s p"
    and r: "x mod 4096 = 0" "ks mod 4096 = 0" "ke mod 4096 = 0" "y mod 4096 = 0" "4096 \<le> x" "x < ks"
      "ks \<le> ke" "ke < 2 ^ 62" "y < 2 ^ 62" "ks < y"
    and new: "{q. x \<le> q \<and> q < y \<and> q mod 4096 = 0 \<and> \<not> (ks \<le> q \<and> q < ke)} \<inter> pmm_pages s p = {}"
  shows "grown p s (do { s \<leftarrow> pmm_add_region s p x ks; pmm_add_region s p ke y })
    {q. x \<le> q \<and> q < y \<and> q mod 4096 = 0 \<and> \<not> (ks \<le> q \<and> q < ke)} (if ke < y then 2 else 1)"
proof -
  let ?P = "{q. x \<le> q \<and> q < ks \<and> q mod 4096 = 0}" and ?Q = "{q. ke \<le> q \<and> q < y \<and> q mod 4096 = 0}"
  have PQ: "?P \<union> ?Q = {q. x \<le> q \<and> q < y \<and> q mod 4096 = 0 \<and> \<not> (ks \<le> q \<and> q < ke)}" using r by auto
  have disj: "?P \<inter> pmm_pages s p = {}" "?Q \<inter> pmm_pages s p = {}"
    using new [folded PQ] by (simp_all only: Int_Un_distrib2 Un_empty)
  have "ks < 2 ^ 62" using r(7,8) by simp
  note g1 = pmm_add_region_grows [OF B r(1,2,5) this disj(1), unfolded grown_def]
  show ?thesis
  proof (cases "length (regions (pmm_view s p)) + 1 \<le> 64")
    case False
    then have "pmm_add_region s p x ks = None" using g1 r(6) by simp
    then show ?thesis using False by (simp add: grown_def)
  next
    case True
    then obtain s1 where s1: "pmm_add_region s p x ks = Some s1" "pmm_grows p s s1 ?P 1" using g1 r(6) by auto
    have "?Q \<inter> ?P = {}" using r by auto
    then have q: "?Q \<inter> pmm_pages s1 p = {}"
      using s1(2) disj unfolding pmm_grows_def by (simp only: Int_Un_distrib Un_empty simp_thms)
    have b1: "pmm_booting s1 p" "length (regions (pmm_view s1 p)) = length (regions (pmm_view s p)) + 1"
      using s1(2) unfolding pmm_grows_def by auto
    have "4096 \<le> ke" using r(5-7) by simp
    note g2 = pmm_add_region_grows [OF b1(1) r(3,4) this r(9) q, unfolded grown_def b1(2)]
    have sum: "length (regions (pmm_view s p)) + 1 + (if ke < y then 1 else 0) = length (regions (pmm_view s p)) + (if ke < y then 2 else 1)"
      "1 + (if ke < y then 1 else 0) = (if ke < y then 2 else (1 :: nat))" by simp_all
    show ?thesis
    proof (cases "length (regions (pmm_view s p)) + (if ke < y then 2 else 1) \<le> 64")
      case room: True
      then obtain s2 where s2: "pmm_add_region s1 p ke y = Some s2" "pmm_grows p s1 s2 ?Q (if ke < y then 1 else 0)"
        using g2 unfolding sum(1) by (simp only: if_True) blast
      show ?thesis using room s1(1) s2(1) pmm_grows_trans [OF s1(2) s2(2), unfolded PQ sum(2)]
        by (simp only: grown_def if_True bind.bind_lunit) blast
    next
      case full: False
      then have "pmm_add_region s1 p ke y = None" using g2 unfolding sum(1) by (simp only: if_False)
      then show ?thesis using full s1(1) by (simp add: grown_def)
    qed
  qed
qed

lemma add_region_guard: "(if x < y then pmm_add_region s p x y else Some s) = pmm_add_region s p x y"
  by (simp add: pmm_add_region_def)

lemma init_pmm_entry_ok:
  assumes B: "pmm_booting s p"
    and e: "mmap_entry_ok s mp i" and mp: "qword_ptr mp" "0 \<le> i" "0 < mp"
    and k: "ks mod 4096 = 0" "ke mod 4096 = 0" "ks \<le> ke" "ke < 2 ^ 62"
    and new: "entry_pages s mp ks ke i \<inter> pmm_pages s p = {}"
  shows "grown p s (init_pmm_entry p mp ks ke i s) (entry_pages s mp ks ke i) (page_runs (entry_pages s mp ks ke i) ks)"
proof -
  let ?b = "mmap_base s mp i" and ?l = "mmap_len s mp i" and ?t = "mmap_type s mp i"
  define x where "x = max (align_up ?b 4096) 0x100000"
  define y where "y = align_down (?b + ?l) 4096"
  have ptr: "qword_ptr (mp + i * 32)" using qword_ptr_shift [of mp "i * 2"] mp by (simp add: mult.commute [of i])
  have sum: "i64 (?b + ?l) = ?b + ?l" using e by (intro i64_id) (auto simp: mmap_entry_ok_def in64_def)
  have xy: "x mod 4096 = 0" "y mod 4096 = 0" "4096 \<le> x" "y < 2 ^ 62" "0x100000 \<le> x"
    using align_up_bounds [of ?b] align_down_bounds [of "?b + ?l"] e
    by (auto simp: x_def y_def max_def mmap_entry_ok_def)
  have q: "x \<le> q \<and> q < y \<longleftrightarrow> 0x100000 \<le> q \<and> ?b \<le> q \<and> q + 4096 \<le> ?b + ?l" if "q mod 4096 = 0" for q
    using align_le_iff(1) [OF that, of ?b] align_le_iff(2) [OF that, of "?b + ?l"] by (auto simp: x_def y_def)
  have P: "entry_pages s mp ks ke i =
      (if ?t = 7 then {q. x \<le> q \<and> q < y \<and> q mod 4096 = 0 \<and> \<not> (ks \<le> q \<and> q < ke)} else {})"
  proof -
    have "q mod 4096 = 0 \<and> 0x100000 \<le> q \<and> ?b \<le> q \<and> q + 4096 \<le> ?b + ?l \<and> \<not> (ks \<le> q \<and> q < ke) \<longleftrightarrow>
      x \<le> q \<and> q < y \<and> q mod 4096 = 0 \<and> \<not> (ks \<le> q \<and> q < ke)" for q
      by (cases "q mod 4096 = 0") (use q [of q] in auto)
    then show ?thesis unfolding usable_pages_def by presburger
  qed
  have body: "init_pmm_entry p mp ks ke i s =
     (if ?t = 7 \<and> ?l \<noteq> 0 \<and> y > 0x100000 then
        if x < ks \<and> ks < y then do { s \<leftarrow> pmm_add_region s p x ks; pmm_add_region s p ke y }
        else pmm_add_region s p (if ks \<le> x \<and> x < ke then ke else x) y
      else Some s)"
    using ptr sum
    by (auto simp: init_pmm_entry_def load_qword_region_eq mmap_base_def mmap_len_def mmap_type_def
        Let_def y_def x_def max_def add_region_guard split: if_splits)
  consider (skip) "\<not> (?t = 7 \<and> ?l \<noteq> 0 \<and> y > 0x100000)"
    | (two) "?t = 7" "?l \<noteq> 0" "y > 0x100000" "x < ks \<and> ks < y"
    | (one) "?t = 7" "?l \<noteq> 0" "y > 0x100000" "\<not> (x < ks \<and> ks < y)" by blast
  then show ?thesis
  proof cases
    case skip
    have "entry_pages s mp ks ke i = {}" if "?l = 0" using that by (auto simp: usable_pages_def)
    moreover have "entry_pages s mp ks ke i = {}" if "?t \<noteq> 7 \<or> y \<le> 0x100000"
      using that xy(5) unfolding P by auto
    ultimately have "entry_pages s mp ks ke i = {}" using skip by linarith
    moreover have "length (regions (pmm_view s p)) \<le> 64"
      using B pmm_view_slots(1) [of s p] by (auto simp: pmm_booting_def pmm_inv_def pmm_layout_def)
    moreover have "init_pmm_entry p mp ks ke i s = Some s" unfolding body using skip by presburger
    ultimately show ?thesis using pmm_grows_refl [OF B] by (simp add: grown_def page_runs_def)
  next
    case two
    let ?E = "{q. x \<le> q \<and> q < y \<and> q mod 4096 = 0 \<and> \<not> (ks \<le> q \<and> q < ke)}"
    have E: "entry_pages s mp ks ke i = ?E" using two(1) unfolding P by simp
    have in_E: "x \<in> ?E" "ke < y \<Longrightarrow> ke \<in> ?E" using two(4) xy(1) k by auto
    have low: "\<exists>q \<in> ?E. q < ks" by (rule bexI [OF _ in_E(1)]) (use two(4) in simp)
    have high: "(\<exists>q \<in> ?E. ks \<le> q) \<longleftrightarrow> ke < y"
    proof
      assume "ke < y"
      from in_E(2) [OF this] show "\<exists>q \<in> ?E. ks \<le> q" by (rule bexI [rotated]) (rule k(3))
    qed auto
    have "page_runs ?E ks = (if ke < y then 2 else 1)" unfolding page_runs_def high using low by (simp only: if_True if_distrib) simp
    moreover have "x < ks" "ks < y" using two(4) by simp_all
    ultimately show ?thesis
      using pmm_two_regions [OF B xy(1) k(1,2) xy(2,3) _ k(3,4) xy(4)] new two unfolding E body by simp
  next
    case one
    let ?x = "if ks \<le> x \<and> x < ke then ke else x"
    have eq: "{q. x \<le> q \<and> q < y \<and> q mod 4096 = 0 \<and> \<not> (ks \<le> q \<and> q < ke)}
        = {q. ?x \<le> q \<and> q < y \<and> q mod 4096 = 0}"
      using one k(3) by auto
    let ?E = "{q. ?x \<le> q \<and> q < y \<and> q mod 4096 = 0}"
    have E: "entry_pages s mp ks ke i = ?E" using one(1) unfolding P eq by simp
    have x: "?x mod 4096 = 0" "4096 \<le> ?x" using xy k by auto
    have "page_runs ?E ks = (if ?x < y then 1 else 0)"
    proof (cases "?x < y")
      case True
      then have "?x \<in> ?E" using x by simp
      moreover have "(\<forall>q \<in> ?E. q < ks) \<or> (\<forall>q \<in> ?E. ks \<le> q)" using one(4) k(3) by auto
      ultimately have "page_runs ?E ks = 1" by (rule page_runs_one)
      then show ?thesis using True by simp
    next
      case False
      then have "?E = {}" by auto
      then show ?thesis using False unfolding page_runs_def by simp
    qed
    moreover have "init_pmm_entry p mp ks ke i s = pmm_add_region s p ?x y" unfolding body using one by presburger
    ultimately show ?thesis
      using pmm_add_region_grows [OF B x(1) xy(2) x(2) xy(4)] new unfolding E by (simp only:)
  qed
qed

lemma writes_in_mmap:
  assumes "writes_in A s s'" "{mp + i * 32..<mp + i * 32 + 32} \<inter> A = {}"
  shows "mmap_base s' mp i = mmap_base s mp i" "mmap_len s' mp i = mmap_len s mp i"
    "mmap_type s' mp i = mmap_type s mp i"
  unfolding mmap_base_def mmap_len_def mmap_type_def
  by (auto intro!: writes_in_load [OF assms(1)] interval_disjoint [OF assms(2)])

text \<open>The boot loop over a map with disjoint usable pages.\<close>

lemma init_pmm_loop_step:
  assumes g: "pmm_grows p s t (\<Union>j \<in> {0..<i}. entry_pages s mp ks ke j) (\<Sum>j \<in> {0..<i}. page_runs (entry_pages s mp ks ke j) ks)"
    and empty: "regions (pmm_view s p) = []" "pmm_pages s p = {}" and i: "0 \<le> i" "i < n" and mp: "qword_ptr mp" "0 < mp"
    and sep: "{mp..<mp + n * 32} \<inter> pmm_area s p = {}" and e: "mmap_entry_ok s mp i"
    and k: "ks mod 4096 = 0" "ke mod 4096 = 0" "ks \<le> ke" "ke < 2 ^ 62"
    and disj: "\<And>j. 0 \<le> j \<Longrightarrow> j < i \<Longrightarrow> entry_pages s mp ks ke j \<inter> entry_pages s mp ks ke i = {}"
  shows "if (\<Sum>j \<in> {0..<i + 1}. page_runs (entry_pages s mp ks ke j) ks) \<le> 64
    then \<exists>t'. init_pmm_entry p mp ks ke i t = Some t' \<and> pmm_grows p s t' (\<Union>j \<in> {0..<i + 1}. entry_pages s mp ks ke j)
      (\<Sum>j \<in> {0..<i + 1}. page_runs (entry_pages s mp ks ke j) ks)
    else init_pmm_entry p mp ks ke i t = None"
proof -
  let ?U = "\<lambda>i. \<Union>j \<in> {0..<i}. entry_pages s mp ks ke j" and ?R = "\<lambda>i. \<Sum>j \<in> {0..<i}. page_runs (entry_pages s mp ks ke j) ks"
  have "{mp + i * 32..<mp + i * 32 + 32} \<subseteq> {mp..<mp + n * 32}" using i by auto
  then have same: "mmap_base t mp i = mmap_base s mp i" "mmap_len t mp i = mmap_len s mp i"
      "mmap_type t mp i = mmap_type s mp i"
    using g sep unfolding pmm_grows_def pmm_step_def by (blast intro: writes_in_mmap)+
  have "entry_pages s mp ks ke i \<inter> ?U i = {}" using disj i by fastforce
  then have new: "entry_pages t mp ks ke i \<inter> pmm_pages t p = {}"
    using g empty(2) unfolding pmm_grows_def same by simp
  have ok: "mmap_entry_ok t mp i" using e unfolding mmap_entry_ok_def same .
  have ins: "{0..<i + 1} = insert i {0..<i}" using i by auto
  have U: "?U i \<union> entry_pages s mp ks ke i = ?U (i + 1)" unfolding ins by auto
  have R: "?R i + page_runs (entry_pages s mp ks ke i) ks = ?R (i + 1)" unfolding ins by simp
  have len: "length (regions (pmm_view t p)) = ?R i" and B: "pmm_booting t p" using g empty(1) by (simp_all add: pmm_grows_def)
  from init_pmm_entry_ok [OF B ok mp(1) i(1) mp(2) k new, unfolded same grown_def len R]
  show ?thesis using pmm_grows_trans [OF g, of _ "entry_pages s mp ks ke i"] unfolding U R [symmetric] by (auto split: if_splits)
qed

lemma init_pmm_loop:
  assumes B: "pmm_booting s p" and empty: "regions (pmm_view s p) = []"
    and n: "0 \<le> n" and mp: "qword_ptr mp" "0 < mp"
    and sep: "{mp..<mp + n * 32} \<inter> pmm_area s p = {}"
    and e: "\<And>i. 0 \<le> i \<Longrightarrow> i < n \<Longrightarrow> mmap_entry_ok s mp i"
    and k: "ks mod 4096 = 0" "ke mod 4096 = 0" "ks \<le> ke" "ke < 2 ^ 62"
    and disj: "\<And>i j. 0 \<le> i \<Longrightarrow> i < j \<Longrightarrow> j < n \<Longrightarrow> entry_pages s mp ks ke i \<inter> entry_pages s mp ks ke j = {}"
  shows "if (\<Sum>j \<in> {0..<n}. page_runs (entry_pages s mp ks ke j) ks) \<le> 64
    then \<exists>s'. for_range 0 n (init_pmm_entry p mp ks ke) s = Some s' \<and> pmm_booting s' p \<and> pmm_step p s s'
      \<and> pmm_pages s' p = (\<Union>i \<in> {0..<n}. entry_pages s mp ks ke i)
      \<and> length (regions (pmm_view s' p)) = (\<Sum>j \<in> {0..<n}. page_runs (entry_pages s mp ks ke j) ks)
    else for_range 0 n (init_pmm_entry p mp ks ke) s = None"
proof -
  let ?U = "\<lambda>i. \<Union>j \<in> {0..<i}. entry_pages s mp ks ke j" and ?R = "\<lambda>i. \<Sum>j \<in> {0..<i}. page_runs (entry_pages s mp ks ke j) ks"
  have none: "pmm_pages s p = {}"
    using B empty by (simp add: pmm_booting_def pmm_pages_def free_list_def)
  note step = init_pmm_loop_step [OF _ empty none _ _ mp sep e k disj]
  have start: "pmm_grows p s s (?U 0) (?R 0)" using pmm_grows_refl [OF B] by simp
  show ?thesis
  proof (cases "?R n \<le> 64")
    case True
    have "\<exists>s'. for_range 0 n (init_pmm_entry p mp ks ke) s = Some s' \<and> pmm_grows p s s' (?U n) (?R n)"
    proof (rule for_range_total [where P = "\<lambda>i t. pmm_grows p s t (?U i) (?R i)", OF n start])
      fix i t assume i: "0 \<le> i" "i < n" "pmm_grows p s t (?U i) (?R i)"
      have "?R (i + 1) \<le> ?R n" using i by (intro sum_mono2) auto
      then show "\<exists>t'. init_pmm_entry p mp ks ke i t = Some t' \<and> pmm_grows p s t' (?U (i + 1)) (?R (i + 1))"
        using step [OF i(3,1,2)] i True by (simp split: if_splits)
    qed
    then show ?thesis using True none empty by (auto simp: pmm_grows_def)
  next
    case False
    have "\<not> (\<exists>s'. for_range 0 n (init_pmm_entry p mp ks ke) s = Some s')"
    proof
      assume "\<exists>s'. for_range 0 n (init_pmm_entry p mp ks ke) s = Some s'"
      then obtain s' where s': "for_range 0 n (init_pmm_entry p mp ks ke) s = Some s'" by blast
      have "pmm_grows p s s' (?U n) (?R n)"
      proof (rule for_range_inv [where P = "\<lambda>i t. pmm_grows p s t (?U i) (?R i)", OF s' start n])
        fix i t t' assume i: "0 \<le> i" "i < n" "pmm_grows p s t (?U i) (?R i)" "init_pmm_entry p mp ks ke i t = Some t'"
        then show "pmm_grows p s t' (?U (i + 1)) (?R (i + 1))" using step [OF i(3,1,2)] i by (simp split: if_splits)
      qed
      then have b: "pmm_layout s' p" "length (regions (pmm_view s' p)) = ?R n"
        using empty by (simp_all add: pmm_grows_def pmm_booting_def pmm_inv_def)
      then have "load_qword s' (p + 8) \<le> 64" by (simp add: pmm_layout_def)
      then show False using False b(2) pmm_view_slots(1) [of s' p] by linarith
    qed
    then show ?thesis using False by simp
  qed
qed

text \<open>What the loader hands to \<open>init_pmm\<close> at \<open>bp\<close>.\<close>

definition boot_ok :: "machine \<Rightarrow> int \<Rightarrow> bool" where
  "boot_ok s bp \<longleftrightarrow>
     (let mp = load_qword s (bp + 24); n = load_qword s (bp + 32);
          ks = align_down (load_qword s (bp + 104)) 4096; ke = align_up (load_qword s (bp + 112)) 4096;
          heap = {heap_ptr s..<heap_ptr s + 17472}
      in 0 < heap_ptr s \<and> heap_ptr s mod 16 = 0 \<and> heap_ptr s + 17472 \<le> heap_end s \<and> heap_end s < 2 ^ 62
       \<and> qword_ptr bp \<and> qword_ptr mp \<and> 0 < mp \<and> 1 \<le> n
       \<and> {mp..<mp + n * 32} \<inter> heap = {} \<and> ks \<le> ke \<and> ke < 2 ^ 62
       \<and> (\<forall>i \<in> {0..<n}. mmap_entry_ok s mp i)
       \<and> (\<forall>j \<in> {0..<n}. \<forall>i \<in> {0..<j}. entry_pages s mp ks ke i \<inter> entry_pages s mp ks ke j = {}))"

definition boot_pages :: "machine \<Rightarrow> int \<Rightarrow> int set" where
  "boot_pages s bp =
     (let mp = load_qword s (bp + 24);
          ks = align_down (load_qword s (bp + 104)) 4096; ke = align_up (load_qword s (bp + 112)) 4096
      in \<Union>i \<in> {0..<load_qword s (bp + 32)}. entry_pages s mp ks ke i)"

text \<open>The entries of the region table the memory map needs.\<close>

definition boot_regions :: "machine \<Rightarrow> int \<Rightarrow> nat" where
  "boot_regions s bp =
     (let mp = load_qword s (bp + 24);
          ks = align_down (load_qword s (bp + 104)) 4096; ke = align_up (load_qword s (bp + 112)) 4096
      in \<Sum>i \<in> {0..<load_qword s (bp + 32)}. page_runs (entry_pages s mp ks ke i) ks)"

text \<open>The three fresh blocks, empty.\<close>

lemma init_pmm_blocks:
  fixes s :: machine
  assumes h: "0 < p" "p mod 16 = 0" "p < 2 ^ 62"
  defines "s0 \<equiv> put_qword (put_qword (put_qword (put_qword (put_qword (put_qword (put_qword s
      (p + 0) (p + 64)) (p + 8) 0) (p + 16) 0) (p + 24) (p + 1088)) (p + 32) 0) (p + 40) 0) (p + 48) 0"
  shows "pmm_booting s0 p" "regions (pmm_view s0 p) = []" "pmm_area s0 p \<subseteq> {p..<p + 17472}"
    "writes_in {p..<p + 17472} s s0"
proof -
  have p64: "in64 (p + 64)" "in64 (p + 1088)" using h by (auto simp: in64_def)
  have ld: "load_qword s0 p = p + 64" "load_qword s0 (p + 8) = 0" "load_qword s0 (p + 16) = 0"
    "load_qword s0 (p + 24) = p + 1088" "load_qword s0 (p + 32) = 0" "load_qword s0 (p + 40) = 0"
    "load_qword s0 (p + 48) = 0"
    using p64 i64_id [of 0] unfolding s0_def by (simp_all add: load_put_qword_other load_put_qword i64_id in64_def)
  show "regions (pmm_view s0 p) = []" by (simp add: pmm_view_def ld)
  have q: "qword_ptr p" "qword_ptr (p + 64)" "qword_ptr (p + 1088)"
    using h unfolding qword_ptr_def by presburger+
  then show "pmm_booting s0 p"
    using h by (simp add: pmm_booting_def pmm_inv_def pmm_ok_def pmm_layout_def pmm_view_def ld free_list_def)
  show "pmm_area s0 p \<subseteq> {p..<p + 17472}" by (auto simp: pmm_area_def ld)
  show "writes_in {p..<p + 17472} s s0" unfolding s0_def
    by (intro writes_in_trans [OF _ writes_in_put]) auto
qed


lemma init_pmm_exact:
  assumes ok: "boot_ok s bp"
  shows "if boot_regions s bp \<le> 64 \<and> boot_pages s bp \<noteq> {}
    then \<exists>p s'. init_pmm s bp = Some (p, s') \<and> pmm_inv s' p \<and> recycled (pmm_view s' p) = []
      \<and> pmm_pages s' p = boot_pages s bp \<and> pmm_area s' p \<subseteq> {heap_ptr s..<heap_ptr s + 17472}
      \<and> writes_in {heap_ptr s..<heap_ptr s + 17472} (s\<lparr>heap_ptr := heap_ptr s + 17472\<rparr>) s'
    else init_pmm s bp = None"
proof -
  define mp n ks ke where "mp = load_qword s (bp + 24)" and "n = load_qword s (bp + 32)"
    and "ks = align_down (load_qword s (bp + 104)) 4096" and "ke = align_up (load_qword s (bp + 112)) 4096"
  define p where "p = heap_ptr s"
  note defs = mp_def [symmetric] n_def [symmetric] ks_def [symmetric] ke_def [symmetric] p_def [symmetric]
  note b = ok [unfolded boot_ok_def Let_def defs]
  have p: "0 < p" "p mod 16 = 0" "p < 2 ^ 62" using b by auto
  define s1 where "s1 = s\<lparr>heap_ptr := p + 17472\<rparr>"
  define s0 where "s0 = put_qword (put_qword (put_qword (put_qword (put_qword (put_qword (put_qword s1
      (p + 0) (p + 64)) (p + 8) 0) (p + 16) 0) (p + 24) (p + 1088)) (p + 32) 0) (p + 40) 0) (p + 48) 0"
  note blocks = init_pmm_blocks [OF p, of s1, folded s0_def]
  have map1: "{mp + i * 32..<mp + i * 32 + 32} \<inter> {p..<p + 17472} = {}" if "0 \<le> i" "i < n" for i
    using interval_disjoint [of mp "mp + n * 32" "{p..<p + 17472}" "mp + i * 32" "mp + i * 32 + 32"] b that
    by simp
  have same: "mmap_base s0 mp i = mmap_base s mp i" "mmap_len s0 mp i = mmap_len s mp i"
      "mmap_type s0 mp i = mmap_type s mp i" if "0 \<le> i" "i < n" for i
    using writes_in_mmap [OF blocks(4) map1 [OF that]]
    by (simp_all add: s1_def mmap_base_def mmap_len_def mmap_type_def load_qword_def)
  have k: "ks mod 4096 = 0" "ke mod 4096 = 0"
    using align_up_bounds align_down_bounds by (simp_all add: ks_def ke_def)
  have pages: "boot_pages s bp = (\<Union>i \<in> {0..<n}. entry_pages s0 mp ks ke i)"
    unfolding boot_pages_def Let_def defs using same by auto
  have runs: "boot_regions s bp = (\<Sum>i \<in> {0..<n}. page_runs (entry_pages s0 mp ks ke i) ks)"
    unfolding boot_regions_def Let_def defs using same by (intro sum.cong) auto
  have loop: "if boot_regions s bp \<le> 64
      then \<exists>s'. for_range 0 n (init_pmm_entry p mp ks ke) s0 = Some s' \<and> pmm_booting s' p \<and> pmm_step p s0 s'
        \<and> pmm_pages s' p = boot_pages s bp \<and> length (regions (pmm_view s' p)) = boot_regions s bp
      else for_range 0 n (init_pmm_entry p mp ks ke) s0 = None"
    unfolding pages runs
  proof (rule init_pmm_loop [OF blocks(1,2)])
    show "{mp..<mp + n * 32} \<inter> pmm_area s0 p = {}" using b blocks(3) by blast
    show "mmap_entry_ok s0 mp i" if "0 \<le> i" "i < n" for i
      using b that by (auto simp: mmap_entry_ok_def same)
    show "entry_pages s0 mp ks ke i \<inter> entry_pages s0 mp ks ke j = {}" if "0 \<le> i" "i < j" "j < n" for i j
      using b that same [of i] same [of j] by auto
  qed (use b k in auto)
  have alloc: "alloc_bytes s 56 = Some (p, s\<lparr>heap_ptr := p + 64\<rparr>)"
      "alloc_bytes (s\<lparr>heap_ptr := p + 64\<rparr>) 1024 = Some (p + 64, s\<lparr>heap_ptr := p + 1088\<rparr>)"
      "alloc_bytes (s\<lparr>heap_ptr := p + 1088\<rparr>) 16384 = Some (p + 1088, s1)"
    using b alloc_bytes_eq [of s 56] alloc_bytes_eq [of "s\<lparr>heap_ptr := p + 64\<rparr>" 1024]
      alloc_bytes_eq [of "s\<lparr>heap_ptr := p + 1088\<rparr>" 16384]
    by (simp_all add: round16_def s1_def defs)
  have "qword_ptr p" using blocks(1) by (simp add: pmm_booting_def pmm_inv_def pmm_layout_def)
  then have run: "init_pmm s bp = do { s' \<leftarrow> for_range 0 n (init_pmm_entry p mp ks ke) s0;
      q1 \<leftarrow> pmm_state_qword s' p 1; if q1 = 0 then panic ''pmm found no usable regions'' else Some (p, s') }"
    using b by (simp add: init_pmm_def boot_info_qword_def load_qword_region_eq set_pmm_state_qword_def
        store_qword_region_eq alloc defs s0_def)
  show ?thesis
  proof (cases "boot_regions s bp \<le> 64")
    case False
    then show ?thesis using loop run by simp
  next
    case True
    then obtain s' where s': "for_range 0 n (init_pmm_entry p mp ks ke) s0 = Some s'" "pmm_booting s' p"
        "pmm_step p s0 s'" "pmm_pages s' p = boot_pages s bp" "length (regions (pmm_view s' p)) = boot_regions s bp" using loop by auto
    have L: "pmm_layout s' p" using s'(2) by (simp add: pmm_booting_def pmm_inv_def)
    have "load_qword s' (p + 8) = 0 \<longleftrightarrow> regions (pmm_view s' p) = []"
      using pmm_view_slots(1) [of s' p] L by (auto simp: pmm_layout_def)
    moreover have "boot_pages s bp = {}" if "regions (pmm_view s' p) = []"
      using s'(2,4) that by (simp add: pmm_booting_def pmm_pages_def free_list_def)
    moreover have "boot_regions s bp = 0" if "boot_pages s bp = {}" using that unfolding pages runs by (simp add: page_runs_def)
    ultimately have count: "load_qword s' (p + 8) = 0 \<longleftrightarrow> boot_pages s bp = {}" using s'(5) by auto
    have "writes_in {p..<p + 17472} s0 s'"
      using s'(3) blocks(3) writes_in_mono unfolding pmm_step_def by blast
    then have "writes_in {p..<p + 17472} s1 s'" by (rule writes_in_trans [OF blocks(4)])
    then show ?thesis
      using run s' pmm_step_area [OF s'(3)] blocks(3) True count pmm_state_access(1) [OF L, of 1]
      unfolding pmm_booting_def defs s1_def by auto
  qed
qed

lemma init_pmm_contract:
  assumes "boot_ok s bp" "boot_regions s bp \<le> 64" "boot_pages s bp \<noteq> {}"
  shows "\<exists>p s'. init_pmm s bp = Some (p, s') \<and> pmm_inv s' p \<and> recycled (pmm_view s' p) = []
    \<and> pmm_pages s' p = boot_pages s bp \<and> pmm_area s' p \<subseteq> {heap_ptr s..<heap_ptr s + 17472}
    \<and> writes_in {heap_ptr s..<heap_ptr s + 17472} (s\<lparr>heap_ptr := heap_ptr s + 17472\<rparr>) s'"
  using init_pmm_exact [OF assms(1)] assms(2,3) by auto

section \<open>The self-test\<close>

lemma outside_pmm_prints: "prints s s' \<Longrightarrow> outside_pmm p s s'"
  by (simp add: outside_pmm_def prints_mem)

lemma pmm_free_count:
  "pmm_inv s p \<Longrightarrow> pmm_state_qword s p 6 = Some (int (card (pmm_pages s p)))"
  by (simp add: pmm_inv_def pmm_state_access pmm_view_slots pmm_ok_def pmm_pages_def distinct_card)

text \<open>Only the allocator's blocks change, and the console.\<close>

definition pmm_quiet :: "int \<Rightarrow> machine \<Rightarrow> machine \<Rightarrow> bool" where
  "pmm_quiet p s t \<longleftrightarrow> (\<forall>a. a \<notin> pmm_area s p \<longrightarrow> mem t a = mem s a) \<and> pmm_area t p = pmm_area s p
     \<and> heap_ptr t = heap_ptr s \<and> heap_end t = heap_end s"

lemma pmm_quiet_trans [trans]: "pmm_quiet p s t \<Longrightarrow> pmm_quiet p t u \<Longrightarrow> pmm_quiet p s u"
  by (simp add: pmm_quiet_def)

lemma pmm_quiet_step: "pmm_step p s t \<Longrightarrow> pmm_quiet p s t"
  using pmm_step_area [of p s t] writes_in_fields [of "pmm_area s p" s t] by (simp add: pmm_quiet_def pmm_step_def writes_in_def)

lemma pmm_quiet_prints: "prints s t \<Longrightarrow> pmm_quiet p s t"
  using prints_load [of s t] by (auto simp: pmm_quiet_def pmm_area_def prints_def)

lemma owns_alloc_some:
  assumes "page.owns p s K" "pmm_pages s p \<noteq> {}" "card K < 2048"
  shows "\<exists>q s'. pmm_alloc_page s p = Some (q, s') \<and> q \<noteq> 0 \<and> q mod 4096 = 0 \<and> q \<notin> K \<and> q \<in> pmm_pages s p
    \<and> page.owns p s' (insert q K) \<and> pmm_pages s' p = pmm_pages s p - {q}
    \<and> pmm_quiet p s s' \<and> length (recycled (pmm_view s' p)) \<le> length (recycled (pmm_view s p))"
proof -
  have inv: "pmm_inv s p" using assms(1) by (simp add: page.owns_def)
  then obtain q s' where q: "pmm_alloc_page s p = Some (q, s')" "q \<in> pmm_pages s p" "pmm_step p s s'"
      "length (recycled (pmm_view s' p)) = length (recycled (pmm_view s p)) - 1"
    using pmm_alloc_page_contract [of s p] assms(2) by blast
  then have v: "page_valid q" using page.pages_valid inv by blast
  then have "q \<noteq> 0" by (auto simp: page_valid_def)
  from page.owns_alloc [OF assms(1,3) q(1) this] show ?thesis using q v pmm_quiet_step
    by (auto simp: page_valid_def)
qed

lemma owns_free_some:
  assumes "page.owns p s K" "q \<in> K"
  shows "\<exists>s'. pmm_free_page s p q = Some s' \<and> page.owns p s' (K - {q}) \<and> pmm_pages s' p = insert q (pmm_pages s p)
    \<and> pmm_quiet p s s' \<and> length (recycled (pmm_view s' p)) = length (recycled (pmm_view s p)) + 1"
proof -
  have inv: "pmm_inv s p" "page_valid q" "q \<notin> pmm_pages s p" "0 < card K" "length (recycled (pmm_view s p)) + card K \<le> 2048"
    using assms by (auto simp: page.owns_def card_gt_0_iff)
  then obtain s' where "pmm_free_page s p q = Some s'" "pmm_step p s s'"
      "length (recycled (pmm_view s' p)) = length (recycled (pmm_view s p)) + 1"
    using pmm_free_page_contract(2) [OF inv(1,3)] by (auto simp: page_valid_def)
  then show ?thesis using page.owns_free [OF assms] pmm_quiet_step by auto
qed

lemma alloc_three:
  assumes o0: "page.owns p s {}" and three: "3 \<le> card (pmm_pages s p)"
  shows "\<exists>q0 q1 q2 s0 s1 t. pmm_alloc_page s p = Some (q0, s0) \<and> pmm_alloc_page s0 p = Some (q1, s1) \<and> pmm_alloc_page s1 p = Some (q2, t)
    \<and> (\<forall>q \<in> {q0, q1, q2}. q \<noteq> 0 \<and> q mod 4096 = 0 \<and> q \<in> pmm_pages s p) \<and> distinct [q0, q1, q2]
    \<and> page.owns p t {q0, q1, q2} \<and> pmm_pages t p = pmm_pages s p - {q0, q1, q2}
    \<and> pmm_quiet p s t \<and> length (recycled (pmm_view t p)) \<le> length (recycled (pmm_view s p))"
proof -
  let ?A = "pmm_pages s p" and ?n = "\<lambda>s. length (recycled (pmm_view s p))"
  have fin: "finite ?A" by (simp add: pmm_pages_def)
  have "?A \<noteq> {}" using three by auto
  from owns_alloc_some [OF o0 this] obtain q0 s0 where q0: "pmm_alloc_page s p = Some (q0, s0)" "q0 \<noteq> 0"
    "q0 mod 4096 = 0" "q0 \<in> ?A" "page.owns p s0 {q0}" "pmm_pages s0 p = ?A - {q0}" and e0: "pmm_quiet p s s0" "?n s0 \<le> ?n s" by auto
  have "card (pmm_pages s0 p) \<ge> 2" using q0 fin three by simp
  then have "pmm_pages s0 p \<noteq> {}" by auto
  from owns_alloc_some [OF q0(5) this] obtain q1 s1 where q1: "pmm_alloc_page s0 p = Some (q1, s1)" "q1 \<noteq> 0"
    "q1 mod 4096 = 0" "q1 \<noteq> q0" "q1 \<in> ?A" "page.owns p s1 {q0, q1}" "pmm_pages s1 p = ?A - {q0} - {q1}"
    and e1: "pmm_quiet p s0 s1" "?n s1 \<le> ?n s0"
    unfolding q0(6) by (auto simp: insert_commute)
  have "card (pmm_pages s1 p) \<ge> 1" using q0 q1 fin three by simp
  then have "pmm_pages s1 p \<noteq> {}" "card {q0, q1} < 2048" using q1(4) by auto
  from owns_alloc_some [OF q1(6) this] obtain q2 s2 where q2: "pmm_alloc_page s1 p = Some (q2, s2)" "q2 \<noteq> 0"
    "q2 mod 4096 = 0" "q2 \<noteq> q0" "q2 \<noteq> q1" "q2 \<in> ?A" "page.owns p s2 {q0, q1, q2}"
    "pmm_pages s2 p = ?A - {q0} - {q1} - {q2}" and e2: "pmm_quiet p s1 s2" "?n s2 \<le> ?n s1"
    unfolding q1(7) by (auto simp: insert_commute)
  have "pmm_pages s2 p = ?A - {q0, q1, q2}" unfolding q2(8) by auto
  moreover have "pmm_quiet p s s2" by (rule pmm_quiet_trans [OF pmm_quiet_trans [OF e0(1) e1(1)] e2(1)])
  moreover have "\<forall>q \<in> {q0, q1, q2}. q \<noteq> 0 \<and> q mod 4096 = 0 \<and> q \<in> ?A" using q0(2-4) q1(2,3,5) q2(2,3,6) by simp
  moreover have "distinct [q0, q1, q2]" using q1(4) q2(4,5) by auto
  moreover have "?n s2 \<le> ?n s" using e0(2) e1(2) e2(2) by simp
  ultimately show ?thesis using q0(1) q1(1) q2(1,7) by blast
qed

lemma free_three:
  assumes "page.owns p s {q0, q1, q2}" "distinct [q0, q1, q2]"
  shows "\<exists>s4 s5 t. pmm_free_page s p q2 = Some s4 \<and> pmm_free_page s4 p q1 = Some s5 \<and> pmm_free_page s5 p q0 = Some t
    \<and> pmm_inv t p \<and> pmm_pages t p = pmm_pages s p \<union> {q0, q1, q2}
    \<and> pmm_quiet p s t \<and> length (recycled (pmm_view t p)) = length (recycled (pmm_view s p)) + 3"
proof -
  let ?n = "\<lambda>s. length (recycled (pmm_view s p))"
  have undo: "{q0, q1, q2} - {q2} = {q0, q1}" "{q0, q1} - {q1} = {q0}" using assms(2) by auto
  obtain s4 where s4: "pmm_free_page s p q2 = Some s4" "page.owns p s4 {q0, q1}" "pmm_pages s4 p = insert q2 (pmm_pages s p)"
      "pmm_quiet p s s4" "?n s4 = ?n s + 1"
    using owns_free_some [OF assms(1), of q2] unfolding undo by blast
  obtain s5 where s5: "pmm_free_page s4 p q1 = Some s5" "page.owns p s5 {q0}" "pmm_pages s5 p = insert q1 (pmm_pages s4 p)"
      "pmm_quiet p s4 s5" "?n s5 = ?n s4 + 1"
    using owns_free_some [OF s4(2), of q1] unfolding undo by blast
  obtain t where t: "pmm_free_page s5 p q0 = Some t" "page.owns p t ({q0} - {q0})" "pmm_pages t p = insert q0 (pmm_pages s5 p)"
      "pmm_quiet p s5 t" "?n t = ?n s5 + 1"
    using owns_free_some [OF s5(2), of q0] by blast
  have "pmm_quiet p s t" by (rule pmm_quiet_trans [OF pmm_quiet_trans [OF s4(4) s5(4)] t(4)])
  moreover have "pmm_inv t p" using t(2) by (simp add: page.owns_def)
  moreover have "pmm_pages t p = pmm_pages s p \<union> {q0, q1, q2}" unfolding t(3) s5(3) s4(3) by auto
  moreover have "?n t = ?n s + 3" using s4(5) s5(5) t(5) by simp
  ultimately show ?thesis using s4(1) s5(1) t(1) by blast
qed

lemma pmm_self_test_passes:
  assumes inv: "pmm_inv s p" and room: "length (recycled (pmm_view s p)) \<le> 2045"
    and three: "3 \<le> card (pmm_pages s p)"
  shows "\<exists>s'. pmm_self_test s p = Some s' \<and> pmm_inv s' p \<and> pmm_pages s' p = pmm_pages s p
    \<and> pmm_quiet p s s' \<and> length (recycled (pmm_view s' p)) \<le> length (recycled (pmm_view s p)) + 3"
proof -
  let ?A = "pmm_pages s p" and ?n = "\<lambda>s. length (recycled (pmm_view s p))"
  have "page.owns p s {}" using inv room by (simp add: page.owns_def)
  note three = alloc_three [OF this three]
  obtain q0 q1 q2 s0 s1 s2 where q: "pmm_alloc_page s p = Some (q0, s0)" "pmm_alloc_page s0 p = Some (q1, s1)"
      "pmm_alloc_page s1 p = Some (q2, s2)" "\<forall>q \<in> {q0, q1, q2}. q \<noteq> 0 \<and> q mod 4096 = 0 \<and> q \<in> ?A" "distinct [q0, q1, q2]"
      "page.owns p s2 {q0, q1, q2}" "pmm_pages s2 p = ?A - {q0, q1, q2}" "pmm_quiet p s s2" "?n s2 \<le> ?n s"
    using three by (elim exE conjE) (rule that)
  define s3 where "s3 = console_write_label_hex (console_write_label_hex (console_write_label_hex s2
      ''pmm.test.page0='' q0) ''pmm.test.page1='' q1) ''pmm.test.page2='' q2"
  have p3: "prints s2 s3" unfolding s3_def by blast
  have s3: "page.owns p s3 {q0, q1, q2}" "pmm_pages s3 p = ?A - {q0, q1, q2}" "?n s3 = ?n s2"
    using page.owns_env [OF q(6) outside_pmm_prints [OF p3]] q(6,7) pmm_inv_frame [OF _ outside_pmm_prints [OF p3]]
    by (auto simp: page.owns_def)
  obtain s4 s5 s6 where s6: "pmm_free_page s3 p q2 = Some s4" "pmm_free_page s4 p q1 = Some s5" "pmm_free_page s5 p q0 = Some s6"
      "pmm_inv s6 p" "pmm_pages s6 p = pmm_pages s3 p \<union> {q0, q1, q2}" "pmm_quiet p s3 s6" "?n s6 = ?n s3 + 3"
    using free_three [OF s3(1) q(5)] by (elim exE conjE) (rule that)
  have A: "pmm_pages s6 p = ?A" using s6(5) s3(2) q(4) by auto
  define s7 where "s7 = console_write_line s6 ''pmm self-test ok''"
  have p7: "prints s6 s7" unfolding s7_def by blast
  have "pmm_self_test s p = Some s7"
    using q(1-5) s6(1-3) pmm_free_count [OF inv] pmm_free_count [OF s6(4)] A
    by (simp add: pmm_self_test_def mask_simps s3_def [symmetric] s7_def)
  moreover have "pmm_quiet p s s7"
    by (meson q(8) pmm_quiet_prints [OF p3] s6(6) pmm_quiet_prints [OF p7] pmm_quiet_trans)
  moreover have "pmm_inv s7 p" "pmm_pages s7 p = ?A" "?n s7 \<le> ?n s + 3"
    using pmm_inv_frame [OF s6(4) outside_pmm_prints [OF p7]] A s6(7) s3(3) q(9) by simp_all
  ultimately show ?thesis by blast
qed

section \<open>A sample boot\<close>

text \<open>
  One entry of sixteen pages above a kernel image of one mebibyte that contains the heap, and a
  state block of the virtual memory manager for one GiB.
\<close>

definition sample_boot :: machine where
  "sample_boot = poke [(0x9000, 0x50434F424F4F5431), (0x9018, 0x8000), (0x9020, 1), (0x9068, 0x100000),
     (0x9070, 0x1FF000), (0x8000, 0x200000), (0x8008, 0x10000), (0x8010, 7), (0xA018, 1), (0xA020, 0x40000000)]
     blank_machine"

definition sample_ram :: "int set" where
  "sample_ram = (\<lambda>i. 0x200000 + i * 4096) ` {0..<16}"

lemma sample_ram_card: "card sample_ram = 16" "finite sample_ram"
  unfolding sample_ram_def by (subst card_image) (auto simp: inj_on_def)

lemma sample_ram_big: "{} \<noteq> sample_ram" "{a} \<noteq> sample_ram"
  by (rule notI, drule arg_cong [of _ _ card], simp add: sample_ram_card)+

lemma sample_ram_mem: "q \<in> sample_ram \<longleftrightarrow> q mod 4096 = 0 \<and> 0x200000 \<le> q \<and> q < 0x210000"
proof
  assume "q mod 4096 = 0 \<and> 0x200000 \<le> q \<and> q < 0x210000"
  then have "q = 0x200000 + (q div 4096 - 512) * 4096" "q div 4096 - 512 \<in> {0..<16}" by auto
  then show "q \<in> sample_ram" unfolding sample_ram_def by blast
qed (auto simp: sample_ram_def)

lemma sample_loads:
  "load_qword sample_boot 0x9000 = 0x50434F424F4F5431"
  "load_qword sample_boot 0x9018 = 0x8000" "load_qword sample_boot 0x9020 = 1"
  "load_qword sample_boot 0x9068 = 0x100000" "load_qword sample_boot 0x9070 = 0x1FF000"
  "load_qword sample_boot 0x8000 = 0x200000" "load_qword sample_boot 0x8008 = 0x10000"
  "load_qword sample_boot 0x8010 = 7" "load_qword sample_boot 0xA018 = 1"
  "load_qword sample_boot 0xA020 = 0x40000000"
  "heap_ptr sample_boot = 0x110000" "heap_end sample_boot = 0x180000"
  by (simp_all add: sample_boot_def sample_simps) (simp_all add: blank_machine_def)

lemma sample_pages: "boot_pages sample_boot 0x9000 = sample_ram"
proof -
  have "{0..<1 :: int} = {0}" by auto
  then have u: "boot_pages sample_boot 0x9000 = usable_pages 0x200000 0x10000 7 0x100000 0x1FF000"
    by (simp add: boot_pages_def mmap_base_def mmap_len_def mmap_type_def sample_loads mask_simps)
  have "q \<in> boot_pages sample_boot 0x9000 \<longleftrightarrow> q \<in> sample_ram" for q
    using aligned_gap [of q 4096 "0x210000"] unfolding u usable_pages_def sample_ram_mem by auto
  then show ?thesis by blast
qed

lemma sample_some: "boot_pages sample_boot 0x9000 \<noteq> {}"
  using sample_ram_card by (auto simp: sample_pages)

lemma sample_regions: "boot_regions sample_boot 0x9000 \<le> 64"
proof -
  have "{0..<1 :: int} = {0}" by auto
  then show ?thesis by (simp add: boot_regions_def Let_def sample_loads page_runs_def)
qed

lemma sample_boot_ok: "boot_ok sample_boot 0x9000"
proof -
  have "{x. (x :: int) < 1 \<and> 0 \<le> x} = {0}" "{0..<1 :: int} = {0}" by auto
  then show ?thesis
    by (simp add: boot_ok_def Let_def mmap_entry_ok_def mmap_base_def mmap_len_def sample_loads mask_simps
        qword_ptr_def)
qed

section \<open>Properties\<close>

text \<open>
  C2: on a boot memory map of any number of entries, with disjoint usable pages below \<open>2^62\<close>
  and apart from the early heap, \<open>init_pmm\<close> halts exactly when there is no usable page or the usable pages, cut at the
  kernel image, need more than the 64 places of the region table.  Otherwise it returns with the allocator's invariant
  established, an empty recycle stack, its three blocks inside the heap space it allocated, and free
  pages that are exactly the whole 4 KiB pages of conventional memory at or above 1 MiB outside the
  kernel image.
\<close>

theorem init_pmm_hands_out_usable_ram:
  assumes "boot_ok s bp"
  shows "if boot_regions s bp \<le> 64 \<and> boot_pages s bp \<noteq> {}
    then \<exists>p s'. init_pmm s bp = Some (p, s') \<and> pmm_inv s' p \<and> recycled (pmm_view s' p) = []
      \<and> pmm_pages s' p = boot_pages s bp \<and> pmm_area s' p \<subseteq> {heap_ptr s..<heap_ptr s + 17472}
    else init_pmm s bp = None"
  using init_pmm_exact [OF assms] by (auto split: if_splits)

theorem init_pmm_hands_out_usable_ram_witness:
  "\<exists>p s'. init_pmm sample_boot 0x9000 = Some (p, s') \<and> pmm_inv s' p
    \<and> pmm_pages s' p = sample_ram"
  using init_pmm_hands_out_usable_ram [OF sample_boot_ok] sample_some sample_regions unfolding sample_pages by auto

text \<open>
  C1: after any interleaving of allocations, frees of held pages and writes outside the
  allocator's blocks, starting from \<open>init_pmm\<close>, the held pages \<open>K\<close> and the free pages partition the
  usable memory; the next allocation succeeds with a usable page that is not held, or returns 0
  exactly when everything is held; and freeing a held page makes it free again, or halts, exactly when the
  recycle stack already has its 2048 pages.
\<close>

theorem pmm_no_double_allocation:
  assumes "boot_ok s bp" "init_pmm s bp = Some (p, s0)" "pmm_run p s0 s1 K"
  shows "K \<inter> pmm_pages s1 p = {} \<and> K \<union> pmm_pages s1 p = boot_pages s bp
    \<and> (\<exists>page s2. pmm_alloc_page s1 p = Some (page, s2)
        \<and> (if K = boot_pages s bp then page = 0 \<and> s2 = s1 else page \<in> boot_pages s bp - K))
    \<and> (\<forall>page \<in> K. if length (recycled (pmm_view s1 p)) = 2048 then pmm_free_page s1 p page = None
        else \<exists>s2. pmm_free_page s1 p page = Some s2 \<and> pmm_pages s2 p = insert page (pmm_pages s1 p))"
proof -
  have init: "pmm_inv s0 p" "pmm_pages s0 p = boot_pages s bp"
    using init_pmm_exact [OF assms(1)] assms(2) by (auto split: if_splits)
  have run: "page.holds p s1 K" "K \<union> pmm_pages s1 p = boot_pages s bp"
    using pmm_run_holds [OF assms(3) init(1)] init(2) by auto
  then have inv: "pmm_inv s1 p" "K \<inter> pmm_pages s1 p = {}" by (simp_all add: page.holds_def)
  have "\<exists>page s2. pmm_alloc_page s1 p = Some (page, s2)
        \<and> (if K = boot_pages s bp then page = 0 \<and> s2 = s1 else page \<in> boot_pages s bp - K)"
  proof (cases "pmm_pages s1 p = {}")
    case True
    then show ?thesis using page.alloc_law [OF inv(1)] run(2) by auto
  next
    case False
    then have "K \<noteq> boot_pages s bp" using run(2) inv(2) by blast
    moreover obtain page s2 where "pmm_alloc_page s1 p = Some (page, s2)" "page \<in> pmm_pages s1 p"
      using page.alloc_law [OF inv(1)] False by blast
    ultimately show ?thesis using run(2) inv(2) by auto
  qed
  moreover have "if length (recycled (pmm_view s1 p)) = 2048 then pmm_free_page s1 p q = None
      else \<exists>s2. pmm_free_page s1 p q = Some s2 \<and> pmm_pages s2 p = insert q (pmm_pages s1 p)" if "q \<in> K" for q
    using holds_free_page [OF run(1) that] by (cases "pmm_free_page s1 p q") auto
  ultimately show ?thesis using run(2) inv(2) by blast
qed

theorem pmm_no_double_allocation_witness:
  "\<exists>p s0 s1 s2 a b. init_pmm sample_boot 0x9000 = Some (p, s0) \<and> pmm_run p s0 s1 {a}
    \<and> pmm_alloc_page s1 p = Some (b, s2) \<and> a \<noteq> b \<and> {a, b} \<subseteq> sample_ram"
proof -
  note ok = sample_boot_ok
  note some = sample_some
  obtain p s0 where i: "init_pmm sample_boot 0x9000 = Some (p, s0)"
    using init_pmm_contract [OF ok sample_regions some] by blast
  note claim = pmm_no_double_allocation [OF ok i, unfolded sample_pages]
  obtain a s1 where a: "pmm_alloc_page s0 p = Some (a, s1)" "a \<in> sample_ram"
    using claim [OF run_start] sample_ram_big by auto
  have r: "pmm_run p s0 s1 {a}" using run_alloc [OF run_start a(1)] a(2)
    by (auto simp: sample_ram_mem split: if_splits)
  obtain b s2 where "pmm_alloc_page s1 p = Some (b, s2)" "b \<in> sample_ram - {a}"
    using claim [OF r] sample_ram_big by auto
  then show ?thesis using i r a(2) by (intro exI [of _ p] exI [of _ s0] exI [of _ s1] exI [of _ s2]
      exI [of _ a] exI [of _ b]) auto
qed

text \<open>
  C3: freeing halts the kernel exactly on a null page, an unaligned page or a full recycle stack,
  and otherwise returns the page to the free set.
\<close>

theorem pmm_free_page_checks:
  assumes "pmm_inv s p"
  shows "(pmm_free_page s p page = None \<longleftrightarrow>
      page = 0 \<or> page mod 4096 \<noteq> 0 \<or> length (recycled (pmm_view s p)) = 2048)
    \<and> (page_valid page \<and> page \<notin> pmm_pages s p \<and> length (recycled (pmm_view s p)) < 2048 \<longrightarrow>
      (\<exists>s'. pmm_free_page s p page = Some s' \<and> pmm_inv s' p
        \<and> pmm_pages s' p = insert page (pmm_pages s p) \<and> pmm_area s' p = pmm_area s p
        \<and> writes_in (pmm_area s p) s s'))"
  using pmm_free_page_contract(1) [OF assms, of page] pmm_free_page_contract(2) [OF assms, of page]
    pmm_step_area unfolding page_valid_def pmm_step_def by (metis (no_types, lifting))

theorem pmm_free_page_checks_witness:
  "\<exists>p s0 s1. init_pmm sample_boot 0x9000 = Some (p, s0) \<and> pmm_free_page s0 p 0x300123 = None
    \<and> pmm_free_page s0 p 0x300000 = Some s1 \<and> 0x300000 \<in> pmm_pages s1 p"
proof -
  note some = sample_some
  obtain p s0 where i: "init_pmm sample_boot 0x9000 = Some (p, s0)" "pmm_inv s0 p"
      "recycled (pmm_view s0 p) = []" "pmm_pages s0 p = sample_ram"
    using init_pmm_contract [OF sample_boot_ok sample_regions some] unfolding sample_pages by blast
  have "pmm_free_page s0 p 0x300123 = None" using pmm_free_page_checks [OF i(2), of "0x300123"] by simp
  moreover obtain s1 where "pmm_free_page s0 p 0x300000 = Some s1" "0x300000 \<in> pmm_pages s1 p"
    using pmm_free_page_checks [OF i(2), of "0x300000"] i(3,4) by (auto simp: page_valid_def sample_ram_mem)
  ultimately show ?thesis using i(1) by blast
qed

end
