(* ===== verification/Vmm.thy ===== *)
theory Vmm
  imports PmmInit
begin

text \<open>
  Virtual memory, \<^verbatim>\<open>kmemory.py\<close> from line 226: four-level page tables of which the kernel uses
  one P4 and one P3 entry chain, 2 MiB identity leaves that are split into 4 KiB tables on demand,
  the kernel's own address space and the per-task ones.  A table is a page of 512 quadwords of
  physical memory, which the kernel reads and writes through its identity mapping.
\<close>

section \<open>Operations\<close>

definition zero_page :: "machine \<Rightarrow> int \<Rightarrow> machine option" where
  "zero_page s page_ptr = for_range 0 512 (\<lambda>slot s. store_qword_region s page_ptr 512 slot 0) s"

definition copy_page :: "machine \<Rightarrow> int \<Rightarrow> int \<Rightarrow> machine option" where
  "copy_page s src_ptr dst_ptr = for_range 0 512 (\<lambda>slot s. do {
     v \<leftarrow> load_qword_region s src_ptr 512 slot;
     store_qword_region s dst_ptr 512 slot v }) s"

definition vmm_state_qword :: "machine \<Rightarrow> int \<Rightarrow> int \<Rightarrow> int option" where
  "vmm_state_qword s state_ptr slot = load_qword_region s state_ptr 8 slot"

definition set_vmm_state_qword :: "machine \<Rightarrow> int \<Rightarrow> int \<Rightarrow> int \<Rightarrow> machine option" where
  "set_vmm_state_qword s state_ptr slot v = store_qword_region s state_ptr 8 slot v"

definition page_table_qword :: "machine \<Rightarrow> int \<Rightarrow> int \<Rightarrow> int option" where
  "page_table_qword s table_ptr slot = load_qword_region s table_ptr 512 slot"

definition set_page_table_qword :: "machine \<Rightarrow> int \<Rightarrow> int \<Rightarrow> int \<Rightarrow> machine option" where
  "set_page_table_qword s table_ptr slot v = store_qword_region s table_ptr 512 slot v"

definition vmm_reload_current_cr3 :: "machine \<Rightarrow> machine" where
  "vmm_reload_current_cr3 s = load_cr3 s (read_cr3 s)"

definition pml4_index :: "int \<Rightarrow> int" where
  "pml4_index addr = drop_bit 39 addr AND 0x1FF"

definition pdpt_index :: "int \<Rightarrow> int" where
  "pdpt_index addr = drop_bit 30 addr AND 0x1FF"

definition pd_index :: "int \<Rightarrow> int" where
  "pd_index addr = drop_bit 21 addr AND 0x1FF"

definition pt_index :: "int \<Rightarrow> int" where
  "pt_index addr = drop_bit 12 addr AND 0x1FF"

definition vmm_p3_ptr :: "machine \<Rightarrow> int \<Rightarrow> int option" where
  "vmm_p3_ptr s state_ptr = vmm_state_qword s state_ptr 2"

definition vmm_root_p3_ptr :: "machine \<Rightarrow> int \<Rightarrow> int option" where
  "vmm_root_p3_ptr s root_p4 = do {
     p4_entry \<leftarrow> page_table_qword s root_p4 0;
     if p4_entry AND 1 = 0 then panic ''vmm root missing p3''
     else Some (align_down p4_entry 4096) }"

definition copy_page_table :: "machine \<Rightarrow> int \<Rightarrow> int \<Rightarrow> machine option" where
  "copy_page_table s src_ptr dst_ptr = for_range 0 512 (\<lambda>slot s. do {
     v \<leftarrow> page_table_qword s src_ptr slot;
     set_page_table_qword s dst_ptr slot v }) s"

definition vmm_fill_identity :: "int \<Rightarrow> int \<Rightarrow> machine \<Rightarrow> machine option" where
  "vmm_fill_identity dst_p2 table_index s = for_range 0 512 (\<lambda>entry_index s.
     let phys = push_bit 21 (table_index * 512 + entry_index)
     in set_page_table_qword s dst_p2 entry_index (phys OR 0x083)) s"

text \<open>
  The body of the loop that \<open>vmm_create_task_address_space\<close> and \<open>init_vmm\<close> share; their halt messages
  differ, which the model does not distinguish.
\<close>

definition vmm_identity_table :: "int \<Rightarrow> int \<Rightarrow> int \<Rightarrow> machine \<Rightarrow> machine option" where
  "vmm_identity_table pmm_state dst_p3 table_index s = do {
     (dst_p2, s) \<leftarrow> pmm_alloc_page s pmm_state;
     if dst_p2 = 0 then panic ''vmm task p2 alloc failed'' else do {
     s \<leftarrow> zero_page s dst_p2;
     s \<leftarrow> set_page_table_qword s dst_p3 table_index (dst_p2 OR 0x003);
     vmm_fill_identity dst_p2 table_index s } }"

definition vmm_create_task_address_space :: "machine \<Rightarrow> int \<Rightarrow> int \<Rightarrow> (int \<times> machine) option" where
  "vmm_create_task_address_space s state_ptr pmm_state = do {
     p2_count \<leftarrow> vmm_state_qword s state_ptr 3;
     (dst_p4, s) \<leftarrow> pmm_alloc_page s pmm_state;
     (dst_p3, s) \<leftarrow> pmm_alloc_page s pmm_state;
     if dst_p4 = 0 \<or> dst_p3 = 0 then panic ''vmm task root alloc failed'' else do {
     s \<leftarrow> zero_page s dst_p4;
     s \<leftarrow> zero_page s dst_p3;
     s \<leftarrow> set_page_table_qword s dst_p4 0 (dst_p3 OR 0x003);
     s \<leftarrow> for_range 0 p2_count (vmm_identity_table pmm_state dst_p3) s;
     Some (dst_p4, s) } }"

definition vmm_clone_entry :: "int \<Rightarrow> int \<Rightarrow> int \<Rightarrow> int \<Rightarrow> machine \<Rightarrow> machine option" where
  "vmm_clone_entry pmm_state src_p2 dst_p2 entry_index s = do {
     src_entry \<leftarrow> page_table_qword s src_p2 entry_index;
     if src_entry AND 1 = 0 \<or> src_entry AND 0x80 \<noteq> 0
     then set_page_table_qword s dst_p2 entry_index src_entry
     else do {
       let src_pt = align_down src_entry 4096;
       (dst_pt, s) \<leftarrow> pmm_alloc_page s pmm_state;
       if dst_pt = 0 then panic ''vmm clone pt alloc failed'' else do {
       s \<leftarrow> copy_page s src_pt dst_pt;
       set_page_table_qword s dst_p2 entry_index (dst_pt OR (src_entry AND 0xFFF)) } } }"

definition vmm_clone_table :: "int \<Rightarrow> int \<Rightarrow> int \<Rightarrow> int \<Rightarrow> machine \<Rightarrow> machine option" where
  "vmm_clone_table pmm_state src_p3 dst_p3 table_index s = do {
     src_entry \<leftarrow> page_table_qword s src_p3 table_index;
     let src_p2 = align_down src_entry 4096;
     (dst_p2, s) \<leftarrow> pmm_alloc_page s pmm_state;
     if dst_p2 = 0 then panic ''vmm clone p2 alloc failed'' else do {
     s \<leftarrow> zero_page s dst_p2;
     s \<leftarrow> for_range 0 512 (vmm_clone_entry pmm_state src_p2 dst_p2) s;
     set_page_table_qword s dst_p3 table_index (dst_p2 OR 0x003) } }"

definition vmm_clone_kernel_address_space :: "machine \<Rightarrow> int \<Rightarrow> int \<Rightarrow> (int \<times> machine) option" where
  "vmm_clone_kernel_address_space s state_ptr pmm_state = do {
     src_p4 \<leftarrow> vmm_state_qword s state_ptr 1;
     src_p3 \<leftarrow> vmm_state_qword s state_ptr 2;
     p2_count \<leftarrow> vmm_state_qword s state_ptr 3;
     (dst_p4, s) \<leftarrow> pmm_alloc_page s pmm_state;
     (dst_p3, s) \<leftarrow> pmm_alloc_page s pmm_state;
     if dst_p4 = 0 \<or> dst_p3 = 0 then panic ''vmm clone alloc failed'' else do {
     s \<leftarrow> zero_page s dst_p4;
     s \<leftarrow> zero_page s dst_p3;
     s \<leftarrow> set_page_table_qword s dst_p4 0 (dst_p3 OR 0x003);
     s \<leftarrow> for_range 0 p2_count (vmm_clone_table pmm_state src_p3 dst_p3) s;
     let s = (if read_cr3 s = src_p4 then load_cr3 s src_p4 else s);
     Some (dst_p4, s) } }"

definition vmm_free_leaf :: "int \<Rightarrow> int \<Rightarrow> int \<Rightarrow> machine \<Rightarrow> machine option" where
  "vmm_free_leaf pmm_state p2_ptr entry_index s = do {
     p2_leaf \<leftarrow> page_table_qword s p2_ptr entry_index;
     if p2_leaf AND 1 \<noteq> 0 \<and> p2_leaf AND 0x80 = 0
     then pmm_free_page s pmm_state (align_down p2_leaf 4096) else Some s }"

definition vmm_free_table :: "int \<Rightarrow> int \<Rightarrow> int \<Rightarrow> machine \<Rightarrow> machine option" where
  "vmm_free_table pmm_state p3_ptr table_index s = do {
     p2_entry \<leftarrow> page_table_qword s p3_ptr table_index;
     if p2_entry AND 1 \<noteq> 0 then do {
       let p2_ptr = align_down p2_entry 4096;
       s \<leftarrow> for_range 0 512 (vmm_free_leaf pmm_state p2_ptr) s;
       pmm_free_page s pmm_state p2_ptr }
     else Some s }"

text \<open>
  The bound of this loop is read from the state block again before each iteration; an index beyond
  the table halts in the table access, so the loop ends.
\<close>

lemma vmm_free_table_index:
  "vmm_free_table pmm_state p3_ptr table_index s = Some s' \<Longrightarrow> table_index < 512"
  by (auto simp: vmm_free_table_def page_table_qword_def load_qword_region_eq split: if_splits)

function vmm_free_tables :: "int \<Rightarrow> int \<Rightarrow> int \<Rightarrow> int \<Rightarrow> machine \<Rightarrow> machine option" where
  "vmm_free_tables state_ptr pmm_state p3_ptr table_index s = do {
     n \<leftarrow> vmm_state_qword s state_ptr 3;
     if table_index < n then do {
       s \<leftarrow> vmm_free_table pmm_state p3_ptr table_index s;
       vmm_free_tables state_ptr pmm_state p3_ptr (table_index + 1) s }
     else Some s }"
  by pat_completeness auto
termination
  by (relation "measure (\<lambda>(v, p, t, i, s). nat (512 - i))") (auto dest!: vmm_free_table_index)

declare vmm_free_tables.simps [simp del]

definition vmm_free_cloned_address_space :: "machine \<Rightarrow> int \<Rightarrow> int \<Rightarrow> int \<Rightarrow> machine option" where
  "vmm_free_cloned_address_space s state_ptr pmm_state root_p4 = do {
     p3_ptr \<leftarrow> vmm_root_p3_ptr s root_p4;
     s \<leftarrow> vmm_free_tables state_ptr pmm_state p3_ptr 0 s;
     s \<leftarrow> pmm_free_page s pmm_state p3_ptr;
     pmm_free_page s pmm_state root_p4 }"

definition vmm_supports_addr :: "machine \<Rightarrow> int \<Rightarrow> int \<Rightarrow> bool option" where
  "vmm_supports_addr s state_ptr virt =
     (if pml4_index virt \<noteq> 0 then Some False
      else do { limit \<leftarrow> vmm_state_qword s state_ptr 4; Some (virt < limit) })"

definition vmm_root_supports_addr :: "int \<Rightarrow> int \<Rightarrow> bool" where
  "vmm_root_supports_addr limit virt \<longleftrightarrow> (if pml4_index virt \<noteq> 0 then False else virt < limit)"

definition vmm_p2_ptr :: "machine \<Rightarrow> int \<Rightarrow> int \<Rightarrow> int option" where
  "vmm_p2_ptr s state_ptr virt = do {
     p3_ptr \<leftarrow> vmm_p3_ptr s state_ptr;
     p3_entry \<leftarrow> page_table_qword s p3_ptr (pdpt_index virt);
     if p3_entry AND 1 = 0 then Some 0 else Some (align_down p3_entry 4096) }"

definition vmm_root_p2_ptr :: "machine \<Rightarrow> int \<Rightarrow> int \<Rightarrow> int option" where
  "vmm_root_p2_ptr s root_p4 virt = do {
     p3_ptr \<leftarrow> vmm_root_p3_ptr s root_p4;
     p3_entry \<leftarrow> page_table_qword s p3_ptr (pdpt_index virt);
     if p3_entry AND 1 = 0 then Some 0 else Some (align_down p3_entry 4096) }"

text \<open>The common tail of the two splitting routines: a fresh table with the leaf's 512 pages.\<close>

definition vmm_split_fill :: "int \<Rightarrow> int \<Rightarrow> machine \<Rightarrow> machine option" where
  "vmm_split_fill pt_ptr phys_base s = for_range 0 512 (\<lambda>entry_index s.
     set_page_table_qword s pt_ptr entry_index ((phys_base + push_bit 12 entry_index) OR 0x003)) s"

definition vmm_split_large_page :: "machine \<Rightarrow> int \<Rightarrow> int \<Rightarrow> int \<Rightarrow> (int \<times> machine) option" where
  "vmm_split_large_page s state_ptr pmm_state virt = do {
     supported \<leftarrow> vmm_supports_addr s state_ptr virt;
     if \<not> supported then panic ''vmm address outside bootstrap range'' else do {
     p2_ptr \<leftarrow> vmm_p2_ptr s state_ptr virt;
     let p2_slot = pd_index virt;
     p2_entry \<leftarrow> page_table_qword s p2_ptr p2_slot;
     if p2_entry AND 1 = 0 then panic ''vmm missing p2 entry''
     else if p2_entry AND 0x80 = 0 then Some (align_down p2_entry 4096, s)
     else do {
     (pt_ptr, s) \<leftarrow> pmm_alloc_page s pmm_state;
     if pt_ptr = 0 then panic ''vmm split alloc failed'' else do {
     s \<leftarrow> zero_page s pt_ptr;
     s \<leftarrow> vmm_split_fill pt_ptr (align_down p2_entry 0x200000) s;
     s \<leftarrow> set_page_table_qword s p2_ptr p2_slot (pt_ptr OR 0x003);
     Some (pt_ptr, vmm_reload_current_cr3 s) } } } }"

definition vmm_root_split_large_page :: "machine \<Rightarrow> int \<Rightarrow> int \<Rightarrow> int \<Rightarrow> int \<Rightarrow> (int \<times> machine) option" where
  "vmm_root_split_large_page s root_p4 limit pmm_state virt =
     (if \<not> vmm_root_supports_addr limit virt then panic ''vmm root address outside bootstrap range'' else do {
     p2_ptr \<leftarrow> vmm_root_p2_ptr s root_p4 virt;
     let p2_slot = pd_index virt;
     p2_entry \<leftarrow> page_table_qword s p2_ptr p2_slot;
     if p2_entry AND 1 = 0 then panic ''vmm root missing p2 entry''
     else if p2_entry AND 0x80 = 0 then Some (align_down p2_entry 4096, s)
     else do {
     (pt_ptr, s) \<leftarrow> pmm_alloc_page s pmm_state;
     if pt_ptr = 0 then panic ''vmm root split alloc failed'' else do {
     s \<leftarrow> zero_page s pt_ptr;
     s \<leftarrow> vmm_split_fill pt_ptr (align_down p2_entry 0x200000) s;
     s \<leftarrow> set_page_table_qword s p2_ptr p2_slot (pt_ptr OR 0x003);
     Some (pt_ptr, if read_cr3 s = root_p4 then load_cr3 s root_p4 else s) } } })"

definition vmm_page_flags :: "machine \<Rightarrow> int \<Rightarrow> int \<Rightarrow> int option" where
  "vmm_page_flags s state_ptr virt = do {
     supported \<leftarrow> vmm_supports_addr s state_ptr virt;
     if \<not> supported then Some 0 else do {
     p2_ptr \<leftarrow> vmm_p2_ptr s state_ptr virt;
     if p2_ptr = 0 then Some 0 else do {
     p2_entry \<leftarrow> page_table_qword s p2_ptr (pd_index virt);
     if p2_entry AND 1 = 0 then Some 0
     else if p2_entry AND 0x80 \<noteq> 0 then Some (p2_entry AND 0xFFF)
     else do {
     let pt_ptr = align_down p2_entry 4096;
     pte \<leftarrow> page_table_qword s pt_ptr (pt_index virt);
     if pte AND 1 = 0 then Some 0 else Some (pte AND 0xFFF) } } } }"

text \<open>The source writes the walk twice, once behind the state block and once from a root, and so do the definitions.\<close>

definition vmm_translate :: "machine \<Rightarrow> int \<Rightarrow> int \<Rightarrow> int option" where
  "vmm_translate s state_ptr virt = do {
     supported \<leftarrow> vmm_supports_addr s state_ptr virt;
     if \<not> supported then Some 0 else do {
     p2_ptr \<leftarrow> vmm_p2_ptr s state_ptr virt;
     if p2_ptr = 0 then Some 0 else do {
     p2_entry \<leftarrow> page_table_qword s p2_ptr (pd_index virt);
     if p2_entry AND 1 = 0 then Some 0
     else if p2_entry AND 0x80 \<noteq> 0 then Some (align_down p2_entry 0x200000 + (virt AND 0x1FFFFF))
     else do {
     let pt_ptr = align_down p2_entry 4096;
     pte \<leftarrow> page_table_qword s pt_ptr (pt_index virt);
     if pte AND 1 = 0 then Some 0 else Some (align_down pte 4096 + (virt AND 0xFFF)) } } } }"

definition vmm_translate_root :: "machine \<Rightarrow> int \<Rightarrow> int \<Rightarrow> int \<Rightarrow> int option" where
  "vmm_translate_root s state_ptr root_p4 virt = do {
     limit \<leftarrow> vmm_state_qword s state_ptr 4;
     if \<not> vmm_root_supports_addr limit virt then Some 0 else do {
     p2_ptr \<leftarrow> vmm_root_p2_ptr s root_p4 virt;
     if p2_ptr = 0 then Some 0 else do {
     p2_entry \<leftarrow> page_table_qword s p2_ptr (pd_index virt);
     if p2_entry AND 1 = 0 then Some 0
     else if p2_entry AND 0x80 \<noteq> 0 then Some (align_down p2_entry 0x200000 + (virt AND 0x1FFFFF))
     else do {
     let pt_ptr = align_down p2_entry 4096;
     pte \<leftarrow> page_table_qword s pt_ptr (pt_index virt);
     if pte AND 1 = 0 then Some 0 else Some (align_down pte 4096 + (virt AND 0xFFF)) } } } }"

definition vmm_map_page :: "machine \<Rightarrow> int \<Rightarrow> int \<Rightarrow> int \<Rightarrow> int \<Rightarrow> int \<Rightarrow> machine option" where
  "vmm_map_page s state_ptr pmm_state virt phys flags =
     (if virt AND 0xFFF \<noteq> 0 \<or> phys AND 0xFFF \<noteq> 0 then panic ''vmm map requires 4k alignment'' else do {
     (pt_ptr, s) \<leftarrow> vmm_split_large_page s state_ptr pmm_state virt;
     let slot = pt_index virt;
     pte \<leftarrow> page_table_qword s pt_ptr slot;
     if pte \<noteq> 0 then panic ''vmm map over present entry'' else do {
     s \<leftarrow> set_page_table_qword s pt_ptr slot (phys OR (flags AND 0xFFF) OR 0x001);
     Some (vmm_reload_current_cr3 s) } })"

text \<open>The access bits of the three upper entries on the way to a user page.\<close>

definition set_user_bits :: "machine \<Rightarrow> int \<Rightarrow> int \<Rightarrow> machine option" where
  "set_user_bits s root_p4 virt = do {
     p3_ptr \<leftarrow> vmm_root_p3_ptr s root_p4;
     let pdpt_slot = pdpt_index virt;
     p2_ptr \<leftarrow> vmm_root_p2_ptr s root_p4 virt;
     let p2_slot = pd_index virt;
     e4 \<leftarrow> page_table_qword s root_p4 0;
     s \<leftarrow> set_page_table_qword s root_p4 0 (e4 OR 0x004);
     e3 \<leftarrow> page_table_qword s p3_ptr pdpt_slot;
     s \<leftarrow> set_page_table_qword s p3_ptr pdpt_slot (e3 OR 0x004);
     e2 \<leftarrow> page_table_qword s p2_ptr p2_slot;
     set_page_table_qword s p2_ptr p2_slot (e2 OR 0x004) }"

definition vmm_map_page_root :: "machine \<Rightarrow> int \<Rightarrow> int \<Rightarrow> int \<Rightarrow> int \<Rightarrow> int \<Rightarrow> int \<Rightarrow> machine option" where
  "vmm_map_page_root s state_ptr root_p4 pmm_state virt phys flags =
     (if virt AND 0xFFF \<noteq> 0 \<or> phys AND 0xFFF \<noteq> 0 then panic ''vmm root map requires 4k alignment'' else do {
     limit \<leftarrow> vmm_state_qword s state_ptr 4;
     (pt_ptr, s) \<leftarrow> vmm_root_split_large_page s root_p4 limit pmm_state virt;
     s \<leftarrow> (if flags AND 0x004 \<noteq> 0 then set_user_bits s root_p4 virt else Some s);
     let slot = pt_index virt;
     pte \<leftarrow> page_table_qword s pt_ptr slot;
     if pte \<noteq> 0 then panic ''vmm root map over present entry'' else do {
     s \<leftarrow> set_page_table_qword s pt_ptr slot (phys OR (flags AND 0xFFF) OR 0x001);
     Some (if read_cr3 s = root_p4 then load_cr3 s root_p4 else s) } })"

definition vmm_unmap_page_root :: "machine \<Rightarrow> int \<Rightarrow> int \<Rightarrow> int \<Rightarrow> int \<Rightarrow> machine option" where
  "vmm_unmap_page_root s state_ptr root_p4 pmm_state virt =
     (if virt AND 0xFFF \<noteq> 0 then panic ''vmm root unmap requires 4k alignment'' else do {
     limit \<leftarrow> vmm_state_qword s state_ptr 4;
     (pt_ptr, s) \<leftarrow> vmm_root_split_large_page s root_p4 limit pmm_state virt;
     let slot = pt_index virt;
     pte \<leftarrow> page_table_qword s pt_ptr slot;
     if pte = 0 then panic ''vmm root unmap missing entry'' else do {
     s \<leftarrow> set_page_table_qword s pt_ptr slot 0;
     Some (if read_cr3 s = root_p4 then load_cr3 s root_p4 else s) } })"

definition vmm_unmap_page :: "machine \<Rightarrow> int \<Rightarrow> int \<Rightarrow> int \<Rightarrow> machine option" where
  "vmm_unmap_page s state_ptr pmm_state virt =
     (if virt AND 0xFFF \<noteq> 0 then panic ''vmm unmap requires 4k alignment'' else do {
     (pt_ptr, s) \<leftarrow> vmm_split_large_page s state_ptr pmm_state virt;
     let slot = pt_index virt;
     pte \<leftarrow> page_table_qword s pt_ptr slot;
     if pte = 0 then panic ''vmm unmap missing entry'' else do {
     s \<leftarrow> set_page_table_qword s pt_ptr slot 0;
     Some (vmm_reload_current_cr3 s) } })"

definition vmm_protect_page :: "machine \<Rightarrow> int \<Rightarrow> int \<Rightarrow> int \<Rightarrow> int \<Rightarrow> machine option" where
  "vmm_protect_page s state_ptr pmm_state virt flags =
     (if virt AND 0xFFF \<noteq> 0 then panic ''vmm protect requires 4k alignment'' else do {
     (pt_ptr, s) \<leftarrow> vmm_split_large_page s state_ptr pmm_state virt;
     let slot = pt_index virt;
     pte \<leftarrow> page_table_qword s pt_ptr slot;
     if pte = 0 then panic ''vmm protect missing entry'' else do {
     let phys = align_down pte 4096;
     s \<leftarrow> set_page_table_qword s pt_ptr slot (phys OR (flags AND 0xFFF) OR 0x001);
     Some (vmm_reload_current_cr3 s) } })"

definition init_vmm :: "machine \<Rightarrow> int \<Rightarrow> int \<Rightarrow> (int \<times> machine) option" where
  "init_vmm s pmm_state boot_info_ptr = do {
     (p4, s) \<leftarrow> pmm_alloc_page s pmm_state;
     (p3, s) \<leftarrow> pmm_alloc_page s pmm_state;
     (state_ptr, s) \<leftarrow> alloc_bytes s (8 * 8);
     let old_cr3 = read_cr3 s;
     let p2_count = 4;
     if p4 = 0 \<or> p3 = 0 then panic ''vmm bootstrap alloc failed'' else do {
     s \<leftarrow> zero_page s p4;
     s \<leftarrow> zero_page s p3;
     s \<leftarrow> set_page_table_qword s p4 0 (p3 OR 0x003);
     s \<leftarrow> for_range 0 p2_count (vmm_identity_table pmm_state p3) s;
     s \<leftarrow> set_vmm_state_qword s state_ptr 0 old_cr3;
     s \<leftarrow> set_vmm_state_qword s state_ptr 1 p4;
     s \<leftarrow> set_vmm_state_qword s state_ptr 2 p3;
     s \<leftarrow> set_vmm_state_qword s state_ptr 3 p2_count;
     s \<leftarrow> set_vmm_state_qword s state_ptr 4 (p2_count * 512 * 0x200000);
     k13 \<leftarrow> boot_info_qword s boot_info_ptr 13;
     s \<leftarrow> set_vmm_state_qword s state_ptr 5 k13;
     k14 \<leftarrow> boot_info_qword s boot_info_ptr 14;
     s \<leftarrow> set_vmm_state_qword s state_ptr 6 k14;
     s \<leftarrow> set_vmm_state_qword s state_ptr 7 0;
     let s = load_cr3 s p4;
     if read_cr3 s \<noteq> p4 then panic ''vmm cr3 switch failed'' else do {
     magic \<leftarrow> boot_info_qword s boot_info_ptr 0;
     if magic \<noteq> 0x50434F424F4F5431 then panic ''vmm lost boot info mapping'' else do {
     s \<leftarrow> set_vmm_state_qword s state_ptr 7 1;
     Some (state_ptr, s) } } } }"

definition dump_vmm_summary :: "machine \<Rightarrow> int \<Rightarrow> machine option" where
  "dump_vmm_summary s state_ptr = do {
     q \<leftarrow> vmm_state_qword s state_ptr 0;
     let s = console_write_label_hex s ''vmm.old_cr3='' q;
     q \<leftarrow> vmm_state_qword s state_ptr 1;
     let s = console_write_label_hex s ''vmm.new_cr3='' q;
     q \<leftarrow> vmm_state_qword s state_ptr 2;
     let s = console_write_label_hex s ''vmm.p3='' q;
     q \<leftarrow> vmm_state_qword s state_ptr 3;
     let s = console_write_label_u64 s ''vmm.p2_tables='' q;
     q \<leftarrow> vmm_state_qword s state_ptr 4;
     let s = console_write_label_hex s ''vmm.identity_limit='' q;
     q \<leftarrow> vmm_state_qword s state_ptr 5;
     let s = console_write_label_hex s ''vmm.kernel.start='' q;
     q \<leftarrow> vmm_state_qword s state_ptr 6;
     Some (console_write_label_hex s ''vmm.kernel.end='' q) }"

definition vmm_self_test :: "machine \<Rightarrow> int \<Rightarrow> int \<Rightarrow> int \<Rightarrow> machine option" where
  "vmm_self_test s state_ptr pmm_state boot_info_ptr = do {
     let test_virt = 0x18000000;
     active \<leftarrow> vmm_state_qword s state_ptr 7;
     if active \<noteq> 1 then panic ''vmm not marked active'' else do {
     root \<leftarrow> vmm_state_qword s state_ptr 1;
     if read_cr3 s \<noteq> root then panic ''vmm active cr3 mismatch'' else do {
     magic \<leftarrow> boot_info_qword s boot_info_ptr 0;
     if magic \<noteq> 0x50434F424F4F5431 then panic ''vmm boot info self-test failed'' else do {
     t \<leftarrow> vmm_translate s state_ptr test_virt;
     if t \<noteq> test_virt then panic ''vmm identity translation mismatch'' else do {
     (scratch_page, s) \<leftarrow> pmm_alloc_page s pmm_state;
     if scratch_page = 0 then panic ''vmm self-test scratch alloc failed'' else do {
     let s = console_write_label_hex s ''vmm.test.virt='' test_virt;
     t \<leftarrow> vmm_translate s state_ptr test_virt;
     let s = console_write_label_hex s ''vmm.test.original='' t;
     let s = console_write_label_hex s ''vmm.test.scratch='' scratch_page;
     s \<leftarrow> vmm_unmap_page s state_ptr pmm_state test_virt;
     t \<leftarrow> vmm_translate s state_ptr test_virt;
     if t \<noteq> 0 then panic ''vmm unmap failed'' else do {
     s \<leftarrow> vmm_map_page s state_ptr pmm_state test_virt scratch_page 0x003;
     t \<leftarrow> vmm_translate s state_ptr test_virt;
     if t \<noteq> scratch_page then panic ''vmm remap failed'' else do {
     s \<leftarrow> vmm_protect_page s state_ptr pmm_state test_virt 0x001;
     f \<leftarrow> vmm_page_flags s state_ptr test_virt;
     if f AND 0x002 \<noteq> 0 then panic ''vmm protect failed'' else do {
     s \<leftarrow> vmm_protect_page s state_ptr pmm_state test_virt 0x003;
     s \<leftarrow> vmm_unmap_page s state_ptr pmm_state test_virt;
     s \<leftarrow> vmm_map_page s state_ptr pmm_state test_virt test_virt 0x003;
     t \<leftarrow> vmm_translate s state_ptr test_virt;
     if t \<noteq> test_virt then panic ''vmm identity restore failed'' else do {
     s \<leftarrow> pmm_free_page s pmm_state scratch_page;
     Some (console_write_line s ''vmm self-test ok'') } } } } } } } } } }"

end
