(* ===== verification/Paging.thy ===== *)
theory Paging
  imports Vmm
begin

text \<open>
  Pages as arrays of quadwords, the bookkeeping of who holds which page, and address spaces: what
  the tables under a root mean, and that the operations of \<^verbatim>\<open>kmemory.py\<close> change exactly the
  translation they are asked to change.
\<close>

section \<open>Pages as arrays\<close>

definition page_at :: "machine \<Rightarrow> int \<Rightarrow> int \<Rightarrow> int" where
  "page_at s q i = load_qword s (q + i * 8)"

definition page_bytes :: "int set \<Rightarrow> int set" where
  "page_bytes A = (\<Union>q \<in> A. {q..<q + 4096})"

lemma page_bytes_mono: "A \<subseteq> B \<Longrightarrow> page_bytes A \<subseteq> page_bytes B"
  by (auto simp: page_bytes_def)

lemma page_valid_ptr: "page_valid q \<Longrightarrow> qword_ptr q \<and> 0 < q"
proof -
  assume v: "page_valid q"
  have "q mod 8 = (q mod 4096) mod 8" by (rule mod_mod_cancel [symmetric]) simp
  then show ?thesis using v by (auto simp: page_valid_def qword_ptr_def)
qed

lemma page_apart:
  assumes "page_valid q" "page_valid q'" "q \<noteq> q'" shows "q + 4096 \<le> q' \<or> q' + 4096 \<le> q"
  using assms aligned_gap [of q 4096 q'] aligned_gap [of q' 4096 q] unfolding page_valid_def by linarith

lemma page_at_put:
  assumes "page_valid q" "page_valid q'" "0 \<le> i" "i < 512" "0 \<le> j" "j < 512" "in64 v"
  shows "page_at (put_qword s (q + i * 8) v) q' j = (if q' = q \<and> j = i then v else page_at s q' j)"
proof (cases "q' = q")
  case True
  have "q + i * 8 + 8 \<le> q + j * 8 \<or> q + j * 8 + 8 \<le> q + i * 8" if "j \<noteq> i" using that by linarith
  then show ?thesis using assms True
    by (cases "j = i") (simp_all add: page_at_def load_put_qword i64_id load_put_qword_other)
next
  case False
  then have "q + i * 8 + 8 \<le> q' + j * 8 \<or> q' + j * 8 + 8 \<le> q + i * 8"
    using page_apart [OF assms(1,2)] assms by linarith
  then show ?thesis using False by (simp add: page_at_def load_put_qword_other)
qed

lemma page_access:
  assumes "page_valid q" "0 \<le> i" "i < 512"
  shows "page_table_qword s q i = Some (page_at s q i)"
    and "set_page_table_qword s q i v = Some (put_qword s (q + i * 8) v)"
    and "load_qword_region s q 512 i = Some (page_at s q i)"
    and "store_qword_region s q 512 i v = Some (put_qword s (q + i * 8) v)"
  using assms page_valid_ptr [of q]
  by (simp_all add: page_table_qword_def set_page_table_qword_def load_qword_region_eq
      store_qword_region_eq page_at_def)

lemma page_at_frame:
  assumes "writes_in A s s'" "{q..<q + 4096} \<inter> A = {}" "0 \<le> i" "i < 512"
  shows "page_at s' q i = page_at s q i"
  unfolding page_at_def
  by (rule writes_in_load [OF assms(1) interval_disjoint [OF assms(2)]]) (use assms(3,4) in auto)

lemma writes_in_page:
  assumes "0 \<le> i" "i < 512" shows "writes_in {q..<q + 4096} s (put_qword s (q + i * 8) v)"
  using assms by (intro writes_in_put) auto

text \<open>A counting loop that stores \<open>f i\<close> in slot \<open>i\<close> of a page.\<close>

lemma page_fill:
  assumes q: "page_valid q" and f: "\<And>i. 0 \<le> i \<Longrightarrow> i < 512 \<Longrightarrow> in64 (f i)"
    and body: "\<And>i t. 0 \<le> i \<Longrightarrow> i < 512 \<Longrightarrow> writes_in {q..<q + 4096} s t \<Longrightarrow> body i t = Some (put_qword t (q + i * 8) (f i))"
  shows "\<exists>s'. for_range 0 512 body s = Some s' \<and> writes_in {q..<q + 4096} s s'
    \<and> (\<forall>i \<in> {0..<512}. page_at s' q i = f i)"
proof -
  have "\<exists>s'. for_range 0 512 body s = Some s' \<and> writes_in {q..<q + 4096} s s'
      \<and> (\<forall>i. 0 \<le> i \<longrightarrow> i < 512 \<longrightarrow> load_qword s' (q + i * 8) = f i)"
  proof (rule memory.fill_total)
    show "writes_in {q..<q + 4096} s (put_qword t (q + i * 8) (f i))"
      if "0 \<le> i" "i < 512" "writes_in {q..<q + 4096} s t" for i t
      using that writes_in_page [OF that(1,2)] writes_in_trans by blast
  qed (use f body in auto)
  then show ?thesis by (auto simp: page_at_def)
qed

lemma zero_page_ok:
  assumes "page_valid q"
  shows "\<exists>s'. zero_page s q = Some s' \<and> writes_in {q..<q + 4096} s s' \<and> (\<forall>i \<in> {0..<512}. page_at s' q i = 0)"
  unfolding zero_page_def by (rule page_fill) (use assms page_access(4) in \<open>auto simp: in64_def\<close>)

lemma copy_page_ok:
  assumes "page_valid q" "page_valid p" "p \<noteq> q"
  shows "\<exists>s'. copy_page s p q = Some s' \<and> writes_in {q..<q + 4096} s s'
    \<and> (\<forall>i \<in> {0..<512}. page_at s' q i = page_at s p i)"
  unfolding copy_page_def
proof (rule page_fill)
  fix i :: int and t assume i: "0 \<le> i" "i < 512" and t: "writes_in {q..<q + 4096} s t"
  have "{p..<p + 4096} \<inter> {q..<q + 4096} = {}" using page_apart [OF assms(2,1,3)] by auto
  then show "do { v \<leftarrow> load_qword_region t p 512 i; store_qword_region t q 512 i v }
      = Some (put_qword t (q + i * 8) (page_at s p i))"
    using i assms page_at_frame [OF t _ i] by (simp add: page_access)
qed (use assms memory.load_in64 in \<open>auto simp: page_at_def\<close>)

section \<open>Held pages\<close>

text \<open>
  \<open>U\<close> is the memory the allocator at \<open>p\<close> manages, \<open>K\<close> the pages currently held by the rest of the
  kernel.  The pages of \<open>U\<close> do not overlap the allocator's own blocks.
\<close>

definition mem_ok :: "int \<Rightarrow> int set \<Rightarrow> machine \<Rightarrow> int set \<Rightarrow> bool" where
  "mem_ok p U s K \<longleftrightarrow> pmm_inv s p \<and> K \<inter> pmm_pages s p = {} \<and> K \<union> pmm_pages s p = U
     \<and> finite U \<and> (\<forall>q \<in> U. page_valid q) \<and> page_bytes U \<inter> pmm_area s p = {}"

lemma mem_ok_pages: "mem_ok p U s K \<Longrightarrow> pmm_pages s p = U - K"
  unfolding mem_ok_def by blast

lemma mem_ok_sub: "mem_ok p U s K \<Longrightarrow> K \<subseteq> U"
  unfolding mem_ok_def by blast

lemma mem_ok_valid: "mem_ok p U s K \<Longrightarrow> q \<in> U \<Longrightarrow> page_valid q"
  unfolding mem_ok_def by blast

lemma mem_ok_apart: "mem_ok p U s K \<Longrightarrow> q \<in> U \<Longrightarrow> {q..<q + 4096} \<inter> pmm_area s p = {}"
  unfolding mem_ok_def page_bytes_def by blast

text \<open>Writing to held pages, or to anything outside the allocator's blocks, keeps the bookkeeping.\<close>

lemma mem_ok_write:
  assumes "mem_ok p U s K" "writes_in A s s'" "A \<inter> pmm_area s p = {}"
  shows "mem_ok p U s' K" "pmm_area s' p = pmm_area s p" "pmm_view s' p = pmm_view s p"
proof -
  have o: "outside_pmm p s s'" using assms(2,3) unfolding outside_pmm_def writes_in_def by blast
  have inv: "pmm_inv s p" using assms(1) by (simp add: mem_ok_def)
  show a: "pmm_area s' p = pmm_area s p"
    using pmm_frame(3) [of s p s'] inv o by (auto simp: pmm_inv_def outside_pmm_def)
  show "mem_ok p U s' K" using assms(1) pmm_inv_frame [OF inv o] a by (simp add: mem_ok_def)
  show "pmm_view s' p = pmm_view s p" using pmm_inv_frame [OF inv o] by simp
qed

lemma mem_ok_page_write:
  assumes "mem_ok p U s K" "writes_in {q..<q + 4096} s s'" "q \<in> U"
  shows "mem_ok p U s' K" "pmm_area s' p = pmm_area s p" "pmm_view s' p = pmm_view s p"
  using mem_ok_write [OF assms(1,2) mem_ok_apart [OF assms(1,3)]] by auto

lemma mem_ok_alloc:
  assumes m: "mem_ok p U s K" and some: "K \<noteq> U"
  shows "\<exists>q s'. pmm_alloc_page s p = Some (q, s') \<and> q \<noteq> 0 \<and> q \<in> U - K \<and> mem_ok p U s' (insert q K)
    \<and> writes_in (pmm_area s p) s s' \<and> pmm_area s' p = pmm_area s p
    \<and> length (recycled (pmm_view s' p)) \<le> length (recycled (pmm_view s p))"
proof -
  have inv: "pmm_inv s p" using m by (simp add: mem_ok_def)
  have "pmm_pages s p \<noteq> {}" using some mem_ok_pages [OF m] mem_ok_sub [OF m] by auto
  then obtain q s' where q: "pmm_alloc_page s p = Some (q, s')" "pmm_inv s' p" "pmm_step p s s'"
      "q \<in> pmm_pages s p" "pmm_pages s' p = pmm_pages s p - {q}"
      "length (recycled (pmm_view s' p)) = length (recycled (pmm_view s p)) - 1"
    using pmm_alloc_page_contract [OF inv] by blast
  have "page_valid q" using q(4) m mem_ok_pages [OF m] mem_ok_valid by blast
  then have "q \<noteq> 0" by (auto simp: page_valid_def)
  moreover have "mem_ok p U s' (insert q K)"
    using m q pmm_step_area [OF q(3)] unfolding mem_ok_def by auto
  ultimately show ?thesis
    using q mem_ok_pages [OF m] pmm_step_area [OF q(3)] unfolding pmm_step_def
    by (intro exI [of _ q] exI [of _ s']) auto
qed

lemma mem_ok_free:
  assumes m: "mem_ok p U s K" and q: "q \<in> K" and room: "length (recycled (pmm_view s p)) < 2048"
  shows "\<exists>s'. pmm_free_page s p q = Some s' \<and> mem_ok p U s' (K - {q}) \<and> writes_in (pmm_area s p) s s'
    \<and> pmm_area s' p = pmm_area s p
    \<and> length (recycled (pmm_view s' p)) = length (recycled (pmm_view s p)) + 1"
proof -
  have inv: "pmm_inv s p" and n: "q \<notin> pmm_pages s p" using m q by (auto simp: mem_ok_def)
  have v: "page_valid q" using m q mem_ok_sub mem_ok_valid by blast
  from pmm_free_page_contract(2) [OF inv n] v room obtain s' where s':
    "pmm_free_page s p q = Some s'" "pmm_inv s' p" "pmm_step p s s'" "pmm_pages s' p = insert q (pmm_pages s p)"
    "length (recycled (pmm_view s' p)) = length (recycled (pmm_view s p)) + 1"
    by (auto simp: page_valid_def)
  have "mem_ok p U s' (K - {q})"
    using m q s' pmm_step_area [OF s'(3)] unfolding mem_ok_def by auto
  then show ?thesis using s' pmm_step_area [OF s'(3)] by (auto simp: pmm_step_def)
qed


section \<open>Table entries\<close>

lemma and_low_zero:
  assumes "(a :: int) mod 4096 = 0" "0 \<le> m" "m < 4096" shows "a AND m = 0"
proof -
  have a: "take_bit 12 a = 0" and m: "take_bit 12 m = m"
    using assms by (simp_all add: take_bit_eq_mod)
  have "a AND take_bit 12 m = take_bit 12 a AND take_bit 12 m"
    by (rule bit_eqI) (auto simp: bit_simps)
  then show ?thesis unfolding a m by simp
qed

lemma entry_low:
  assumes "(a :: int) mod 4096 = 0" "0 \<le> m" "m < 4096"
  shows "(a OR f) AND m = f AND m"
  using and_low_zero [OF assms] by (simp add: bit.conj_disj_distrib2)

lemma entry_base:
  assumes "(a :: int) mod 4096 = 0" "0 \<le> f" "f < 4096"
  shows "align_down (a OR f) 4096 = a"
proof -
  have "a OR f = a + f" using or_disjoint_add [of 12 a f] assms by (simp add: mod_eq_0_iff_dvd)
  moreover have "(a + f) mod 4096 = f" using assms by (simp add: mod_add_left_eq [symmetric, of a])
  ultimately show ?thesis by (simp add: align_down_4096)
qed

lemma entry_in64:
  assumes "(a :: int) mod 4096 = 0" "0 \<le> f" "f < 4096" "in64 a" shows "in64 (a OR f)"
proof -
  have "a + 4096 \<le> 2 ^ 63" using assms(1,4) aligned_gap [of a 4096 "2 ^ 63"] by (simp add: in64_def)
  then show ?thesis using or_disjoint_add [of 12 a f] assms by (simp add: mod_eq_0_iff_dvd in64_def)
qed

lemma table_entry:
  assumes "page_valid t" "0 \<le> f" "f < 4096"
  shows "align_down (t OR f) 4096 = t" "(t OR f) AND 1 = f AND 1" "(t OR f) AND 0x80 = f AND 0x80" "in64 (t OR f)"
proof -
  have t: "t mod 4096 = 0" "in64 t" using assms(1) by (auto simp: page_valid_def in64_def)
  show "align_down (t OR f) 4096 = t" "(t OR f) AND 1 = f AND 1" "(t OR f) AND 0x80 = f AND 0x80" "in64 (t OR f)"
    using entry_base [OF t(1) assms(2,3)] entry_low [OF t(1), of 1 f] entry_low [OF t(1), of "0x80" f]
      entry_in64 [OF t(1) assms(2,3) t(2)] by simp_all
qed

lemma block_page:
  assumes "in64 e" "0 \<le> i" "i < 512"
  shows "(align_down e 0x200000 + i * 4096) mod 4096 = 0" "in64 (align_down e 0x200000 + i * 4096)"
proof -
  let ?b = "align_down e 0x200000"
  have b: "?b mod 0x200000 = 0" "?b \<le> e" "e < ?b + 0x200000" by (simp_all add: align_down_2M)
  have "?b + 0x200000 \<le> 2 ^ 63" using b assms(1) aligned_gap [of ?b "0x200000" "2 ^ 63"] by (simp add: in64_def)
  moreover have "- (2 ^ 63) \<le> ?b"
    using b assms(1) aligned_gap [of ?b "0x200000" "- (2 ^ 63)"] by (simp add: in64_def not_less [symmetric]) blast
  ultimately show "in64 (?b + i * 4096)" using assms by (simp add: in64_def)
  have "(4096 :: int) dvd 0x200000" by simp
  then have "(4096 :: int) dvd ?b" using b(1) dvd_trans mod_eq_0_iff_dvd by blast
  then show "(?b + i * 4096) mod 4096 = 0" by (simp add: mod_eq_0_iff_dvd)
qed

lemma in64_or: "in64 a \<Longrightarrow> in64 b \<Longrightarrow> in64 (a OR b)"
proof -
  assume "in64 a" "in64 b"
  have "i64 (a OR b) = i64 a OR i64 b" by (rule bit_eqI) (simp add: i64_def bit_simps)
  then show "in64 (a OR b)"
    using in64_i64 [of "a OR b"] i64_id [OF \<open>in64 a\<close>] i64_id [OF \<open>in64 b\<close>] by simp
qed

lemma user_bit:
  "align_down (e OR 4) 4096 = align_down e 4096" "(e OR 4) AND 1 = e AND 1" "(e OR 4) AND 0x80 = e AND 0x80"
  by (simp_all add: align_down_def bit.conj_disj_distrib2)

section \<open>Address spaces\<close>

text \<open>
  The tables under the root \<open>r\<close>: \<open>pde s r k\<close> is the entry of the \<open>k\<close>-th 2 MiB block, \<open>pt_of s r k\<close>
  the table it refers to when it is not a leaf.
\<close>

definition p3_of :: "machine \<Rightarrow> int \<Rightarrow> int" where
  "p3_of s r = align_down (page_at s r 0) 4096"

definition p2_of :: "machine \<Rightarrow> int \<Rightarrow> int \<Rightarrow> int" where
  "p2_of s r i = align_down (page_at s (p3_of s r) i) 4096"

definition pde :: "machine \<Rightarrow> int \<Rightarrow> int \<Rightarrow> int" where
  "pde s r k = page_at s (p2_of s r (k div 512)) (k mod 512)"

definition pt_of :: "machine \<Rightarrow> int \<Rightarrow> int \<Rightarrow> int" where
  "pt_of s r k = align_down (pde s r k) 4096"

definition large :: "int \<Rightarrow> bool" where
  "large e \<longleftrightarrow> e AND 0x80 \<noteq> 0"

definition split_blocks :: "machine \<Rightarrow> int \<Rightarrow> int \<Rightarrow> int set" where
  "split_blocks s r n = {k. 0 \<le> k \<and> k < 512 * n \<and> \<not> large (pde s r k)}"

definition space_tables :: "machine \<Rightarrow> int \<Rightarrow> int \<Rightarrow> int set" where
  "space_tables s r n = {r, p3_of s r} \<union> p2_of s r ` {0..<n} \<union> pt_of s r ` split_blocks s r n"

text \<open>
  An address space of \<open>n\<close> GiB: every entry down to the 2 MiB blocks is present, and all tables are
  different pages, taken from the pages \<open>K\<close> that the kernel holds.
\<close>

definition space_ok :: "machine \<Rightarrow> int \<Rightarrow> int \<Rightarrow> int set \<Rightarrow> bool" where
  "space_ok s r n K \<longleftrightarrow> 0 \<le> n \<and> n \<le> 512 \<and> space_tables s r n \<subseteq> K
     \<and> page_at s r 0 AND 1 \<noteq> 0 \<and> (\<forall>i \<in> {0..<n}. page_at s (p3_of s r) i AND 1 \<noteq> 0)
     \<and> (\<forall>k \<in> {0..<512 * n}. pde s r k AND 1 \<noteq> 0)
     \<and> r \<noteq> p3_of s r \<and> p2_of s r ` {0..<n} \<inter> {r, p3_of s r} = {} \<and> inj_on (p2_of s r) {0..<n}
     \<and> pt_of s r ` split_blocks s r n \<inter> ({r, p3_of s r} \<union> p2_of s r ` {0..<n}) = {}
     \<and> inj_on (pt_of s r) (split_blocks s r n)"

text \<open>
  What the space means: the physical frame of each virtual page number, \<^const>\<open>None\<close> when it is
  not mapped.  This is the abstraction the operations are specified by.
\<close>

definition frame_of :: "machine \<Rightarrow> int \<Rightarrow> int \<Rightarrow> int option" where
  "frame_of s r v =
     (let e = pde s r (v div 512) in
      if large e then Some (align_down e 0x200000 + (v mod 512) * 4096)
      else let t = page_at s (pt_of s r (v div 512)) (v mod 512)
        in if t AND 1 = 0 then None else Some (align_down t 4096))"

lemma block_index: "0 \<le> (k :: int) \<Longrightarrow> k < 512 * n \<Longrightarrow> 0 \<le> k div 512 \<and> k div 512 < n"
  by auto

lemma space_members:
  assumes "space_ok s r n K"
  shows "r \<in> space_tables s r n" "p3_of s r \<in> space_tables s r n"
    "\<And>i. 0 \<le> i \<Longrightarrow> i < n \<Longrightarrow> p2_of s r i \<in> space_tables s r n"
    "\<And>k. k \<in> split_blocks s r n \<Longrightarrow> pt_of s r k \<in> space_tables s r n"
  by (auto simp: space_tables_def)

lemma space_mono: "space_ok s r n K \<Longrightarrow> K \<subseteq> L \<Longrightarrow> space_ok s r n L"
  unfolding space_ok_def by (elim conjE, intro conjI) (assumption | erule order_trans)+

text \<open>Entries that differ in their access bits only.\<close>

definition entry_sim :: "int \<Rightarrow> int \<Rightarrow> bool" where
  "entry_sim e e' \<longleftrightarrow> align_down e 4096 = align_down e' 4096 \<and> e AND 1 = e' AND 1 \<and> e AND 0x80 = e' AND 0x80"

lemma entry_sim_refl [simp]: "entry_sim e e"
  by (simp add: entry_sim_def)

lemma entry_sim_user [simp]: "entry_sim (e OR 4) e"
  by (simp add: entry_sim_def user_bit)

lemma entry_sim_large: "entry_sim e e' \<Longrightarrow> align_down e 0x200000 = align_down e' 0x200000"
proof -
  assume "entry_sim e e'"
  moreover have "align_down (align_down x 4096) 0x200000 = align_down x 0x200000" for x
  proof -
    have "(-4096 :: int) AND -2097152 = -2097152" by simp
    then show ?thesis by (simp add: align_down_def and.assoc)
  qed
  ultimately show ?thesis unfolding entry_sim_def by metis
qed

definition upper_tables :: "machine \<Rightarrow> int \<Rightarrow> int \<Rightarrow> int set" where
  "upper_tables s r n = {r, p3_of s r} \<union> p2_of s r ` {0..<n}"

text \<open>The shape of a space is determined by its upper tables up to access bits.\<close>

lemma space_upper:
  assumes ok: "space_ok s r n K"
    and eq: "\<And>q i. q \<in> upper_tables s r n \<Longrightarrow> 0 \<le> i \<Longrightarrow> i < 512 \<Longrightarrow> entry_sim (page_at s' q i) (page_at s q i)"
  shows "space_ok s' r n K" "p3_of s' r = p3_of s r" "\<And>i. 0 \<le> i \<Longrightarrow> i < n \<Longrightarrow> p2_of s' r i = p2_of s r i"
    "\<And>k. 0 \<le> k \<Longrightarrow> k < 512 * n \<Longrightarrow> entry_sim (pde s' r k) (pde s r k)"
    "\<And>k. 0 \<le> k \<Longrightarrow> k < 512 * n \<Longrightarrow> pt_of s' r k = pt_of s r k"
    "split_blocks s' r n = split_blocks s r n" "space_tables s' r n = space_tables s r n"
proof -
  have mem: "r \<in> upper_tables s r n" "p3_of s r \<in> upper_tables s r n"
    "\<And>i. 0 \<le> i \<Longrightarrow> i < n \<Longrightarrow> p2_of s r i \<in> upper_tables s r n" by (auto simp: upper_tables_def)
  have n: "n \<le> 512" using ok by (simp add: space_ok_def)
  have e4: "entry_sim (page_at s' r 0) (page_at s r 0)" using eq [OF mem(1)] by simp
  then show p3: "p3_of s' r = p3_of s r" by (simp add: p3_of_def entry_sim_def)
  have e3: "entry_sim (page_at s' (p3_of s r) i) (page_at s (p3_of s r) i)" if "0 \<le> i" "i < n" for i
    using that n eq [OF mem(2)] by simp
  show p2: "p2_of s' r i = p2_of s r i" if "0 \<le> i" "i < n" for i
    using e3 [OF that] by (simp add: p2_of_def p3 entry_sim_def)
  show e2: "entry_sim (pde s' r k) (pde s r k)" if "0 \<le> k" "k < 512 * n" for k
    using eq [OF mem(3)] block_index [OF that] by (simp add: pde_def p2)
  show pt: "pt_of s' r k = pt_of s r k" if "0 \<le> k" "k < 512 * n" for k
    using e2 [OF that] by (simp add: pt_of_def entry_sim_def)
  show sb: "split_blocks s' r n = split_blocks s r n"
    using e2 by (auto simp: split_blocks_def large_def entry_sim_def)
  have im: "p2_of s' r ` {0..<n} = p2_of s r ` {0..<n}"
    by (rule image_cong [OF refl]) (simp add: p2)
  have im': "inj_on (p2_of s' r) {0..<n} = inj_on (p2_of s r) {0..<n}"
    by (rule inj_on_cong) (simp add: p2)
  have it: "pt_of s' r ` split_blocks s r n = pt_of s r ` split_blocks s r n"
    by (rule image_cong [OF refl]) (simp add: pt split_blocks_def)
  have it': "inj_on (pt_of s' r) (split_blocks s r n) = inj_on (pt_of s r) (split_blocks s r n)"
    by (rule inj_on_cong) (simp add: pt split_blocks_def)
  show tb: "space_tables s' r n = space_tables s r n" unfolding space_tables_def sb im it p3 ..
  show "space_ok s' r n K"
    using ok e2 e3 e4 unfolding space_ok_def tb sb im im' it it' p3 entry_sim_def by auto
qed

lemma space_pt_apart:
  assumes "space_ok s r n K" "b \<in> split_blocks s r n" "q \<in> upper_tables s r n" shows "pt_of s r b \<noteq> q"
proof -
  have "pt_of s r ` split_blocks s r n \<inter> upper_tables s r n = {}"
    using assms(1) unfolding space_ok_def upper_tables_def by (elim conjE)
  moreover have "pt_of s r b \<in> pt_of s r ` split_blocks s r n" using assms(2) by (rule imageI)
  ultimately show ?thesis using assms(3) by auto
qed

lemma upper_sub: "upper_tables s r n \<subseteq> space_tables s r n"
  by (auto simp: upper_tables_def space_tables_def)

lemma page_number: "0 \<le> (v :: int) \<Longrightarrow> v < n * 262144 \<Longrightarrow> 0 \<le> v div 512 \<and> v div 512 < 512 * n"
  by auto

text \<open>
  Translation as a whole: the upper tables keep their shape and one 4 KiB entry may have changed.
\<close>

lemma space_set_pte:
  assumes ok: "space_ok s r n K" and k: "k \<in> split_blocks s r n" and j: "0 \<le> j" "j < 512"
    and up: "\<And>q i. q \<in> upper_tables s r n \<Longrightarrow> 0 \<le> i \<Longrightarrow> i < 512 \<Longrightarrow> entry_sim (page_at s' q i) (page_at s q i)"
    and low: "\<And>b i. b \<in> split_blocks s r n \<Longrightarrow> 0 \<le> i \<Longrightarrow> i < 512 \<Longrightarrow>
      page_at s' (pt_of s r b) i = (if b = k \<and> i = j then e else page_at s (pt_of s r b) i)"
    and v: "0 \<le> v" "v < n * 262144"
  shows "frame_of s' r v = (if v = k * 512 + j then (if e AND 1 = 0 then None else Some (align_down e 4096))
    else frame_of s r v)"
proof -
  note u = space_upper [OF ok up]
  note b = page_number [OF v]
  have sim: "entry_sim (pde s' r (v div 512)) (pde s r (v div 512))" using u(4) b by simp
  then have lg: "large (pde s' r (v div 512)) = large (pde s r (v div 512))"
    by (simp add: large_def entry_sim_def)
  have vk: "v = k * 512 + j \<longleftrightarrow> v div 512 = k \<and> v mod 512 = j" using j by auto
  show ?thesis
  proof (cases "large (pde s r (v div 512))")
    case True
    then have "v div 512 \<noteq> k" using k by (auto simp: split_blocks_def)
    then show ?thesis using True lg vk entry_sim_large [OF sim] by (auto simp: frame_of_def Let_def)
  next
    case False
    then have "v div 512 \<in> split_blocks s r n" using b by (simp add: split_blocks_def)
    then show ?thesis using False lg vk u(5) b low [of "v div 512" "v mod 512"]
      by (cases "v div 512 = k \<and> v mod 512 = j") (simp_all add: frame_of_def Let_def)
  qed
qed

lemma space_same_frames:
  assumes ok: "space_ok s r n K"
    and up: "\<And>q i. q \<in> upper_tables s r n \<Longrightarrow> 0 \<le> i \<Longrightarrow> i < 512 \<Longrightarrow> entry_sim (page_at s' q i) (page_at s q i)"
    and low: "\<And>b i. b \<in> split_blocks s r n \<Longrightarrow> 0 \<le> i \<Longrightarrow> i < 512 \<Longrightarrow> page_at s' (pt_of s r b) i = page_at s (pt_of s r b) i"
    and v: "0 \<le> v" "v < n * 262144"
  shows "frame_of s' r v = frame_of s r v"
proof (cases "large (pde s r (v div 512))")
  note u = space_upper [OF ok up]
  note b = page_number [OF v]
  have sim: "entry_sim (pde s' r (v div 512)) (pde s r (v div 512))" using u(4) b by simp
  then have lg: "large (pde s' r (v div 512)) = large (pde s r (v div 512))"
    by (simp add: large_def entry_sim_def)
  case True
  then show ?thesis using lg entry_sim_large [OF sim] by (simp add: frame_of_def Let_def)
next
  note u = space_upper [OF ok up]
  note b = page_number [OF v]
  have lg: "large (pde s' r (v div 512)) = large (pde s r (v div 512))"
    using u(4) [of "v div 512"] b by (simp add: large_def entry_sim_def)
  case False
  then have "v div 512 \<in> split_blocks s r n" using b by (simp add: split_blocks_def)
  then show ?thesis using False lg u(5) b low by (simp add: frame_of_def Let_def)
qed

text \<open>A block becomes a table: entry \<open>k\<close> is redirected to the fresh page \<open>t\<close>.\<close>

lemma space_split:
  assumes ok: "space_ok s r n K" and k: "0 \<le> k" "k < 512 * n" and lk: "large (pde s r k)"
    and t: "t \<notin> space_tables s r n" "t \<in> L" "K \<subseteq> L"
    and e: "align_down e 4096 = t" "e AND 1 \<noteq> 0" "\<not> large e"
    and up: "\<And>q i. q \<in> upper_tables s r n \<Longrightarrow> 0 \<le> i \<Longrightarrow> i < 512 \<Longrightarrow>
      page_at s' q i = (if q = p2_of s r (k div 512) \<and> i = k mod 512 then e else page_at s q i)"
    and low: "\<And>b i. b \<in> split_blocks s r n \<Longrightarrow> 0 \<le> i \<Longrightarrow> i < 512 \<Longrightarrow> page_at s' (pt_of s r b) i = page_at s (pt_of s r b) i"
    and new: "\<And>i. 0 \<le> i \<Longrightarrow> i < 512 \<Longrightarrow> page_at s' t i AND 1 \<noteq> 0 \<and>
      align_down (page_at s' t i) 4096 = align_down (pde s r k) 0x200000 + i * 4096"
  shows "space_ok s' r n L" "pde s' r k = e" "pt_of s' r k = t" "k \<in> split_blocks s' r n"
    "\<And>v. 0 \<le> v \<Longrightarrow> v < n * 262144 \<Longrightarrow> frame_of s' r v = frame_of s r v"
    "space_tables s' r n = insert t (space_tables s r n)" "p3_of s' r = p3_of s r"
proof -
  let ?p2 = "p2_of s r (k div 512)"
  have kb: "0 \<le> k div 512" "k div 512 < n" using block_index [OF k] by auto
  have "?p2 \<in> p2_of s r ` {0..<n}" using kb by auto
  then have ne: "?p2 \<noteq> r" "?p2 \<noteq> p3_of s r" and inj2: "inj_on (p2_of s r) {0..<n}"
    using ok unfolding space_ok_def by (elim conjE, blast)+
  have mem: "r \<in> upper_tables s r n" "p3_of s r \<in> upper_tables s r n"
    "\<And>i. 0 \<le> i \<Longrightarrow> i < n \<Longrightarrow> p2_of s r i \<in> upper_tables s r n" by (auto simp: upper_tables_def)
  have n: "n \<le> 512" using ok by (simp add: space_ok_def)
  have e4: "page_at s' r 0 = page_at s r 0" using up [OF mem(1)] ne by simp
  then show p3: "p3_of s' r = p3_of s r" by (simp add: p3_of_def)
  have e3: "page_at s' (p3_of s r) i = page_at s (p3_of s r) i" if "0 \<le> i" "i < n" for i
    using that n up [OF mem(2)] ne by simp
  have p2: "p2_of s' r i = p2_of s r i" if "0 \<le> i" "i < n" for i
    using e3 [OF that] by (simp add: p2_of_def p3)
  have e2: "pde s' r b = (if b = k then e else pde s r b)" if "0 \<le> b" "b < 512 * n" for b
  proof -
    have bb: "0 \<le> b div 512" "b div 512 < n" using block_index [OF that] by auto
    have "p2_of s r (b div 512) = ?p2 \<longleftrightarrow> b div 512 = k div 512"
      using inj_on_eq_iff [OF inj2] bb kb by simp
    moreover have "b div 512 = k div 512 \<and> b mod 512 = k mod 512 \<longleftrightarrow> b = k"
      by (metis div_mult_mod_eq)
    ultimately show ?thesis using up [OF mem(3) [OF bb], of "b mod 512"] by (auto simp: pde_def p2 bb)
  qed
  show ek: "pde s' r k = e" using e2 k by simp
  show ptk: "pt_of s' r k = t" by (simp add: pt_of_def ek e)
  have pt: "pt_of s' r b = pt_of s r b" if "b \<in> split_blocks s r n" for b
    using that lk by (auto simp: pt_of_def e2 split_blocks_def)
  have sb: "split_blocks s' r n = insert k (split_blocks s r n)"
    using e2 k e(3) by (auto simp: split_blocks_def split: if_splits)
  then show "k \<in> split_blocks s' r n" by simp
  have im: "p2_of s' r ` {0..<n} = p2_of s r ` {0..<n}"
    by (rule image_cong [OF refl]) (simp add: p2)
  have im': "inj_on (p2_of s' r) {0..<n} = inj_on (p2_of s r) {0..<n}"
    by (rule inj_on_cong) (simp add: p2)
  have it: "pt_of s' r ` split_blocks s r n = pt_of s r ` split_blocks s r n"
    by (rule image_cong [OF refl]) (simp add: pt)
  have it': "inj_on (pt_of s' r) (split_blocks s r n) = inj_on (pt_of s r) (split_blocks s r n)"
    by (rule inj_on_cong) (simp add: pt)
  show tb: "space_tables s' r n = insert t (space_tables s r n)"
    unfolding space_tables_def sb im image_insert it p3 ptk by blast
  have tn: "t \<notin> pt_of s r ` split_blocks s r n" "t \<notin> {r, p3_of s r} \<union> p2_of s r ` {0..<n}"
    using t(1) unfolding space_tables_def by blast+
  have kn: "k \<notin> split_blocks s r n" using lk by (simp add: split_blocks_def)
  have inj: "inj_on (pt_of s' r) (insert k (split_blocks s r n))"
    using ok tn(1) kn unfolding space_ok_def inj_on_insert it' ptk by (simp add: it)
  have "\<forall>b \<in> {0..<512 * n}. pde s' r b AND 1 \<noteq> 0" using ok e2 e(2) unfolding space_ok_def by simp
  then show "space_ok s' r n L"
    using ok e3 e4 inj tn t(2,3) unfolding space_ok_def tb sb im im' image_insert it p3 ptk by auto
  show "frame_of s' r v = frame_of s r v" if v: "0 \<le> v" "v < n * 262144" for v
  proof -
    note b = page_number [OF v]
    consider "v div 512 = k" | "v div 512 \<noteq> k" "large (pde s r (v div 512))"
      | "v div 512 \<noteq> k" "v div 512 \<in> split_blocks s r n" using b by (auto simp: split_blocks_def)
    then show ?thesis
    proof cases
      case 1
      then show ?thesis using lk ek e(3) ptk new [of "v mod 512"] by (simp add: frame_of_def Let_def)
    next
      case 2
      then show ?thesis using e2 b by (simp add: frame_of_def Let_def)
    next
      case 3
      then show ?thesis using e2 b pt low by (simp add: frame_of_def Let_def split_blocks_def)
    qed
  qed
qed


section \<open>The walks\<close>

lemma index_eqs:
  assumes "0 \<le> virt" "virt < n * 0x40000000" "n \<le> 512"
  shows "pml4_index virt = 0" "pdpt_index virt = virt div 4096 div 512 div 512"
    "pd_index virt = virt div 4096 div 512 mod 512" "pt_index virt = virt div 4096 mod 512"
    "0 \<le> virt div 4096" "virt div 4096 < n * 262144"
    "virt AND 0x1FFFFF = (virt div 4096 mod 512) * 4096 + virt mod 4096"
proof -
  have lt: "virt < 2 ^ 39" using assms by auto
  then have "virt div 2 ^ 39 = 0" using assms(1) by auto
  then show "pml4_index virt = 0" by (simp add: pml4_index_def mask_simps drop_bit_eq_div)
  have "virt div 4096 div 512 div 512 = virt div 1073741824" by (simp add: zdiv_zmult2_eq [symmetric])
  moreover have "virt div 1073741824 < 512" using lt by simp
  moreover have "0 \<le> virt div 1073741824" using assms(1) by simp
  ultimately show "pdpt_index virt = virt div 4096 div 512 div 512"
    by (simp add: pdpt_index_def mask_simps drop_bit_eq_div)
  show "pd_index virt = virt div 4096 div 512 mod 512"
    by (simp add: pd_index_def mask_simps drop_bit_eq_div zdiv_zmult2_eq [symmetric])
  show "pt_index virt = virt div 4096 mod 512" by (simp add: pt_index_def mask_simps drop_bit_eq_div)
  show "0 \<le> virt div 4096" using assms(1) by simp
  show "virt div 4096 < n * 262144" using assms(2) by linarith
  show "virt AND 0x1FFFFF = (virt div 4096 mod 512) * 4096 + virt mod 4096"
    using zmod_zmult2_eq [of 512 virt 4096] by (simp add: mask_simps)
qed

definition space_in :: "int \<Rightarrow> int set \<Rightarrow> machine \<Rightarrow> int set \<Rightarrow> int \<Rightarrow> int \<Rightarrow> bool" where
  "space_in p U s K r n \<longleftrightarrow> mem_ok p U s K \<and> space_ok s r n K"

lemma space_valid:
  assumes "space_in p U s K r n" "q \<in> space_tables s r n" shows "page_valid q" "q \<in> U" "q \<in> K"
proof -
  show K: "q \<in> K" using assms unfolding space_in_def space_ok_def by (elim conjE) (rule subsetD)
  then show "q \<in> U" using assms(1) mem_ok_sub unfolding space_in_def by blast
  then show "page_valid q" using assms(1) mem_ok_valid unfolding space_in_def by blast
qed

lemma space_walk:
  assumes sp: "space_in p U s K r n" and virt: "0 \<le> virt" "virt < n * 0x40000000"
  shows "vmm_root_p3_ptr s r = Some (p3_of s r)"
    "vmm_root_p2_ptr s r virt = Some (p2_of s r (pdpt_index virt))"
    "page_table_qword s (p2_of s r (pdpt_index virt)) (pd_index virt) = Some (pde s r (virt div 4096 div 512))"
    "p2_of s r (pdpt_index virt) \<noteq> 0" "pde s r (virt div 4096 div 512) AND 1 \<noteq> 0"
    "0 \<le> virt div 4096 div 512 \<and> virt div 4096 div 512 < 512 * n"
    "vmm_root_supports_addr (n * 0x40000000) virt"
    "0 \<le> pdpt_index virt" "pdpt_index virt < n"
proof -
  have ok: "space_ok s r n K" and n: "n \<le> 512" using sp by (auto simp: space_in_def space_ok_def)
  note ix = index_eqs [OF virt n]
  note mem = space_members [OF ok]
  show b: "0 \<le> virt div 4096 div 512 \<and> virt div 4096 div 512 < 512 * n" by (rule page_number [OF ix(5,6)])
  then show i: "0 \<le> pdpt_index virt" "pdpt_index virt < n" using block_index ix(2) by auto
  have P: "page_at s r 0 AND 1 \<noteq> 0" "page_at s (p3_of s r) (pdpt_index virt) AND 1 \<noteq> 0"
    using ok i unfolding space_ok_def by auto
  show "pde s r (virt div 4096 div 512) AND 1 \<noteq> 0" using ok b unfolding space_ok_def by auto
  show p3: "vmm_root_p3_ptr s r = Some (p3_of s r)"
    using P(1) by (simp add: vmm_root_p3_ptr_def page_access(1) [OF space_valid(1) [OF sp mem(1)]] p3_of_def)
  show "vmm_root_p2_ptr s r virt = Some (p2_of s r (pdpt_index virt))"
    using P(2) i n
    by (simp add: vmm_root_p2_ptr_def p3 page_access(1) [OF space_valid(1) [OF sp mem(2)]] p2_of_def)
  have v2: "page_valid (p2_of s r (pdpt_index virt))" by (rule space_valid(1) [OF sp mem(3) [OF i]])
  then show "p2_of s r (pdpt_index virt) \<noteq> 0" by (auto simp: page_valid_def)
  show "page_table_qword s (p2_of s r (pdpt_index virt)) (pd_index virt) = Some (pde s r (virt div 4096 div 512))"
    using page_access(1) [OF v2] by (simp add: pde_def ix(2,3))
  show "vmm_root_supports_addr (n * 0x40000000) virt" using virt ix(1) by (simp add: vmm_root_supports_addr_def)
qed

text \<open>The translation routines compute \<^const>\<open>frame_of\<close>.\<close>

definition phys_of :: "machine \<Rightarrow> int \<Rightarrow> int \<Rightarrow> int" where
  "phys_of s r virt = (case frame_of s r (virt div 4096) of None \<Rightarrow> 0 | Some f \<Rightarrow> f + virt mod 4096)"

lemma space_leaf:
  assumes sp: "space_in p U s K r n" and virt: "0 \<le> virt" "virt < n * 0x40000000"
  defines "e \<equiv> pde s r (virt div 4096 div 512)"
  shows "large e \<Longrightarrow> align_down e 0x200000 + (virt AND 0x1FFFFF) = phys_of s r virt"
    "\<not> large e \<Longrightarrow> \<exists>t. page_table_qword s (align_down e 4096) (pt_index virt) = Some t
       \<and> phys_of s r virt = (if t AND 1 = 0 then 0 else align_down t 4096 + (virt AND 0xFFF))"
proof -
  let ?k = "virt div 4096 div 512"
  have n: "n \<le> 512" using sp by (simp add: space_in_def space_ok_def)
  note w = space_walk [OF sp virt] and ix = index_eqs [OF virt n]
  show "align_down e 0x200000 + (virt AND 0x1FFFFF) = phys_of s r virt" if "large e"
    using that ix(7) by (simp add: e_def phys_of_def frame_of_def Let_def)
  show "\<exists>t. page_table_qword s (align_down e 4096) (pt_index virt) = Some t
      \<and> phys_of s r virt = (if t AND 1 = 0 then 0 else align_down t 4096 + (virt AND 0xFFF))" if l: "\<not> large e"
  proof -
    have "?k \<in> split_blocks s r n" using l w(6) by (simp add: split_blocks_def e_def)
    then have "page_valid (pt_of s r ?k)"
      using space_valid(1) [OF sp] space_members(4) sp by (auto simp: space_in_def)
    from page_access(1) [OF this] show ?thesis using l ix(4)
      by (simp add: e_def phys_of_def frame_of_def Let_def and_4095 pt_of_def [symmetric])
  qed
qed

lemma vmm_translate_root_eq:
  assumes sp: "space_in p U s K r n" and vs: "qword_ptr vs" "load_qword s (vs + 32) = n * 0x40000000"
    and virt: "0 \<le> virt" "virt < n * 0x40000000"
  shows "vmm_translate_root s vs r virt = Some (phys_of s r virt)"
  using space_walk [OF sp virt] space_leaf [OF sp virt] vs
  by (cases "large (pde s r (virt div 4096 div 512))")
    (auto simp: vmm_translate_root_def vmm_state_qword_def load_qword_region_eq large_def Let_def)


section \<open>Splitting a block\<close>

lemma reload_root [simp]: "(if read_cr3 s = r then load_cr3 s r else s) = s" "vmm_reload_current_cr3 s = s"
  by (simp_all add: read_cr3_def load_cr3_def vmm_reload_current_cr3_def)

lemma vmm_split_fill_ok:
  assumes "page_valid t" "in64 e"
  shows "\<exists>s'. vmm_split_fill t (align_down e 0x200000) s = Some s' \<and> writes_in {t..<t + 4096} s s'
    \<and> (\<forall>i \<in> {0..<512}. page_at s' t i AND 1 \<noteq> 0
        \<and> align_down (page_at s' t i) 4096 = align_down e 0x200000 + i * 4096)"
proof -
  let ?f = "\<lambda>i. (align_down e 0x200000 + i * 4096) OR 3"
  have "\<exists>s'. vmm_split_fill t (align_down e 0x200000) s = Some s' \<and> writes_in {t..<t + 4096} s s'
      \<and> (\<forall>i \<in> {0..<512}. page_at s' t i = ?f i)"
    unfolding vmm_split_fill_def
  proof (rule page_fill [OF assms(1)])
    fix i :: int assume i: "0 \<le> i" "i < 512"
    show "in64 (?f i)" using block_page [OF assms(2) i] by (intro entry_in64) auto
    show "set_page_table_qword u t i ((align_down e 0x200000 + push_bit 12 i) OR 3) = Some (put_qword u (t + i * 8) (?f i))" for u
      using i assms(1) by (simp add: page_access push_bit_eq_mult)
  qed
  moreover have "?f i AND 1 \<noteq> 0 \<and> align_down (?f i) 4096 = align_down e 0x200000 + i * 4096"
    if "i \<in> {0..<512}" for i
    using that block_page(1) [OF assms(2), of i] entry_low [of "align_down e 0x200000 + i * 4096" 1 3]
      entry_base [of "align_down e 0x200000 + i * 4096" 3] by simp
  ultimately show ?thesis by metis
qed

text \<open>A fresh page: allocated, then written.  Everything else the kernel holds is as before.\<close>

lemma fresh_page_at:
  assumes m: "mem_ok p U s K" and w: "writes_in (pmm_area s p) s s1" "writes_in {t..<t + 4096} s1 s2"
    and t: "t \<in> U" and q: "q \<in> U" "q \<noteq> t" and i: "0 \<le> i" "i < 512"
  shows "page_at s2 q i = page_at s q i"
proof -
  have "{q..<q + 4096} \<inter> {t..<t + 4096} = {}"
    using page_apart [of q t] mem_ok_valid [OF m] t q by auto
  then have "page_at s2 q i = page_at s1 q i" by (rule page_at_frame [OF w(2) _ i])
  also have "\<dots> = page_at s q i" by (rule page_at_frame [OF w(1) mem_ok_apart [OF m q(1)] i])
  finally show ?thesis .
qed

lemma fresh_split_table:
  assumes m: "mem_ok p U s K" and some: "K \<noteq> U" and e: "in64 e"
  shows "\<exists>t s1 s2 s3. pmm_alloc_page s p = Some (t, s1) \<and> t \<noteq> 0 \<and> zero_page s1 t = Some s2
    \<and> vmm_split_fill t (align_down e 0x200000) s2 = Some s3 \<and> t \<in> U - K \<and> mem_ok p U s3 (insert t K)
    \<and> writes_in (pmm_area s p \<union> page_bytes {t}) s s3 \<and> pmm_area s3 p = pmm_area s p
    \<and> length (recycled (pmm_view s3 p)) \<le> length (recycled (pmm_view s p))
    \<and> (\<forall>q \<in> U - {t}. \<forall>i \<in> {0..<512}. page_at s3 q i = page_at s q i)
    \<and> (\<forall>i \<in> {0..<512}. page_at s3 t i AND 1 \<noteq> 0
        \<and> align_down (page_at s3 t i) 4096 = align_down e 0x200000 + i * 4096)"
proof -
  obtain t s1 where a: "pmm_alloc_page s p = Some (t, s1)" "t \<noteq> 0" "t \<in> U - K" "mem_ok p U s1 (insert t K)"
      "writes_in (pmm_area s p) s s1" "pmm_area s1 p = pmm_area s p"
      "length (recycled (pmm_view s1 p)) \<le> length (recycled (pmm_view s p))"
    using mem_ok_alloc [OF m some] by blast
  have v: "page_valid t" using a(3) mem_ok_valid [OF m] by blast
  obtain s2 where z: "zero_page s1 t = Some s2" "writes_in {t..<t + 4096} s1 s2" using zero_page_ok [OF v] by blast
  obtain s3 where f: "vmm_split_fill t (align_down e 0x200000) s2 = Some s3" "writes_in {t..<t + 4096} s2 s3"
      "\<forall>i \<in> {0..<512}. page_at s3 t i AND 1 \<noteq> 0
        \<and> align_down (page_at s3 t i) 4096 = align_down e 0x200000 + i * 4096"
    using vmm_split_fill_ok [OF v e] by blast
  have w: "writes_in {t..<t + 4096} s1 s3" by (rule writes_in_trans [OF z(2) f(2)])
  have "writes_in (pmm_area s p \<union> page_bytes {t}) s s3"
    using writes_in_mono [OF a(5), of "pmm_area s p \<union> page_bytes {t}"]
      writes_in_mono [OF w, of "pmm_area s p \<union> page_bytes {t}"]
    by (auto simp: page_bytes_def intro: writes_in_trans)
  moreover have "mem_ok p U s3 (insert t K)" "pmm_area s3 p = pmm_area s p"
      "length (recycled (pmm_view s3 p)) \<le> length (recycled (pmm_view s p))"
    using mem_ok_page_write [OF a(4) w] a(3,6,7) by auto
  moreover have "\<forall>q \<in> U - {t}. \<forall>i \<in> {0..<512}. page_at s3 q i = page_at s q i"
    using fresh_page_at [OF m a(5) w] a(3) by auto
  ultimately show ?thesis using a(1-3) z(1) f(1,3) by blast
qed


lemma space_in_page_write:
  assumes "space_in p U s K r n" "q \<in> U" "0 \<le> i" "i < 512"
  shows "mem_ok p U (put_qword s (q + i * 8) v) K" "pmm_area (put_qword s (q + i * 8) v) p = pmm_area s p"
    "pmm_view (put_qword s (q + i * 8) v) p = pmm_view s p"
  using mem_ok_page_write [OF _ writes_in_page assms(2)] assms unfolding space_in_def by auto

text \<open>
  Splitting leaves the whole translation as it is and makes the block of \<open>virt\<close> a table of 4 KiB
  entries; it takes one page when the block was a leaf.
\<close>

lemma vmm_root_split_ok:
  assumes sp: "space_in p U s K r n" and virt: "0 \<le> virt" "virt < n * 0x40000000"
  defines "k \<equiv> virt div 4096 div 512"
  assumes room: "large (pde s r k) \<Longrightarrow> K \<noteq> U"
  shows "\<exists>t s'. vmm_root_split_large_page s r (n * 0x40000000) p virt = Some (t, s')
    \<and> space_in p U s' (insert t K) r n \<and> k \<in> split_blocks s' r n \<and> pt_of s' r k = t
    \<and> (\<forall>v \<in> {0..<n * 262144}. frame_of s' r v = frame_of s r v) \<and> pmm_area s' p = pmm_area s p
    \<and> writes_in (pmm_area s p \<union> page_bytes (space_tables s' r n)) s s'
    \<and> space_tables s' r n = insert t (space_tables s r n) \<and> p3_of s' r = p3_of s r
    \<and> length (recycled (pmm_view s' p)) \<le> length (recycled (pmm_view s p)) \<and> (large (pde s r k) \<longrightarrow> t \<notin> K)"
proof (cases "large (pde s r k)")
  note w = space_walk [OF sp virt, folded k_def]
  have ok: "space_ok s r n K" and m: "mem_ok p U s K" using sp by (auto simp: space_in_def)
  case False
  then have kb: "k \<in> split_blocks s r n" using w(6) by (simp add: split_blocks_def)
  have "vmm_root_split_large_page s r (n * 0x40000000) p virt = Some (pt_of s r k, s)"
    using False w(2,3,5,7) by (simp add: vmm_root_split_large_page_def large_def pt_of_def)
  moreover have "pt_of s r k \<in> space_tables s r n" by (rule space_members(4) [OF ok kb])
  moreover have "insert (pt_of s r k) K = K" using space_valid(3) [OF sp calculation(2)] by auto
  ultimately show ?thesis using kb sp False by (intro exI [of _ "pt_of s r k"] exI [of _ s]) auto
next
  note w = space_walk [OF sp virt, folded k_def]
  have ok: "space_ok s r n K" and m: "mem_ok p U s K" using sp by (auto simp: space_in_def)
  have n: "n \<le> 512" using ok by (simp add: space_ok_def)
  note ix = index_eqs [OF virt n, folded k_def]
  case True
  obtain t s1 s2 s3 where t: "pmm_alloc_page s p = Some (t, s1)" "t \<noteq> 0" "zero_page s1 t = Some s2"
      "vmm_split_fill t (align_down (pde s r k) 0x200000) s2 = Some s3" "t \<in> U - K" "mem_ok p U s3 (insert t K)"
      "writes_in (pmm_area s p \<union> page_bytes {t}) s s3" "pmm_area s3 p = pmm_area s p"
      "\<forall>q \<in> U - {t}. \<forall>i \<in> {0..<512}. page_at s3 q i = page_at s q i"
      "\<forall>i \<in> {0..<512}. page_at s3 t i AND 1 \<noteq> 0
        \<and> align_down (page_at s3 t i) 4096 = align_down (pde s r k) 0x200000 + i * 4096"
      "length (recycled (pmm_view s3 p)) \<le> length (recycled (pmm_view s p))"
    using fresh_split_table [OF m room [OF True], of "pde s r k"] memory.load_in64
    unfolding pde_def page_at_def by blast
  let ?p2 = "p2_of s r (pdpt_index virt)" and ?e = "t OR 3"
  define s4 where "s4 = put_qword s3 (?p2 + k mod 512 * 8) ?e"
  have p2: "?p2 \<in> space_tables s r n" by (rule space_members(3) [OF ok w(8,9)])
  note vp2 = space_valid [OF sp p2]
  have vt: "page_valid t" "t mod 4096 = 0" using t(5) mem_ok_valid [OF m] by (auto simp: page_valid_def)
  have e: "align_down ?e 4096 = t" "?e AND 1 \<noteq> 0" "\<not> large ?e" "in64 ?e"
    using table_entry [OF vt(1), of 3] by (simp_all add: large_def)
  have at: "page_at s4 q i = (if q = ?p2 \<and> i = k mod 512 then ?e else page_at s3 q i)"
    if "q \<in> U" "0 \<le> i" "i < 512" for q i
    unfolding s4_def using that vp2(1) mem_ok_valid [OF m] e(4) by (intro page_at_put) auto
  have sub: "space_tables s r n \<subseteq> U - {t}" using space_valid(2,3) [OF sp] t(5) by auto
  have up: "page_at s4 q i = (if q = p2_of s r (k div 512) \<and> i = k mod 512 then ?e else page_at s q i)"
    if "q \<in> space_tables s r n" "0 \<le> i" "i < 512" for q i
  proof -
    have "q \<in> U - {t}" using that(1) sub by blast
    then show ?thesis using at [of q i] that(2,3) t(9) ix(2) by simp
  qed
  have p2u: "?p2 \<in> upper_tables s r n" using w(8,9) by (auto simp: upper_tables_def)
  have p2ne: "pt_of s r b \<noteq> ?p2" if "b \<in> split_blocks s r n" for b
    by (rule space_pt_apart [OF ok that p2u])
  have tp2: "t \<noteq> ?p2" using vp2(3) t(5) by auto
  note sp4 = space_split [OF ok _ _ True, of t "insert t K" ?e s4]
  have sp4: "space_ok s4 r n (insert t K)" "pt_of s4 r k = t" "k \<in> split_blocks s4 r n"
    "\<And>v. 0 \<le> v \<Longrightarrow> v < n * 262144 \<Longrightarrow> frame_of s4 r v = frame_of s r v"
    "space_tables s4 r n = insert t (space_tables s r n)" "p3_of s4 r = p3_of s r"
    using sp4 w(6) sub e up upper_sub [of s r n] p2ne space_members(4) [OF ok] ix(2) t(5,10) at [of t] tp2
    by (auto simp: subset_iff)
  have step: "writes_in (page_bytes {?p2}) s3 s4"
    unfolding s4_def by (rule writes_in_mono [OF writes_in_page]) (auto simp: page_bytes_def)
  then have ws: "writes_in {?p2..<?p2 + 4096} s3 s4" by (simp add: page_bytes_def)
  have m4: "mem_ok p U s4 (insert t K)" "pmm_area s4 p = pmm_area s p"
      "length (recycled (pmm_view s4 p)) \<le> length (recycled (pmm_view s p))"
    using mem_ok_page_write [OF t(6) ws vp2(2)] t(8,11) by simp_all
  have "writes_in (pmm_area s p \<union> page_bytes (space_tables s4 r n)) s s4"
  proof (rule writes_in_trans)
    show "writes_in (pmm_area s p \<union> page_bytes (space_tables s4 r n)) s s3"
      by (rule writes_in_mono [OF t(7)]) (auto simp: page_bytes_def sp4(5))
    show "writes_in (pmm_area s p \<union> page_bytes (space_tables s4 r n)) s3 s4"
      by (rule writes_in_mono [OF step]) (use p2 in \<open>auto simp: page_bytes_def sp4(5)\<close>)
  qed
  moreover have "vmm_root_split_large_page s r (n * 0x40000000) p virt = Some (t, s4)"
    using True w(2,3,5,7) t(1-4) page_access(2) [OF vp2(1), of "k mod 512" s3 ?e] ix(3)
    by (simp add: vmm_root_split_large_page_def large_def s4_def)
  ultimately show ?thesis using sp4 m4 t(5)
    by (intro exI [of _ t] exI [of _ s4]) (auto simp: space_in_def)
qed


section \<open>Changing one page\<close>

text \<open>\<open>same_frames_but v\<close>: the two translations agree on every page number of the space but \<open>v\<close>.\<close>

definition same_frames :: "machine \<Rightarrow> machine \<Rightarrow> int \<Rightarrow> int \<Rightarrow> int set \<Rightarrow> bool" where
  "same_frames s s' r n V \<longleftrightarrow> (\<forall>v \<in> {0..<n * 262144} - V. frame_of s' r v = frame_of s r v)"

definition unmapped :: "machine \<Rightarrow> int \<Rightarrow> int \<Rightarrow> bool" where
  "unmapped s r v \<longleftrightarrow> \<not> large (pde s r (v div 512)) \<and> page_at s (pt_of s r (v div 512)) (v mod 512) = 0"

lemma space_put_pte:
  assumes sp: "space_in p U s K r n" and k: "k \<in> split_blocks s r n" and j: "0 \<le> j" "j < 512" and e: "in64 e"
  defines "s' \<equiv> put_qword s (pt_of s r k + j * 8) e"
  shows "space_in p U s' K r n" "same_frames s s' r n {k * 512 + j}"
    "frame_of s' r (k * 512 + j) = (if e AND 1 = 0 then None else Some (align_down e 4096))"
    "e = 0 \<Longrightarrow> unmapped s' r (k * 512 + j)"
    "writes_in (page_bytes {pt_of s r k}) s s'" "pmm_area s' p = pmm_area s p"
    "space_tables s' r n = space_tables s r n" "p3_of s' r = p3_of s r" "pmm_view s' p = pmm_view s p"
proof -
  have ok: "space_ok s r n K" and m: "mem_ok p U s K" using sp by (auto simp: space_in_def)
  let ?t = "pt_of s r k"
  have t: "?t \<in> space_tables s r n" by (rule space_members(4) [OF ok k])
  note vt = space_valid [OF sp t]
  have at: "page_at s' q i = (if q = ?t \<and> i = j then e else page_at s q i)"
    if "q \<in> space_tables s r n" "0 \<le> i" "i < 512" for q i
    unfolding s'_def by (rule page_at_put [OF vt(1) space_valid(1) [OF sp that(1)] j that(2,3) e])
  have up: "entry_sim (page_at s' q i) (page_at s q i)" if "q \<in> upper_tables s r n" "0 \<le> i" "i < 512" for q i
    using at [of q i] that upper_sub [of s r n] space_pt_apart [OF ok k that(1)] by auto
  have inj: "inj_on (pt_of s r) (split_blocks s r n)" using ok unfolding space_ok_def by (elim conjE)
  have low: "page_at s' (pt_of s r b) i = (if b = k \<and> i = j then e else page_at s (pt_of s r b) i)"
    if "b \<in> split_blocks s r n" "0 \<le> i" "i < 512" for b i
    using at [OF space_members(4) [OF ok that(1)] that(2,3)] inj_on_eq_iff [OF inj that(1) k] by simp
  note u = space_upper [OF ok up]
  have f: "frame_of s' r v = (if v = k * 512 + j then (if e AND 1 = 0 then None else Some (align_down e 4096))
      else frame_of s r v)" if "0 \<le> v" "v < n * 262144" for v
    by (rule space_set_pte [OF ok k j up low that])
  have kr: "0 \<le> k" "k < 512 * n" using k by (auto simp: split_blocks_def)
  then have v: "0 \<le> k * 512 + j" "k * 512 + j < n * 262144" using j by auto
  have kj: "(k * 512 + j) div 512 = k" "(k * 512 + j) mod 512 = j" using j by auto
  show "writes_in (page_bytes {?t}) s s'" using writes_in_page [OF j, of ?t s e] by (simp add: page_bytes_def s'_def)
  show "space_in p U s' K r n" using space_in_page_write(1) [OF sp vt(2) j] u(1) by (simp add: space_in_def s'_def)
  show "pmm_area s' p = pmm_area s p" "pmm_view s' p = pmm_view s p"
    using space_in_page_write(2,3) [OF sp vt(2) j] by (simp_all add: s'_def)
  show "space_tables s' r n = space_tables s r n" "p3_of s' r = p3_of s r" by (simp_all add: u)
  show "frame_of s' r (k * 512 + j) = (if e AND 1 = 0 then None else Some (align_down e 4096))"
    using f [OF v] by simp
  show "same_frames s s' r n {k * 512 + j}" unfolding same_frames_def using f by simp
  show "unmapped s' r (k * 512 + j)" if "e = 0"
  proof -
    have "k \<in> split_blocks s' r n" using k by (simp add: u(6))
    then show ?thesis using that low [OF k j] kr j by (simp add: unmapped_def split_blocks_def kj u(5))
  qed
qed

lemma space_put_user:
  assumes sp: "space_in p U s K r n" and q: "q \<in> upper_tables s r n" and i: "0 \<le> i" "i < 512"
  defines "s' \<equiv> put_qword s (q + i * 8) (page_at s q i OR 4)"
  shows "space_in p U s' K r n" "same_frames s s' r n {}" "writes_in (page_bytes (space_tables s r n)) s s'"
    "pmm_area s' p = pmm_area s p" "space_tables s' r n = space_tables s r n" "upper_tables s' r n = upper_tables s r n"
    "split_blocks s' r n = split_blocks s r n" "p3_of s' r = p3_of s r"
    "\<And>b. 0 \<le> b \<Longrightarrow> b < n \<Longrightarrow> p2_of s' r b = p2_of s r b"
    "\<And>b. b \<in> split_blocks s r n \<Longrightarrow> pt_of s' r b = pt_of s r b"
    "\<And>b c. b \<in> split_blocks s r n \<Longrightarrow> 0 \<le> c \<Longrightarrow> c < 512 \<Longrightarrow> page_at s' (pt_of s r b) c = page_at s (pt_of s r b) c"
proof -
  have ok: "space_ok s r n K" and m: "mem_ok p U s K" using sp by (auto simp: space_in_def)
  have qt: "q \<in> space_tables s r n" using q upper_sub by blast
  note vq = space_valid [OF sp qt]
  have in4: "in64 (page_at s q i OR 4)" unfolding page_at_def
    by (intro in64_or memory.load_in64) (simp add: in64_def)
  have at: "page_at s' x j = (if x = q \<and> j = i then page_at s q i OR 4 else page_at s x j)"
    if "x \<in> space_tables s r n" "0 \<le> j" "j < 512" for x j
    unfolding s'_def by (rule page_at_put [OF vq(1) space_valid(1) [OF sp that(1)] i that(2,3) in4])
  have up: "entry_sim (page_at s' x j) (page_at s x j)" if "x \<in> upper_tables s r n" "0 \<le> j" "j < 512" for x j
    using at [of x j] that upper_sub [of s r n] by auto
  show low: "page_at s' (pt_of s r b) c = page_at s (pt_of s r b) c"
    if "b \<in> split_blocks s r n" "0 \<le> c" "c < 512" for b c
    using at [OF space_members(4) [OF ok that(1)] that(2,3)] space_pt_apart [OF ok that(1) q] by auto
  note u = space_upper [OF ok up]
  show "space_in p U s' K r n" using space_in_page_write(1) [OF sp vq(2) i] u(1) by (simp add: space_in_def s'_def)
  show "pmm_area s' p = pmm_area s p" using space_in_page_write(2) [OF sp vq(2) i] by (simp add: s'_def)
  show "same_frames s s' r n {}" using space_same_frames [OF ok up low] by (simp add: same_frames_def)
  show "writes_in (page_bytes (space_tables s r n)) s s'" unfolding s'_def
    by (rule writes_in_mono [OF writes_in_page [OF i]]) (use qt in \<open>auto simp: page_bytes_def\<close>)
  show "space_tables s' r n = space_tables s r n" "split_blocks s' r n = split_blocks s r n"
    by (simp_all add: u)
  show p3: "p3_of s' r = p3_of s r" by (simp add: u)
  show p2: "p2_of s' r b = p2_of s r b" if "0 \<le> b" "b < n" for b using that by (simp add: u(3))
  have "p2_of s' r ` {0..<n} = p2_of s r ` {0..<n}" by (rule image_cong [OF refl]) (simp add: p2)
  then show "upper_tables s' r n = upper_tables s r n" by (simp add: upper_tables_def p3)
  show "pt_of s' r b = pt_of s r b" if "b \<in> split_blocks s r n" for b
    using that u(5) by (simp add: split_blocks_def)
qed

end
