(* ===== verification/AddressSpace.thy ===== *)
theory AddressSpace
  imports Paging
begin

text \<open>
  The operations on address spaces against the abstraction \<^const>\<open>frame_of\<close>: mapping, unmapping and
  protecting a page, for a task's root and for the kernel's own space, and the life cycle of a
  task's space from its creation to the return of its tables.
\<close>

section \<open>Leaf entries\<close>

lemma flag_bits:
  fixes flags :: int
  defines "f \<equiv> (flags AND 0xFFF) OR 1"
  shows "0 \<le> f" "f < 4096" "f AND 1 = 1"
proof -
  have b: "0 \<le> flags AND 0xFFF" "flags AND 0xFFF < 4096" by (simp_all add: and_4095)
  then show "0 \<le> f" by (simp add: f_def or_nonnegative_int_iff)
  show "f < 4096" using OR_upper [of "flags AND 0xFFF" 12 1] b by (simp add: f_def)
  show "f AND 1 = 1" unfolding f_def by (rule bit_eqI) (auto simp: bit_simps)
qed

lemma leaf_entry:
  fixes phys flags :: int
  assumes "phys mod 4096 = 0" "in64 phys"
  defines "e \<equiv> phys OR (flags AND 0xFFF) OR 0x001"
  shows "e AND 1 \<noteq> 0" "align_down e 4096 = phys" "in64 e" "e \<noteq> 0"
proof -
  note f = flag_bits [of flags]
  show p: "e AND 1 \<noteq> 0" using entry_low [OF assms(1), of 1 "(flags AND 0xFFF) OR 1"] f(3) by (simp add: e_def or.assoc)
  then show "e \<noteq> 0" by auto
  show "align_down e 4096 = phys" using entry_base [OF assms(1) f(1,2)] by (simp add: e_def or.assoc)
  show "in64 e" using entry_in64 [OF assms(1) f(1,2) assms(2)] by (simp add: e_def or.assoc)
qed

section \<open>The kernel's state block\<close>

text \<open>
  The block \<open>vs\<close> describes the kernel space with root \<open>r\<close> and \<open>n\<close> GiB, and lies outside all
  managed pages and the allocator's blocks.
\<close>

definition vmm_block :: "int \<Rightarrow> int set \<Rightarrow> machine \<Rightarrow> int \<Rightarrow> int \<Rightarrow> int \<Rightarrow> bool" where
  "vmm_block p U s vs r n \<longleftrightarrow> qword_ptr vs \<and> {vs..<vs + 64} \<inter> (pmm_area s p \<union> page_bytes U) = {}
     \<and> load_qword s (vs + 8) = r \<and> load_qword s (vs + 16) = p3_of s r
     \<and> load_qword s (vs + 24) = n \<and> load_qword s (vs + 32) = n * 0x40000000"

lemma vmm_block_access:
  assumes "qword_ptr vs" "0 \<le> i" "i < 8"
  shows "vmm_state_qword s vs i = Some (load_qword s (vs + i * 8))"
    "set_vmm_state_qword s vs i v = Some (put_qword s (vs + i * 8) v)"
  using assms by (simp_all add: vmm_state_qword_def set_vmm_state_qword_def load_qword_region_eq store_qword_region_eq)

text \<open>The limit of the state block, for a task space of the same size.\<close>

definition vmm_limit :: "int \<Rightarrow> int set \<Rightarrow> machine \<Rightarrow> int \<Rightarrow> int \<Rightarrow> bool" where
  "vmm_limit p U s vs n \<longleftrightarrow> qword_ptr vs \<and> {vs..<vs + 64} \<inter> (pmm_area s p \<union> page_bytes U) = {}
     \<and> load_qword s (vs + 24) = n \<and> load_qword s (vs + 32) = n * 0x40000000"

text \<open>A change of memory that stays in the managed pages and the allocator's blocks.\<close>

definition mem_step :: "int \<Rightarrow> int set \<Rightarrow> machine \<Rightarrow> machine \<Rightarrow> bool" where
  "mem_step p U s s' \<longleftrightarrow> writes_in (pmm_area s p \<union> page_bytes U) s s' \<and> pmm_area s' p = pmm_area s p"

lemma mem_step_refl [simp, intro]: "mem_step p U s s"
  by (simp add: mem_step_def)

lemma mem_step_trans [trans]: "mem_step p U s t \<Longrightarrow> mem_step p U t u \<Longrightarrow> mem_step p U s u"
  unfolding mem_step_def using writes_in_trans by metis

lemma mem_step_pages:
  assumes "writes_in (pmm_area s p \<union> page_bytes A) s s'" "pmm_area s' p = pmm_area s p" "A \<subseteq> U"
  shows "mem_step p U s s'"
  unfolding mem_step_def
  using writes_in_mono [OF assms(1) Un_mono [OF subset_refl page_bytes_mono [OF assms(3)]]] assms(2) by blast

lemma mem_step_page:
  assumes "writes_in (page_bytes A) s s'" "pmm_area s' p = pmm_area s p" "A \<subseteq> U"
  shows "mem_step p U s s'"
  using writes_in_mono [OF assms(1), of "pmm_area s p \<union> page_bytes A"] assms(2,3) by (intro mem_step_pages) auto

lemma mem_step_load:
  assumes "mem_step p U s s'" "{a..<b} \<inter> (pmm_area s p \<union> page_bytes U) = {}" "a \<le> x" "x + 8 \<le> b"
  shows "load_qword s' x = load_qword s x"
  using assms(1) interval_disjoint [OF assms(2-4)] unfolding mem_step_def by (auto intro: writes_in_load)

lemma vmm_limit_step: "vmm_limit p U s vs n \<Longrightarrow> mem_step p U s s' \<Longrightarrow> vmm_limit p U s' vs n"
  using mem_step_load [of p U s s' vs "vs + 64"] unfolding vmm_limit_def mem_step_def by auto

section \<open>Mapping and unmapping\<close>

lemma space_tables_U: "space_in p U s K r n \<Longrightarrow> space_tables s r n \<subseteq> U"
  using space_valid(2) by blast

text \<open>Both editing operations first make sure the page has an entry of its own.\<close>

lemma vmm_root_split_step:
  assumes sp: "space_in p U s K r n" and virt: "0 \<le> virt" "virt < n * 0x40000000"
    and room: "large (pde s r (virt div 4096 div 512)) \<Longrightarrow> K \<noteq> U"
  shows "\<exists>t s1. vmm_root_split_large_page s r (n * 0x40000000) p virt = Some (t, s1)
    \<and> space_in p U s1 (insert t K) r n \<and> virt div 4096 div 512 \<in> split_blocks s1 r n
    \<and> pt_of s1 r (virt div 4096 div 512) = t \<and> page_valid t \<and> same_frames s s1 r n {} \<and> mem_step p U s s1
    \<and> space_tables s1 r n = insert t (space_tables s r n) \<and> p3_of s1 r = p3_of s r
    \<and> (unmapped s r (virt div 4096) \<longrightarrow> page_at s1 t (virt div 4096 mod 512) = 0)
    \<and> (if large (pde s r (virt div 4096 div 512)) then t \<notin> K else t \<in> space_tables s r n)
    \<and> length (recycled (pmm_view s1 p)) \<le> length (recycled (pmm_view s p))"
proof -
  let ?k = "virt div 4096 div 512"
  note w = space_walk [OF sp virt]
  obtain t s1 where s1: "vmm_root_split_large_page s r (n * 0x40000000) p virt = Some (t, s1)"
      "space_in p U s1 (insert t K) r n" "?k \<in> split_blocks s1 r n" "pt_of s1 r ?k = t"
      "\<forall>v \<in> {0..<n * 262144}. frame_of s1 r v = frame_of s r v" "pmm_area s1 p = pmm_area s p"
      "writes_in (pmm_area s p \<union> page_bytes (space_tables s1 r n)) s s1"
      "space_tables s1 r n = insert t (space_tables s r n)" "p3_of s1 r = p3_of s r"
      "length (recycled (pmm_view s1 p)) \<le> length (recycled (pmm_view s p))" "large (pde s r ?k) \<longrightarrow> t \<notin> K"
    using vmm_root_split_ok [OF sp virt room] by blast
  have "s1 = s \<and> t = pt_of s r ?k" if "\<not> large (pde s r ?k)"
    using that s1(1) w(2,3,5,7) by (auto simp: vmm_root_split_large_page_def large_def pt_of_def)
  then have "unmapped s r (virt div 4096) \<longrightarrow> page_at s1 t (virt div 4096 mod 512) = 0"
    by (auto simp: unmapped_def)
  moreover have "t \<in> space_tables s r n" if sm: "\<not> large (pde s r ?k)"
  proof -
    have "t = pt_of s r ?k"
      using sm s1(1) w(2,3,5,7) by (auto simp: vmm_root_split_large_page_def large_def pt_of_def)
    moreover have "?k \<in> split_blocks s r n" using sm w(6) by (simp add: split_blocks_def)
    ultimately show ?thesis using space_members(4) sp by (auto simp: space_in_def)
  qed
  then have "if large (pde s r ?k) then t \<notin> K else t \<in> space_tables s r n" using s1(11) by simp
  moreover have "page_valid t" using space_valid(1) [OF s1(2)] s1(8) by blast
  moreover have "mem_step p U s s1" by (rule mem_step_pages [OF s1(7,6) space_tables_U [OF s1(2)]])
  ultimately show ?thesis using s1 by (intro exI [of _ t] exI [of _ s1]) (simp add: same_frames_def)
qed

lemma same_frames_trans:
  "same_frames s t r n V \<Longrightarrow> same_frames t u r n W \<Longrightarrow> same_frames s u r n (V \<union> W)"
  by (auto simp: same_frames_def)

lemma space_put_step:
  assumes sp: "space_in p U s K r n" and k: "v div 512 \<in> split_blocks s r n" and e: "in64 e"
  defines "s' \<equiv> put_qword s (pt_of s r (v div 512) + v mod 512 * 8) e"
  shows "space_in p U s' K r n" "same_frames s s' r n {v}"
    "frame_of s' r v = (if e AND 1 = 0 then None else Some (align_down e 4096))"
    "e = 0 \<Longrightarrow> unmapped s' r v" "mem_step p U s s'" "space_tables s' r n = space_tables s r n"
    "p3_of s' r = p3_of s r" "pmm_view s' p = pmm_view s p"
proof -
  have ok: "space_ok s r n K" using sp by (simp add: space_in_def)
  note put = space_put_pte [OF sp k _ _ e, of "v mod 512", folded s'_def]
  show "space_in p U s' K r n" "same_frames s s' r n {v}"
    "frame_of s' r v = (if e AND 1 = 0 then None else Some (align_down e 4096))"
    "e = 0 \<Longrightarrow> unmapped s' r v" "space_tables s' r n = space_tables s r n"
    "p3_of s' r = p3_of s r" "pmm_view s' p = pmm_view s p" using put by simp_all
  show "mem_step p U s s'"
    using put(5,6) space_valid(2) [OF sp space_members(4) [OF ok k]] by (intro mem_step_page) auto
qed

lemma vmm_unmap_page_root_ok:
  assumes sp: "space_in p U s K r n" and vs: "vmm_limit p U s vs n"
    and virt: "0 \<le> virt" "virt < n * 0x40000000" "virt mod 4096 = 0"
    and room: "large (pde s r (virt div 4096 div 512)) \<Longrightarrow> K \<noteq> U"
    and mapped: "frame_of s r (virt div 4096) \<noteq> None"
  shows "\<exists>t s'. vmm_unmap_page_root s vs r p virt = Some s' \<and> space_in p U s' (insert t K) r n
    \<and> space_tables s' r n = insert t (space_tables s r n)
    \<and> unmapped s' r (virt div 4096) \<and> frame_of s' r (virt div 4096) = None
    \<and> same_frames s s' r n {virt div 4096} \<and> mem_step p U s s'"
proof -
  let ?v = "virt div 4096"
  have n: "n \<le> 512" using sp by (simp add: space_in_def space_ok_def)
  note ix = index_eqs [OF virt(1,2) n]
  obtain t s1 where s1: "vmm_root_split_large_page s r (n * 0x40000000) p virt = Some (t, s1)"
      "space_in p U s1 (insert t K) r n" "?v div 512 \<in> split_blocks s1 r n" "pt_of s1 r (?v div 512) = t"
      "page_valid t" "same_frames s s1 r n {}" "mem_step p U s s1"
      "space_tables s1 r n = insert t (space_tables s r n)"
    using vmm_root_split_step [OF sp virt(1,2) room] by blast
  define s2 where "s2 = put_qword s1 (t + ?v mod 512 * 8) 0"
  note put = space_put_step [OF s1(2,3), of 0, unfolded s1(4), folded s2_def]
  have "frame_of s1 r ?v \<noteq> None" using mapped s1(6) ix(5,6) by (simp add: same_frames_def)
  then have "page_at s1 t (?v mod 512) \<noteq> 0"
    using s1(3,4) by (auto simp: frame_of_def Let_def split_blocks_def split: if_splits)
  then have "vmm_unmap_page_root s vs r p virt = Some s2"
    using virt(3) vs s1(1) ix(4) page_access [OF s1(5), of "?v mod 512"]
    by (simp add: vmm_unmap_page_root_def and_4095 vmm_limit_def vmm_block_access s2_def)
  moreover have "same_frames s s2 r n {?v}" using same_frames_trans [OF s1(6) put(2)] by simp
  moreover have "mem_step p U s s2" using s1(7) put(5) mem_step_trans by auto
  ultimately show ?thesis using put s1(8) by (intro exI [of _ t] exI [of _ s2]) auto
qed

text \<open>What such a change keeps.\<close>

definition access_step :: "int \<Rightarrow> int set \<Rightarrow> int set \<Rightarrow> int \<Rightarrow> int \<Rightarrow> machine \<Rightarrow> machine \<Rightarrow> bool" where
  "access_step p U K r n s s' \<longleftrightarrow> space_in p U s' K r n \<and> same_frames s s' r n {} \<and> mem_step p U s s'
     \<and> space_tables s' r n = space_tables s r n \<and> upper_tables s' r n = upper_tables s r n
     \<and> split_blocks s' r n = split_blocks s r n \<and> (\<forall>b \<in> split_blocks s r n. pt_of s' r b = pt_of s r b
       \<and> (\<forall>c \<in> {0..<512}. page_at s' (pt_of s r b) c = page_at s (pt_of s r b) c))"

lemma access_step_trans:
  "access_step p U K r n s t \<Longrightarrow> access_step p U K r n t u \<Longrightarrow> access_step p U K r n s u"
  unfolding access_step_def using mem_step_trans [of p U s t u] same_frames_trans [of s t r n "{}" u "{}"] by simp

lemma access_step_put:
  assumes sp: "space_in p U s K r n" and q: "q \<in> upper_tables s r n" and i: "0 \<le> i" "i < 512"
  shows "\<exists>s'. (do { e \<leftarrow> page_table_qword s q i; set_page_table_qword s q i (e OR 4) }) = Some s'
    \<and> access_step p U K r n s s'"
proof -
  note put = space_put_user [OF sp q i]
  have "page_valid q" using q upper_sub space_valid(1) [OF sp] by blast
  moreover have "mem_step p U s (put_qword s (q + i * 8) (page_at s q i OR 4))"
    by (rule mem_step_page [OF put(3,4) space_tables_U [OF sp]])
  ultimately show ?thesis using put i by (auto simp: page_access access_step_def)
qed

lemma set_user_bits_ok:
  assumes sp: "space_in p U s K r n" and virt: "0 \<le> virt" "virt < n * 0x40000000"
  shows "\<exists>s'. set_user_bits s r virt = Some s' \<and> access_step p U K r n s s'"
proof -
  note w = space_walk [OF sp virt]
  have n: "n \<le> 512" using sp by (simp add: space_in_def space_ok_def)
  have ix: "0 \<le> pd_index virt" "pd_index virt < 512" "pdpt_index virt < 512"
    using index_eqs(3) [OF virt n] w(9) n by simp_all
  have up: "r \<in> upper_tables s r n" "p3_of s r \<in> upper_tables s r n" "p2_of s r (pdpt_index virt) \<in> upper_tables s r n"
    using w(8,9) by (auto simp: upper_tables_def)
  obtain s1 where s1: "(do { e \<leftarrow> page_table_qword s r 0; set_page_table_qword s r 0 (e OR 4) }) = Some s1"
      "access_step p U K r n s s1" using access_step_put [OF sp up(1), of 0] by auto
  then have up1: "space_in p U s1 K r n" "upper_tables s1 r n = upper_tables s r n" by (simp_all add: access_step_def)
  obtain s2 where s2: "(do { e \<leftarrow> page_table_qword s1 (p3_of s r) (pdpt_index virt);
      set_page_table_qword s1 (p3_of s r) (pdpt_index virt) (e OR 4) }) = Some s2" "access_step p U K r n s1 s2"
    using access_step_put [OF up1(1), of "p3_of s r" "pdpt_index virt"] up(2) up1(2) w(8) ix(3) by auto
  then have up2: "space_in p U s2 K r n" "upper_tables s2 r n = upper_tables s r n"
    using up1(2) by (simp_all add: access_step_def)
  obtain s3 where s3: "(do { e \<leftarrow> page_table_qword s2 (p2_of s r (pdpt_index virt)) (pd_index virt);
      set_page_table_qword s2 (p2_of s r (pdpt_index virt)) (pd_index virt) (e OR 4) }) = Some s3"
      "access_step p U K r n s2 s3"
    using access_step_put [OF up2(1), of "p2_of s r (pdpt_index virt)" "pd_index virt"] up(3) up2(2) ix by auto
  have "access_step p U K r n s s3" using s1(2) s2(2) s3(2) access_step_trans by blast
  then show ?thesis using s1(1) s2(1) s3(1) w(1,2)
    by (auto simp: set_user_bits_def Option.bind_eq_Some_conv)
qed


definition user_bits_if :: "int \<Rightarrow> machine \<Rightarrow> int \<Rightarrow> int \<Rightarrow> machine option" where
  "user_bits_if flags s r virt = (if flags AND 0x004 \<noteq> 0 then set_user_bits s r virt else Some s)"

lemma vmm_map_page_root_alt:
  "vmm_map_page_root s vs r p virt phys flags =
     (if virt AND 0xFFF \<noteq> 0 \<or> phys AND 0xFFF \<noteq> 0 then None else do {
     limit \<leftarrow> vmm_state_qword s vs 4;
     (pt_ptr, s) \<leftarrow> vmm_root_split_large_page s r limit p virt;
     s \<leftarrow> user_bits_if flags s r virt;
     pte \<leftarrow> page_table_qword s pt_ptr (pt_index virt);
     if pte \<noteq> 0 then None
     else set_page_table_qword s pt_ptr (pt_index virt) (phys OR (flags AND 0xFFF) OR 0x001) })"
  by (simp add: vmm_map_page_root_def Let_def user_bits_if_def cong: if_cong)

lemma vmm_map_page_root_ok:
  assumes sp: "space_in p U s K r n" and vs: "vmm_limit p U s vs n"
    and virt: "0 \<le> virt" "virt < n * 0x40000000" "virt mod 4096 = 0"
    and phys: "phys mod 4096 = 0" "in64 phys"
    and free: "unmapped s r (virt div 4096)"
  shows "\<exists>s'. vmm_map_page_root s vs r p virt phys flags = Some s' \<and> space_in p U s' K r n
    \<and> space_tables s' r n = space_tables s r n
    \<and> frame_of s' r (virt div 4096) = Some phys \<and> same_frames s s' r n {virt div 4096} \<and> mem_step p U s s'"
proof -
  let ?v = "virt div 4096" and ?e = "phys OR (flags AND 0xFFF) OR 0x001"
  have n: "n \<le> 512" and ok: "space_ok s r n K" using sp by (simp_all add: space_in_def space_ok_def)
  note ix = index_eqs [OF virt(1,2) n] and e = leaf_entry [OF phys, of flags]
  obtain t s1 where s1: "vmm_root_split_large_page s r (n * 0x40000000) p virt = Some (t, s1)"
      "space_in p U s1 (insert t K) r n" "?v div 512 \<in> split_blocks s1 r n" "pt_of s1 r (?v div 512) = t"
      "page_valid t" "same_frames s s1 r n {}" "mem_step p U s s1"
      "space_tables s1 r n = insert t (space_tables s r n)" "page_at s1 t (?v mod 512) = 0"
    using vmm_root_split_step [OF sp virt(1,2)] free by (auto simp: unmapped_def)
  have "?v div 512 \<in> split_blocks s r n"
    using free space_walk(6) [OF sp virt(1,2)] by (simp add: split_blocks_def unmapped_def)
  note old = space_members(4) [OF ok this]
  have "vmm_root_split_large_page s r (n * 0x40000000) p virt = Some (pt_of s r (?v div 512), s)"
    using free space_walk [OF sp virt(1,2)]
    by (simp add: vmm_root_split_large_page_def large_def pt_of_def unmapped_def)
  then have t: "t = pt_of s r (?v div 512)" "s1 = s" using s1(1) by auto
  have tK: "insert t K = K" "insert t (space_tables s r n) = space_tables s r n"
    using old space_valid(3) [OF sp old] by (auto simp: t)
  obtain s2 where s2: "user_bits_if flags s1 r virt = Some s2"
      "access_step p U K r n s1 s2"
  proof (cases "flags AND 0x004 \<noteq> 0")
    case True
    then show ?thesis using set_user_bits_ok [OF s1(2) virt(1,2)] that by (auto simp: tK user_bits_if_def)
  next
    case False
    then show ?thesis using that [of s1] s1(2) by (auto simp: access_step_def same_frames_def tK user_bits_if_def)
  qed
  have st2: "space_in p U s2 K r n" "same_frames s1 s2 r n {}" "mem_step p U s1 s2"
    "space_tables s2 r n = space_tables s r n" "?v div 512 \<in> split_blocks s2 r n" "pt_of s2 r (?v div 512) = t"
    "page_at s2 t (?v mod 512) = 0"
    using s2(2) s1(3,4,8,9) tK unfolding access_step_def by auto
  define s3 where "s3 = put_qword s2 (t + ?v mod 512 * 8) ?e"
  note put = space_put_step [OF st2(1,5) e(3), unfolded st2(6), folded s3_def]
  have "vmm_map_page_root s vs r p virt phys flags = Some s3"
    using virt(3) phys(1) vs s1(1) s2(1) st2(7) ix(4) page_access [OF s1(5), of "?v mod 512"]
    by (simp add: vmm_map_page_root_alt and_4095 vmm_limit_def vmm_block_access s3_def)
  moreover have "same_frames s s3 r n {?v}"
    using same_frames_trans [OF same_frames_trans [OF s1(6) st2(2)] put(2)] by simp
  moreover have "mem_step p U s s3" using s1(7) st2(3) put(5) mem_step_trans by blast
  ultimately show ?thesis using put e st2(4) by (intro exI [of _ s3]) auto
qed

text \<open>A page that is already mapped is refused: the kernel halts.\<close>

lemma vmm_map_page_root_mapped:
  assumes sp: "space_in p U s K r n" and vs: "vmm_limit p U s vs n"
    and virt: "0 \<le> virt" "virt < n * 0x40000000"
    and mapped: "frame_of s r (virt div 4096) \<noteq> None"
  shows "vmm_map_page_root s vs r p virt phys flags = None"
proof (rule ccontr)
  let ?v = "virt div 4096"
  assume "vmm_map_page_root s vs r p virt phys flags \<noteq> None"
  then obtain t s1 s2 where run: "vmm_root_split_large_page s r (n * 0x40000000) p virt = Some (t, s1)"
      "user_bits_if flags s1 r virt = Some s2"
      "page_table_qword s2 t (pt_index virt) = Some 0"
    using vs by (auto simp: vmm_map_page_root_alt vmm_limit_def vmm_block_access Option.bind_eq_Some_conv
        split: if_splits)
  have n: "n \<le> 512" using sp by (simp add: space_in_def space_ok_def)
  note ix = index_eqs [OF virt n] and w = space_walk [OF sp virt]
  have "K \<noteq> U" if "large (pde s r (?v div 512))"
  proof
    assume "K = U"
    then have "pmm_pages s p = {}" using sp mem_ok_pages by (auto simp: space_in_def)
    then have "pmm_alloc_page s p = Some (0, s)"
      using sp page.alloc_law [of s p] by (auto simp: space_in_def mem_ok_def)
    then show False using run(1) that w(2,3,5,7) by (simp add: vmm_root_split_large_page_def large_def)
  qed
  from vmm_root_split_step [OF sp virt this] run(1) have s1: "space_in p U s1 (insert t K) r n"
      "?v div 512 \<in> split_blocks s1 r n" "pt_of s1 r (?v div 512) = t" "page_valid t" "same_frames s s1 r n {}" by auto
  have s2: "space_in p U s2 (insert t K) r n \<and> pt_of s2 r (?v div 512) = t \<and> same_frames s1 s2 r n {}
      \<and> ?v div 512 \<in> split_blocks s2 r n"
    using run(2) set_user_bits_ok [OF s1(1) virt] s1(1-3)
    by (auto simp: access_step_def same_frames_def user_bits_if_def split: if_splits)
  then have "frame_of s2 r ?v = frame_of s r ?v"
    using s1(5) ix(5,6) by (simp add: same_frames_def)
  moreover have "page_at s2 t (?v mod 512) = 0" using run(3) ix(4) page_access(1) [OF s1(4)] by simp
  ultimately show False using mapped s2 by (simp add: frame_of_def Let_def split_blocks_def)
qed


section \<open>The kernel's own space\<close>

text \<open>
  The routines that start from the state block do what the routines that start from the root do.
\<close>

lemma vmm_block_limit: "vmm_block p U s vs r n \<Longrightarrow> vmm_limit p U s vs n"
  by (simp add: vmm_block_def vmm_limit_def)

lemma vmm_block_step:
  assumes "vmm_block p U s vs r n" "mem_step p U s s'" "p3_of s' r = p3_of s r"
  shows "vmm_block p U s' vs r n"
  using assms mem_step_load [of p U s s' vs "vs + 64"] unfolding vmm_block_def mem_step_def by auto

lemma vmm_block_walk:
  assumes sp: "space_in p U s K r n" and vs: "vmm_block p U s vs r n" and virt: "0 \<le> virt" "virt < n * 0x40000000"
  shows "vmm_supports_addr s vs virt = Some True" "vmm_p2_ptr s vs virt = vmm_root_p2_ptr s r virt"
proof -
  have n: "n \<le> 512" using sp by (simp add: space_in_def space_ok_def)
  show "vmm_supports_addr s vs virt = Some True"
    using vs virt index_eqs(1) [OF virt n] by (simp add: vmm_supports_addr_def vmm_block_def vmm_block_access)
  show "vmm_p2_ptr s vs virt = vmm_root_p2_ptr s r virt"
    using vs space_walk(1) [OF sp virt]
    by (simp add: vmm_p2_ptr_def vmm_root_p2_ptr_def vmm_p3_ptr_def vmm_block_def vmm_block_access)
qed

lemma vmm_split_root:
  assumes sp: "space_in p U s K r n" and vs: "vmm_block p U s vs r n" and virt: "0 \<le> virt" "virt < n * 0x40000000"
  shows "vmm_split_large_page s vs p virt = vmm_root_split_large_page s r (n * 0x40000000) p virt"
  using vmm_block_walk [OF assms] space_walk(7) [OF sp virt]
  by (simp add: vmm_split_large_page_def vmm_root_split_large_page_def Let_def cong: if_cong)

lemma vmm_translate_space:
  assumes sp: "space_in p U s K r n" and vs: "vmm_block p U s vs r n" and virt: "0 \<le> virt" "virt < n * 0x40000000"
  shows "vmm_translate s vs virt = Some (phys_of s r virt)"
  using vmm_block_walk [OF assms] space_walk(2-5) [OF sp virt] space_leaf [OF sp virt]
  by (cases "large (pde s r (virt div 4096 div 512))") (auto simp: vmm_translate_def large_def Let_def)

text \<open>The kernel's own pages are edited through the same two steps.\<close>

lemma vmm_block_edit:
  assumes sp: "space_in p U s K r n" and vs: "vmm_block p U s vs r n"
    and virt: "0 \<le> virt" "virt < n * 0x40000000" and e: "in64 e"
    and room: "large (pde s r (virt div 4096 div 512)) \<Longrightarrow> K \<noteq> U"
  shows "\<exists>t s1 s2. vmm_split_large_page s vs p virt = Some (t, s1)
    \<and> page_table_qword s1 t (pt_index virt) = Some (page_at s1 t (virt div 4096 mod 512))
    \<and> set_page_table_qword s1 t (pt_index virt) e = Some s2
    \<and> (frame_of s r (virt div 4096) = (let x = page_at s1 t (virt div 4096 mod 512) in
         if x AND 1 = 0 then None else Some (align_down x 4096)))
    \<and> (unmapped s r (virt div 4096) \<longrightarrow> page_at s1 t (virt div 4096 mod 512) = 0)
    \<and> space_in p U s2 (insert t K) r n \<and> vmm_block p U s2 vs r n \<and> mem_step p U s s2
    \<and> same_frames s s2 r n {virt div 4096} \<and> space_tables s2 r n = insert t (space_tables s r n)
    \<and> frame_of s2 r (virt div 4096) = (if e AND 1 = 0 then None else Some (align_down e 4096))
    \<and> (e = 0 \<longrightarrow> unmapped s2 r (virt div 4096))
    \<and> page_at s2 (pt_of s2 r (virt div 4096 div 512)) (virt div 4096 mod 512) = e
    \<and> \<not> large (pde s2 r (virt div 4096 div 512)) \<and> (if large (pde s r (virt div 4096 div 512)) then t \<notin> K else t \<in> space_tables s r n)
    \<and> length (recycled (pmm_view s2 p)) \<le> length (recycled (pmm_view s p))"
proof -
  let ?v = "virt div 4096"
  have n: "n \<le> 512" using sp by (simp add: space_in_def space_ok_def)
  note ix = index_eqs [OF virt n]
  obtain t s1 where s1: "vmm_root_split_large_page s r (n * 0x40000000) p virt = Some (t, s1)"
      "space_in p U s1 (insert t K) r n" "?v div 512 \<in> split_blocks s1 r n" "pt_of s1 r (?v div 512) = t"
      "page_valid t" "same_frames s s1 r n {}" "mem_step p U s s1"
      "space_tables s1 r n = insert t (space_tables s r n)" "p3_of s1 r = p3_of s r"
      "unmapped s r ?v \<longrightarrow> page_at s1 t (?v mod 512) = 0" "if large (pde s r (?v div 512)) then t \<notin> K else t \<in> space_tables s r n"
      "length (recycled (pmm_view s1 p)) \<le> length (recycled (pmm_view s p))"
    using vmm_root_split_step [OF sp virt room] by blast
  define s2 where "s2 = put_qword s1 (t + ?v mod 512 * 8) e"
  note put = space_put_step [OF s1(2,3) e, unfolded s1(4), folded s2_def]
  have acc: "page_table_qword s1 t (pt_index virt) = Some (page_at s1 t (?v mod 512))"
      "set_page_table_qword s1 t (pt_index virt) e = Some s2"
    using page_access [OF s1(5), of "?v mod 512"] ix(4) by (simp_all add: s2_def)
  have st: "mem_step p U s s2" using mem_step_trans [OF s1(7) put(5)] .
  have old: "frame_of s r ?v = (let x = page_at s1 t (?v mod 512) in if x AND 1 = 0 then None else Some (align_down x 4096))"
  proof -
    have "frame_of s r ?v = frame_of s1 r ?v" using s1(6) ix(5,6) by (simp add: same_frames_def)
    then show ?thesis using s1(3,4) by (simp add: frame_of_def Let_def split_blocks_def)
  qed
  have ok1: "space_ok s1 r n (insert t K)" using s1(2) by (simp add: space_in_def)
  have sim: "entry_sim (page_at s2 q i) (page_at s1 q i)" if "q \<in> upper_tables s1 r n" "0 \<le> i" "i < 512" for q i
    using page_at_put [OF s1(5) space_valid(1) [OF s1(2)], of q "?v mod 512" i e s1] that upper_sub [of s1 r n] e
      space_pt_apart [OF ok1 s1(3) that(1)] s1(4) by (auto simp: s2_def)
  note u = space_upper [OF ok1 sim]
  have vb: "0 \<le> ?v div 512" "?v div 512 < 512 * n" using s1(3) by (auto simp: split_blocks_def)
  have pt2: "pt_of s2 r (?v div 512) = t" using u(5) vb s1(4) by simp
  have "?v div 512 \<in> split_blocks s2 r n" using u(6) s1(3) by simp
  then have sm: "\<not> large (pde s2 r (?v div 512))" by (simp add: split_blocks_def)
  have new: "page_at s2 t (?v mod 512) = e"
    using page_at_put [OF s1(5,5), of "?v mod 512" "?v mod 512" e s1] e by (simp add: s2_def)
  have "vmm_block p U s2 vs r n" by (rule vmm_block_step [OF vs st]) (simp add: put(7) s1(9))
  moreover have "same_frames s s2 r n {?v}" using same_frames_trans [OF s1(6) put(2)] by simp
  ultimately show ?thesis
    using vmm_split_root [OF sp vs virt] s1(1,8,10,11,12) acc old st put pt2 new sm
    by (intro exI [of _ t] exI [of _ s1] exI [of _ s2]) simp
qed

end
