(* ===== verification/TaskSpace.thy ===== *)
theory TaskSpace
  imports AddressSpace
begin

text \<open>
  The life cycle of an address space: identity spaces built table by table, for a task and for the
  kernel itself, and the return of a space's tables to the allocator.
\<close>

section \<open>Identity spaces\<close>

definition ident_entry :: "int \<Rightarrow> int" where
  "ident_entry k = push_bit 21 k OR 0x083"

definition ident_space :: "machine \<Rightarrow> int \<Rightarrow> int \<Rightarrow> int set \<Rightarrow> bool" where
  "ident_space s r n K \<longleftrightarrow> space_ok s r n K \<and> (\<forall>k \<in> {0..<512 * n}. pde s r k = ident_entry k)"

lemma ident_entry:
  assumes "0 \<le> k" "k < 262144"
  shows "large (ident_entry k)" "ident_entry k AND 1 \<noteq> 0" "align_down (ident_entry k) 0x200000 = k * 0x200000"
    "in64 (ident_entry k)"
proof -
  have p: "push_bit 21 k = k * 0x200000" by (simp add: push_bit_eq_mult)
  have m: "(k * 0x200000) mod 4096 = 0" by (simp add: mod_eq_0_iff_dvd)
  have e: "ident_entry k = k * 0x200000 + 0x83"
    using or_disjoint_add [of 21 "k * 0x200000" "0x83"] by (simp add: ident_entry_def p)
  show "large (ident_entry k)" using entry_low [OF m, of "0x80" "0x83"]
    by (simp add: large_def ident_entry_def p)
  show "ident_entry k AND 1 \<noteq> 0" using entry_low [OF m, of 1 "0x83"] by (simp add: ident_entry_def p)
  show "align_down (ident_entry k) 0x200000 = k * 0x200000" by (simp add: align_down_2M e)
  show "in64 (ident_entry k)" using assms by (simp add: e in64_def)
qed

lemma ident_frames:
  assumes "ident_space s r n K" "0 \<le> v" "v < n * 262144"
  shows "frame_of s r v = Some (v * 4096)"
proof -
  have "n \<le> 512" using assms(1) by (simp add: ident_space_def space_ok_def)
  moreover note k = page_number [OF assms(2,3)]
  ultimately have "v div 512 < 262144" by linarith
  then have "frame_of s r v = Some (v div 512 * 0x200000 + v mod 512 * 4096)"
    using assms(1) k ident_entry [of "v div 512"] by (simp add: frame_of_def Let_def ident_space_def)
  moreover have "v div 512 * 0x200000 + v mod 512 * 4096 = v * 4096"
    using div_mult_mod_eq [of v 512] by linarith
  ultimately show ?thesis by simp
qed

lemma ident_split_blocks:
  assumes "ident_space s r n K" shows "split_blocks s r n = {}"
proof -
  have "large (pde s r k)" if "0 \<le> k" "k < 512 * n" for k
  proof -
    have "n \<le> 512" using assms by (simp add: ident_space_def space_ok_def)
    then have "k < 262144" using that by linarith
    then show ?thesis using assms that ident_entry(1) [of k] by (simp add: ident_space_def)
  qed
  then show ?thesis by (auto simp: split_blocks_def)
qed

lemma ident_tables: "ident_space s r n K \<Longrightarrow> space_tables s r n = upper_tables s r n"
  using ident_split_blocks by (simp add: space_tables_def upper_tables_def)

text \<open>One more GiB: entry \<open>i\<close> of the P3 table now refers to a fresh table of identity leaves.\<close>

lemma ident_extend:
  assumes id: "ident_space s r i K" and i: "i < 512"
    and q: "q \<notin> upper_tables s r i" "align_down e 4096 = q" "e AND 1 \<noteq> 0"
    and p3: "page_at s' (p3_of s r) i = e"
    and new: "\<And>j. 0 \<le> j \<Longrightarrow> j < 512 \<Longrightarrow> page_at s' q j = ident_entry (i * 512 + j)"
    and old: "\<And>x j. x \<in> upper_tables s r i \<Longrightarrow> 0 \<le> j \<Longrightarrow> j < 512 \<Longrightarrow> x \<noteq> p3_of s r \<or> j \<noteq> i \<Longrightarrow>
      page_at s' x j = page_at s x j"
  shows "ident_space s' r (i + 1) (insert q K)" "p3_of s' r = p3_of s r"
    "space_tables s' r (i + 1) = insert q (space_tables s r i)"
proof -
  have ok: "space_ok s r i K" using id by (simp add: ident_space_def)
  have i0: "0 \<le> i" using ok by (simp add: space_ok_def)
  have mem: "r \<in> upper_tables s r i" "p3_of s r \<in> upper_tables s r i"
    "\<And>b. 0 \<le> b \<Longrightarrow> b < i \<Longrightarrow> p2_of s r b \<in> upper_tables s r i" by (auto simp: upper_tables_def)
  have ne: "r \<noteq> p3_of s r" "p2_of s r ` {0..<i} \<inter> {r, p3_of s r} = {}" "inj_on (p2_of s r) {0..<i}"
    using ok unfolding space_ok_def by argo+
  have e4: "page_at s' r 0 = page_at s r 0" using old [OF mem(1)] ne(1) by simp
  then show p3': "p3_of s' r = p3_of s r" by (simp add: p3_of_def)
  have e3: "page_at s' (p3_of s r) b = (if b = i then e else page_at s (p3_of s r) b)" if "0 \<le> b" "b < i + 1" for b
    using that i p3 old [OF mem(2)] by auto
  have p2: "p2_of s' r b = (if b = i then q else p2_of s r b)" if "0 \<le> b" "b < i + 1" for b
    using e3 [OF that] q(2) by (simp add: p2_of_def p3')
  have e2: "pde s' r k = ident_entry k" if k: "0 \<le> k" "k < 512 * (i + 1)" for k
  proof (cases "k div 512 = i")
    case True
    then have "i * 512 + k mod 512 = k" using div_mult_mod_eq [of k 512] by simp
    then show ?thesis using True p2 [of i] i0 new [of "k mod 512"] by (simp add: pde_def)
  next
    case False
    have lt: "0 \<le> k div 512" "k div 512 < i" using block_index [OF k] False by auto
    then have "k < 512 * i" by auto
    moreover have "p2_of s r (k div 512) \<noteq> p3_of s r" using ne(2) lt by force
    then have "pde s' r k = pde s r k"
      using p2 [of "k div 512"] lt old [OF mem(3) [OF lt], of "k mod 512"] by (simp add: pde_def)
    ultimately show ?thesis using id k by (simp add: ident_space_def)
  qed
  have k512: "k < 262144" if "k < 512 * (i + 1)" for k :: int using that i by presburger
  have sb: "split_blocks s' r (i + 1) = {}"
    using e2 ident_entry(1) k512 by (auto simp: split_blocks_def)
  have ivl: "{0..<i + 1} = insert i {0..<i}" using i0 by auto
  have im: "p2_of s' r ` {0..<i} = p2_of s r ` {0..<i}"
    by (rule image_cong [OF refl]) (simp add: p2)
  have im': "inj_on (p2_of s' r) {0..<i} = inj_on (p2_of s r) {0..<i}"
    by (rule inj_on_cong) (simp add: p2)
  have qi: "p2_of s' r i = q" using p2 [of i] i0 by simp
  have up: "upper_tables s' r (i + 1) = insert q (upper_tables s r i)"
    unfolding upper_tables_def ivl image_insert im p3' qi by blast
  show tb: "space_tables s' r (i + 1) = insert q (space_tables s r i)"
    using up ident_tables [OF id] sb by (simp add: space_tables_def upper_tables_def)
  have inj: "inj_on (p2_of s' r) (insert i {0..<i})"
    using ne(3) q(1) unfolding inj_on_insert im' qi by (auto simp: im upper_tables_def)
  have P: "\<forall>b \<in> {0..<i + 1}. page_at s' (p3_of s r) b AND 1 \<noteq> 0"
    using e3 q(3) ok unfolding space_ok_def by auto
  have D: "\<forall>k \<in> {0..<512 * (i + 1)}. pde s' r k AND 1 \<noteq> 0" using e2 ident_entry(2) k512 by simp
  have sub: "space_tables s' r (i + 1) \<subseteq> insert q K" using ok unfolding tb space_ok_def by blast
  have disj: "p2_of s' r ` {0..<i + 1} \<inter> {r, p3_of s r} = {}"
    using ne(2) q(1) unfolding ivl image_insert im qi upper_tables_def by auto
  have "space_ok s' r (i + 1) (insert q K)"
    using ok i i0 sub P D ne(1) disj inj e4 unfolding space_ok_def sb p3' ivl [symmetric] by simp
  then show "ident_space s' r (i + 1) (insert q K)" using e2 by (simp add: ident_space_def)
qed


section \<open>Building an identity space\<close>

lemma vmm_fill_identity_ok:
  assumes q: "page_valid q" and i: "0 \<le> i" "i < 512"
  shows "\<exists>s'. vmm_fill_identity q i s = Some s' \<and> writes_in {q..<q + 4096} s s'
    \<and> (\<forall>j \<in> {0..<512}. page_at s' q j = ident_entry (i * 512 + j))"
  unfolding vmm_fill_identity_def
proof (rule page_fill [OF q])
  fix j :: int assume j: "0 \<le> j" "j < 512"
  show "in64 (ident_entry (i * 512 + j))" using i j by (intro ident_entry) auto
  show "(let phys = push_bit 21 (i * 512 + j) in set_page_table_qword t q j (phys OR 0x083))
      = Some (put_qword t (q + j * 8) (ident_entry (i * 512 + j)))" for t
    using j q by (simp add: page_access ident_entry_def)
qed

text \<open>
  The state of the building loop: the first \<open>i\<close> GiB are in place under the root \<open>r\<close>, in pages the
  kernel did not hold before (\<open>K\<close>), and nothing else has been written.
\<close>

definition building :: "int \<Rightarrow> int set \<Rightarrow> int set \<Rightarrow> machine \<Rightarrow> int \<Rightarrow> int \<Rightarrow> machine \<Rightarrow> bool" where
  "building p U K s r i t \<longleftrightarrow> mem_ok p U t (K \<union> space_tables t r i) \<and> ident_space t r i (K \<union> space_tables t r i)
     \<and> K \<inter> space_tables t r i = {} \<and> card (space_tables t r i) = nat i + 2
     \<and> writes_in (pmm_area s p \<union> page_bytes (space_tables t r i)) s t \<and> pmm_area t p = pmm_area s p
     \<and> length (recycled (pmm_view t p)) \<le> length (recycled (pmm_view s p))"

lemma vmm_identity_table_ok:
  assumes B: "building p U K s r i t" and i: "i < 512" and room: "K \<union> space_tables t r i \<noteq> U"
  shows "\<exists>t'. vmm_identity_table p (p3_of t r) i t = Some t' \<and> building p U K s r (i + 1) t' \<and> p3_of t' r = p3_of t r"
proof -
  let ?T = "space_tables t r i" and ?p3 = "p3_of t r"
  let ?L = "K \<union> ?T"
  have m: "mem_ok p U t ?L" and id: "ident_space t r i ?L" using B by (auto simp: building_def)
  have ok: "space_ok t r i ?L" and i0: "0 \<le> i" using id by (auto simp: ident_space_def space_ok_def)
  obtain q t1 where a: "pmm_alloc_page t p = Some (q, t1)" "q \<noteq> 0" "q \<in> U - ?L" "mem_ok p U t1 (insert q ?L)"
      "writes_in (pmm_area t p) t t1" "pmm_area t1 p = pmm_area t p"
      "length (recycled (pmm_view t1 p)) \<le> length (recycled (pmm_view t p))"
    using mem_ok_alloc [OF m room] by blast
  have vq: "page_valid q" using a(3) mem_ok_valid [OF m] by blast
  have p3: "?p3 \<in> ?T" by (rule space_members(2) [OF ok])
  have TU: "?T \<subseteq> U" using mem_ok_sub [OF m] by blast
  have vp3: "page_valid ?p3" using p3 TU mem_ok_valid [OF m] by blast
  have qT: "q \<notin> ?T" "q \<noteq> ?p3" using a(3) p3 by auto
  obtain t2 where z: "zero_page t1 q = Some t2" "writes_in {q..<q + 4096} t1 t2" using zero_page_ok [OF vq] by blast
  define t3 where "t3 = put_qword t2 (?p3 + i * 8) (q OR 3)"
  note e = table_entry [OF vq, of 3]
  have e1: "(q OR 3) AND 1 \<noteq> 0" using e(2) by simp
  have w3: "writes_in {?p3..<?p3 + 4096} t2 t3" unfolding t3_def by (rule writes_in_page [OF i0 i])
  obtain t4 where f: "vmm_fill_identity q i t3 = Some t4" "writes_in {q..<q + 4096} t3 t4"
      "\<forall>j \<in> {0..<512}. page_at t4 q j = ident_entry (i * 512 + j)"
    using vmm_fill_identity_ok [OF vq i0 i] by blast
  have apart: "{x..<x + 4096} \<inter> {q..<q + 4096} = {}" if "x \<in> U" "x \<noteq> q" for x
    using page_apart [of x q] that vq mem_ok_valid [OF m] by auto
  have at: "page_at t4 x j = (if x = ?p3 \<and> j = i then q OR 3 else page_at t x j)"
    if "x \<in> U" "x \<noteq> q" "0 \<le> j" "j < 512" for x j
  proof -
    have "page_at t4 x j = page_at t3 x j" by (rule page_at_frame [OF f(2) apart [OF that(1,2)] that(3,4)])
    also have "\<dots> = (if x = ?p3 \<and> j = i then q OR 3 else page_at t2 x j)"
      unfolding t3_def using that i0 i vp3 e(4) mem_ok_valid [OF m] by (intro page_at_put) auto
    also have "page_at t2 x j = page_at t x j"
      using fresh_page_at [OF m a(5) z(2) _ that] a(3) by blast
    finally show ?thesis .
  qed
  have TUq: "x \<in> U \<and> x \<noteq> q" if "x \<in> upper_tables t r i" for x
    using that upper_sub [of t r i] TU qT(1) by blast
  have qU: "q \<notin> upper_tables t r i" using qT(1) upper_sub [of t r i] by blast
  have at3: "page_at t4 ?p3 i = q OR 3" using at [of ?p3 i] p3 TU qT(2) i0 i by auto
  have new: "page_at t4 q j = ident_entry (i * 512 + j)" if "0 \<le> j" "j < 512" for j using f(3) that by simp
  have old: "page_at t4 x j = page_at t x j"
    if "x \<in> upper_tables t r i" "0 \<le> j" "j < 512" "x \<noteq> ?p3 \<or> j \<noteq> i" for x j
    using at [of x j] TUq [OF that(1)] that(2-4) by auto
  note ext = ident_extend [OF id i qU e(1) e1 at3 new old, simplified]
  have Leq: "K \<union> space_tables t4 r (i + 1) = insert q ?L" using ext(3) by auto
  have m2: "mem_ok p U t2 (insert q ?L)" "pmm_area t2 p = pmm_area t p" "pmm_view t2 p = pmm_view t1 p"
    using mem_ok_page_write [OF a(4) z(2)] a(3,6) by auto
  have m3: "mem_ok p U t3 (insert q ?L)" "pmm_area t3 p = pmm_area t p" "pmm_view t3 p = pmm_view t1 p"
    using mem_ok_page_write [OF m2(1) w3] p3 TU m2(2,3) by auto
  have m4: "mem_ok p U t4 (insert q ?L)" "pmm_area t4 p = pmm_area t p" "pmm_view t4 p = pmm_view t1 p"
    using mem_ok_page_write [OF m3(1) f(2)] a(3) m3(2,3) by auto
  have run: "vmm_identity_table p ?p3 i t = Some t4"
    using a(1,2) z(1) f(1) page_access(2) [OF vp3 i0 i, of t2 "q OR 3"] by (simp add: vmm_identity_table_def t3_def)
  let ?A = "pmm_area s p \<union> page_bytes (space_tables t4 r (i + 1))"
  have area: "pmm_area t p = pmm_area s p" using B by (simp add: building_def)
  have in_A: "{x..<x + 4096} \<subseteq> ?A" if "x \<in> insert q ?T" for x using that ext(3) by (auto simp: page_bytes_def)
  have "writes_in ?A s t" using B unfolding building_def
    by (elim conjE) (erule writes_in_mono, auto simp: ext(3) page_bytes_def)
  also have "writes_in ?A t t1" by (rule writes_in_mono [OF a(5)]) (auto simp: area)
  also have "writes_in ?A t1 t2" by (rule writes_in_mono [OF z(2) in_A]) simp
  also have "writes_in ?A t2 t3" by (rule writes_in_mono [OF w3 in_A]) (simp add: p3)
  also have "writes_in ?A t3 t4" by (rule writes_in_mono [OF f(2) in_A]) simp
  finally have w: "writes_in ?A s t4" .
  have "finite ?T" using TU m finite_subset unfolding mem_ok_def by blast
  then have "card (insert q ?T) = nat (i + 1) + 2" using B qT(1) i0 by (simp add: building_def nat_add_distrib)
  then have "building p U K s r (i + 1) t4"
    using B m4 ext w area a(3,7) unfolding building_def Leq by (simp add: ext(3))
  then show ?thesis using run ext(2) by blast
qed


lemma building_room:
  assumes "building p U K s r i t" "i < n" "int (card (U - K)) \<ge> n + 2"
  shows "K \<union> space_tables t r i \<noteq> U"
proof
  assume "K \<union> space_tables t r i = U"
  then have "U - K = space_tables t r i" using assms(1) by (auto simp: building_def)
  moreover have "0 \<le> i" using assms(1) by (simp add: building_def ident_space_def space_ok_def)
  ultimately show False using assms by (simp add: building_def)
qed

text \<open>Two fresh pages become the root and its P3 table.\<close>

lemma building_start:
  assumes m: "mem_ok p U s (insert p3 (insert p4 K))" and new: "p4 \<in> U - K" "p3 \<in> U - K" "p4 \<noteq> p3"
  shows "\<exists>t1 t2 t3. zero_page s p4 = Some t1 \<and> zero_page t1 p3 = Some t2
    \<and> set_page_table_qword t2 p4 0 (p3 OR 0x003) = Some t3 \<and> building p U K s p4 0 t3 \<and> p3_of t3 p4 = p3"
proof -
  have v: "page_valid p4" "page_valid p3" using new mem_ok_valid [OF m] by auto
  note e = table_entry [OF v(2), of 3]
  obtain t1 where z1: "zero_page s p4 = Some t1" "writes_in {p4..<p4 + 4096} s t1" using zero_page_ok [OF v(1)] by blast
  obtain t2 where z2: "zero_page t1 p3 = Some t2" "writes_in {p3..<p3 + 4096} t1 t2" using zero_page_ok [OF v(2)] by blast
  define t3 where "t3 = put_qword t2 p4 (p3 OR 3)"
  have w3: "writes_in {p4..<p4 + 4096} t2 t3" unfolding t3_def using writes_in_page [of 0 p4 t2] by simp
  have at: "page_at t3 p4 0 = p3 OR 3" using page_at_put [OF v(1,1), of 0 0 "p3 OR 3" t2] e(4) by (simp add: t3_def)
  have p3: "p3_of t3 p4 = p3" by (simp add: p3_of_def at e(1))
  have sb: "split_blocks t3 p4 0 = {}" by (auto simp: split_blocks_def)
  have T: "space_tables t3 p4 0 = {p4, p3}" by (simp add: space_tables_def p3 sb)
  have m1: "mem_ok p U t1 (insert p3 (insert p4 K))" "pmm_area t1 p = pmm_area s p" "pmm_view t1 p = pmm_view s p"
    using mem_ok_page_write [OF m z1(2)] new by auto
  have m2: "mem_ok p U t2 (insert p3 (insert p4 K))" "pmm_area t2 p = pmm_area s p" "pmm_view t2 p = pmm_view s p"
    using mem_ok_page_write [OF m1(1) z2(2)] new m1(2,3) by auto
  have m3: "mem_ok p U t3 (insert p3 (insert p4 K))" "pmm_area t3 p = pmm_area s p" "pmm_view t3 p = pmm_view s p"
    using mem_ok_page_write [OF m2(1) w3] new m2(2,3) by auto
  let ?A = "pmm_area s p \<union> page_bytes {p4, p3}"
  have "writes_in ?A s t1" by (rule writes_in_mono [OF z1(2)]) (auto simp: page_bytes_def)
  also have "writes_in ?A t1 t2" by (rule writes_in_mono [OF z2(2)]) (auto simp: page_bytes_def)
  also have "writes_in ?A t2 t3" by (rule writes_in_mono [OF w3]) (auto simp: page_bytes_def)
  finally have w: "writes_in ?A s t3" .
  have "ident_space t3 p4 0 (K \<union> {p4, p3})"
    using new(3) e(2) by (simp add: ident_space_def space_ok_def T p3 at sb)
  then have "building p U K s p4 0 t3" using m3 w new by (simp add: building_def T insert_commute)
  then show ?thesis using z1(1) z2(1) p3 page_access(2) [OF v(1), of 0 t2]
    by (auto simp: t3_def)
qed

lemma build_identity:
  assumes m: "mem_ok p U s (insert p3 (insert p4 K))" and new: "p4 \<in> U - K" "p3 \<in> U - K" "p4 \<noteq> p3"
    and n: "0 \<le> n" "n \<le> 512" and room: "int (card (U - K)) \<ge> n + 2"
  shows "\<exists>t. (do { s \<leftarrow> zero_page s p4; s \<leftarrow> zero_page s p3; s \<leftarrow> set_page_table_qword s p4 0 (p3 OR 0x003);
      for_range 0 n (vmm_identity_table p p3) s }) = Some t \<and> building p U K s p4 n t \<and> p3_of t p4 = p3"
proof -
  obtain t1 t2 t3 where t: "zero_page s p4 = Some t1" "zero_page t1 p3 = Some t2"
      "set_page_table_qword t2 p4 0 (p3 OR 0x003) = Some t3" "building p U K s p4 0 t3" "p3_of t3 p4 = p3"
    using building_start [OF m new] by blast
  have "\<exists>t. for_range 0 n (vmm_identity_table p p3) t3 = Some t \<and> building p U K s p4 n t \<and> p3_of t p4 = p3"
  proof (rule for_range_total)
    fix i t assume i: "0 \<le> i" "i < n" and B: "building p U K s p4 i t \<and> p3_of t p4 = p3"
    then show "\<exists>t'. vmm_identity_table p p3 i t = Some t' \<and> building p U K s p4 (i + 1) t' \<and> p3_of t' p4 = p3"
      using vmm_identity_table_ok [of p U K s p4 i t] building_room [of p U K s p4 i t n] room n by auto
  qed (use t n in auto)
  then show ?thesis using t by auto
qed

lemma mem_ok_alloc_two:
  assumes m: "mem_ok p U s K" and two: "2 \<le> card (U - K)"
  shows "\<exists>a b s1 s2. pmm_alloc_page s p = Some (a, s1) \<and> pmm_alloc_page s1 p = Some (b, s2) \<and> a \<noteq> 0 \<and> b \<noteq> 0
    \<and> a \<in> U - K \<and> b \<in> U - K \<and> a \<noteq> b \<and> mem_ok p U s2 (insert b (insert a K))
    \<and> writes_in (pmm_area s p) s s2 \<and> pmm_area s2 p = pmm_area s p
    \<and> length (recycled (pmm_view s2 p)) \<le> length (recycled (pmm_view s p))"
proof -
  have fin: "finite (U - K)" using m by (simp add: mem_ok_def)
  have "K \<noteq> U" using two by auto
  then obtain a s1 where a: "pmm_alloc_page s p = Some (a, s1)" "a \<noteq> 0" "a \<in> U - K" "mem_ok p U s1 (insert a K)"
      "writes_in (pmm_area s p) s s1" "pmm_area s1 p = pmm_area s p"
      "length (recycled (pmm_view s1 p)) \<le> length (recycled (pmm_view s p))" using mem_ok_alloc [OF m] by blast
  have "insert a K \<noteq> U"
  proof
    assume "insert a K = U"
    then have "U - K \<subseteq> {a}" by auto
    then show False using card_mono [of "{a}" "U - K"] two by simp
  qed
  then obtain b s2 where b: "pmm_alloc_page s1 p = Some (b, s2)" "b \<noteq> 0" "b \<in> U - insert a K"
      "mem_ok p U s2 (insert b (insert a K))" "writes_in (pmm_area s1 p) s1 s2" "pmm_area s2 p = pmm_area s1 p"
      "length (recycled (pmm_view s2 p)) \<le> length (recycled (pmm_view s1 p))"
    using mem_ok_alloc [OF a(4)] by blast
  have "writes_in (pmm_area s p) s s2" using writes_in_trans [OF a(5)] b(5) a(6) by simp
  then show ?thesis using a b
    by (intro exI [of _ a] exI [of _ b] exI [of _ s1] exI [of _ s2]) auto
qed

lemma vmm_create_task_address_space_ok:
  assumes m: "mem_ok p U s K" and vs: "vmm_limit p U s vs n" and n: "0 \<le> n" "n \<le> 512"
    and room: "int (card (U - K)) \<ge> n + 2"
  shows "\<exists>r s'. vmm_create_task_address_space s vs p = Some (r, s') \<and> building p U K s r n s'"
proof -
  obtain a b s1 s2 where ab: "pmm_alloc_page s p = Some (a, s1)" "pmm_alloc_page s1 p = Some (b, s2)"
      "a \<noteq> 0" "b \<noteq> 0" "a \<in> U - K" "b \<in> U - K" "a \<noteq> b" "mem_ok p U s2 (insert b (insert a K))"
      "writes_in (pmm_area s p) s s2" "pmm_area s2 p = pmm_area s p"
      "length (recycled (pmm_view s2 p)) \<le> length (recycled (pmm_view s p))"
    using mem_ok_alloc_two [OF m] room n by auto
  obtain t where t: "(do { s \<leftarrow> zero_page s2 a; s \<leftarrow> zero_page s b; s \<leftarrow> set_page_table_qword s a 0 (b OR 0x003);
      for_range 0 n (vmm_identity_table p b) s }) = Some t" "building p U K s2 a n t"
    using build_identity [OF ab(8,5,6,7) n room] by blast
  have "vmm_create_task_address_space s vs p = Some (a, t)"
    using t(1) ab(1-4) vs
    by (auto simp: vmm_create_task_address_space_def vmm_limit_def vmm_block_access Option.bind_eq_Some_conv)
  moreover have "writes_in (pmm_area s p \<union> page_bytes (space_tables t a n)) s t"
    using writes_in_mono [OF ab(9), of "pmm_area s p \<union> page_bytes (space_tables t a n)"] t(2)
    by (auto simp: building_def ab(10) intro: writes_in_trans)
  ultimately show ?thesis using t(2) ab(10,11) by (auto simp: building_def)
qed


section \<open>Returning a space\<close>

text \<open>The pages \<open>F\<close> of \<open>K\<close> have gone back; nothing but the allocator's blocks was written.\<close>

definition freeing :: "int \<Rightarrow> int set \<Rightarrow> int set \<Rightarrow> machine \<Rightarrow> int set \<Rightarrow> machine \<Rightarrow> bool" where
  "freeing p U K s F t \<longleftrightarrow> mem_ok p U t (K - F) \<and> writes_in (pmm_area s p) s t \<and> pmm_area t p = pmm_area s p
     \<and> finite F \<and> F \<subseteq> K \<and> length (recycled (pmm_view t p)) = length (recycled (pmm_view s p)) + card F"

lemma freeing_step:
  assumes f: "freeing p U K s F t" and x: "x \<in> K - F"
    and room: "length (recycled (pmm_view s p)) + card F < 2048"
  shows "\<exists>t'. pmm_free_page t p x = Some t' \<and> freeing p U K s (insert x F) t'"
proof -
  have m: "mem_ok p U t (K - F)" using f by (simp add: freeing_def)
  obtain t' where t': "pmm_free_page t p x = Some t'" "mem_ok p U t' (K - F - {x})" "writes_in (pmm_area t p) t t'"
      "pmm_area t' p = pmm_area t p" "length (recycled (pmm_view t' p)) = length (recycled (pmm_view t p)) + 1"
    using mem_ok_free [OF m x] room f by (auto simp: freeing_def)
  have "K - F - {x} = K - insert x F" by auto
  then have "freeing p U K s (insert x F) t'"
    using f x t' writes_in_trans unfolding freeing_def by auto
  then show ?thesis using t'(1) by blast
qed

lemma freeing_page_at:
  assumes "freeing p U K s F t" "mem_ok p U s K" "q \<in> U" "0 \<le> i" "i < 512"
  shows "page_at t q i = page_at s q i"
  using assms mem_ok_apart [OF assms(2,3)] page_at_frame unfolding freeing_def by blast

abbreviation blocks_from :: "machine \<Rightarrow> int \<Rightarrow> int \<Rightarrow> int \<Rightarrow> int \<Rightarrow> int set" where
  "blocks_from s r n lo hi \<equiv> {b \<in> split_blocks s r n. lo \<le> b \<and> b < hi}"

lemma vmm_free_leaves:
  assumes sp: "space_in p U s K r n" and i: "0 \<le> i" "i < n"
    and f: "freeing p U K s F t" and F: "F \<inter> pt_of s r ` blocks_from s r n (i * 512) (i * 512 + 512) = {}"
    and room: "length (recycled (pmm_view s p)) + card (F \<union> pt_of s r ` blocks_from s r n (i * 512) (i * 512 + 512)) \<le> 2048"
  shows "\<exists>t'. for_range 0 512 (vmm_free_leaf p (p2_of s r i)) t = Some t'
    \<and> freeing p U K s (F \<union> pt_of s r ` blocks_from s r n (i * 512) (i * 512 + 512)) t'"
proof -
  have ok: "space_ok s r n K" and m: "mem_ok p U s K" using sp by (auto simp: space_in_def)
  let ?P = "\<lambda>j. pt_of s r ` blocks_from s r n (i * 512) (i * 512 + j)"
  have inj: "inj_on (pt_of s r) (split_blocks s r n)" using ok unfolding space_ok_def by argo
  note p2 = space_members(3) [OF ok i]
  have fin: "finite (F \<union> ?P 512)"
    using f finite_subset [of "?P 512" U] space_tables_U [OF sp] m
    by (auto simp: freeing_def space_tables_def mem_ok_def)
  have "\<exists>t'. for_range 0 512 (vmm_free_leaf p (p2_of s r i)) t = Some t' \<and> freeing p U K s (F \<union> ?P 512) t'"
  proof (rule for_range_total [where P = "\<lambda>j t. freeing p U K s (F \<union> ?P j) t"])
    have "blocks_from s r n (i * 512) (i * 512 + 0) = {}" by auto
    then show "freeing p U K s (F \<union> ?P 0) t" using f by (simp only: image_empty Un_empty_right)
  next
    fix j t assume j: "0 \<le> j" "j < 512" and fr: "freeing p U K s (F \<union> ?P j) t"
    let ?b = "i * 512 + j"
    have b: "0 \<le> ?b" "?b < 512 * n" "?b div 512 = i" "?b mod 512 = j" using i j by auto
    have e: "page_table_qword t (p2_of s r i) j = Some (pde s r ?b)"
      using page_access(1) [OF space_valid(1) [OF sp p2] j] freeing_page_at [OF fr m space_valid(2) [OF sp p2] j]
      j by (simp add: pde_def b)
    have present: "pde s r ?b AND 1 \<noteq> 0" using ok b unfolding space_ok_def by simp
    show "\<exists>t'. vmm_free_leaf p (p2_of s r i) j t = Some t' \<and> freeing p U K s (F \<union> ?P (j + 1)) t'"
    proof (cases "?b \<in> split_blocks s r n")
      case True
      have P: "blocks_from s r n (i * 512) (i * 512 + (j + 1)) = insert ?b (blocks_from s r n (i * 512) ?b)"
        using True j by auto
      have "pt_of s r ?b \<notin> ?P j" using inj True by (auto simp: inj_on_def)
      moreover have "pt_of s r ?b \<in> ?P 512" using True j by auto
      then have "pt_of s r ?b \<notin> F" using F by blast
      moreover have "pt_of s r ?b \<in> K" by (rule space_valid(3) [OF sp space_members(4) [OF ok True]])
      moreover have "card (F \<union> ?P j) < card (F \<union> ?P 512)"
        by (rule psubset_card_mono [OF fin]) (use j True calculation in auto)
      ultimately have "\<exists>t'. pmm_free_page t p (pt_of s r ?b) = Some t'
          \<and> freeing p U K s (insert (pt_of s r ?b) (F \<union> ?P j)) t'"
        using room by (intro freeing_step [OF fr]) auto
      moreover have "vmm_free_leaf p (p2_of s r i) j t = pmm_free_page t p (pt_of s r ?b)"
        using e present True by (simp add: vmm_free_leaf_def split_blocks_def large_def pt_of_def)
      moreover have "F \<union> ?P (j + 1) = insert (pt_of s r ?b) (F \<union> ?P j)" unfolding P image_insert by blast
      ultimately show ?thesis by simp
    next
      case False
      then have "large (pde s r ?b)" using b by (simp add: split_blocks_def)
      moreover have "b < i * 512 + (j + 1) \<longleftrightarrow> b < ?b" if "b \<in> split_blocks s r n" for b
        using False that by (cases "b = ?b") auto
      then have "blocks_from s r n (i * 512) (i * 512 + (j + 1)) = blocks_from s r n (i * 512) ?b" by blast
      ultimately show ?thesis using e fr by (simp add: vmm_free_leaf_def large_def)
    qed
  qed simp
  then show ?thesis .
qed


text \<open>Everything below the first \<open>i\<close> entries of the P3 table.\<close>

definition freed_below :: "machine \<Rightarrow> int \<Rightarrow> int \<Rightarrow> int \<Rightarrow> int set" where
  "freed_below s r n i = p2_of s r ` {0..<i} \<union> pt_of s r ` blocks_from s r n 0 (i * 512)"

lemma freed_below_sub:
  assumes "space_ok s r n K" "i \<le> n" shows "freed_below s r n i \<subseteq> space_tables s r n - {r, p3_of s r}"
proof -
  have "p2_of s r ` {0..<n} \<inter> {r, p3_of s r} = {}" "pt_of s r ` split_blocks s r n \<inter> {r, p3_of s r} = {}"
    using assms(1) unfolding space_ok_def by blast+
  then show ?thesis using assms(2) unfolding freed_below_def space_tables_def by fastforce
qed

lemma freed_below_0: "freed_below s r n 0 = {}"
  by (auto simp: freed_below_def)

lemma freed_below_Suc:
  assumes "0 \<le> i"
  shows "freed_below s r n (i + 1) = insert (p2_of s r i)
    (freed_below s r n i \<union> pt_of s r ` blocks_from s r n (i * 512) (i * 512 + 512))"
proof -
  have "{0..<i + 1} = insert i {0..<i}" using assms by auto
  moreover have "blocks_from s r n 0 ((i + 1) * 512) = blocks_from s r n 0 (i * 512) \<union> blocks_from s r n (i * 512) (i * 512 + 512)"
    using assms by (auto simp: split_blocks_def)
  ultimately show ?thesis unfolding freed_below_def by auto
qed

lemma vmm_free_table_step:
  assumes sp: "space_in p U s K r n" and i: "0 \<le> i" "i < n" and f: "freeing p U K s (freed_below s r n i) t"
    and room: "length (recycled (pmm_view s p)) + card (space_tables s r n) \<le> 2048"
  shows "\<exists>t'. vmm_free_table p (p3_of s r) i t = Some t' \<and> freeing p U K s (freed_below s r n (i + 1)) t'"
proof -
  have ok: "space_ok s r n K" and m: "mem_ok p U s K" using sp by (auto simp: space_in_def)
  have n: "n \<le> 512" using ok by (simp add: space_ok_def)
  let ?F = "freed_below s r n i" and ?P = "pt_of s r ` blocks_from s r n (i * 512) (i * 512 + 512)"
  note p3 = space_members(2) [OF ok] and p2 = space_members(3) [OF ok i]
  have inj: "inj_on (pt_of s r) (split_blocks s r n)" "inj_on (p2_of s r) {0..<n}"
    using ok unfolding space_ok_def by argo+
  have up: "p2_of s r b \<in> upper_tables s r n" if "0 \<le> b" "b < n" for b using that by (auto simp: upper_tables_def)
  have disj: "?F \<inter> ?P = {}"
  proof -
    have "p2_of s r ` {0..<i} \<inter> ?P = {}"
      using space_pt_apart [OF ok _ up] i by fastforce
    moreover have "pt_of s r ` (blocks_from s r n 0 (i * 512) \<inter> blocks_from s r n (i * 512) (i * 512 + 512))
        = pt_of s r ` blocks_from s r n 0 (i * 512) \<inter> ?P"
      by (rule inj_on_image_Int [OF inj(1)]) auto
    moreover have "blocks_from s r n 0 (i * 512) \<inter> blocks_from s r n (i * 512) (i * 512 + 512) = {}" by auto
    ultimately show ?thesis unfolding freed_below_def Int_Un_distrib2 by simp
  qed
  have sub: "insert (p2_of s r i) (?F \<union> ?P) \<subseteq> space_tables s r n"
    using freed_below_sub [OF ok, of "i + 1"] i unfolding freed_below_Suc [OF i(1)] by auto
  have fin: "finite (space_tables s r n)"
    using finite_subset [OF space_tables_U [OF sp]] m by (simp add: mem_ok_def)
  have nin: "p2_of s r i \<notin> ?F \<union> ?P"
  proof -
    have "p2_of s r i \<notin> p2_of s r ` {0..<i}"
      using inj_on_image_mem_iff [OF inj(2), of i "{0..<i}"] i by auto
    moreover have "p2_of s r i \<notin> pt_of s r ` split_blocks s r n" using space_pt_apart [OF ok _ up [OF i]] by fastforce
    ultimately show ?thesis unfolding freed_below_def by blast
  qed
  have c: "card (?F \<union> ?P) < card (space_tables s r n)"
    by (rule psubset_card_mono [OF fin]) (use sub nin in blast)
  obtain t1 where t1: "for_range 0 512 (vmm_free_leaf p (p2_of s r i)) t = Some t1" "freeing p U K s (?F \<union> ?P) t1"
    using vmm_free_leaves [OF sp i f disj] room c by auto
  have "p2_of s r i \<in> K - (?F \<union> ?P)" using nin space_valid(3) [OF sp p2] by blast
  then obtain t2 where t2: "pmm_free_page t1 p (p2_of s r i) = Some t2"
      "freeing p U K s (freed_below s r n (i + 1)) t2"
    using freeing_step [OF t1(2)] room c unfolding freed_below_Suc [OF i(1)] by fastforce
  have "page_table_qword t (p3_of s r) i = Some (page_at s (p3_of s r) i)"
    using page_access(1) [OF space_valid(1) [OF sp p3]] freeing_page_at [OF f m space_valid(2) [OF sp p3]] i n by simp
  moreover have "page_at s (p3_of s r) i AND 1 \<noteq> 0" using ok i unfolding space_ok_def by simp
  ultimately show ?thesis using t1(1) t2 by (simp add: vmm_free_table_def p2_of_def)
qed

lemma freeing_limit:
  assumes "vmm_limit p U s vs n" "freeing p U K s F t" shows "vmm_state_qword t vs 3 = Some n"
proof -
  have "mem_step p U s t" using assms(2) unfolding freeing_def mem_step_def by (auto intro: writes_in_mono)
  then have "vmm_limit p U t vs n" by (rule vmm_limit_step [OF assms(1)])
  then show ?thesis by (simp add: vmm_limit_def vmm_block_access)
qed

lemma vmm_free_tables_ok:
  assumes sp: "space_in p U s K r n" and vs: "vmm_limit p U s vs n"
    and room: "length (recycled (pmm_view s p)) + card (space_tables s r n) \<le> 2048"
    and "freeing p U K s (freed_below s r n i) t" "0 \<le> i" "i \<le> n"
  shows "\<exists>t'. vmm_free_tables vs p (p3_of s r) i t = Some t' \<and> freeing p U K s (freed_below s r n n) t'"
  using assms(4-6)
proof (induction "nat (n - i)" arbitrary: i t)
  case 0
  then show ?case using freeing_limit [OF vs 0(2)] by (simp add: vmm_free_tables.simps [of vs p _ i])
next
  case (Suc k)
  then have lt: "i < n" by simp
  obtain t1 where t1: "vmm_free_table p (p3_of s r) i t = Some t1" "freeing p U K s (freed_below s r n (i + 1)) t1"
    using vmm_free_table_step [OF sp Suc.prems(2) lt Suc.prems(1) room] by blast
  have "\<exists>t'. vmm_free_tables vs p (p3_of s r) (i + 1) t1 = Some t' \<and> freeing p U K s (freed_below s r n n) t'"
    by (rule Suc.hyps(1) [OF _ t1(2)]) (use Suc lt in auto)
  then show ?case using t1 lt freeing_limit [OF vs Suc.prems(1)] by (simp add: vmm_free_tables.simps [of vs p _ i])
qed

lemma vmm_free_space_ok:
  assumes sp: "space_in p U s K r n" and vs: "vmm_limit p U s vs n"
    and room: "length (recycled (pmm_view s p)) + card (space_tables s r n) \<le> 2048"
  shows "\<exists>s'. vmm_free_cloned_address_space s vs p r = Some s' \<and> mem_ok p U s' (K - space_tables s r n)
    \<and> writes_in (pmm_area s p) s s' \<and> pmm_area s' p = pmm_area s p"
proof -
  have ok: "space_ok s r n K" and m: "mem_ok p U s K" using sp by (auto simp: space_in_def)
  have n: "0 \<le> n" and ne: "r \<noteq> p3_of s r" using ok by (auto simp: space_ok_def)
  let ?F = "freed_below s r n n"
  have f0: "freeing p U K s (freed_below s r n 0) s" using m by (simp add: freeing_def freed_below_0)
  obtain t where t: "vmm_free_tables vs p (p3_of s r) 0 s = Some t" "freeing p U K s ?F t"
    using vmm_free_tables_ok [OF sp vs room f0] n by auto
  have "blocks_from s r n 0 (n * 512) = split_blocks s r n" by (auto simp: split_blocks_def)
  then have T: "space_tables s r n = insert r (insert (p3_of s r) ?F)"
    by (auto simp: space_tables_def freed_below_def)
  have nF: "r \<notin> ?F" "p3_of s r \<notin> ?F" using freed_below_sub [OF ok, of n] by auto
  have fin: "finite ?F" using t(2) by (simp add: freeing_def)
  have c: "card (space_tables s r n) = card ?F + 2" using nF ne fin by (simp add: T)
  have K: "r \<in> K" "p3_of s r \<in> K" using space_valid(3) [OF sp] T by auto
  obtain t1 where t1: "pmm_free_page t p (p3_of s r) = Some t1" "freeing p U K s (insert (p3_of s r) ?F) t1"
    using freeing_step [OF t(2), of "p3_of s r"] K nF room c by auto
  obtain t2 where t2: "pmm_free_page t1 p r = Some t2" "freeing p U K s (space_tables s r n) t2"
    using freeing_step [OF t1(2), of r] K nF ne room c fin T by auto
  have "vmm_root_p3_ptr s r = Some (p3_of s r)"
    using page_access(1) [OF space_valid(1) [OF sp], of r 0] space_members(1) [OF ok] ok
    by (simp add: vmm_root_p3_ptr_def p3_of_def space_ok_def)
  then show ?thesis using t(1) t1(1) t2 by (auto simp: vmm_free_cloned_address_space_def freeing_def)
qed

end
