(* ===== verification/KernelSpace.thy ===== *)
theory KernelSpace
  imports TaskSpace
begin

text \<open>
  The kernel's own address space: the editing operations that go through the state block, its
  creation by \<open>init_vmm\<close> and its self-test.
\<close>

definition kspace :: "int \<Rightarrow> int set \<Rightarrow> machine \<Rightarrow> int set \<Rightarrow> int \<Rightarrow> int \<Rightarrow> int \<Rightarrow> bool" where
  "kspace p U s K vs r n \<longleftrightarrow> space_in p U s K r n \<and> vmm_block p U s vs r n"

text \<open>
  One page of the kernel space was edited: its entry is now \<open>e\<close>, every other page translates as
  before, and at most the table page \<open>t\<close> was taken.
\<close>

definition page_edit :: "int \<Rightarrow> int set \<Rightarrow> int set \<Rightarrow> int \<Rightarrow> int \<Rightarrow> int \<Rightarrow> int \<Rightarrow> int \<Rightarrow> machine \<Rightarrow> machine \<Rightarrow> int \<Rightarrow> bool" where
  "page_edit p U K vs r n v e s s' t \<longleftrightarrow> kspace p U s' (insert t K) vs r n \<and> mem_step p U s s'
     \<and> same_frames s s' r n {v} \<and> space_tables s' r n = insert t (space_tables s r n)
     \<and> frame_of s' r v = (if e AND 1 = 0 then None else Some (align_down e 4096))
     \<and> (e = 0 \<longrightarrow> unmapped s' r v) \<and> page_at s' (pt_of s' r (v div 512)) (v mod 512) = e
     \<and> \<not> large (pde s' r (v div 512)) \<and> (if large (pde s r (v div 512)) then t \<notin> K else t \<in> space_tables s r n)
     \<and> length (recycled (pmm_view s' p)) \<le> length (recycled (pmm_view s p))"

lemma page_editE:
  assumes "kspace p U s K vs r n" "0 \<le> virt" "virt < n * 0x40000000" "in64 e"
    "large (pde s r (virt div 4096 div 512)) \<Longrightarrow> K \<noteq> U"
  obtains t s1 s2 where "vmm_split_large_page s vs p virt = Some (t, s1)"
    "page_table_qword s1 t (pt_index virt) = Some (page_at s1 t (virt div 4096 mod 512))"
    "set_page_table_qword s1 t (pt_index virt) e = Some s2"
    "frame_of s r (virt div 4096) = (let x = page_at s1 t (virt div 4096 mod 512) in
         if x AND 1 = 0 then None else Some (align_down x 4096))"
    "unmapped s r (virt div 4096) \<longrightarrow> page_at s1 t (virt div 4096 mod 512) = 0"
    "page_edit p U K vs r n (virt div 4096) e s s2 t"
  using vmm_block_edit [OF assms(1) [unfolded kspace_def, THEN conjunct1]
      assms(1) [unfolded kspace_def, THEN conjunct2] assms(2-5)]
  unfolding kspace_def page_edit_def by blast

lemma vmm_unmap_page_ok:
  assumes k: "kspace p U s K vs r n" and virt: "0 \<le> virt" "virt < n * 0x40000000" "virt mod 4096 = 0"
    and room: "large (pde s r (virt div 4096 div 512)) \<Longrightarrow> K \<noteq> U" and mapped: "frame_of s r (virt div 4096) \<noteq> None"
  shows "\<exists>t s'. vmm_unmap_page s vs p virt = Some s' \<and> page_edit p U K vs r n (virt div 4096) 0 s s' t"
proof -
  obtain t s1 s2 where e: "vmm_split_large_page s vs p virt = Some (t, s1)"
    "page_table_qword s1 t (pt_index virt) = Some (page_at s1 t (virt div 4096 mod 512))"
    "set_page_table_qword s1 t (pt_index virt) 0 = Some s2"
    "frame_of s r (virt div 4096) = (let x = page_at s1 t (virt div 4096 mod 512) in
         if x AND 1 = 0 then None else Some (align_down x 4096))"
    "page_edit p U K vs r n (virt div 4096) 0 s s2 t"
    using page_editE [OF k virt(1,2) in64_small(1) room] by metis
  then have "page_at s1 t (virt div 4096 mod 512) \<noteq> 0" using mapped by (auto simp: Let_def)
  then have "vmm_unmap_page s vs p virt = Some s2"
    using e(1-3) virt(3) by (simp add: vmm_unmap_page_def and_4095)
  then show ?thesis using e(5) by blast
qed

lemma vmm_map_page_ok:
  assumes k: "kspace p U s K vs r n" and virt: "0 \<le> virt" "virt < n * 0x40000000" "virt mod 4096 = 0"
    and phys: "phys mod 4096 = 0" "in64 phys" and free: "unmapped s r (virt div 4096)"
  shows "\<exists>t s'. vmm_map_page s vs p virt phys flags = Some s'
    \<and> page_edit p U K vs r n (virt div 4096) (phys OR (flags AND 0xFFF) OR 0x001) s s' t
    \<and> frame_of s' r (virt div 4096) = Some phys"
proof -
  note e = leaf_entry [OF phys, of flags]
  have "\<not> large (pde s r (virt div 4096 div 512))" using free by (simp add: unmapped_def)
  then obtain t s1 s2 where m: "vmm_split_large_page s vs p virt = Some (t, s1)"
    "page_table_qword s1 t (pt_index virt) = Some (page_at s1 t (virt div 4096 mod 512))"
    "set_page_table_qword s1 t (pt_index virt) (phys OR (flags AND 0xFFF) OR 0x001) = Some s2"
    "unmapped s r (virt div 4096) \<longrightarrow> page_at s1 t (virt div 4096 mod 512) = 0"
    "page_edit p U K vs r n (virt div 4096) (phys OR (flags AND 0xFFF) OR 0x001) s s2 t"
    using page_editE [OF k virt(1,2) e(3)] by metis
  have "vmm_map_page s vs p virt phys flags = Some s2"
    using m(1-4) virt(3) phys(1) free by (simp add: vmm_map_page_def and_4095)
  moreover have "frame_of s2 r (virt div 4096) = Some phys" using m(5) e by (simp add: page_edit_def)
  ultimately show ?thesis using m(5) by blast
qed

lemma vmm_protect_page_ok:
  assumes k: "kspace p U s K vs r n" and virt: "0 \<le> virt" "virt < n * 0x40000000" "virt mod 4096 = 0"
    and room: "large (pde s r (virt div 4096 div 512)) \<Longrightarrow> K \<noteq> U"
    and mapped: "frame_of s r (virt div 4096) = Some phys" "phys mod 4096 = 0" "in64 phys"
  shows "\<exists>t s'. vmm_protect_page s vs p virt flags = Some s'
    \<and> page_edit p U K vs r n (virt div 4096) (phys OR (flags AND 0xFFF) OR 0x001) s s' t
    \<and> frame_of s' r (virt div 4096) = Some phys"
proof -
  note e = leaf_entry [OF mapped(2,3), of flags]
  obtain t s1 s2 where m: "vmm_split_large_page s vs p virt = Some (t, s1)"
    "page_table_qword s1 t (pt_index virt) = Some (page_at s1 t (virt div 4096 mod 512))"
    "set_page_table_qword s1 t (pt_index virt) (phys OR (flags AND 0xFFF) OR 0x001) = Some s2"
    "frame_of s r (virt div 4096) = (let x = page_at s1 t (virt div 4096 mod 512) in
         if x AND 1 = 0 then None else Some (align_down x 4096))"
    "page_edit p U K vs r n (virt div 4096) (phys OR (flags AND 0xFFF) OR 0x001) s s2 t"
    using page_editE [OF k virt(1,2) e(3) room] by metis
  have "page_at s1 t (virt div 4096 mod 512) \<noteq> 0"
      "align_down (page_at s1 t (virt div 4096 mod 512)) 4096 = phys"
    using m(4) mapped(1) by (auto simp: Let_def split: if_splits)
  then have "vmm_protect_page s vs p virt flags = Some s2"
    using m(1-3) virt(3) by (simp add: vmm_protect_page_def and_4095)
  moreover have "frame_of s2 r (virt div 4096) = Some phys" using m(5) e by (simp add: page_edit_def)
  ultimately show ?thesis using m(5) by blast
qed

lemma vmm_translate_kspace:
  assumes "kspace p U s K vs r n" "0 \<le> virt" "virt < n * 0x40000000"
  shows "vmm_translate s vs virt = Some (phys_of s r virt)"
  using vmm_translate_space assms unfolding kspace_def by blast

text \<open>The flags of a page that has an entry of its own are the low bits of that entry.\<close>

lemma vmm_page_flags_kspace:
  assumes k: "kspace p U s K vs r n" and virt: "0 \<le> virt" "virt < n * 0x40000000"
    and small: "\<not> large (pde s r (virt div 4096 div 512))"
  shows "vmm_page_flags s vs virt =
    (let e = page_at s (pt_of s r (virt div 4096 div 512)) (virt div 4096 mod 512) in
     Some (if e AND 1 = 0 then 0 else e AND 0xFFF))"
proof -
  have sp: "space_in p U s K r n" and vs: "vmm_block p U s vs r n" using k by (auto simp: kspace_def)
  have ok: "space_ok s r n K" and n: "n \<le> 512" using sp by (auto simp: space_in_def space_ok_def)
  note w = space_walk [OF sp virt] and b = vmm_block_walk [OF sp vs virt] and ix = index_eqs [OF virt n]
  have "virt div 4096 div 512 \<in> split_blocks s r n" using w(6) small by (simp add: split_blocks_def)
  then have "page_valid (pt_of s r (virt div 4096 div 512))"
    using space_valid(1) [OF sp] space_members(4) [OF ok] by blast
  from page_access(1) [OF this] show ?thesis
    using b w(2-5) small ix(4)
    by (simp add: vmm_page_flags_def large_def Let_def pt_of_def [symmetric])
qed


section \<open>Initialisation\<close>

text \<open>Everything above is a function of memory alone.\<close>

lemma mem_page_at: "mem s' = mem s \<Longrightarrow> page_at s' = page_at s"
  by (intro ext) (simp add: page_at_def load_qword_def)

lemma mem_space: "mem s' = mem s \<Longrightarrow> space_tables s' r n = space_tables s r n \<and> p3_of s' r = p3_of s r
    \<and> ident_space s' r n K = ident_space s r n K"
  using mem_page_at [of s' s]
  by (simp add: space_tables_def split_blocks_def pt_of_def [abs_def] p2_of_def [abs_def] p3_of_def pde_def [abs_def]
      ident_space_def space_ok_def)

lemma mem_mem_ok:
  assumes "mem s' = mem s" "mem_ok p U s K" shows "mem_ok p U s' K" "pmm_area s' p = pmm_area s p"
    "pmm_view s' p = pmm_view s p"
proof -
  have inv: "pmm_inv s p" using assms(2) by (simp add: mem_ok_def)
  have o: "outside_pmm p s s'" using assms(1) by (simp add: outside_pmm_def)
  show a: "pmm_area s' p = pmm_area s p" using assms(1) by (simp add: pmm_area_def load_qword_def)
  show "mem_ok p U s' K" "pmm_view s' p = pmm_view s p"
    using assms(2) pmm_inv_frame [OF inv o] a by (simp_all add: mem_ok_def)
qed

lemma ident_frame:
  assumes "ident_space s r n K" "writes_in A s s'" "\<And>q. q \<in> space_tables s r n \<Longrightarrow> {q..<q + 4096} \<inter> A = {}"
  shows "ident_space s' r n K" "space_tables s' r n = space_tables s r n" "p3_of s' r = p3_of s r"
proof -
  have ok: "space_ok s r n K" using assms(1) by (simp add: ident_space_def)
  have at: "page_at s' q i = page_at s q i" if "q \<in> upper_tables s r n" "0 \<le> i" "i < 512" for q i
    using page_at_frame [OF assms(2) assms(3)] that upper_sub [of s r n] by blast
  have sim: "entry_sim (page_at s' q i) (page_at s q i)" if "q \<in> upper_tables s r n" "0 \<le> i" "i < 512" for q i
    using at [OF that] by simp
  note u = space_upper [OF ok sim]
  show tb: "space_tables s' r n = space_tables s r n" and p3: "p3_of s' r = p3_of s r" by (simp_all add: u)
  have "pde s' r k = pde s r k" if k: "0 \<le> k" "k < 512 * n" for k
  proof -
    have b: "0 \<le> k div 512" "k div 512 < n" using block_index [OF k] by auto
    then have "p2_of s r (k div 512) \<in> upper_tables s r n" by (auto simp: upper_tables_def)
    then show ?thesis using at [of _ "k mod 512"] u(3) b by (simp add: pde_def)
  qed
  then show "ident_space s' r n K" using assms(1) u(1) by (simp add: ident_space_def)
qed

text \<open>
  What \<open>init_vmm\<close> needs: six free pages, heap space for the state block and a boot information
  block, both away from the managed pages and the allocator.
\<close>

definition vmm_boot_ok :: "int \<Rightarrow> int set \<Rightarrow> machine \<Rightarrow> int set \<Rightarrow> int \<Rightarrow> bool" where
  "vmm_boot_ok p U s K bp \<longleftrightarrow> mem_ok p U s K \<and> 6 \<le> card (U - K)
     \<and> 0 < heap_ptr s \<and> heap_ptr s mod 16 = 0 \<and> heap_ptr s + 64 \<le> heap_end s \<and> heap_end s < 2 ^ 62
     \<and> {heap_ptr s..<heap_ptr s + 64} \<inter> (pmm_area s p \<union> page_bytes U) = {}
     \<and> qword_ptr bp \<and> {bp..<bp + 184} \<inter> (pmm_area s p \<union> page_bytes U \<union> {heap_ptr s..<heap_ptr s + 64}) = {}
     \<and> load_qword s bp = 0x50434F424F4F5431"

lemma load_fields [simp]: "load_qword (s\<lparr>heap_ptr := h\<rparr>) a = load_qword s a"
  "load_qword (s\<lparr>cr3 := c\<rparr>) a = load_qword s a"
  by (simp_all add: load_qword_def)

text \<open>The eight stores into the state block.\<close>

definition block_puts :: "machine \<Rightarrow> int \<Rightarrow> int \<Rightarrow> int \<Rightarrow> int \<Rightarrow> int \<Rightarrow> int \<Rightarrow> machine" where
  "block_puts s vs a r p3 b c = put_qword (put_qword (put_qword (put_qword (put_qword (put_qword (put_qword (put_qword s
      vs a) (vs + 8) r) (vs + 16) p3) (vs + 24) 4) (vs + 32) 0x100000000) (vs + 40) b) (vs + 48) c) (vs + 56) 0"

lemma vmm_block_puts:
  fixes s :: machine and vs a b c :: int
  assumes "in64 p3" "in64 r"
  defines "t \<equiv> put_qword ((block_puts s vs a r p3 b c)\<lparr>cr3 := r\<rparr>) (vs + 56) 1"
  shows "writes_in {vs..<vs + 64} (s\<lparr>cr3 := r\<rparr>) t" "load_qword t (vs + 8) = r" "load_qword t (vs + 16) = p3"
    "load_qword t (vs + 24) = 4" "load_qword t (vs + 32) = 0x100000000" "load_qword t (vs + 56) = 1"
proof -
  have w: "writes_in {vs..<vs + 64} s (block_puts s vs a r p3 b c)"
    unfolding block_puts_def by (intro writes_in_trans [OF _ writes_in_put]) auto
  then have "writes_in {vs..<vs + 64} (s\<lparr>cr3 := r\<rparr>) ((block_puts s vs a r p3 b c)\<lparr>cr3 := r\<rparr>)"
    by (simp add: writes_in_def) (metis machine.surjective machine.update_convs(1,5))
  then show "writes_in {vs..<vs + 64} (s\<lparr>cr3 := r\<rparr>) t"
    unfolding t_def by (rule writes_in_trans) auto
  show "load_qword t (vs + 8) = r" "load_qword t (vs + 16) = p3"
    "load_qword t (vs + 24) = 4" "load_qword t (vs + 32) = 0x100000000" "load_qword t (vs + 56) = 1"
    using assms(1,2) unfolding t_def block_puts_def
    by (simp_all add: load_put_qword load_put_qword_other i64_id in64_def)
qed

lemma init_vmm_ok:
  assumes b: "vmm_boot_ok p U s K bp"
  shows "\<exists>r s'. init_vmm s p bp = Some (heap_ptr s, s') \<and> kspace p U s' (K \<union> space_tables s' r 4) (heap_ptr s) r 4
    \<and> ident_space s' r 4 (K \<union> space_tables s' r 4) \<and> K \<inter> space_tables s' r 4 = {} \<and> card (space_tables s' r 4) = 6
    \<and> cr3 s' = r \<and> load_qword s' (heap_ptr s + 56) = 1 \<and> load_qword s' bp = 0x50434F424F4F5431
    \<and> pmm_area s' p = pmm_area s p \<and> length (recycled (pmm_view s' p)) \<le> length (recycled (pmm_view s p))"
proof -
  define vs where "vs = heap_ptr s"
  note b = b [unfolded vmm_boot_ok_def, folded vs_def]
  obtain r p3 s1 s2 where ab: "pmm_alloc_page s p = Some (r, s1)" "pmm_alloc_page s1 p = Some (p3, s2)"
      "r \<noteq> 0" "p3 \<noteq> 0" "r \<in> U - K" "p3 \<in> U - K" "r \<noteq> p3" "mem_ok p U s2 (insert p3 (insert r K))"
      "writes_in (pmm_area s p) s s2" "pmm_area s2 p = pmm_area s p"
      "length (recycled (pmm_view s2 p)) \<le> length (recycled (pmm_view s p))"
    using mem_ok_alloc_two [of p U s K] b by auto
  have fields: "heap_ptr s2 = vs" "heap_end s2 = heap_end s" using writes_in_fields [OF ab(9)] by (simp_all add: vs_def)
  define s3 where "s3 = s2\<lparr>heap_ptr := vs + 64\<rparr>"
  have al: "alloc_bytes s2 64 = Some (vs, s3)"
    using alloc_bytes_eq [of s2 64] b by (simp add: fields round16_def s3_def)
  have "mem s3 = mem s2" by (simp add: s3_def)
  note m3 = mem_mem_ok [OF this ab(8)]
  obtain t where t: "(do { s \<leftarrow> zero_page s3 r; s \<leftarrow> zero_page s p3; s \<leftarrow> set_page_table_qword s r 0 (p3 OR 0x003);
      for_range 0 4 (vmm_identity_table p p3) s }) = Some t" "building p U K s3 r 4 t" "p3_of t r = p3"
    using build_identity [OF m3(1) ab(5-7), of 4] b by auto
  let ?T = "space_tables t r 4"
  have B: "mem_ok p U t (K \<union> ?T)" "ident_space t r 4 (K \<union> ?T)" "K \<inter> ?T = {}" "card ?T = 6"
      "writes_in (pmm_area s p \<union> page_bytes ?T) s3 t" "pmm_area t p = pmm_area s p"
      "length (recycled (pmm_view t p)) \<le> length (recycled (pmm_view s p))"
    using t(2) m3(2,3) ab(10,11) by (auto simp: building_def)
  have TU: "?T \<subseteq> U" using mem_ok_sub [OF B(1)] by blast
  have valid: "in64 p3" "in64 r" using ab(5,6) mem_ok_valid [OF ab(8), of r] mem_ok_valid [OF ab(8), of p3]
    by (auto simp: page_valid_def in64_def)
  define s4 where "s4 = block_puts t vs (cr3 s3) r p3 (load_qword t (bp + 104)) (load_qword t (bp + 112))"
  define s' where "s' = put_qword (s4\<lparr>cr3 := r\<rparr>) (vs + 56) 1"
  note puts = vmm_block_puts [OF valid, where s = t and vs = vs and a = "cr3 s3" and b = "load_qword t (bp + 104)"
      and c = "load_qword t (bp + 112)", folded s4_def, folded s'_def]
  have sep: "{vs..<vs + 64} \<inter> (pmm_area t p \<union> page_bytes U) = {}" using b B(6) by simp
  note ms = puts(1)
  define t' where "t' = t\<lparr>cr3 := r\<rparr>"
  have mt: "mem t' = mem t" by (simp add: t'_def)
  have t': "mem_ok p U t' (K \<union> ?T)" "pmm_area t' p = pmm_area t p" "ident_space t' r 4 (K \<union> ?T)"
      "space_tables t' r 4 = ?T" "p3_of t' r = p3" "pmm_view t' p = pmm_view t p"
    using mem_mem_ok [OF mt B(1)] mem_space [OF mt] B(2) t(3) by auto
  have S: "mem_ok p U s' (K \<union> ?T)" "pmm_area s' p = pmm_area s p"
      "length (recycled (pmm_view s' p)) \<le> length (recycled (pmm_view s p))"
  proof -
    have "{vs..<vs + 64} \<inter> pmm_area t' p = {}" using sep t'(2) by auto
    from mem_ok_write [OF t'(1) ms [folded t'_def] this]
    show "mem_ok p U s' (K \<union> ?T)" "pmm_area s' p = pmm_area s p"
      "length (recycled (pmm_view s' p)) \<le> length (recycled (pmm_view s p))" using B(6,7) t'(2,6) by simp_all
  qed
  have "{q..<q + 4096} \<inter> {vs..<vs + 64} = {}" if "q \<in> ?T" for q
    using that TU sep by (fastforce simp: page_bytes_def)
  then have I: "ident_space s' r 4 (K \<union> ?T)" "space_tables s' r 4 = ?T" "p3_of s' r = p3"
    using ident_frame [OF t'(3) ms [folded t'_def]] t'(4,5) by auto
  have qv: "qword_ptr vs" using b unfolding qword_ptr_def by (auto simp: vs_def)
  have far: "{bp..<bp + 184} \<inter> (pmm_area s p \<union> page_bytes U \<union> {vs..<vs + 64}) = {}" using b by blast
  have "{bp..<bp + 8} \<inter> (pmm_area s p \<union> page_bytes U \<union> {vs..<vs + 64}) = {}"
    by (rule interval_disjoint [OF far]) auto
  then have off: "{bp..<bp + 8} \<inter> {vs..<vs + 64} = {}" "{bp..<bp + 8} \<inter> (pmm_area s p \<union> page_bytes ?T) = {}"
    "{bp..<bp + 8} \<inter> pmm_area s p = {}"
    using page_bytes_mono [OF TU] by blast+
  have boot: "load_qword t bp = 0x50434F424F4F5431"
    using writes_in_load [OF B(5) off(2)] writes_in_load [OF ab(9) off(3)] b by (simp add: s3_def)
  have boot': "load_qword s' bp = 0x50434F424F4F5431"
    using writes_in_load [OF ms off(1)] boot by simp
  define u5 where "u5 = put_qword (put_qword (put_qword (put_qword (put_qword t vs (cr3 s3)) (vs + 8) r)
      (vs + 16) p3) (vs + 24) 4) (vs + 32) 0x100000000"
  define u6 where "u6 = put_qword u5 (vs + 40) (load_qword t (bp + 104))"
  have s4: "s4 = put_qword (put_qword u6 (vs + 48) (load_qword t (bp + 112))) (vs + 56) 0"
    by (simp add: s4_def block_puts_def u5_def u6_def)
  have u: "writes_in {vs..<vs + 64} t u5" "writes_in {vs..<vs + 64} t u6" "writes_in {vs..<vs + 64} t s4"
    unfolding s4 u6_def u5_def by (intro writes_in_trans [OF _ writes_in_put]; auto)+
  have info: "boot_info_qword x bp j = Some (load_qword t (bp + j * 8))"
    if "writes_in {vs..<vs + 64} t x" "0 \<le> j" "j < 23" for x j
  proof -
    have "{bp..<bp + 184} \<inter> {vs..<vs + 64} = {}" using far by blast
    then have "{bp + j * 8..<bp + j * 8 + 8} \<inter> {vs..<vs + 64} = {}"
      by (rule interval_disjoint) (use that(2,3) in auto)
    then show ?thesis using writes_in_load [OF that(1)] b that(2,3)
      by (simp add: boot_info_qword_def load_qword_region_eq)
  qed
  have magic: "boot_info_qword (s4\<lparr>cr3 := r\<rparr>) bp 0 = Some 0x50434F424F4F5431"
    using info [OF u(3), of 0] boot b by (simp add: boot_info_qword_def load_qword_region_eq)
  have "init_vmm s p bp = Some (vs, s')"
    using t(1) ab(1-4) al info [OF u(1), of 13] info [OF u(2), of 14] magic
    by (auto simp: init_vmm_def Option.bind_eq_Some_conv vmm_block_access [OF qv] u5_def [symmetric] u6_def [symmetric]
        s4 [symmetric] s'_def load_cr3_def read_cr3_def Let_def)
  moreover have "vmm_block p U s' vs r 4"
    using puts(2-5) sep S(2) B(6) qv I(3) by (simp add: vmm_block_def)
  moreover have "cr3 s' = r" by (simp add: s'_def)
  ultimately show ?thesis
    using S I B(3,4) puts(6) boot' unfolding vs_def [symmetric]
    by (intro exI [of _ r] exI [of _ s']) (auto simp: kspace_def space_in_def ident_space_def)
qed


section \<open>The self-test\<close>

text \<open>A change that does not touch the tables or the state block keeps the kernel space.\<close>

lemma kspace_keep:
  assumes k: "kspace p U s K vs r n" and m: "mem_ok p U s' K'" and sub: "space_tables s r n \<subseteq> K'"
    and w: "writes_in A s s'" "A \<subseteq> pmm_area s p" and area: "pmm_area s' p = pmm_area s p"
  shows "kspace p U s' K' vs r n" "same_frames s s' r n {}" "space_tables s' r n = space_tables s r n"
    "\<And>v. 0 \<le> v \<Longrightarrow> v < n * 262144 \<Longrightarrow> frame_of s' r v = frame_of s r v" "mem_step p U s s'"
    "\<And>b. 0 \<le> b \<Longrightarrow> b < 512 * n \<Longrightarrow> large (pde s' r b) = large (pde s r b)"
proof -
  have sp: "space_in p U s K r n" and vs: "vmm_block p U s vs r n" using k by (auto simp: kspace_def)
  have ok: "space_ok s r n K" and m0: "mem_ok p U s K" using sp by (auto simp: space_in_def)
  have at: "page_at s' q i = page_at s q i" if "q \<in> space_tables s r n" "0 \<le> i" "i < 512" for q i
  proof (rule page_at_frame [OF w(1) _ that(2,3)])
    show "{q..<q + 4096} \<inter> A = {}" using mem_ok_apart [OF m0 space_valid(2) [OF sp that(1)]] w(2) by blast
  qed
  have up: "entry_sim (page_at s' q i) (page_at s q i)" if "q \<in> upper_tables s r n" "0 \<le> i" "i < 512" for q i
    using at [of q i] that upper_sub [of s r n] by auto
  have low: "page_at s' (pt_of s r b) i = page_at s (pt_of s r b) i" if "b \<in> split_blocks s r n" "0 \<le> i" "i < 512" for b i
    by (rule at [OF space_members(4) [OF ok that(1)] that(2,3)])
  note u = space_upper [OF ok up]
  show st: "mem_step p U s s'" unfolding mem_step_def using writes_in_mono [OF w(1)] w(2) area by blast
  show tb: "space_tables s' r n = space_tables s r n" by (simp add: u)
  show fr: "frame_of s' r v = frame_of s r v" if "0 \<le> v" "v < n * 262144" for v
    by (rule space_same_frames [OF ok up low that])
  then show "same_frames s s' r n {}" by (simp add: same_frames_def)
  have "vmm_block p U s' vs r n" by (rule vmm_block_step [OF vs st]) (simp add: u)
  moreover have "space_ok s' r n K" by (simp add: u)
  then have "space_ok s' r n K'" using sub unfolding space_ok_def tb by argo
  ultimately show "kspace p U s' K' vs r n" using m by (simp add: kspace_def space_in_def)
  show "large (pde s' r b) = large (pde s r b)" if "0 \<le> b" "b < 512 * n" for b
    using u(4) that by (simp add: large_def entry_sim_def)
qed

lemma kspace_prints:
  assumes "kspace p U s K vs r n" "prints s s'"
  shows "kspace p U s' K vs r n" "frame_of s' = frame_of s" "pde s' = pde s" "space_tables s' r n = space_tables s r n"
    "unmapped s' = unmapped s" "recycled (pmm_view s' p) = recycled (pmm_view s p)" "pmm_area s' p = pmm_area s p"
proof -
  have m: "mem s' = mem s" using prints_mem [OF assms(2)] .
  have l: "load_qword s' = load_qword s" by (intro ext) (simp add: load_qword_def m)
  have at: "page_at s' = page_at s" by (rule mem_page_at [OF m])
  have e: "p3_of s' = p3_of s" "p2_of s' = p2_of s" by (intro ext, simp add: p3_of_def p2_of_def at)+
  show d: "pde s' = pde s" by (intro ext) (simp add: pde_def e at)
  have pt: "pt_of s' = pt_of s" by (intro ext) (simp add: pt_of_def d)
  have sb: "split_blocks s' = split_blocks s" by (intro ext) (simp add: split_blocks_def d)
  show "frame_of s' = frame_of s" by (intro ext) (simp add: frame_of_def Let_def d pt at)
  show "unmapped s' = unmapped s" by (intro ext) (simp add: unmapped_def d pt at)
  show tb: "space_tables s' r n = space_tables s r n" by (simp add: space_tables_def e pt sb)
  have v: "pmm_view s' p = pmm_view s p" by (simp add: pmm_view_def l)
  then show "recycled (pmm_view s' p) = recycled (pmm_view s p)" by simp
  show a: "pmm_area s' p = pmm_area s p" by (simp add: pmm_area_def l)
  have mo: "mem_ok p U s' K" using mem_mem_ok(1) [OF m] assms(1) by (simp add: kspace_def space_in_def)
  then show "kspace p U s' K vs r n"
    using assms(1) by (simp add: kspace_def space_in_def vmm_block_def space_ok_def l tb e d pt sb a at)
qed


lemma page_edit_absorb:
  assumes "page_edit p U K vs r n v e s s' t" "\<not> large (pde s r (v div 512))" "kspace p U s K vs r n"
  shows "page_edit p U K vs r n v e s s' t \<and> insert t K = K"
  using assms space_valid(3) [of p U s K r n t] unfolding page_edit_def kspace_def by auto

text \<open>Repeated edits of one page: a page table of its own is taken at most once.\<close>

lemma page_edit_again:
  assumes "page_edit p U K vs r n v e s s1 t" "page_edit p U (insert t K) vs r n v e' s1 s2 t'"
  shows "page_edit p U K vs r n v e' s s2 t"
proof -
  have ks: "kspace p U s1 (insert t K) vs r n" and nl: "\<not> large (pde s1 r (v div 512))"
    using assms(1) by (auto simp: page_edit_def)
  note a = page_edit_absorb [OF assms(2) nl ks]
  have tt: "t' \<in> space_tables s1 r n" using assms(2) nl by (simp add: page_edit_def)
  have "space_tables s2 r n = insert t (space_tables s r n)"
    using assms tt unfolding page_edit_def by auto
  moreover have "mem_step p U s s2" using assms mem_step_trans unfolding page_edit_def by blast
  moreover have "same_frames s s2 r n {v}"
    using assms same_frames_trans [of s s1 r n "{v}" s2 "{v}"] unfolding page_edit_def by simp
  ultimately show ?thesis using assms a unfolding page_edit_def by auto
qed

definition test_page :: int where
  "test_page = 0x18000000"

lemma phys_of_test: "phys_of s r test_page = (case frame_of s r (test_page div 4096) of None \<Rightarrow> 0 | Some f \<Rightarrow> f)"
  by (simp add: phys_of_def test_page_def split: option.split)

text \<open>The edits of the self-test on the page \<open>test_page\<close>, with the scratch page \<open>q\<close>.\<close>

lemma self_test_edits:
  assumes k: "kspace p U s K vs r n" and n: "1 \<le> n" and id: "frame_of s r (test_page div 4096) = Some test_page"
    and room: "K \<noteq> U" and q: "page_valid q"
  shows "\<exists>t s1 s2 s3 s4 s5 s6. vmm_unmap_page s vs p test_page = Some s1 \<and> vmm_translate s1 vs test_page = Some 0
    \<and> vmm_map_page s1 vs p test_page q 0x003 = Some s2 \<and> vmm_translate s2 vs test_page = Some q
    \<and> vmm_protect_page s2 vs p test_page 0x001 = Some s3
    \<and> (\<exists>f. vmm_page_flags s3 vs test_page = Some f \<and> f AND 0x002 = 0)
    \<and> vmm_protect_page s3 vs p test_page 0x003 = Some s4 \<and> vmm_unmap_page s4 vs p test_page = Some s5
    \<and> vmm_map_page s5 vs p test_page test_page 0x003 = Some s6 \<and> vmm_translate s6 vs test_page = Some test_page
    \<and> page_edit p U K vs r n (test_page div 4096) (test_page OR (0x003 AND 0xFFF) OR 0x001) s s6 t
    \<and> frame_of s6 r (test_page div 4096) = Some test_page"
proof -
  let ?v = "test_page div 4096"
  have virt: "0 \<le> test_page" "test_page < n * 0x40000000" "test_page mod 4096 = 0" "in64 test_page"
    using n by (simp_all add: test_page_def in64_def)
  have q4: "q mod 4096 = 0" "in64 q" using q by (auto simp: page_valid_def in64_def)
  have tr: "vmm_translate x vs test_page = Some (case frame_of x r ?v of None \<Rightarrow> 0 | Some f \<Rightarrow> f)"
    if "kspace p U x L vs r n" for x L using vmm_translate_kspace [OF that virt(1,2)] by (simp add: phys_of_test)
  obtain t s1 where 1: "vmm_unmap_page s vs p test_page = Some s1" "page_edit p U K vs r n ?v 0 s s1 t"
    using vmm_unmap_page_ok [OF k virt(1-3)] room id by auto
  have k1: "kspace p U s1 (insert t K) vs r n" "unmapped s1 r ?v" "frame_of s1 r ?v = None"
    using 1(2) by (auto simp: page_edit_def)
  obtain t2 s2 where 2: "vmm_map_page s1 vs p test_page q 0x003 = Some s2"
      "page_edit p U (insert t K) vs r n ?v (q OR (0x003 AND 0xFFF) OR 0x001) s1 s2 t2" "frame_of s2 r ?v = Some q"
    using vmm_map_page_ok [OF k1(1) virt(1-3) q4 k1(2)] by blast
  note e2 = page_edit_again [OF 1(2) 2(2)]
  have k2: "kspace p U s2 (insert t K) vs r n" "\<not> large (pde s2 r (?v div 512))" using e2 by (auto simp: page_edit_def)
  obtain t3 s3 where 3: "vmm_protect_page s2 vs p test_page 0x001 = Some s3"
      "page_edit p U (insert t K) vs r n ?v (q OR (0x001 AND 0xFFF) OR 0x001) s2 s3 t3" "frame_of s3 r ?v = Some q"
    using vmm_protect_page_ok [OF k2(1) virt(1-3) _ 2(3) q4] k2(2) by blast
  note e3 = page_edit_again [OF e2 3(2)]
  have k3: "kspace p U s3 (insert t K) vs r n" "\<not> large (pde s3 r (?v div 512))"
    "page_at s3 (pt_of s3 r (?v div 512)) (?v mod 512) = q OR (0x001 AND 0xFFF) OR 0x001"
    using e3 by (auto simp: page_edit_def)
  have fl: "vmm_page_flags s3 vs test_page = Some ((q OR (0x001 AND 0xFFF) OR 0x001) AND 0xFFF)"
    using vmm_page_flags_kspace [OF k3(1) virt(1,2) k3(2)] k3(3) leaf_entry(1) [OF q4, of 1] by (simp add: Let_def)
  have "(q OR (0x001 AND 0xFFF) OR 0x001) AND 0xFFF AND 0x002 = 0" using entry_low [OF q4(1), of 2 1] by simp
  then have fl2: "\<exists>f. vmm_page_flags s3 vs test_page = Some f \<and> f AND 0x002 = 0"
    using fl by (metis and.assoc)
  obtain t4 s4 where 4: "vmm_protect_page s3 vs p test_page 0x003 = Some s4"
      "page_edit p U (insert t K) vs r n ?v (q OR (0x003 AND 0xFFF) OR 0x001) s3 s4 t4" "frame_of s4 r ?v = Some q"
    using vmm_protect_page_ok [OF k3(1) virt(1-3) _ 3(3) q4] k3(2) by blast
  note e4 = page_edit_again [OF e3 4(2)]
  have k4: "kspace p U s4 (insert t K) vs r n" "\<not> large (pde s4 r (?v div 512))" using e4 by (auto simp: page_edit_def)
  obtain t5 s5 where 5: "vmm_unmap_page s4 vs p test_page = Some s5" "page_edit p U (insert t K) vs r n ?v 0 s4 s5 t5"
    using vmm_unmap_page_ok [OF k4(1) virt(1-3)] k4(2) 4(3) by auto
  note e5 = page_edit_again [OF e4 5(2)]
  have k5: "kspace p U s5 (insert t K) vs r n" "unmapped s5 r ?v" using e5 by (auto simp: page_edit_def)
  obtain t6 s6 where 6: "vmm_map_page s5 vs p test_page test_page 0x003 = Some s6"
      "page_edit p U (insert t K) vs r n ?v (test_page OR (0x003 AND 0xFFF) OR 0x001) s5 s6 t6"
      "frame_of s6 r ?v = Some test_page"
    using vmm_map_page_ok [OF k5(1) virt(1-3,3,4) k5(2)] by blast
  note e6 = page_edit_again [OF e5 6(2)]
  have k6: "kspace p U s6 (insert t K) vs r n" using e6 by (simp add: page_edit_def)
  show ?thesis
    using 1(1) 2(1,3) 3(1) 4(1) 5(1) 6(1,3) fl2 e6 tr [OF k1(1)] tr [OF k2(1)] tr [OF k6] k1(3) by auto
qed

lemma vmm_self_test_ok:
  assumes k: "kspace p U s K vs r n" and n: "1 \<le> n" and id: "frame_of s r (test_page div 4096) = Some test_page"
    and cr3: "cr3 s = r" and active: "load_qword s (vs + 56) = 1"
    and boot: "qword_ptr bp" "load_qword s bp = 0x50434F424F4F5431"
    and two: "2 \<le> card (U - K)" and room: "length (recycled (pmm_view s p)) < 2048"
  shows "\<exists>t s'. vmm_self_test s vs p bp = Some s' \<and> kspace p U s' (insert t K) vs r n \<and> same_frames s s' r n {}"
proof -
  let ?v = "test_page div 4096"
  have sp: "space_in p U s K r n" and m: "mem_ok p U s K" and vb: "vmm_block p U s vs r n"
    using k by (auto simp: kspace_def space_in_def)
  have TK: "space_tables s r n \<subseteq> K" using space_valid(3) [OF sp] by blast
  have "K \<noteq> U" using two by auto
  then obtain q s1 where a: "pmm_alloc_page s p = Some (q, s1)" "q \<noteq> 0" "q \<in> U - K" "mem_ok p U s1 (insert q K)"
      "writes_in (pmm_area s p) s s1" "pmm_area s1 p = pmm_area s p"
      "length (recycled (pmm_view s1 p)) \<le> length (recycled (pmm_view s p))" using mem_ok_alloc [OF m] by blast
  have vq: "page_valid q" using a(3) mem_ok_valid [OF m] by blast
  have vr: "0 \<le> ?v" "?v < n * 262144" using n by (simp_all add: test_page_def)
  note k1 = kspace_keep [OF k a(4) subset_insertI2 [OF TK] a(5) subset_refl a(6)]
  define s2 where "s2 = console_write_label_hex s1 ''vmm.test.virt='' test_page"
  have pr2: "prints s1 s2" unfolding s2_def by blast
  note k2 = kspace_prints [OF k1(1) pr2]
  define s3 where "s3 = console_write_label_hex (console_write_label_hex s2 ''vmm.test.original='' test_page)
      ''vmm.test.scratch='' q"
  have pr3: "prints s1 s3" unfolding s3_def using pr2 by blast
  note k3 = kspace_prints [OF k1(1) pr3]
  have id3: "frame_of s3 r ?v = Some test_page" "frame_of s2 r ?v = Some test_page"
    using id k1(4) [OF vr] k3(2) k2(2) by simp_all
  have virt: "0 \<le> test_page" "test_page < n * 0x40000000" using n by (simp_all add: test_page_def)
  have tr: "vmm_translate s vs test_page = Some test_page" "vmm_translate s2 vs test_page = Some test_page"
    using vmm_translate_kspace [OF k virt] vmm_translate_kspace [OF k2(1) virt] id id3(2) by (simp_all add: phys_of_test)
  have "insert q K \<noteq> U"
  proof
    assume "insert q K = U"
    then have "U - K \<subseteq> {q}" by auto
    then show False using card_mono [of "{q}" "U - K"] two by simp
  qed
  from self_test_edits [OF k3(1) n id3(1) this vq] obtain t u1 u2 u3 u4 u5 u6 f where
    u: "vmm_unmap_page s3 vs p test_page = Some u1" "vmm_translate u1 vs test_page = Some 0"
      "vmm_map_page u1 vs p test_page q 0x003 = Some u2" "vmm_translate u2 vs test_page = Some q"
      "vmm_protect_page u2 vs p test_page 0x001 = Some u3" "vmm_page_flags u3 vs test_page = Some f" "f AND 0x002 = 0"
      "vmm_protect_page u3 vs p test_page 0x003 = Some u4" "vmm_unmap_page u4 vs p test_page = Some u5"
      "vmm_map_page u5 vs p test_page test_page 0x003 = Some u6" "vmm_translate u6 vs test_page = Some test_page"
    and e: "page_edit p U (insert q K) vs r n ?v (test_page OR (0x003 AND 0xFFF) OR 0x001) s3 u6 t"
      "frame_of u6 r ?v = Some test_page" by blast
  have tq: "t \<noteq> q" "space_tables u6 r n = insert t (space_tables s r n)"
    using e(1) k3(4) k1(3) TK a(3) unfolding page_edit_def by (auto split: if_splits)
  have ku: "kspace p U u6 (insert t (insert q K)) vs r n" using e(1) by (simp add: page_edit_def)
  then have mu: "mem_ok p U u6 (insert t (insert q K))" by (simp add: kspace_def space_in_def)
  have "length (recycled (pmm_view u6 p)) < 2048" using e(1) k3(6) a(7) room by (simp add: page_edit_def)
  then obtain s4 where f4: "pmm_free_page u6 p q = Some s4" "mem_ok p U s4 (insert t (insert q K) - {q})"
      "writes_in (pmm_area u6 p) u6 s4" "pmm_area s4 p = pmm_area u6 p"
    using mem_ok_free [OF mu, of q] by auto
  have Keq: "insert t (insert q K) - {q} = insert t K" using tq(1) a(3) by auto
  have sub4: "space_tables u6 r n \<subseteq> insert t K" using tq(2) TK by auto
  note k4 = kspace_keep [OF ku f4(2) [unfolded Keq] sub4 f4(3) subset_refl f4(4)]
  define s5 where "s5 = console_write_line s4 ''vmm self-test ok''"
  have "prints s4 s5" unfolding s5_def by blast
  note k5 = kspace_prints [OF k4(1) this]
  have "same_frames s3 u6 r n {?v}" using e(1) by (simp add: page_edit_def)
  then have "same_frames s3 u6 r n {}" using e(2) id3(1) unfolding same_frames_def by auto
  then have "same_frames s s5 r n {}"
    using k1(2) k3(2) k4(2) k5(2) unfolding same_frames_def by simp
  moreover have "vmm_self_test s vs p bp = Some s5"
    using u tr a(1,2) f4(1) boot active cr3 vb
    by (simp add: vmm_self_test_def vmm_block_def vmm_block_access boot_info_qword_def load_qword_region_eq
        read_cr3_def test_page_def [symmetric] s2_def [symmetric] s3_def [symmetric] s5_def)
  ultimately show ?thesis using k5(1) by blast
qed

end
