(* ===== verification/VmmProps.thy ===== *)
theory VmmProps
  imports KernelSpace
begin

text \<open>
  The properties of virtual memory, stated on the translation routines of \<^verbatim>\<open>kmemory.py\<close>, with
  samples on the machine of the sample boot.
\<close>

section \<open>A sample memory\<close>

text \<open>No page handed out overlaps the kernel image.\<close>

lemma boot_page_gap:
  assumes "q \<in> boot_pages s bp"
  shows "q + 4096 \<le> align_down (load_qword s (bp + 104)) 4096 \<or> align_up (load_qword s (bp + 112)) 4096 \<le> q"
proof -
  define ks ke where "ks = align_down (load_qword s (bp + 104)) 4096" and "ke = align_up (load_qword s (bp + 112)) 4096"
  have "q mod 4096 = 0" "\<not> (ks \<le> q \<and> q < ke)"
    using assms by (auto simp: boot_pages_def Let_def usable_pages_def ks_def ke_def split: if_splits)
  moreover have "ks mod 4096 = 0" using align_down_bounds by (simp add: ks_def)
  ultimately have "q + 4096 \<le> ks \<or> ke \<le> q" using aligned_gap [of q 4096 ks] by auto
  then show ?thesis by (simp add: ks_def ke_def)
qed

lemma boot_mem_ok:
  assumes ok: "boot_ok s bp" and fits: "boot_regions s bp \<le> 64" and some: "boot_pages s bp \<noteq> {}"
    and heap: "align_down (load_qword s (bp + 104)) 4096 \<le> heap_ptr s"
      "heap_ptr s + 17472 \<le> align_up (load_qword s (bp + 112)) 4096"
  shows "\<exists>p s'. init_pmm s bp = Some (p, s') \<and> mem_ok p (boot_pages s bp) s' {} \<and> recycled (pmm_view s' p) = []
    \<and> pmm_area s' p \<subseteq> {heap_ptr s..<heap_ptr s + 17472}
    \<and> writes_in {heap_ptr s..<heap_ptr s + 17472} (s\<lparr>heap_ptr := heap_ptr s + 17472\<rparr>) s'"
proof -
  obtain p s' where i: "init_pmm s bp = Some (p, s')" "pmm_inv s' p" "recycled (pmm_view s' p) = []"
      "pmm_pages s' p = boot_pages s bp" "pmm_area s' p \<subseteq> {heap_ptr s..<heap_ptr s + 17472}"
      "writes_in {heap_ptr s..<heap_ptr s + 17472} (s\<lparr>heap_ptr := heap_ptr s + 17472\<rparr>) s'"
    using init_pmm_contract [OF ok fits some] by blast
  define ks ke where "ks = align_down (load_qword s (bp + 104)) 4096" and "ke = align_up (load_qword s (bp + 112)) 4096"
  have "q + 4096 \<le> ks \<or> ke \<le> q" if "q \<in> boot_pages s bp" for q using boot_page_gap [OF that] by (simp add: ks_def ke_def)
  then have "{q..<q + 4096} \<inter> {heap_ptr s..<heap_ptr s + 17472} = {}" if "q \<in> boot_pages s bp" for q
    using that heap by (fastforce simp: ks_def ke_def)
  then have "page_bytes (boot_pages s bp) \<inter> pmm_area s' p = {}"
    using i(5) unfolding page_bytes_def by blast
  moreover have "finite (boot_pages s bp)" using i(4) by (simp add: pmm_pages_def flip: i(4))
  ultimately have "mem_ok p (boot_pages s bp) s' {}"
    using i page.pages_valid [OF i(2)] by (simp add: mem_ok_def)
  then show ?thesis using i by blast
qed

lemma sample_memory:
  "\<exists>p s. init_pmm sample_boot 0x9000 = Some (p, s) \<and> mem_ok p sample_ram s {} \<and> recycled (pmm_view s p) = []
    \<and> vmm_limit p sample_ram s 0xA000 1 \<and> heap_ptr s = 0x114440 \<and> heap_end s = 0x180000
    \<and> load_qword s 0x9000 = 0x50434F424F4F5431 \<and> pmm_area s p \<subseteq> {0x110000..<0x114440}"
proof -
  have h: "align_down (load_qword sample_boot (0x9000 + 104)) 4096 \<le> heap_ptr sample_boot"
    "heap_ptr sample_boot + 17472 \<le> align_up (load_qword sample_boot (0x9000 + 112)) 4096"
    by (simp_all add: sample_loads mask_simps)
  obtain p s where i: "init_pmm sample_boot 0x9000 = Some (p, s)" "mem_ok p sample_ram s {}"
      "recycled (pmm_view s p) = []" "pmm_area s p \<subseteq> {0x110000..<0x114440}"
      "writes_in {0x110000..<0x114440} (sample_boot\<lparr>heap_ptr := 0x114440\<rparr>) s"
    using boot_mem_ok [OF sample_boot_ok sample_regions sample_some h] by (auto simp: sample_loads sample_pages)
  have ld: "load_qword s a = load_qword sample_boot a" if "a + 8 \<le> 0x110000" for a
    using writes_in_load [OF i(5), of a] that by auto
  have "{0xA000..<0xA000 + 64} \<inter> (pmm_area s p \<union> page_bytes sample_ram) = {}"
    using i(4) by (auto simp: page_bytes_def sample_ram_mem)
  then have "vmm_limit p sample_ram s 0xA000 1"
    by (simp add: vmm_limit_def qword_ptr_def ld sample_loads)
  moreover have "heap_ptr s = 0x114440" "heap_end s = 0x180000"
    using writes_in_fields [OF i(5)] by (simp_all add: sample_loads)
  moreover have "load_qword s 0x9000 = 0x50434F424F4F5431" by (simp add: ld sample_loads)
  ultimately show ?thesis using i by blast
qed

section \<open>Task address spaces\<close>

text \<open>
  C6: with enough free pages, creating a task's address space returns a root under which every
  address of the first \<open>n\<close> GiB translates to itself; its tables are pages the kernel did not hold
  before, and nothing but them and the page allocator's blocks is written.
\<close>

theorem task_space_is_identity:
  assumes "mem_ok p U s K" "vmm_limit p U s vs n" "0 \<le> n" "n \<le> 512" "int (card (U - K)) \<ge> n + 2"
  shows "\<exists>r s'. vmm_create_task_address_space s vs p = Some (r, s')
    \<and> (\<forall>virt. 0 \<le> virt \<and> virt < n * 0x40000000 \<longrightarrow> vmm_translate_root s' vs r virt = Some virt)
    \<and> space_in p U s' (K \<union> space_tables s' r n) r n \<and> K \<inter> space_tables s' r n = {}
    \<and> card (space_tables s' r n) = nat n + 2
    \<and> writes_in (pmm_area s p \<union> page_bytes (space_tables s' r n)) s s'"
proof -
  obtain r s' where r: "vmm_create_task_address_space s vs p = Some (r, s')" "building p U K s r n s'"
    using vmm_create_task_address_space_ok [OF assms] by blast
  then have B: "mem_ok p U s' (K \<union> space_tables s' r n)" "ident_space s' r n (K \<union> space_tables s' r n)"
      "writes_in (pmm_area s p \<union> page_bytes (space_tables s' r n)) s s'" "pmm_area s' p = pmm_area s p"
    by (auto simp: building_def)
  have sp: "space_in p U s' (K \<union> space_tables s' r n) r n" using B by (simp add: space_in_def ident_space_def)
  have "vmm_limit p U s' vs n"
    by (rule vmm_limit_step [OF assms(2) mem_step_pages [OF B(3,4) space_tables_U [OF sp]]])
  then have vs: "qword_ptr vs" "load_qword s' (vs + 32) = n * 0x40000000" by (auto simp: vmm_limit_def)
  have "vmm_translate_root s' vs r virt = Some virt" if v: "0 \<le> virt" "virt < n * 0x40000000" for virt
  proof -
    have "frame_of s' r (virt div 4096) = Some (virt div 4096 * 4096)"
      using ident_frames [OF B(2)] index_eqs(5,6) [OF v assms(4)] by blast
    then show ?thesis using vmm_translate_root_eq [OF sp vs v] by (simp add: phys_of_def)
  qed
  then show ?thesis using r sp B(3) by (auto simp: building_def)
qed

theorem task_space_is_identity_witness:
  "\<exists>p s r s'. init_pmm sample_boot 0x9000 = Some (p, s) \<and> vmm_create_task_address_space s 0xA000 p = Some (r, s')
    \<and> vmm_translate_root s' 0xA000 r 0x12345678 = Some 0x12345678"
proof -
  obtain p s where s: "init_pmm sample_boot 0x9000 = Some (p, s)" "mem_ok p sample_ram s {}" "vmm_limit p sample_ram s 0xA000 1"
    using sample_memory by blast
  have "int (card (sample_ram - {})) \<ge> 1 + 2" by (simp add: sample_ram_card)
  from task_space_is_identity [OF s(2,3) _ _ this] obtain r s' where
    "vmm_create_task_address_space s 0xA000 p = Some (r, s')"
    "\<forall>virt. 0 \<le> virt \<and> virt < 1 * 0x40000000 \<longrightarrow> vmm_translate_root s' 0xA000 r virt = Some virt" by auto
  then show ?thesis using s(1) by (intro exI [of _ p] exI [of _ s] exI [of _ r] exI [of _ s']) simp
qed


lemma sample_space:
  "\<exists>p s r. space_in p sample_ram s (space_tables s r 1) r 1 \<and> vmm_limit p sample_ram s 0xA000 1
    \<and> space_tables s r 1 \<noteq> sample_ram \<and> frame_of s r 0x12345 = Some 0x12345000
    \<and> length (recycled (pmm_view s p)) + card (space_tables s r 1) \<le> 2048"
proof -
  obtain p s0 where s: "mem_ok p sample_ram s0 {}" "vmm_limit p sample_ram s0 0xA000 1" "recycled (pmm_view s0 p) = []"
    using sample_memory by blast
  have c: "int (card (sample_ram - {})) \<ge> 1 + 2" by (simp add: sample_ram_card)
  obtain r s' where r: "building p sample_ram {} s0 r 1 s'"
    using vmm_create_task_address_space_ok [OF s(1,2) _ _ c] by auto
  then have B: "mem_ok p sample_ram s' (space_tables s' r 1)" "ident_space s' r 1 (space_tables s' r 1)"
      "writes_in (pmm_area s0 p \<union> page_bytes (space_tables s' r 1)) s0 s'" "pmm_area s' p = pmm_area s0 p"
      "card (space_tables s' r 1) = 3" by (auto simp: building_def)
  have sp: "space_in p sample_ram s' (space_tables s' r 1) r 1" using B by (simp add: space_in_def ident_space_def)
  have vs: "vmm_limit p sample_ram s' 0xA000 1"
    by (rule vmm_limit_step [OF s(2) mem_step_pages [OF B(3,4) space_tables_U [OF sp]]])
  have "frame_of s' r 0x12345 = Some 0x12345000" using ident_frames [OF B(2), of "0x12345"] by simp
  moreover have "space_tables s' r 1 \<noteq> sample_ram" using B(5) sample_ram_card by auto
  moreover have "length (recycled (pmm_view s' p)) \<le> card (pmm_pages s' p)"
  proof -
    have "distinct (free_list (pmm_view s' p))" using B(1) by (auto simp: mem_ok_def pmm_inv_def pmm_ok_def)
    then have "card (pmm_pages s' p) = length (free_list (pmm_view s' p))" by (simp add: pmm_pages_def distinct_card)
    then show ?thesis by (simp add: free_list_def)
  qed
  moreover have "card (pmm_pages s' p) \<le> 16"
    using card_mono [of sample_ram "pmm_pages s' p"] sample_ram_card mem_ok_pages [OF B(1)] by simp
  ultimately show ?thesis using sp vs B(5) by (intro exI [of _ p] exI [of _ s'] exI [of _ r]) simp
qed

text \<open>The translation of one address through the frames.\<close>

lemma translate_root_frames:
  assumes sp: "space_in p U s K r n" and vs: "vmm_limit p U s vs n" and a: "0 \<le> a" "a < n * 0x40000000"
  shows "vmm_translate_root s vs r a = Some (case frame_of s r (a div 4096) of None \<Rightarrow> 0 | Some f \<Rightarrow> f + a mod 4096)"
  using vmm_translate_root_eq [OF sp _ _ a] vs by (simp add: vmm_limit_def phys_of_def)

lemma translate_root_same:
  assumes sp: "space_in p U s K r n" and sp': "space_in p U s' K' r n" and vs: "vmm_limit p U s vs n"
    and st: "mem_step p U s s'" and f: "same_frames s s' r n V"
    and a: "0 \<le> a" "a < n * 0x40000000" "a div 4096 \<notin> V"
  shows "vmm_translate_root s' vs r a = vmm_translate_root s vs r a"
proof -
  have "n \<le> 512" using sp by (simp add: space_in_def space_ok_def)
  note ix = index_eqs(5,6) [OF a(1,2) this]
  have "frame_of s' r (a div 4096) = frame_of s r (a div 4096)" using f ix a(3) by (simp add: same_frames_def)
  then show ?thesis
    using translate_root_frames [OF sp vs a(1,2)] translate_root_frames [OF sp' vmm_limit_step [OF vs st] a(1,2)] by simp
qed

text \<open>
  C4: mapping an unmapped page in a task's space succeeds; afterwards the addresses of that page
  translate into the given frame, every other address of the space translates as before, and only
  managed pages and the page allocator's blocks are written.
\<close>

theorem map_page_root_maps:
  assumes "space_in p U s K r n" "vmm_limit p U s vs n" "0 \<le> virt" "virt < n * 0x40000000" "virt mod 4096 = 0"
    "phys mod 4096 = 0" "in64 phys" "unmapped s r (virt div 4096)"
  shows "\<exists>s'. vmm_map_page_root s vs r p virt phys flags = Some s' \<and> space_in p U s' K r n \<and> mem_step p U s s'
    \<and> (\<forall>a. 0 \<le> a \<and> a < n * 0x40000000 \<longrightarrow> vmm_translate_root s' vs r a =
        (if virt \<le> a \<and> a < virt + 4096 then Some (phys + (a - virt)) else vmm_translate_root s vs r a))"
proof -
  obtain s' where s': "vmm_map_page_root s vs r p virt phys flags = Some s'" "space_in p U s' K r n"
      "frame_of s' r (virt div 4096) = Some phys" "same_frames s s' r n {virt div 4096}" "mem_step p U s s'"
    using vmm_map_page_root_ok [OF assms] by blast
  have "vmm_translate_root s' vs r a =
      (if virt \<le> a \<and> a < virt + 4096 then Some (phys + (a - virt)) else vmm_translate_root s vs r a)"
    if a: "0 \<le> a" "a < n * 0x40000000" for a
  proof -
    have v: "virt = virt div 4096 * 4096" using assms(5) by auto
    have iff: "virt \<le> a \<and> a < virt + 4096 \<longleftrightarrow> a div 4096 = virt div 4096"
      using v div_mult_mod_eq [of a 4096] by (auto simp: order_less_le)
    show ?thesis
    proof (cases "a div 4096 = virt div 4096")
      case True
      then have "a - virt = a mod 4096" using v div_mult_mod_eq [of a 4096] by linarith
      then show ?thesis
        using translate_root_frames [OF s'(2) vmm_limit_step [OF assms(2) s'(5)] a] s'(3) True iff by simp
    next
      case False
      then show ?thesis
        using translate_root_same [OF assms(1) s'(2) assms(2) s'(5,4) a] iff by auto
    qed
  qed
  then show ?thesis using s' by blast
qed

text \<open>
  C5: unmapping a mapped page of a task's space succeeds (splitting its 2 MiB block first when it
  has to, for which one free page is needed); afterwards the page translates to nothing, every other
  address as before, and the page can be mapped again.
\<close>

theorem unmap_page_root_unmaps:
  assumes "space_in p U s K r n" "vmm_limit p U s vs n" "0 \<le> virt" "virt < n * 0x40000000" "virt mod 4096 = 0"
    "K \<noteq> U" "frame_of s r (virt div 4096) \<noteq> None"
  shows "\<exists>t s'. vmm_unmap_page_root s vs r p virt = Some s' \<and> space_in p U s' (insert t K) r n \<and> mem_step p U s s'
    \<and> unmapped s' r (virt div 4096)
    \<and> (\<forall>a. 0 \<le> a \<and> a < n * 0x40000000 \<longrightarrow> vmm_translate_root s' vs r a =
        (if a div 4096 = virt div 4096 then Some 0 else vmm_translate_root s vs r a))"
proof -
  obtain t s' where s': "vmm_unmap_page_root s vs r p virt = Some s'" "space_in p U s' (insert t K) r n"
      "unmapped s' r (virt div 4096)" "frame_of s' r (virt div 4096) = None"
      "same_frames s s' r n {virt div 4096}" "mem_step p U s s'"
    using vmm_unmap_page_root_ok [OF assms(1-5) _ assms(7)] assms(6) by blast
  have "vmm_translate_root s' vs r a =
      (if a div 4096 = virt div 4096 then Some 0 else vmm_translate_root s vs r a)"
    if a: "0 \<le> a" "a < n * 0x40000000" for a
    using translate_root_frames [OF s'(2) vmm_limit_step [OF assms(2) s'(6)] a] s'(4)
      translate_root_same [OF assms(1) s'(2) assms(2) s'(6,5) a] by simp
  then show ?thesis using s' by blast
qed

theorem unmap_page_root_unmaps_witness:
  "\<exists>p s r s'. vmm_translate_root s 0xA000 r 0x12345678 = Some 0x12345678
    \<and> vmm_unmap_page_root s 0xA000 r p 0x12345000 = Some s'
    \<and> vmm_translate_root s' 0xA000 r 0x12345678 = Some 0"
proof -
  obtain p s r where s: "space_in p sample_ram s (space_tables s r 1) r 1" "vmm_limit p sample_ram s 0xA000 1"
      "space_tables s r 1 \<noteq> sample_ram" "frame_of s r 0x12345 = Some 0x12345000"
    using sample_space by blast
  obtain s' where "vmm_unmap_page_root s 0xA000 r p 0x12345000 = Some s'"
      "\<forall>a. 0 \<le> a \<and> a < 1 * 0x40000000 \<longrightarrow> vmm_translate_root s' 0xA000 r a =
        (if a div 4096 = 0x12345000 div 4096 then Some 0 else vmm_translate_root s 0xA000 r a)"
    using unmap_page_root_unmaps [OF s(1,2), of "0x12345000"] s(3,4) by auto
  moreover have "vmm_translate_root s 0xA000 r 0x12345678 = Some 0x12345678"
    using translate_root_frames [OF s(1,2), of "0x12345678"] s(4) by simp
  ultimately show ?thesis by (intro exI [of _ p] exI [of _ s] exI [of _ r] exI [of _ s']) simp
qed

theorem map_page_root_maps_witness:
  "\<exists>p s r s' s''. vmm_unmap_page_root s 0xA000 r p 0x12345000 = Some s'
    \<and> vmm_map_page_root s' 0xA000 r p 0x12345000 0x7000 7 = Some s''
    \<and> vmm_translate_root s'' 0xA000 r 0x12345678 = Some 0x7678"
proof -
  obtain p s r where s: "space_in p sample_ram s (space_tables s r 1) r 1" "vmm_limit p sample_ram s 0xA000 1"
      "space_tables s r 1 \<noteq> sample_ram" "frame_of s r 0x12345 = Some 0x12345000"
    using sample_space by blast
  obtain t s' where u: "vmm_unmap_page_root s 0xA000 r p 0x12345000 = Some s'"
      "space_in p sample_ram s' (insert t (space_tables s r 1)) r 1" "unmapped s' r 0x12345" "mem_step p sample_ram s s'"
    using vmm_unmap_page_root_ok [OF s(1,2), of "0x12345000"] s(3,4) by auto
  obtain s'' where "vmm_map_page_root s' 0xA000 r p 0x12345000 0x7000 7 = Some s''"
      "\<forall>a. 0 \<le> a \<and> a < 1 * 0x40000000 \<longrightarrow> vmm_translate_root s'' 0xA000 r a =
        (if 0x12345000 \<le> a \<and> a < 0x12345000 + 4096 then Some (0x7000 + (a - 0x12345000))
         else vmm_translate_root s' 0xA000 r a)"
    using map_page_root_maps [OF u(2) vmm_limit_step [OF s(2) u(4)], of "0x12345000" "0x7000" 7] u(3)
    by (auto simp: in64_def)
  then show ?thesis using u(1)
    by (intro exI [of _ p] exI [of _ s] exI [of _ r] exI [of _ s'] exI [of _ s'']) simp
qed


text \<open>
  C11: mapping over a page that is already mapped, or with an unaligned address or frame,
  halts the kernel instead of replacing the mapping.
\<close>

theorem map_page_root_refuses_mapped:
  assumes "space_in p U s K r n" "vmm_limit p U s vs n" "0 \<le> virt" "virt < n * 0x40000000"
    "frame_of s r (virt div 4096) \<noteq> None \<or> virt mod 4096 \<noteq> 0 \<or> phys mod 4096 \<noteq> 0"
  shows "vmm_map_page_root s vs r p virt phys flags = None"
proof (cases "frame_of s r (virt div 4096) = None")
  case True
  then show ?thesis using assms(5) by (auto simp: vmm_map_page_root_def and_4095)
next
  case False
  then show ?thesis by (rule vmm_map_page_root_mapped [OF assms(1-4)])
qed

theorem map_page_root_refuses_mapped_witness:
  "\<exists>p s r. vmm_translate_root s 0xA000 r 0x12345000 = Some 0x12345000
    \<and> vmm_map_page_root s 0xA000 r p 0x12345000 0x7000 7 = None"
proof -
  obtain p s r where s: "space_in p sample_ram s (space_tables s r 1) r 1" "vmm_limit p sample_ram s 0xA000 1"
      "frame_of s r 0x12345 = Some 0x12345000"
    using sample_space by blast
  have "vmm_map_page_root s 0xA000 r p 0x12345000 0x7000 7 = None"
    using map_page_root_refuses_mapped [OF s(1,2), of "0x12345000" "0x7000" 7] s(3) by simp
  moreover have "vmm_translate_root s 0xA000 r 0x12345000 = Some 0x12345000"
    using translate_root_frames [OF s(1,2), of "0x12345000"] s(3) by simp
  ultimately show ?thesis by blast
qed

text \<open>
  C7: releasing a task's address space, whose blocks may have been split since its creation,
  gives every one of its table pages back to the allocator and changes nothing else, as long as the 2048 places of the
  recycle stack hold them all.
\<close>

theorem free_space_returns_all_tables:
  assumes "space_in p U s K r n" "vmm_limit p U s vs n"
    "length (recycled (pmm_view s p)) + card (space_tables s r n) \<le> 2048"
  shows "\<exists>s'. vmm_free_cloned_address_space s vs p r = Some s' \<and> mem_ok p U s' (K - space_tables s r n)
    \<and> pmm_pages s' p = pmm_pages s p \<union> space_tables s r n \<and> writes_in (pmm_area s p) s s'"
proof -
  obtain s' where s': "vmm_free_cloned_address_space s vs p r = Some s'" "mem_ok p U s' (K - space_tables s r n)"
      "writes_in (pmm_area s p) s s'" using vmm_free_space_ok [OF assms] by blast
  have "mem_ok p U s K" using assms(1) by (simp add: space_in_def)
  then have "pmm_pages s' p = pmm_pages s p \<union> space_tables s r n"
    using mem_ok_pages [OF s'(2)] mem_ok_pages [of p U s K] space_tables_U [OF assms(1)] by blast
  then show ?thesis using s' by blast
qed

theorem free_space_returns_all_tables_witness:
  "\<exists>p s r s'. card (space_tables s r 1) \<ge> 2 \<and> vmm_free_cloned_address_space s 0xA000 p r = Some s'
    \<and> space_tables s r 1 \<subseteq> pmm_pages s' p \<and> pmm_pages s' p = sample_ram"
proof -
  obtain p s r where s: "space_in p sample_ram s (space_tables s r 1) r 1" "vmm_limit p sample_ram s 0xA000 1"
      "length (recycled (pmm_view s p)) + card (space_tables s r 1) \<le> 2048"
    using sample_space by blast
  obtain s' where s': "vmm_free_cloned_address_space s 0xA000 p r = Some s'"
      "pmm_pages s' p = pmm_pages s p \<union> space_tables s r 1"
    using free_space_returns_all_tables [OF s] by blast
  have m: "mem_ok p sample_ram s (space_tables s r 1)" and "r \<noteq> p3_of s r" "{r, p3_of s r} \<subseteq> space_tables s r 1"
    using s(1) by (auto simp: space_in_def space_ok_def space_tables_def)
  then have "card {r, p3_of s r} \<le> card (space_tables s r 1)"
    using finite_subset [OF space_tables_U [OF s(1)]] sample_ram_card by (intro card_mono) auto
  then have "2 \<le> card (space_tables s r 1)" using \<open>r \<noteq> p3_of s r\<close> by simp
  moreover have "pmm_pages s' p = sample_ram"
    using s'(2) mem_ok_pages [OF m] space_tables_U [OF s(1)] by auto
  ultimately show ?thesis using s' space_tables_U [OF s(1)] by blast
qed

section \<open>The kernel's own space\<close>

text \<open>
  C12: translating through the kernel's state block and walking from the kernel's root, which the
  code writes as two separate walks, give the same answer for every address, inside the limit or not; and for every
  address from zero on that answer is what the tables mean: the address inside the frame of its page when the page is
  mapped below the limit, and zero when it is not mapped or lies beyond.
\<close>

theorem translate_agrees_with_root:
  assumes "kspace p U s K vs r n"
  shows "vmm_translate s vs virt = vmm_translate_root s vs r virt
    \<and> (0 \<le> virt \<longrightarrow> vmm_translate s vs virt = Some (if virt < n * 0x40000000 then
         (case frame_of s r (virt div 4096) of None \<Rightarrow> 0 | Some f \<Rightarrow> f + virt mod 4096) else 0))"
proof -
  have sp: "space_in p U s K r n" and vs: "vmm_block p U s vs r n" using assms by (auto simp: kspace_def)
  have vsp: "qword_ptr vs" "load_qword s (vs + 32) = n * 0x40000000" using vs by (auto simp: vmm_block_def)
  have sup: "vmm_supports_addr s vs virt = Some (vmm_root_supports_addr (n * 0x40000000) virt)"
    using vsp by (simp add: vmm_supports_addr_def vmm_root_supports_addr_def vmm_block_access)
  have "vmm_root_p3_ptr s r = Some (p3_of s r)"
    using page_access(1) [OF space_valid(1) [OF sp], of r 0] space_members(1) [of s r n K] sp
    by (auto simp: vmm_root_p3_ptr_def p3_of_def space_ok_def space_in_def)
  then have "vmm_p2_ptr s vs virt = vmm_root_p2_ptr s r virt"
    using vs by (simp add: vmm_p2_ptr_def vmm_root_p2_ptr_def vmm_p3_ptr_def vmm_block_def vmm_block_access)
  then have "vmm_translate s vs virt = vmm_translate_root s vs r virt" using sup vsp
    by (simp add: vmm_translate_def vmm_translate_root_def vmm_block_access)
  moreover have "vmm_translate s vs virt = Some 0" if "\<not> virt < n * 0x40000000"
    using sup that by (simp add: vmm_translate_def vmm_root_supports_addr_def)
  ultimately show ?thesis using vmm_translate_space [OF sp vs, of virt] by (auto simp: phys_of_def)
qed

lemma sample_kernel:
  "\<exists>p s r s'. init_pmm sample_boot 0x9000 = Some (p, s) \<and> vmm_boot_ok p sample_ram s {} 0x9000
    \<and> recycled (pmm_view s p) = [] \<and> init_vmm s p 0x9000 = Some (0x114440, s')
    \<and> kspace p sample_ram s' (space_tables s' r 4) 0x114440 r 4"
proof -
  obtain p s where s: "mem_ok p sample_ram s {}" "heap_ptr s = 0x114440" "heap_end s = 0x180000"
      "load_qword s 0x9000 = 0x50434F424F4F5431" "pmm_area s p \<subseteq> {0x110000..<0x114440}"
      "init_pmm sample_boot 0x9000 = Some (p, s)" "recycled (pmm_view s p) = []"
    using sample_memory by blast
  have "page_bytes sample_ram \<subseteq> {0x200000..<0x211000}" by (auto simp: page_bytes_def sample_ram_mem)
  then have far: "pmm_area s p \<union> page_bytes sample_ram \<subseteq> {0x110000..<0x114440} \<union> {0x200000..<0x211000}"
    using s(5) by blast
  then have "{0x114440..<0x114480} \<inter> (pmm_area s p \<union> page_bytes sample_ram) = {}"
    "{0x9000..<0x90B8} \<inter> (pmm_area s p \<union> page_bytes sample_ram \<union> {0x114440..<0x114480}) = {}"
    by fastforce+
  then have b: "vmm_boot_ok p sample_ram s {} 0x9000"
    using s(1-4) by (simp add: vmm_boot_ok_def sample_ram_card qword_ptr_def)
  then show ?thesis using init_vmm_ok [OF b] s(2,6,7) by auto
qed

theorem translate_agrees_with_root_witness:
  "\<exists>p s vs r s' n. init_vmm s p 0x9000 = Some (vs, s') \<and> kspace p sample_ram s' (space_tables s' r n) vs r n
    \<and> vmm_translate s' vs 0x7FFFFFFF = vmm_translate_root s' vs r 0x7FFFFFFF
    \<and> vmm_translate s' vs 0x100000000 = Some 0"
proof -
  obtain p s r s' where "init_vmm s p 0x9000 = Some (0x114440, s')"
      "kspace p sample_ram s' (space_tables s' r 4) 0x114440 r 4"
    using sample_kernel by blast
  moreover note tr = translate_agrees_with_root [OF this(2)]
  have "vmm_translate s' 0x114440 0x100000000 = Some 0" using tr [of "0x100000000", THEN conjunct2] by simp
  moreover note tr [of "0x7FFFFFFF", THEN conjunct1]
  ultimately show ?thesis by blast
qed

text \<open>
  After \<open>init_vmm\<close> the kernel runs on a root under which the first four GiB translate to themselves, and the self-test
  that follows, after any output, never halts, leaves every translation as it was and keeps one page more.
\<close>

lemma vmm_boot_run:
  assumes "vmm_boot_ok p U s K bp" "8 \<le> card (U - K)" "length (recycled (pmm_view s p)) < 2048"
  shows "\<exists>r s' T. init_vmm s p bp = Some (heap_ptr s, s') \<and> card T = 6 \<and> (\<forall>u. prints s' u \<longrightarrow>
    (\<exists>t s''. vmm_self_test u (heap_ptr s) p bp = Some s'' \<and> kspace p U s'' (insert t (K \<union> T)) (heap_ptr s) r 4
      \<and> (\<forall>virt. 0 \<le> virt \<and> virt < 0x100000000 \<longrightarrow>
          vmm_translate u (heap_ptr s) virt = Some virt \<and> vmm_translate s'' (heap_ptr s) virt = Some virt)))"
proof -
  obtain r s' where i: "init_vmm s p bp = Some (heap_ptr s, s')"
      "kspace p U s' (K \<union> space_tables s' r 4) (heap_ptr s) r 4" "ident_space s' r 4 (K \<union> space_tables s' r 4)"
      "K \<inter> space_tables s' r 4 = {}" "card (space_tables s' r 4) = 6" "cr3 s' = r" "load_qword s' (heap_ptr s + 56) = 1"
      "load_qword s' bp = 0x50434F424F4F5431" "length (recycled (pmm_view s' p)) \<le> length (recycled (pmm_view s p))"
    using init_vmm_ok [OF assms(1)] by blast
  have bp: "qword_ptr bp" "finite U" using assms(1) by (auto simp: vmm_boot_ok_def mem_ok_def)
  have tr: "vmm_translate x (heap_ptr s) virt = Some virt"
    if "kspace p U x L (heap_ptr s) r 4" "\<And>v. 0 \<le> v \<Longrightarrow> v < 4 * 262144 \<Longrightarrow> frame_of x r v = Some (v * 4096)"
      "0 \<le> virt" "virt < 0x100000000" for x L virt
    using vmm_translate_kspace [OF that(1), of virt] that(2) [of "virt div 4096"] that(3,4) by (simp add: phys_of_def)
  have two: "2 \<le> card (U - (K \<union> space_tables s' r 4))"
  proof -
    have "card (U - K) - card (space_tables s' r 4) \<le> card (U - K - space_tables s' r 4)"
      using bp(2) finite_subset [OF space_tables_U] i(2) by (intro diff_card_le_card_Diff) (auto simp: kspace_def)
    moreover have "U - K - space_tables s' r 4 = U - (K \<union> space_tables s' r 4)" by auto
    ultimately show ?thesis using assms(2) i(5) by simp
  qed
  have "\<exists>t s''. vmm_self_test u (heap_ptr s) p bp = Some s'' \<and> kspace p U s'' (insert t (K \<union> space_tables s' r 4)) (heap_ptr s) r 4
      \<and> (\<forall>virt. 0 \<le> virt \<and> virt < 0x100000000 \<longrightarrow>
          vmm_translate u (heap_ptr s) virt = Some virt \<and> vmm_translate s'' (heap_ptr s) virt = Some virt)" if pr: "prints s' u" for u
  proof -
    note k = kspace_prints [OF i(2) pr]
    have fr: "frame_of u r v = Some (v * 4096)" if "0 \<le> v" "v < 4 * 262144" for v
      unfolding k(2) using ident_frames [OF i(3) that] .
    have "frame_of u r (test_page div 4096) = Some test_page" using fr [of "test_page div 4096"] by (simp add: test_page_def)
    moreover have "cr3 u = r" using pr i(6) by (auto simp: prints_def)
    ultimately obtain t s'' where st: "vmm_self_test u (heap_ptr s) p bp = Some s''"
        "kspace p U s'' (insert t (K \<union> space_tables s' r 4)) (heap_ptr s) r 4" "same_frames u s'' r 4 {}"
      using vmm_self_test_ok [OF k(1) _ _ _ _ bp(1) _ two] i(7-9) k(6) prints_load [OF pr] assms(3) by auto
    have "frame_of s'' r v = Some (v * 4096)" if "0 \<le> v" "v < 4 * 262144" for v
      using st(3) fr [OF that] that by (simp add: same_frames_def)
    then show ?thesis using st(1,2) tr [OF k(1) fr] tr [OF st(2)] by blast
  qed
  then show ?thesis using i(1,5) by blast
qed

end
