(* ===== verification/Vfs.thy ===== *)
theory Vfs
  imports Boot
begin

text \<open>
  The file system, \<^verbatim>\<open>kvfs.py\<close>: a table of nodes filled from the initramfs image, temporary files
  below \<^verbatim>\<open>/tmp\<close>, and a table of open descriptors.  All of it lives in kernel memory.
\<close>

section \<open>Constants\<close>

definition initramfs_magic :: int where "initramfs_magic = 0x31534652494F4350"
definition initramfs_version :: int where "initramfs_version = 1"
definition vfs_slot_initramfs_ptr :: int where "vfs_slot_initramfs_ptr = 0"
definition vfs_slot_initramfs_size :: int where "vfs_slot_initramfs_size = 1"
definition vfs_slot_node_table_ptr :: int where "vfs_slot_node_table_ptr = 2"
definition vfs_slot_node_count :: int where "vfs_slot_node_count = 3"
definition vfs_slot_desc_table_ptr :: int where "vfs_slot_desc_table_ptr = 4"
definition vfs_slot_desc_capacity :: int where "vfs_slot_desc_capacity = 5"
definition vfs_slot_limit :: int where "vfs_slot_limit = 6"
definition node_slot_name_ptr :: int where "node_slot_name_ptr = 0"
definition node_slot_name_len :: int where "node_slot_name_len = 1"
definition node_slot_data_ptr :: int where "node_slot_data_ptr = 2"
definition node_slot_data_len :: int where "node_slot_data_len = 3"
definition node_slot_kind :: int where "node_slot_kind = 4"
definition node_slot_flags :: int where "node_slot_flags = 5"
definition node_slot_data_capacity :: int where "node_slot_data_capacity = 6"
definition node_slot_limit :: int where "node_slot_limit = 7"
definition desc_slot_kind :: int where "desc_slot_kind = 0"
definition desc_slot_flags :: int where "desc_slot_flags = 1"
definition desc_slot_node_id :: int where "desc_slot_node_id = 2"
definition desc_slot_offset :: int where "desc_slot_offset = 3"
definition desc_slot_path_ptr :: int where "desc_slot_path_ptr = 4"
definition desc_slot_path_len :: int where "desc_slot_path_len = 5"
definition desc_slot_limit :: int where "desc_slot_limit = 6"
definition desc_kind_closed :: int where "desc_kind_closed = 0"
definition desc_kind_console_in :: int where "desc_kind_console_in = 1"
definition desc_kind_console_out :: int where "desc_kind_console_out = 2"
definition desc_kind_initramfs_file :: int where "desc_kind_initramfs_file = 3"
definition desc_kind_directory :: int where "desc_kind_directory = 4"
definition vfs_node_kind_file :: int where "vfs_node_kind_file = 1"
definition vfs_node_kind_directory :: int where "vfs_node_kind_directory = 2"
definition node_flag_writable :: int where "node_flag_writable = 1"
definition max_vfs_nodes :: int where "max_vfs_nodes = 32"
definition max_vfs_descriptors :: int where "max_vfs_descriptors = 32"

lemmas vfs_const = initramfs_magic_def initramfs_version_def vfs_slot_initramfs_ptr_def
  vfs_slot_initramfs_size_def vfs_slot_node_table_ptr_def vfs_slot_node_count_def
  vfs_slot_desc_table_ptr_def vfs_slot_desc_capacity_def vfs_slot_limit_def node_slot_name_ptr_def
  node_slot_name_len_def node_slot_data_ptr_def node_slot_data_len_def node_slot_kind_def
  node_slot_flags_def node_slot_data_capacity_def node_slot_limit_def desc_slot_kind_def
  desc_slot_flags_def desc_slot_node_id_def desc_slot_offset_def desc_slot_path_ptr_def
  desc_slot_path_len_def desc_slot_limit_def desc_kind_closed_def desc_kind_console_in_def
  desc_kind_console_out_def desc_kind_initramfs_file_def desc_kind_directory_def
  vfs_node_kind_file_def vfs_node_kind_directory_def node_flag_writable_def max_vfs_nodes_def
  max_vfs_descriptors_def

section \<open>Accessors\<close>

definition vfs_state_qword :: "machine \<Rightarrow> int \<Rightarrow> int \<Rightarrow> int option" where
  "vfs_state_qword s state_ptr slot = load_qword_region s state_ptr vfs_slot_limit slot"

definition set_vfs_state_qword :: "machine \<Rightarrow> int \<Rightarrow> int \<Rightarrow> int \<Rightarrow> machine option" where
  "set_vfs_state_qword s state_ptr slot v = store_qword_region s state_ptr vfs_slot_limit slot v"

definition vfs_node_entry_ptr :: "machine \<Rightarrow> int \<Rightarrow> int \<Rightarrow> int option" where
  "vfs_node_entry_ptr s state_ptr node_id =
     (if node_id < 0 \<or> node_id \<ge> max_vfs_nodes then panic ''vfs node id out of range''
      else do {
        table \<leftarrow> vfs_state_qword s state_ptr vfs_slot_node_table_ptr;
        Some (table + node_id * node_slot_limit * 8) })"

definition vfs_node_qword :: "machine \<Rightarrow> int \<Rightarrow> int \<Rightarrow> int \<Rightarrow> int option" where
  "vfs_node_qword s state_ptr node_id slot = do {
     entry \<leftarrow> vfs_node_entry_ptr s state_ptr node_id;
     load_qword_region s entry node_slot_limit slot }"

definition set_vfs_node_qword :: "machine \<Rightarrow> int \<Rightarrow> int \<Rightarrow> int \<Rightarrow> int \<Rightarrow> machine option" where
  "set_vfs_node_qword s state_ptr node_id slot v = do {
     entry \<leftarrow> vfs_node_entry_ptr s state_ptr node_id;
     store_qword_region s entry node_slot_limit slot v }"

definition vfs_desc_entry_ptr :: "machine \<Rightarrow> int \<Rightarrow> int \<Rightarrow> int option" where
  "vfs_desc_entry_ptr s state_ptr desc_id = do {
     capacity \<leftarrow> vfs_state_qword s state_ptr vfs_slot_desc_capacity;
     if desc_id \<le> 0 \<or> desc_id > capacity then panic ''vfs desc id out of range''
     else do {
       table \<leftarrow> vfs_state_qword s state_ptr vfs_slot_desc_table_ptr;
       Some (table + (desc_id - 1) * desc_slot_limit * 8) } }"

definition vfs_desc_qword :: "machine \<Rightarrow> int \<Rightarrow> int \<Rightarrow> int \<Rightarrow> int option" where
  "vfs_desc_qword s state_ptr desc_id slot = do {
     entry \<leftarrow> vfs_desc_entry_ptr s state_ptr desc_id;
     load_qword_region s entry desc_slot_limit slot }"

definition set_vfs_desc_qword :: "machine \<Rightarrow> int \<Rightarrow> int \<Rightarrow> int \<Rightarrow> int \<Rightarrow> machine option" where
  "set_vfs_desc_qword s state_ptr desc_id slot v = do {
     entry \<leftarrow> vfs_desc_entry_ptr s state_ptr desc_id;
     store_qword_region s entry desc_slot_limit slot v }"

definition vfs_raw_qword :: "machine \<Rightarrow> int \<Rightarrow> int option" where
  "vfs_raw_qword s ptr = load_qword_region s ptr 1 0"

definition vfs_clear_descriptor :: "machine \<Rightarrow> int \<Rightarrow> int \<Rightarrow> machine option" where
  "vfs_clear_descriptor s state_ptr desc_id =
     for_range 0 desc_slot_limit (\<lambda>slot s. set_vfs_desc_qword s state_ptr desc_id slot 0) s"

definition vfs_clear_descriptors :: "machine \<Rightarrow> int \<Rightarrow> machine option" where
  "vfs_clear_descriptors s state_ptr = do {
     capacity \<leftarrow> vfs_state_qword s state_ptr vfs_slot_desc_capacity;
     for_range 1 (capacity + 1) (\<lambda>desc_id s. vfs_clear_descriptor s state_ptr desc_id) s }"

section \<open>Paths\<close>

text \<open>A C string literal is a \<^typ>\<open>string\<close>; its length stops at the terminating zero.\<close>

fun vfs_cstring_len :: "string \<Rightarrow> int" where
  "vfs_cstring_len [] = 0"
| "vfs_cstring_len (c # cs) = (if c = CHR 0x00 then 0 else 1 + vfs_cstring_len cs)"

text \<open>A loop that returns early keeps the value it returns; the remaining iterations do nothing.\<close>

definition vfs_path_equals :: "machine \<Rightarrow> int \<Rightarrow> int \<Rightarrow> int \<Rightarrow> int \<Rightarrow> bool option" where
  "vfs_path_equals s name_ptr name_len path_ptr path_len =
     (if name_len \<noteq> path_len then Some False
      else for_range 0 name_len (\<lambda>i eq. if \<not> eq then Some False else do {
        a \<leftarrow> load_byte_region s name_ptr name_len i;
        b \<leftarrow> load_byte_region s path_ptr path_len i;
        Some (a = b) }) True)"

definition vfs_path_equals_cstring :: "machine \<Rightarrow> int \<Rightarrow> int \<Rightarrow> string \<Rightarrow> bool option" where
  "vfs_path_equals_cstring s name_ptr name_len path =
     (if name_len \<noteq> vfs_cstring_len path then Some False
      else for_range 0 name_len (\<lambda>i eq. if \<not> eq then Some False else do {
        a \<leftarrow> load_byte_region s name_ptr name_len i;
        Some (a = of_char (path ! nat i)) }) True)"

definition vfs_path_has_prefix :: "machine \<Rightarrow> int \<Rightarrow> int \<Rightarrow> int \<Rightarrow> int \<Rightarrow> bool option" where
  "vfs_path_has_prefix s name_ptr name_len prefix_ptr prefix_len =
     (if prefix_len > name_len then Some False
      else for_range 0 prefix_len (\<lambda>i eq. if \<not> eq then Some False else do {
        a \<leftarrow> load_byte_region s name_ptr name_len i;
        b \<leftarrow> load_byte_region s prefix_ptr prefix_len i;
        Some (a = b) }) True)"

text \<open>
  Normalisation.  \<open>vfs_scan\<close> is the inner loop that passes slashes (or, with \<open>False\<close>, everything
  else), \<open>vfs_drop_component\<close> the one that goes back over the last component of the output.
\<close>

function vfs_scan :: "machine \<Rightarrow> int \<Rightarrow> int \<Rightarrow> bool \<Rightarrow> int \<Rightarrow> int option" where
  "vfs_scan s path_ptr path_len slash src_index =
     (if src_index < path_len then do {
        b \<leftarrow> load_byte_region s path_ptr path_len src_index;
        if (b = 47) = slash then vfs_scan s path_ptr path_len slash (src_index + 1) else Some src_index }
      else Some src_index)"
  by pat_completeness auto
termination
  by (relation "measure (\<lambda>(s, p, l, slash, i). nat (l - i))") auto

declare vfs_scan.simps [simp del]

function vfs_drop_component :: "machine \<Rightarrow> int \<Rightarrow> int \<Rightarrow> int" where
  "vfs_drop_component s out_ptr out_len =
     (if out_len > 1 \<and> load_byte s (out_ptr + out_len - 1) \<noteq> 47
      then vfs_drop_component s out_ptr (out_len - 1) else out_len)"
  by pat_completeness auto
termination
  by (relation "measure (\<lambda>(s, p, l). nat l)") auto

declare vfs_drop_component.simps [simp del]

definition copy_bytes :: "machine \<Rightarrow> int \<Rightarrow> int \<Rightarrow> int \<Rightarrow> machine" where
  "copy_bytes s dst src len = fold (\<lambda>i s. store_byte s (dst + i) (load_byte s (src + i))) [0..len - 1] s"

definition vfs_add_component :: "machine \<Rightarrow> int \<Rightarrow> int \<Rightarrow> int \<Rightarrow> int \<Rightarrow> int \<Rightarrow> int \<times> machine" where
  "vfs_add_component s path_ptr out_ptr out_len component_start component_len =
     (let (out_len, s) = (if out_len > 1 then (out_len + 1, store_byte s (out_ptr + out_len) 47) else (out_len, s))
      in (out_len + component_len,
          copy_bytes s (out_ptr + out_len) (path_ptr + component_start) component_len))"

lemma vfs_scan_mono: "vfs_scan s p l slash i = Some j \<Longrightarrow> i \<le> j \<and> (i \<le> l \<longrightarrow> j \<le> l)
  \<and> (j < l \<longrightarrow> (\<exists>b. load_byte_region s p l j = Some b \<and> (b = 47) \<noteq> slash))"
proof (induction s p l slash i rule: vfs_scan.induct)
  case (1 s p l slash i)
  show ?case
  proof (cases "i < l")
    case True
    then show ?thesis using "1.prems" "1.IH" [OF True]
      by (fastforce simp: vfs_scan.simps [of s p l slash i] Option.bind_eq_Some_conv split: if_splits)
  next
    case False
    then show ?thesis using "1.prems" by (simp add: vfs_scan.simps [of s p l slash i])
  qed
qed

lemma vfs_scan_component:
  assumes "vfs_scan s p l True i = Some j" "vfs_scan s p l False j = Some k" "j < l"
  shows "i < k"
proof -
  obtain b where "load_byte_region s p l j = Some b" "b \<noteq> 47"
    using vfs_scan_mono [OF assms(1)] assms(3) by auto
  then have "vfs_scan s p l False (j + 1) = Some k"
    using assms(2,3) by (simp add: vfs_scan.simps [of s p l False j])
  then show ?thesis using vfs_scan_mono [OF assms(1)] vfs_scan_mono [of s p l False "j + 1" k] by simp
qed

function vfs_normalize_loop :: "machine \<Rightarrow> int \<Rightarrow> int \<Rightarrow> int \<Rightarrow> int \<Rightarrow> int \<Rightarrow> (int \<times> machine) option" where
  "vfs_normalize_loop s path_ptr path_len out_ptr src_index out_len =
     (if src_index < path_len then do {
        component_start \<leftarrow> vfs_scan s path_ptr path_len True src_index;
        if component_start \<ge> path_len then Some (out_len, s)
        else do {
          src_index \<leftarrow> vfs_scan s path_ptr path_len False component_start;
          let component_len = src_index - component_start;
          b0 \<leftarrow> load_byte_region s path_ptr path_len component_start;
          b1 \<leftarrow> (if component_len = 2 then load_byte_region s path_ptr path_len (component_start + 1) else Some 0);
          if component_len = 1 \<and> b0 = 46
          then vfs_normalize_loop s path_ptr path_len out_ptr src_index out_len
          else if component_len = 2 \<and> b0 = 46 \<and> b1 = 46
          then vfs_normalize_loop s path_ptr path_len out_ptr src_index
            (if out_len > 1 then vfs_drop_component s out_ptr (out_len - 1) else out_len)
          else (let (out_len, s) = vfs_add_component s path_ptr out_ptr out_len component_start component_len
                in vfs_normalize_loop s path_ptr path_len out_ptr src_index out_len) } }
      else Some (out_len, s))"
  by pat_completeness auto
termination
proof (relation "measure (\<lambda>(s, p, l, q, i, n). nat (l - i))", goal_cases)
  case 1
  show ?case by simp
next
  case (2 s p l q i n j k)
  then show ?case using vfs_scan_component [of s p l i j k] by simp
next
  case (3 s p l q i n j k)
  then show ?case using vfs_scan_component [of s p l i j k] by simp
next
  case (4 s p l q i n j k)
  then show ?case using vfs_scan_component [of s p l i j k] by simp
qed

declare vfs_normalize_loop.simps [simp del]

definition vfs_normalize_path :: "machine \<Rightarrow> int \<Rightarrow> int \<Rightarrow> ((int \<times> int) \<times> machine) option" where
  "vfs_normalize_path s path_ptr path_len =
     (if path_ptr = 0 \<or> path_len \<le> 0 then Some ((0, 0), s)
      else do {
        b \<leftarrow> load_byte_region s path_ptr path_len 0;
        if b \<noteq> 47 then Some ((0, 0), s)
        else do {
          (out_ptr, s) \<leftarrow> alloc_bytes s (i64 (path_len + 2));
          let s = store_byte s out_ptr 47;
          (out_len, s) \<leftarrow> vfs_normalize_loop s path_ptr path_len out_ptr 1 1;
          let (out_len, s) = (if out_len = 0 then (1, store_byte s out_ptr 47) else (out_len, s));
          Some ((out_ptr, out_len), store_byte s (out_ptr + out_len) 0) } })"

section \<open>Nodes\<close>

definition vfs_set_node_name_data :: "machine \<Rightarrow> int \<Rightarrow> int \<Rightarrow> int \<Rightarrow> int \<Rightarrow> int \<Rightarrow> int \<Rightarrow> machine option" where
  "vfs_set_node_name_data s state_ptr node_id name_ptr name_len data_ptr data_len = do {
     s \<leftarrow> set_vfs_node_qword s state_ptr node_id node_slot_name_ptr name_ptr;
     s \<leftarrow> set_vfs_node_qword s state_ptr node_id node_slot_name_len name_len;
     s \<leftarrow> set_vfs_node_qword s state_ptr node_id node_slot_data_ptr data_ptr;
     set_vfs_node_qword s state_ptr node_id node_slot_data_len data_len }"

definition vfs_set_node_meta :: "machine \<Rightarrow> int \<Rightarrow> int \<Rightarrow> int \<Rightarrow> int \<Rightarrow> int \<Rightarrow> machine option" where
  "vfs_set_node_meta s state_ptr node_id kind flags data_capacity = do {
     s \<leftarrow> set_vfs_node_qword s state_ptr node_id node_slot_kind kind;
     s \<leftarrow> set_vfs_node_qword s state_ptr node_id node_slot_flags flags;
     set_vfs_node_qword s state_ptr node_id node_slot_data_capacity data_capacity }"

definition vfs_reserve_node :: "machine \<Rightarrow> int \<Rightarrow> (int \<times> machine) option" where
  "vfs_reserve_node s state_ptr = do {
     node_id \<leftarrow> vfs_state_qword s state_ptr vfs_slot_node_count;
     if node_id \<ge> max_vfs_nodes then panic ''vfs node table full''
     else do {
       s \<leftarrow> set_vfs_state_qword s state_ptr vfs_slot_node_count (node_id + 1);
       Some (node_id, s) } }"

definition vfs_copy_initramfs_slice :: "machine \<Rightarrow> int \<Rightarrow> int \<Rightarrow> int \<Rightarrow> bool \<Rightarrow> (int \<times> machine) option" where
  "vfs_copy_initramfs_slice s base_ptr offset len nul_terminate = do {
     let dst_len = (if nul_terminate then i64 (len + 1) else len);
     (dst, s) \<leftarrow> alloc_bytes s dst_len;
     let s = copy_bytes s dst (base_ptr + offset) len;
     Some (dst, if nul_terminate then store_byte s (dst + len) 0 else s) }"

definition init_vfs_entry :: "int \<Rightarrow> int \<Rightarrow> int \<Rightarrow> int \<Rightarrow> machine \<Rightarrow> machine option" where
  "init_vfs_entry state_ptr initramfs_ptr initramfs_size entry_index s = do {
     let entry_ptr = initramfs_ptr + 32 + entry_index * 32;
     name_off \<leftarrow> vfs_raw_qword s (entry_ptr + 0);
     name_len \<leftarrow> vfs_raw_qword s (entry_ptr + 8);
     data_off \<leftarrow> vfs_raw_qword s (entry_ptr + 16);
     data_len \<leftarrow> vfs_raw_qword s (entry_ptr + 24);
     if i64 (name_off + name_len) > initramfs_size then panic ''initramfs name range invalid''
     else if i64 (data_off + data_len) > initramfs_size then panic ''initramfs data range invalid''
     else do {
       (name_ptr, s) \<leftarrow> vfs_copy_initramfs_slice s initramfs_ptr name_off name_len True;
       (data_ptr, s) \<leftarrow> vfs_copy_initramfs_slice s initramfs_ptr data_off data_len False;
       s \<leftarrow> vfs_set_node_name_data s state_ptr entry_index name_ptr name_len data_ptr data_len;
       vfs_set_node_meta s state_ptr entry_index vfs_node_kind_file 0 data_len } }"

text \<open>Consecutive byte stores.\<close>

fun store_bytes :: "machine \<Rightarrow> int \<Rightarrow> int list \<Rightarrow> machine" where
  "store_bytes s addr [] = s"
| "store_bytes s addr (b # bs) = store_bytes (store_byte s addr b) (addr + 1) bs"

text \<open>The three blocks and the state slots, the directory \<^verbatim>\<open>/tmp\<close>, and the whole initialisation.\<close>

definition init_vfs_tables :: "machine \<Rightarrow> int \<Rightarrow> int \<Rightarrow> (int \<times> machine) option" where
  "init_vfs_tables s initramfs_ptr initramfs_size = do {
     (state_ptr, s) \<leftarrow> alloc_bytes s (vfs_slot_limit * 8);
     (node_table_ptr, s) \<leftarrow> alloc_bytes s (max_vfs_nodes * node_slot_limit * 8);
     (desc_table_ptr, s) \<leftarrow> alloc_bytes s (max_vfs_descriptors * desc_slot_limit * 8);
     s \<leftarrow> set_vfs_state_qword s state_ptr vfs_slot_initramfs_ptr initramfs_ptr;
     s \<leftarrow> set_vfs_state_qword s state_ptr vfs_slot_initramfs_size initramfs_size;
     s \<leftarrow> set_vfs_state_qword s state_ptr vfs_slot_node_table_ptr node_table_ptr;
     s \<leftarrow> set_vfs_state_qword s state_ptr vfs_slot_node_count 0;
     s \<leftarrow> set_vfs_state_qword s state_ptr vfs_slot_desc_table_ptr desc_table_ptr;
     s \<leftarrow> set_vfs_state_qword s state_ptr vfs_slot_desc_capacity max_vfs_descriptors;
     s \<leftarrow> vfs_clear_descriptors s state_ptr;
     Some (state_ptr, s) }"

definition init_vfs_tmp :: "machine \<Rightarrow> int \<Rightarrow> machine option" where
  "init_vfs_tmp s state_ptr = do {
     (tmp_dir_name, s) \<leftarrow> alloc_bytes s 5;
     let s = store_bytes s tmp_dir_name [47, 116, 109, 112, 0];
     (tmp_dir_id, s) \<leftarrow> vfs_reserve_node s state_ptr;
     s \<leftarrow> vfs_set_node_name_data s state_ptr tmp_dir_id tmp_dir_name 4 0 0;
     vfs_set_node_meta s state_ptr tmp_dir_id vfs_node_kind_directory node_flag_writable 0 }"

definition init_vfs :: "machine \<Rightarrow> int \<Rightarrow> (int \<times> machine) option" where
  "init_vfs s boot_info_ptr = do {
     initramfs_ptr \<leftarrow> boot_info_qword s boot_info_ptr 21;
     initramfs_size \<leftarrow> boot_info_qword s boot_info_ptr 22;
     (state_ptr, s) \<leftarrow> init_vfs_tables s initramfs_ptr initramfs_size;
     if initramfs_ptr = 0 \<or> initramfs_size = 0 then Some (state_ptr, s)
     else if initramfs_size < 32 then panic ''initramfs too small''
     else do {
     magic \<leftarrow> vfs_raw_qword s (initramfs_ptr + 0);
     if magic \<noteq> initramfs_magic then panic ''initramfs magic mismatch''
     else do {
     version \<leftarrow> vfs_raw_qword s (initramfs_ptr + 8);
     if version \<noteq> initramfs_version then panic ''initramfs version mismatch''
     else do {
     node_count \<leftarrow> vfs_raw_qword s (initramfs_ptr + 16);
     if node_count > max_vfs_nodes then panic ''initramfs node count too large''
     else do {
     s \<leftarrow> for_range 0 node_count (init_vfs_entry state_ptr initramfs_ptr initramfs_size) s;
     s \<leftarrow> set_vfs_state_qword s state_ptr vfs_slot_node_count node_count;
     s \<leftarrow> init_vfs_tmp s state_ptr;
     Some (state_ptr, s) } } } } }"

definition dump_vfs_summary :: "machine \<Rightarrow> int \<Rightarrow> machine option" where
  "dump_vfs_summary s state_ptr = do {
     p \<leftarrow> vfs_state_qword s state_ptr vfs_slot_initramfs_ptr;
     let s = console_write_label_hex s ''initramfs.ptr='' p;
     n \<leftarrow> vfs_state_qword s state_ptr vfs_slot_initramfs_size;
     let s = console_write_label_u64 s ''initramfs.size='' n;
     k \<leftarrow> vfs_state_qword s state_ptr vfs_slot_node_count;
     Some (console_write_label_u64 s ''vfs.files='' k) }"

definition vfs_lookup_path :: "machine \<Rightarrow> int \<Rightarrow> int \<Rightarrow> int \<Rightarrow> int option" where
  "vfs_lookup_path s state_ptr path_ptr path_len = do {
     node_count \<leftarrow> vfs_state_qword s state_ptr vfs_slot_node_count;
     for_range 0 node_count (\<lambda>node_id found. if found \<ge> 0 then Some found else do {
       name_ptr \<leftarrow> vfs_node_qword s state_ptr node_id node_slot_name_ptr;
       name_len \<leftarrow> vfs_node_qword s state_ptr node_id node_slot_name_len;
       eq \<leftarrow> vfs_path_equals s name_ptr name_len path_ptr path_len;
       Some (if eq then node_id else - 1) }) (- 1) }"

definition vfs_lookup_cstring :: "machine \<Rightarrow> int \<Rightarrow> string \<Rightarrow> int option" where
  "vfs_lookup_cstring s state_ptr path = do {
     node_count \<leftarrow> vfs_state_qword s state_ptr vfs_slot_node_count;
     for_range 0 node_count (\<lambda>node_id found. if found \<ge> 0 then Some found else do {
       name_ptr \<leftarrow> vfs_node_qword s state_ptr node_id node_slot_name_ptr;
       name_len \<leftarrow> vfs_node_qword s state_ptr node_id node_slot_name_len;
       eq \<leftarrow> vfs_path_equals_cstring s name_ptr name_len path;
       Some (if eq then node_id else - 1) }) (- 1) }"

section \<open>Descriptors\<close>

definition vfs_alloc_descriptor :: "machine \<Rightarrow> int \<Rightarrow> int \<Rightarrow> int \<Rightarrow> int \<Rightarrow> int \<Rightarrow> (int \<times> machine) option" where
  "vfs_alloc_descriptor s state_ptr kind flags node_id offset = do {
     capacity \<leftarrow> vfs_state_qword s state_ptr vfs_slot_desc_capacity;
     for_range 1 (capacity + 1) (\<lambda>desc_id (found, s). if found \<noteq> 0 then Some (found, s) else do {
       k \<leftarrow> vfs_desc_qword s state_ptr desc_id desc_slot_kind;
       if k = desc_kind_closed then do {
         s \<leftarrow> set_vfs_desc_qword s state_ptr desc_id desc_slot_kind kind;
         s \<leftarrow> set_vfs_desc_qword s state_ptr desc_id desc_slot_flags flags;
         s \<leftarrow> set_vfs_desc_qword s state_ptr desc_id desc_slot_node_id node_id;
         s \<leftarrow> set_vfs_desc_qword s state_ptr desc_id desc_slot_offset offset;
         s \<leftarrow> set_vfs_desc_qword s state_ptr desc_id desc_slot_path_ptr 0;
         s \<leftarrow> set_vfs_desc_qword s state_ptr desc_id desc_slot_path_len 0;
         Some (desc_id, s) }
       else Some (0, s) }) (0, s) }"

definition vfs_alloc_console_in_descriptor :: "machine \<Rightarrow> int \<Rightarrow> (int \<times> machine) option" where
  "vfs_alloc_console_in_descriptor s state_ptr = vfs_alloc_descriptor s state_ptr desc_kind_console_in 0 0 0"

definition vfs_alloc_console_out_descriptor :: "machine \<Rightarrow> int \<Rightarrow> (int \<times> machine) option" where
  "vfs_alloc_console_out_descriptor s state_ptr = vfs_alloc_descriptor s state_ptr desc_kind_console_out 0 0 0"

definition vfs_alloc_directory_descriptor :: "machine \<Rightarrow> int \<Rightarrow> int \<Rightarrow> int \<Rightarrow> int \<Rightarrow> (int \<times> machine) option" where
  "vfs_alloc_directory_descriptor s state_ptr path_ptr path_len offset = do {
     (desc_id, s) \<leftarrow> vfs_alloc_descriptor s state_ptr desc_kind_directory 0 0 offset;
     if desc_id \<noteq> 0 then do {
       s \<leftarrow> set_vfs_desc_qword s state_ptr desc_id desc_slot_path_ptr path_ptr;
       s \<leftarrow> set_vfs_desc_qword s state_ptr desc_id desc_slot_path_len path_len;
       Some (desc_id, s) }
     else Some (desc_id, s) }"

section \<open>Directories\<close>

definition vfs_node_matches_directory :: "machine \<Rightarrow> int \<Rightarrow> int \<Rightarrow> int \<Rightarrow> int \<Rightarrow> bool option" where
  "vfs_node_matches_directory s state_ptr node_id dir_ptr dir_len = do {
     name_ptr \<leftarrow> vfs_node_qword s state_ptr node_id node_slot_name_ptr;
     name_len \<leftarrow> vfs_node_qword s state_ptr node_id node_slot_name_len;
     if dir_len = 1 then
       if name_len > 1 then do {
         b \<leftarrow> load_byte_region s name_ptr name_len 0;
         Some (b = 47) }
       else Some False
     else if name_len \<le> dir_len then Some False
     else do {
       has_prefix \<leftarrow> vfs_path_has_prefix s name_ptr name_len dir_ptr dir_len;
       if \<not> has_prefix then Some False
       else do {
         b \<leftarrow> load_byte_region s name_ptr name_len dir_len;
         Some (b = 47) } } }"

definition vfs_directory_exists :: "machine \<Rightarrow> int \<Rightarrow> int \<Rightarrow> int \<Rightarrow> bool option" where
  "vfs_directory_exists s state_ptr dir_ptr dir_len = do {
     node_count \<leftarrow> vfs_state_qword s state_ptr vfs_slot_node_count;
     root \<leftarrow> (if dir_len = 1 then do { b \<leftarrow> load_byte_region s dir_ptr dir_len 0; Some (b = 47) }
             else Some False);
     if root then Some True
     else for_range 0 node_count (\<lambda>node_id found. if found then Some True else do {
       kind \<leftarrow> vfs_node_qword s state_ptr node_id node_slot_kind;
       same \<leftarrow> (if kind = vfs_node_kind_directory then do {
         name_ptr \<leftarrow> vfs_node_qword s state_ptr node_id node_slot_name_ptr;
         name_len \<leftarrow> vfs_node_qword s state_ptr node_id node_slot_name_len;
         vfs_path_equals s name_ptr name_len dir_ptr dir_len } else Some False);
       if same then Some True
       else vfs_node_matches_directory s state_ptr node_id dir_ptr dir_len }) False }"

text \<open>The loop that looks for the last slash.\<close>

function vfs_last_slash :: "machine \<Rightarrow> int \<Rightarrow> int \<Rightarrow> int \<Rightarrow> int option" where
  "vfs_last_slash s path_ptr path_len index =
     (if index > 0 then do {
        b \<leftarrow> load_byte_region s path_ptr path_len index;
        if b \<noteq> 47 then vfs_last_slash s path_ptr path_len (index - 1) else Some index }
      else Some index)"
  by pat_completeness auto
termination
  by (relation "measure (\<lambda>(s, p, l, i). nat i)") auto

declare vfs_last_slash.simps [simp del]

definition vfs_path_parent :: "machine \<Rightarrow> int \<Rightarrow> int \<Rightarrow> ((int \<times> int) \<times> machine) option" where
  "vfs_path_parent s path_ptr path_len =
     (if path_len \<le> 1 then Some ((0, 0), s)
      else do {
        index \<leftarrow> vfs_last_slash s path_ptr path_len (path_len - 1);
        if index = 0 then do {
          (parent_ptr, s) \<leftarrow> alloc_bytes s 2;
          Some ((parent_ptr, 1), store_byte (store_byte s parent_ptr 47) (parent_ptr + 1) 0) }
        else do {
          let parent_len = index;
          (parent_ptr, s) \<leftarrow> alloc_bytes s (parent_len + 1);
          s \<leftarrow> for_range 0 parent_len (\<lambda>index s. do {
            b \<leftarrow> load_byte_region s path_ptr path_len index;
            Some (store_byte s (parent_ptr + index) b) }) s;
          Some ((parent_ptr, parent_len), store_byte s (parent_ptr + parent_len) 0) } })"

definition vfs_create_tmpfs_file :: "machine \<Rightarrow> int \<Rightarrow> int \<Rightarrow> int \<Rightarrow> (int \<times> machine) option" where
  "vfs_create_tmpfs_file s state_ptr path_ptr path_len = do {
     ((parent_ptr, parent_len), s) \<leftarrow> vfs_path_parent s path_ptr path_len;
     if parent_ptr = 0 \<or> parent_len \<le> 0 then Some (- 1, s)
     else do {
     parent_id \<leftarrow> vfs_lookup_path s state_ptr parent_ptr parent_len;
     if parent_id < 0 then Some (- 1, s)
     else do {
     kind \<leftarrow> vfs_node_qword s state_ptr parent_id node_slot_kind;
     if kind \<noteq> vfs_node_kind_directory then Some (- 1, s)
     else do {
     flags \<leftarrow> vfs_node_qword s state_ptr parent_id node_slot_flags;
     if flags AND node_flag_writable = 0 then Some (- 1, s)
     else do {
     (node_id, s) \<leftarrow> vfs_reserve_node s state_ptr;
     s \<leftarrow> vfs_set_node_name_data s state_ptr node_id path_ptr path_len 0 0;
     s \<leftarrow> vfs_set_node_meta s state_ptr node_id vfs_node_kind_file node_flag_writable 0;
     Some (node_id, s) } } } } }"

definition vfs_grow_node_data :: "machine \<Rightarrow> int \<Rightarrow> int \<Rightarrow> int \<Rightarrow> (int \<times> machine) option" where
  "vfs_grow_node_data s state_ptr node_id min_capacity = do {
     data_ptr \<leftarrow> vfs_node_qword s state_ptr node_id node_slot_data_ptr;
     data_len \<leftarrow> vfs_node_qword s state_ptr node_id node_slot_data_len;
     data_capacity \<leftarrow> vfs_node_qword s state_ptr node_id node_slot_data_capacity;
     if min_capacity \<le> data_capacity then Some (data_ptr, s)
     else do {
       let min_capacity = (if min_capacity < 64 then 64 else min_capacity);
       let min_capacity = (if data_capacity \<noteq> 0 \<and> min_capacity < i64 (data_capacity * 2)
                           then i64 (data_capacity * 2) else min_capacity);
       (new_ptr, s) \<leftarrow> alloc_bytes s min_capacity;
       let s = copy_bytes s new_ptr data_ptr data_len;
       s \<leftarrow> set_vfs_node_qword s state_ptr node_id node_slot_data_ptr new_ptr;
       s \<leftarrow> set_vfs_node_qword s state_ptr node_id node_slot_data_capacity min_capacity;
       Some (new_ptr, s) } }"

definition vfs_directory_child_component :: "machine \<Rightarrow> int \<Rightarrow> int \<Rightarrow> int \<Rightarrow> int \<Rightarrow> (int \<times> int) option" where
  "vfs_directory_child_component s state_ptr node_id dir_ptr dir_len = do {
     name_ptr \<leftarrow> vfs_node_qword s state_ptr node_id node_slot_name_ptr;
     name_len \<leftarrow> vfs_node_qword s state_ptr node_id node_slot_name_len;
     matches \<leftarrow> vfs_node_matches_directory s state_ptr node_id dir_ptr dir_len;
     if \<not> matches then Some (0, 0)
     else do {
       let start = (if dir_len = 1 then 1 else dir_len + 1);
       end' \<leftarrow> vfs_scan s name_ptr name_len False start;
       Some (name_ptr + start, end' - start) } }"

definition vfs_directory_child_seen_before ::
    "machine \<Rightarrow> int \<Rightarrow> int \<Rightarrow> int \<Rightarrow> int \<Rightarrow> int \<Rightarrow> int \<Rightarrow> bool option" where
  "vfs_directory_child_seen_before s state_ptr dir_ptr dir_len node_id child_ptr child_len =
     for_range 0 node_id (\<lambda>scan seen. if seen then Some True else do {
       (other_ptr, other_len) \<leftarrow> vfs_directory_child_component s state_ptr scan dir_ptr dir_len;
       if other_len = child_len \<and> other_len \<noteq> 0
       then vfs_path_equals s other_ptr other_len child_ptr child_len
       else Some False }) False"

definition vfs_directory_child_count :: "machine \<Rightarrow> int \<Rightarrow> int \<Rightarrow> int \<Rightarrow> int option" where
  "vfs_directory_child_count s state_ptr dir_ptr dir_len = do {
     node_count \<leftarrow> vfs_state_qword s state_ptr vfs_slot_node_count;
     for_range 0 node_count (\<lambda>node_id count. do {
       (child_ptr, child_len) \<leftarrow> vfs_directory_child_component s state_ptr node_id dir_ptr dir_len;
       if child_len \<noteq> 0 then do {
         seen \<leftarrow> vfs_directory_child_seen_before s state_ptr dir_ptr dir_len node_id child_ptr child_len;
         Some (if \<not> seen then count + 1 else count) }
       else Some count }) 0 }"

section \<open>File operations\<close>

definition vfs_open_path :: "machine \<Rightarrow> int \<Rightarrow> int \<Rightarrow> int \<Rightarrow> int \<Rightarrow> (int \<times> machine) option" where
  "vfs_open_path s state_ptr path_ptr path_len flags =
     (if flags AND NOT 3 \<noteq> 0 then Some (0, s)
      else if path_ptr = 0 \<or> path_len \<le> 0 then Some (0, s)
      else do {
      ((normalized_ptr, normalized_len), s) \<leftarrow> vfs_normalize_path s path_ptr path_len;
      if normalized_ptr = 0 \<or> normalized_len \<le> 0 then Some (0, s)
      else do {
      root \<leftarrow> (if normalized_len = 1
        then do { b \<leftarrow> load_byte_region s normalized_ptr normalized_len 0; Some (b = 47) } else Some False);
      if root then vfs_alloc_directory_descriptor s state_ptr normalized_ptr normalized_len 0
      else do {
      node_id \<leftarrow> vfs_lookup_path s state_ptr normalized_ptr normalized_len;
      if node_id < 0 then do {
        (node_id, s) \<leftarrow> (if flags AND 1 \<noteq> 0 then vfs_create_tmpfs_file s state_ptr normalized_ptr normalized_len
          else Some (node_id, s));
        if node_id \<ge> 0 then vfs_alloc_descriptor s state_ptr desc_kind_initramfs_file flags node_id 0
        else do {
          exists \<leftarrow> vfs_directory_exists s state_ptr normalized_ptr normalized_len;
          if exists then vfs_alloc_directory_descriptor s state_ptr normalized_ptr normalized_len 0
          else Some (0, s) } }
      else do {
        kind \<leftarrow> vfs_node_qword s state_ptr node_id node_slot_kind;
        if kind = vfs_node_kind_directory
        then vfs_alloc_directory_descriptor s state_ptr normalized_ptr normalized_len 0
        else do {
          s \<leftarrow> (if flags AND 2 \<noteq> 0 then do {
              node_flags \<leftarrow> vfs_node_qword s state_ptr node_id node_slot_flags;
              if node_flags AND node_flag_writable \<noteq> 0
              then set_vfs_node_qword s state_ptr node_id node_slot_data_len 0 else Some s }
            else Some s);
          vfs_alloc_descriptor s state_ptr desc_kind_initramfs_file flags node_id 0 } } } } })"

definition vfs_open_cstring :: "machine \<Rightarrow> int \<Rightarrow> string \<Rightarrow> (int \<times> machine) option" where
  "vfs_open_cstring s state_ptr path = do {
     let path_len = vfs_cstring_len path;
     (path_buf, s) \<leftarrow> alloc_bytes s (path_len + 1);
     let s = store_bytes s path_buf (map of_char (take (nat path_len) path));
     let s = store_byte s (path_buf + path_len) 0;
     vfs_open_path s state_ptr path_buf path_len 0 }"

definition vfs_close_descriptor :: "machine \<Rightarrow> int \<Rightarrow> int \<Rightarrow> (int \<times> machine) option" where
  "vfs_close_descriptor s state_ptr desc_id =
     (if desc_id \<le> 0 then Some (- 1, s)
      else do {
        kind \<leftarrow> vfs_desc_qword s state_ptr desc_id desc_slot_kind;
        if kind = desc_kind_closed then Some (- 1, s)
        else do {
          s \<leftarrow> for_range 0 desc_slot_limit (\<lambda>slot s. set_vfs_desc_qword s state_ptr desc_id slot 0) s;
          Some (0, s) } })"

definition vfs_write_descriptor :: "machine \<Rightarrow> int \<Rightarrow> int \<Rightarrow> int \<Rightarrow> int \<Rightarrow> (int \<times> machine) option" where
  "vfs_write_descriptor s state_ptr desc_id ptr len =
     (if desc_id \<le> 0 then Some (- 1, s)
      else if len < 0 then Some (- 1, s)
      else do {
      kind \<leftarrow> vfs_desc_qword s state_ptr desc_id desc_slot_kind;
      if kind = desc_kind_console_out then Some (console_write_ptr_len s ptr len)
      else if kind \<noteq> desc_kind_initramfs_file then Some (- 1, s)
      else do {
      node_id \<leftarrow> vfs_desc_qword s state_ptr desc_id desc_slot_node_id;
      flags \<leftarrow> vfs_node_qword s state_ptr node_id node_slot_flags;
      if flags AND node_flag_writable = 0 then Some (- 1, s)
      else do {
      offset \<leftarrow> vfs_desc_qword s state_ptr desc_id desc_slot_offset;
      if i64 (offset + len) < offset then Some (- 1, s)
      else do {
      (data_ptr, s) \<leftarrow> vfs_grow_node_data s state_ptr node_id (i64 (offset + len));
      let s = copy_bytes s (data_ptr + offset) ptr len;
      data_len \<leftarrow> vfs_node_qword s state_ptr node_id node_slot_data_len;
      s \<leftarrow> (if i64 (offset + len) > data_len
        then set_vfs_node_qword s state_ptr node_id node_slot_data_len (i64 (offset + len)) else Some s);
      s \<leftarrow> set_vfs_desc_qword s state_ptr desc_id desc_slot_offset (i64 (offset + len));
      Some (len, s) } } } })"

definition vfs_stat_descriptor :: "machine \<Rightarrow> int \<Rightarrow> int \<Rightarrow> int \<Rightarrow> (int \<times> machine) option" where
  "vfs_stat_descriptor s state_ptr desc_id dst_ptr =
     (if desc_id \<le> 0 \<or> dst_ptr = 0 then Some (- 1, s)
      else do {
      kind \<leftarrow> vfs_desc_qword s state_ptr desc_id desc_slot_kind;
      if kind = desc_kind_closed then Some (- 1, s)
      else if kind = desc_kind_directory then do {
        dir_ptr \<leftarrow> vfs_desc_qword s state_ptr desc_id desc_slot_path_ptr;
        dir_len \<leftarrow> vfs_desc_qword s state_ptr desc_id desc_slot_path_len;
        s \<leftarrow> store_qword_region s dst_ptr 2 0 vfs_node_kind_directory;
        count \<leftarrow> vfs_directory_child_count s state_ptr dir_ptr dir_len;
        s \<leftarrow> store_qword_region s dst_ptr 2 1 count;
        Some (0, s) }
      else if kind = desc_kind_initramfs_file then do {
        node_id \<leftarrow> vfs_desc_qword s state_ptr desc_id desc_slot_node_id;
        node_kind \<leftarrow> vfs_node_qword s state_ptr node_id node_slot_kind;
        s \<leftarrow> store_qword_region s dst_ptr 2 0 node_kind;
        data_len \<leftarrow> vfs_node_qword s state_ptr node_id node_slot_data_len;
        s \<leftarrow> store_qword_region s dst_ptr 2 1 data_len;
        Some (0, s) }
      else Some (- 1, s) })"

text \<open>The scan of the directory reader: the first entry from \<open>index\<close> on not seen before.\<close>

function vfs_next_child :: "machine \<Rightarrow> int \<Rightarrow> int \<Rightarrow> int \<Rightarrow> int \<Rightarrow> int \<Rightarrow> (int \<times> int \<times> int) option" where
  "vfs_next_child s state_ptr dir_ptr dir_len node_count index =
     (if index < node_count then do {
        (child_ptr, child_len) \<leftarrow> vfs_directory_child_component s state_ptr index dir_ptr dir_len;
        fresh \<leftarrow> (if child_len \<noteq> 0 then do {
            seen \<leftarrow> vfs_directory_child_seen_before s state_ptr dir_ptr dir_len index child_ptr child_len;
            Some (\<not> seen) } else Some False);
        if fresh then Some (index, child_ptr, child_len)
        else vfs_next_child s state_ptr dir_ptr dir_len node_count (index + 1) }
      else Some (index, 0, 0))"
  by pat_completeness auto
termination
  by (relation "measure (\<lambda>(s, p, d, l, n, i). nat (n - i))") auto

declare vfs_next_child.simps [simp del]

definition vfs_readdir_descriptor :: "machine \<Rightarrow> int \<Rightarrow> int \<Rightarrow> int \<Rightarrow> int \<Rightarrow> (int \<times> machine) option" where
  "vfs_readdir_descriptor s state_ptr desc_id dst_ptr len =
     (if desc_id \<le> 0 then Some (- 1, s)
      else if len < 0 then Some (- 1, s)
      else if dst_ptr = 0 \<and> len \<noteq> 0 then Some (- 1, s)
      else do {
      kind \<leftarrow> vfs_desc_qword s state_ptr desc_id desc_slot_kind;
      if kind \<noteq> desc_kind_directory then Some (- 1, s)
      else do {
      index \<leftarrow> vfs_desc_qword s state_ptr desc_id desc_slot_offset;
      dir_ptr \<leftarrow> vfs_desc_qword s state_ptr desc_id desc_slot_path_ptr;
      dir_len \<leftarrow> vfs_desc_qword s state_ptr desc_id desc_slot_path_len;
      node_count \<leftarrow> vfs_state_qword s state_ptr vfs_slot_node_count;
      (index, child_ptr, child_len) \<leftarrow> vfs_next_child s state_ptr dir_ptr dir_len node_count index;
      if index < node_count then do {
        let len = (if len > child_len then child_len else len);
        let s = copy_bytes s dst_ptr child_ptr len;
        s \<leftarrow> set_vfs_desc_qword s state_ptr desc_id desc_slot_offset (index + 1);
        Some (len, s) }
      else Some (0, s) } })"

definition vfs_read_descriptor :: "machine \<Rightarrow> int \<Rightarrow> int \<Rightarrow> int \<Rightarrow> int \<Rightarrow> (int \<times> machine) option" where
  "vfs_read_descriptor s state_ptr desc_id dst_ptr len =
     (if desc_id \<le> 0 then Some (- 1, s)
      else if len < 0 then Some (- 1, s)
      else if dst_ptr = 0 \<and> len \<noteq> 0 then Some (- 1, s)
      else do {
      kind \<leftarrow> vfs_desc_qword s state_ptr desc_id desc_slot_kind;
      if kind = desc_kind_console_in then Some (console_read_ptr_len s dst_ptr len)
      else if kind = desc_kind_directory then Some (- 1, s)
      else if kind \<noteq> desc_kind_initramfs_file then Some (- 1, s)
      else do {
      node_id \<leftarrow> vfs_desc_qword s state_ptr desc_id desc_slot_node_id;
      offset \<leftarrow> vfs_desc_qword s state_ptr desc_id desc_slot_offset;
      data_ptr \<leftarrow> vfs_node_qword s state_ptr node_id node_slot_data_ptr;
      data_len \<leftarrow> vfs_node_qword s state_ptr node_id node_slot_data_len;
      let remaining = i64 (data_len - offset);
      if remaining \<le> 0 then Some (0, s)
      else do {
        let len = (if len > remaining then remaining else len);
        let s = copy_bytes s dst_ptr (data_ptr + offset) len;
        s \<leftarrow> set_vfs_desc_qword s state_ptr desc_id desc_slot_offset (offset + len);
        Some (len, s) } } })"

section \<open>Self-test\<close>

definition vfs_expect :: "bool \<Rightarrow> string \<Rightarrow> unit option" where
  "vfs_expect b msg = (if b then Some () else panic msg)"

definition vfs_print_sample :: "machine \<Rightarrow> string \<Rightarrow> int \<Rightarrow> int \<Rightarrow> machine" where
  "vfs_print_sample s label buf count =
     console_write (snd (console_write_ptr_len (console_write s label) buf count)) [CHR 0x0A]"

definition vfs_self_test :: "machine \<Rightarrow> int \<Rightarrow> machine option" where
  "vfs_self_test s state_ptr = do {
     (path, s) \<leftarrow> alloc_bytes s 16;
     (nested_path, s) \<leftarrow> alloc_bytes s 24;
     (tmp_path, s) \<leftarrow> alloc_bytes s 20;
     (tmp_dir_path, s) \<leftarrow> alloc_bytes s 8;
     (tmp_msg, s) \<leftarrow> alloc_bytes s 16;
     let s = store_bytes s path [47, 104, 101, 108, 108, 111, 46, 116, 120, 116, 0];
     let s = store_bytes s nested_path [47, 47, 98, 105, 110, 47, 46, 47, 104, 101, 108, 108, 111, 0];
     let s = store_bytes s tmp_path [47, 116, 109, 112, 47, 108, 111, 103, 46, 116, 120, 116, 0];
     let s = store_bytes s tmp_dir_path [47, 116, 109, 112, 0];
     let s = store_bytes s tmp_msg [116, 109, 112, 102, 115, 45, 111, 107, 0];
     (desc, s) \<leftarrow> vfs_open_path s state_ptr path 10 0;
     _ \<leftarrow> vfs_expect (desc \<noteq> 0) ''vfs self-test open failed'';
     (buf, s) \<leftarrow> alloc_bytes s 64;
     (count, s) \<leftarrow> vfs_read_descriptor s state_ptr desc buf 64;
     _ \<leftarrow> vfs_expect (count > 0) ''vfs self-test read failed'';
     (stat_buf, s) \<leftarrow> alloc_bytes s 16;
     (r, s) \<leftarrow> vfs_stat_descriptor s state_ptr desc stat_buf;
     _ \<leftarrow> vfs_expect (r = 0) ''vfs self-test stat failed'';
     (dir_desc, s) \<leftarrow> vfs_open_cstring s state_ptr ''/'';
     _ \<leftarrow> vfs_expect (dir_desc \<noteq> 0) ''vfs self-test dir open failed'';
     (subdir_desc, s) \<leftarrow> vfs_open_cstring s state_ptr ''/bin'';
     _ \<leftarrow> vfs_expect (subdir_desc \<noteq> 0) ''vfs self-test subdir open failed'';
     (nested, s) \<leftarrow> vfs_open_path s state_ptr nested_path 13 0;
     _ \<leftarrow> vfs_expect (nested \<noteq> 0) ''vfs self-test nested path failed'';
     (tmp_desc, s) \<leftarrow> vfs_open_path s state_ptr tmp_path 12 3;
     _ \<leftarrow> vfs_expect (tmp_desc \<noteq> 0) ''vfs self-test tmp create failed'';
     (r, s) \<leftarrow> vfs_write_descriptor s state_ptr tmp_desc tmp_msg 8;
     _ \<leftarrow> vfs_expect (r = 8) ''vfs self-test tmp write failed'';
     (r, s) \<leftarrow> vfs_close_descriptor s state_ptr tmp_desc;
     _ \<leftarrow> vfs_expect (r = 0) ''vfs self-test tmp close failed'';
     (tmp_desc, s) \<leftarrow> vfs_open_path s state_ptr tmp_path 12 0;
     _ \<leftarrow> vfs_expect (tmp_desc \<noteq> 0) ''vfs self-test tmp reopen failed'';
     (tmp_dir_desc, s) \<leftarrow> vfs_open_path s state_ptr tmp_dir_path 4 0;
     _ \<leftarrow> vfs_expect (tmp_dir_desc \<noteq> 0) ''vfs self-test tmp dir open failed'';
     let s = console_write_label_u64 s ''vfs.self_test.bytes='' count;
     kind \<leftarrow> load_qword_region s stat_buf 2 0;
     let s = console_write_label_u64 s ''vfs.self_test.kind='' kind;
     sz \<leftarrow> load_qword_region s stat_buf 2 1;
     let s = console_write_label_u64 s ''vfs.self_test.size='' sz;
     let s = vfs_print_sample s ''vfs.self_test.sample='' buf count;
     (count, s) \<leftarrow> vfs_readdir_descriptor s state_ptr dir_desc buf 64;
     _ \<leftarrow> vfs_expect (count > 0) ''vfs self-test readdir failed'';
     let s = vfs_print_sample s ''vfs.self_test.dirent='' buf count;
     (count, s) \<leftarrow> vfs_readdir_descriptor s state_ptr subdir_desc buf 64;
     _ \<leftarrow> vfs_expect (count > 0) ''vfs self-test subdir readdir failed'';
     let s = vfs_print_sample s ''vfs.self_test.subdir='' buf count;
     (count, s) \<leftarrow> vfs_read_descriptor s state_ptr tmp_desc buf 64;
     _ \<leftarrow> vfs_expect (count = 8) ''vfs self-test tmp read failed'';
     let s = vfs_print_sample s ''vfs.self_test.tmp='' buf count;
     (count, s) \<leftarrow> vfs_readdir_descriptor s state_ptr tmp_dir_desc buf 64;
     _ \<leftarrow> vfs_expect (count > 0) ''vfs self-test tmp dir readdir failed'';
     let s = vfs_print_sample s ''vfs.self_test.tmpdir='' buf count;
     (r, s) \<leftarrow> vfs_close_descriptor s state_ptr desc;
     _ \<leftarrow> vfs_expect (r = 0) ''vfs self-test close failed'';
     (r, s) \<leftarrow> vfs_close_descriptor s state_ptr dir_desc;
     _ \<leftarrow> vfs_expect (r = 0) ''vfs self-test dir close failed'';
     (r, s) \<leftarrow> vfs_close_descriptor s state_ptr subdir_desc;
     _ \<leftarrow> vfs_expect (r = 0) ''vfs self-test subdir close failed'';
     (r, s) \<leftarrow> vfs_close_descriptor s state_ptr tmp_desc;
     _ \<leftarrow> vfs_expect (r = 0) ''vfs self-test tmp final close failed'';
     (r, s) \<leftarrow> vfs_close_descriptor s state_ptr tmp_dir_desc;
     _ \<leftarrow> vfs_expect (r = 0) ''vfs self-test tmp dir close failed'';
     Some (console_write_line s ''vfs self-test ok'') }"

end
