(* ===== verification/Devices.thy ===== *)
theory Devices
  imports Console
begin

text \<open>
  The interrupt controller (\<^verbatim>\<open>kapic.py\<close>), the clock (\<^verbatim>\<open>ktime.py\<close>), the exception reports
  (\<^verbatim>\<open>kexceptions.py\<close>) and the interrupt table (\<^verbatim>\<open>kidt.py\<close>).

  Two things happen outside the kernel's own code and are arguments of the definitions that wait for
  them: \<open>irq\<close> is the machine after the interrupt a \<^verbatim>\<open>hlt\<close> waited for has been handled, \<open>device\<close> is the
  progress of the timer between two reads of its counter.
\<close>

section \<open>The local interrupt controller\<close>

definition lapic_base :: "machine \<Rightarrow> int \<times> machine" where
  "lapic_base s =
     (let base = read_msr s 0x1B;
          s = (if base AND push_bit 11 1 = 0 then write_msr s 0x1B (base OR push_bit 11 1) else s);
          base = (if base AND push_bit 11 1 = 0 then read_msr s 0x1B else base)
      in (base AND NOT 0xFFF, s))"

definition lapic_read :: "machine \<Rightarrow> int \<Rightarrow> (int \<times> machine) option" where
  "lapic_read s offset =
     (let (base, s) = lapic_base s in do { v \<leftarrow> load_dword_region s base 4096 offset; Some (v, s) })"

definition lapic_write :: "machine \<Rightarrow> int \<Rightarrow> int \<Rightarrow> machine option" where
  "lapic_write s offset value = (let (base, s) = lapic_base s in store_dword_region s base 4096 offset value)"

definition mask_legacy_pic :: "machine \<Rightarrow> machine" where
  "mask_legacy_pic s = outb (outb s 0x21 0xFF) 0xA1 0xFF"

definition init_local_apic :: "machine \<Rightarrow> machine option" where
  "init_local_apic s =
     (if has_apic s = 0 then panic ''cpu has no local apic''
      else do {
        let s = mask_legacy_pic s;
        let (base, s) = lapic_base s;
        let s = set_lapic_eoi_reg s (base + 0xB0);
        s \<leftarrow> lapic_write s 0x80 0;
        s \<leftarrow> lapic_write s 0x350 (push_bit 16 1);
        s \<leftarrow> lapic_write s 0x360 (push_bit 16 1);
        lapic_write s 0xF0 0x1FF })"

definition dump_local_apic_summary :: "machine \<Rightarrow> machine option" where
  "dump_local_apic_summary s = do {
     let (base, s) = lapic_base s;
     let s = console_write_label_hex s ''lapic.base='' base;
     (v, s) \<leftarrow> lapic_read s 0x30;
     let s = console_write_label_u64 s ''lapic.version='' (v AND 0xFF);
     (v, s) \<leftarrow> lapic_read s 0x20;
     Some (console_write_label_u64 s ''lapic.id='' (drop_bit 24 v)) }"

definition arm_timer_oneshot :: "machine \<Rightarrow> int \<Rightarrow> machine option" where
  "arm_timer_oneshot s initial_count =
     (if initial_count = 0 then panic ''lapic timer count is zero''
      else do {
        s \<leftarrow> lapic_write s 0x3E0 0x3;
        s \<leftarrow> lapic_write s 0x320 32;
        lapic_write s 0x380 initial_count })"

definition arm_timer_periodic :: "machine \<Rightarrow> int \<Rightarrow> machine option" where
  "arm_timer_periodic s initial_count =
     (if initial_count = 0 then panic ''lapic timer count is zero''
      else do {
        s \<leftarrow> lapic_write s 0x3E0 0x3;
        s \<leftarrow> lapic_write s 0x320 (32 OR push_bit 17 1);
        lapic_write s 0x380 initial_count })"

definition arm_timer_masked :: "machine \<Rightarrow> int \<Rightarrow> machine option" where
  "arm_timer_masked s initial_count =
     (if initial_count = 0 then panic ''lapic timer count is zero''
      else do {
        s \<leftarrow> lapic_write s 0x3E0 0x3;
        s \<leftarrow> lapic_write s 0x320 (32 OR push_bit 16 1);
        lapic_write s 0x380 initial_count })"

definition mask_timer :: "machine \<Rightarrow> machine option" where
  "mask_timer s = do {
     (v, s) \<leftarrow> lapic_read s 0x320;
     lapic_write s 0x320 (v OR push_bit 16 1) }"

definition dump_timer_summary :: "machine \<Rightarrow> machine option" where
  "dump_timer_summary s = do {
     (v, s) \<leftarrow> lapic_read s 0x3E0;
     let s = console_write_label_u64 s ''lapic.timer.divide='' (v AND 0xF);
     (v, s) \<leftarrow> lapic_read s 0x380;
     let s = console_write_label_hex s ''lapic.timer.initial='' v;
     (v, s) \<leftarrow> lapic_read s 0x390;
     Some (console_write_label_hex s ''lapic.timer.current='' v) }"

definition timer_current_count :: "(machine \<Rightarrow> machine) \<Rightarrow> machine \<Rightarrow> (int \<times> machine) option" where
  "timer_current_count device s = lapic_read (device s) 0x390"

text \<open>The probe polls the counter at most a million times; a change ends the loop.\<close>

function probe_timer_loop :: "(machine \<Rightarrow> machine) \<Rightarrow> machine \<Rightarrow> int \<Rightarrow> int \<Rightarrow> machine option" where
  "probe_timer_loop device s start tries =
     (if tries < 1000000 then do {
        (current, s) \<leftarrow> timer_current_count device s;
        if current \<noteq> start then do {
          let s = console_write_label_hex s ''lapic.timer.probe.start='' start;
          let s = console_write_label_hex s ''lapic.timer.probe.current='' current;
          if current < start then Some (console_write_line s ''lapic timer probe ok'')
          else panic ''lapic timer probe failed'' }
        else probe_timer_loop device s start (tries + 1) }
      else panic ''lapic timer probe failed'')"
  by pat_completeness auto
termination
  by (relation "measure (\<lambda>(d, s, start, tries). nat (1000000 - tries))") auto

declare probe_timer_loop.simps [simp del]

definition probe_timer_progress :: "(machine \<Rightarrow> machine) \<Rightarrow> machine \<Rightarrow> machine option" where
  "probe_timer_progress device s = do {
     (start, s) \<leftarrow> timer_current_count device s;
     probe_timer_loop device s start 0 }"

definition timer_tick_count :: "machine \<Rightarrow> int" where
  "timer_tick_count s = read_timer_irq_count s"

definition reset_timer_ticks :: "machine \<Rightarrow> machine" where
  "reset_timer_ticks s = clear_timer_irq_count s"

text \<open>A loop that waits for interrupts may wait for ever: it has the value \<^const>\<open>None\<close> then.\<close>

partial_function (option) wait_until_ticks :: "(machine \<Rightarrow> machine) \<Rightarrow> machine \<Rightarrow> int \<Rightarrow> int \<Rightarrow> (int \<times> machine) option" where
  "wait_until_ticks irq s observed expected_ticks =
     (if observed < expected_ticks then
        wait_until_ticks irq (irq s) (timer_tick_count (irq s)) expected_ticks
      else Some (observed, s))"

definition probe_timer_interrupts :: "(machine \<Rightarrow> machine) \<Rightarrow> machine \<Rightarrow> int \<Rightarrow> int \<Rightarrow> machine option" where
  "probe_timer_interrupts irq s initial_count expected_ticks =
     (if expected_ticks \<le> 0 then panic ''lapic irq probe requires ticks''
      else do {
        let s = reset_timer_ticks s;
        s \<leftarrow> arm_timer_periodic s initial_count;
        (observed, s) \<leftarrow> wait_until_ticks irq s 0 expected_ticks;
        s \<leftarrow> mask_timer s;
        let s = console_write_label_u64 s ''lapic.timer.irq.count='' observed;
        Some (console_write_line s ''lapic timer irq ok'') })"

section \<open>The clock\<close>

definition start_kernel_tick_source :: "machine \<Rightarrow> int \<Rightarrow> machine option" where
  "start_kernel_tick_source s initial_count = arm_timer_periodic (reset_timer_ticks s) initial_count"

definition current_kernel_ticks :: "machine \<Rightarrow> int" where
  "current_kernel_ticks s = timer_tick_count s"

partial_function (option) wait_edge_loop :: "(machine \<Rightarrow> machine) \<Rightarrow> machine \<Rightarrow> int \<Rightarrow> int \<Rightarrow> (int \<times> machine) option" where
  "wait_edge_loop irq s start current =
     (if current = start then wait_edge_loop irq (irq s) start (current_kernel_ticks (irq s))
      else Some (current, s))"

definition wait_for_tick_edge :: "(machine \<Rightarrow> machine) \<Rightarrow> machine \<Rightarrow> (int \<times> machine) option" where
  "wait_for_tick_edge irq s = (let start = current_kernel_ticks s in wait_edge_loop irq s start start)"

partial_function (option) wait_ticks_loop :: "(machine \<Rightarrow> machine) \<Rightarrow> machine \<Rightarrow> int \<Rightarrow> int \<Rightarrow> (int \<times> machine) option" where
  "wait_ticks_loop irq s target current =
     (if current < target then do {
        (current, s) \<leftarrow> wait_for_tick_edge irq s;
        wait_ticks_loop irq s target current }
      else Some (current, s))"

definition wait_for_kernel_ticks :: "(machine \<Rightarrow> machine) \<Rightarrow> machine \<Rightarrow> int \<Rightarrow> (int \<times> machine) option" where
  "wait_for_kernel_ticks irq s delta =
     (if delta \<le> 0 then panic ''tick wait requires positive delta''
      else let start = current_kernel_ticks s
           in wait_ticks_loop irq s (i64 (start + delta)) start)"

definition timekeeping_self_test :: "(machine \<Rightarrow> machine) \<Rightarrow> machine \<Rightarrow> int \<Rightarrow> machine option" where
  "timekeeping_self_test irq s delta = do {
     let start = current_kernel_ticks s;
     (end', s) \<leftarrow> wait_for_kernel_ticks irq s delta;
     if end' < i64 (start + delta) then panic ''timekeeping tick wait failed''
     else do {
       let s = console_write_label_u64 s ''time.ticks.start='' start;
       let s = console_write_label_u64 s ''time.ticks.end='' end';
       Some (console_write_line s ''timekeeping self-test ok'') } }"

section \<open>Exceptions\<close>

definition serial_write_exception_name :: "machine \<Rightarrow> int \<Rightarrow> machine" where
  "serial_write_exception_name s vector =
     (if vector = 0 then console_write s '' (#DE divide error)''
      else if vector = 8 then console_write s '' (#DF double fault)''
      else if vector = 13 then console_write s '' (#GP general protection)''
      else if vector = 14 then console_write s '' (#PF page fault)''
      else s)"

definition serial_write_page_fault_bits :: "machine \<Rightarrow> int \<Rightarrow> machine" where
  "serial_write_page_fault_bits s error_code =
     (let s = console_write s ''pf bits:'';
          s = console_write s (if error_code AND 1 \<noteq> 0 then '' P'' else '' NP'');
          s = console_write s (if error_code AND 2 \<noteq> 0 then '' WRITE'' else '' READ'');
          s = console_write s (if error_code AND 4 \<noteq> 0 then '' USER'' else '' KERNEL'');
          s = (if error_code AND 8 \<noteq> 0 then console_write s '' RSVD'' else s);
          s = (if error_code AND 16 \<noteq> 0 then console_write s '' IFETCH'' else s)
      in console_write s [CHR 0x0A])"

text \<open>\<open>trap v\<close> is the processor raising exception \<open>v\<close>; the source expects no return from it.\<close>

definition run_exception_test :: "(int \<Rightarrow> machine \<Rightarrow> machine option) \<Rightarrow> machine \<Rightarrow> int \<Rightarrow> machine option" where
  "run_exception_test trap s mode =
     (if mode = 0 then Some s
      else do {
        let s = console_write_line s ''running exception test'';
        s \<leftarrow> (if mode = 1 then trap 0 (console_write_line s ''mode=int0'') else Some s);
        s \<leftarrow> (if mode = 2 then trap 0 (console_write_line s ''mode=de'') else Some s);
        s \<leftarrow> (if mode = 3 then trap 13 (console_write_line s ''mode=gp'') else Some s);
        s \<leftarrow> (if mode = 4 then trap 14 (console_write_line s ''mode=pf'') else Some s);
        panic ''unknown exception test'' })"

definition exception_frame_qword :: "machine \<Rightarrow> int \<Rightarrow> int \<Rightarrow> int option" where
  "exception_frame_qword s frame slot = load_qword_region s frame 20 slot"

definition write_frame_register :: "int \<Rightarrow> string \<times> int \<Rightarrow> machine \<Rightarrow> machine option" where
  "write_frame_register frame r s = do {
     v \<leftarrow> exception_frame_qword s frame (snd r);
     Some (console_write_register s (fst r) v) }"

fun write_frame_registers :: "int \<Rightarrow> (string \<times> int) list \<Rightarrow> machine \<Rightarrow> machine option" where
  "write_frame_registers frame [] s = Some s"
| "write_frame_registers frame (r # rs) s = do {
     s \<leftarrow> write_frame_register frame r s;
     write_frame_registers frame rs s }"

text \<open>The result is the machine at the final \<^verbatim>\<open>seq_terminate\<close>, which never returns.\<close>

definition handle_exception :: "machine \<Rightarrow> int \<Rightarrow> int \<Rightarrow> int \<Rightarrow> machine option" where
  "handle_exception s frame vector error_code = do {
     let s = console_write s (CHR 0x0A # ''exception cpu='');
     let s = console_write_u64 s (read_apic_id s);
     let s = console_write s '' vector='';
     let s = console_write_u64 s vector;
     let s = serial_write_exception_name s vector;
     let s = console_write s '' error='';
     let s = console_write_hex s error_code;
     let s = console_write s [CHR 0x0A];
     let s = (if vector = 14 then
       serial_write_page_fault_bits
         (console_write (console_write_hex (console_write s ''cr2='') (cr2 s)) [CHR 0x0A]) error_code
       else s);
     write_frame_registers frame
       [(''rip'', 17), (''cs'', 18), (''rflags'', 19), (''rax'', 0), (''rbx'', 1), (''rcx'', 2), (''rdx'', 3),
        (''rsi'', 4), (''rdi'', 5), (''rbp'', 6), (''r8'', 7), (''r9'', 8), (''r10'', 9), (''r11'', 10),
        (''r12'', 11), (''r13'', 12), (''r14'', 13), (''r15'', 14)] s }"

section \<open>The interrupt table\<close>

text \<open>
  \<^verbatim>\<open>set_idt_gate_asm\<close> and \<^verbatim>\<open>set_idt_gate_user_asm\<close> write one 16-byte gate; they differ in the type
  byte, which decides whether user code may raise the interrupt.
\<close>

definition write_idt_gate :: "machine \<Rightarrow> int \<Rightarrow> int \<Rightarrow> int \<Rightarrow> int \<Rightarrow> machine" where
  "write_idt_gate s type index handler ist =
     (let a = symbol s ''idt_table'' + index * 16;
          m = le_store 2 (mem s) a handler;
          m = le_store 2 m (a + 2) 0x08;
          m = le_store 1 m (a + 4) ist;
          m = le_store 1 m (a + 5) type;
          m = le_store 2 m (a + 6) (handler mod 2 ^ 64 div 2 ^ 16);
          m = le_store 4 m (a + 8) (handler mod 2 ^ 64 div 2 ^ 32);
          m = le_store 4 m (a + 12) 0
      in s\<lparr>mem := m\<rparr>)"

definition set_idt_gate :: "machine \<Rightarrow> int \<Rightarrow> int \<Rightarrow> int \<Rightarrow> machine" where
  "set_idt_gate s index handler ist = write_idt_gate s 0x8E index handler ist"

definition set_idt_gate_user :: "machine \<Rightarrow> int \<Rightarrow> int \<Rightarrow> int \<Rightarrow> machine" where
  "set_idt_gate_user s index handler ist = write_idt_gate s 0xEE index handler ist"

text \<open>The table's limit and base are prepared in ten bytes of memory and then loaded into the processor's register.\<close>

definition set_idtr_asm :: "machine \<Rightarrow> int \<Rightarrow> int \<Rightarrow> machine" where
  "set_idtr_asm s limit base =
     s\<lparr>mem := le_store 8 (le_store 2 (mem s) (symbol s ''idtr'') limit) (symbol s ''idtr'' + 2) base\<rparr>"

definition load_idt_local :: "machine \<Rightarrow> machine" where
  "load_idt_local s =
     s\<lparr>idt_register := (le_load 2 (mem s) (symbol s ''idtr''), le_load 8 (mem s) (symbol s ''idtr'' + 2))\<rparr>"

definition init_idt :: "machine \<Rightarrow> machine" where
  "init_idt s =
     (let s = set_idt_gate s 0 (symbol s ''isr0'') 0;
          s = set_idt_gate s 8 (symbol s ''isr8'') 1;
          s = set_idt_gate s 13 (symbol s ''isr13'') 0;
          s = set_idt_gate s 14 (symbol s ''isr14'') 0;
          s = set_idt_gate s 32 (symbol s ''isr32'') 2;
          s = set_idt_gate_user s 128 (symbol s ''isr128'') 0;
          s = set_idtr_asm s (256 * 16 - 1) (symbol s ''idt_table'')
      in load_idt_local s)"

end
