(* ===== verification/Sched.thy ===== *)
theory Sched
  imports Vfs Devices
begin

text \<open>
  The scheduler's core, \<^verbatim>\<open>ksched.py\<close>: its state block, the task table, the ready queue, the choice of
  the next task, tick accounting, the parent relation and the switch between contexts.
\<close>

section \<open>Constants\<close>

definition context_slot_rsp :: int where "context_slot_rsp = 0"
definition context_slot_rbx :: int where "context_slot_rbx = 1"
definition context_slot_rbp :: int where "context_slot_rbp = 2"
definition context_slot_r12 :: int where "context_slot_r12 = 3"
definition context_slot_r13 :: int where "context_slot_r13 = 4"
definition context_slot_r14 :: int where "context_slot_r14 = 5"
definition context_slot_r15 :: int where "context_slot_r15 = 6"
definition context_slot_limit :: int where "context_slot_limit = 7"
definition task_slot_id :: int where "task_slot_id = 0"
definition task_slot_state :: int where "task_slot_state = 1"
definition task_slot_runtime_ticks :: int where "task_slot_runtime_ticks = 2"
definition task_slot_switches :: int where "task_slot_switches = 3"
definition task_slot_name_tag :: int where "task_slot_name_tag = 4"
definition task_slot_wait_ticks :: int where "task_slot_wait_ticks = 5"
definition task_slot_exit_code :: int where "task_slot_exit_code = 6"
definition task_slot_context_ptr :: int where "task_slot_context_ptr = 7"
definition task_slot_stack_base :: int where "task_slot_stack_base = 8"
definition task_slot_mode :: int where "task_slot_mode = 9"
definition task_slot_cr3 :: int where "task_slot_cr3 = 10"
definition task_slot_user_base :: int where "task_slot_user_base = 11"
definition task_slot_user_limit :: int where "task_slot_user_limit = 12"
definition task_slot_user_page_array_ptr :: int where "task_slot_user_page_array_ptr = 13"
definition task_slot_user_page_count :: int where "task_slot_user_page_count = 14"
definition task_slot_user_stack_phys :: int where "task_slot_user_stack_phys = 15"
definition task_slot_fd0_kind :: int where "task_slot_fd0_kind = 16"
definition task_slot_fd1_kind :: int where "task_slot_fd1_kind = 17"
definition task_slot_fd2_kind :: int where "task_slot_fd2_kind = 18"
definition task_slot_fd3_kind :: int where "task_slot_fd3_kind = 19"
definition task_slot_parent_pid :: int where "task_slot_parent_pid = 20"
definition task_slot_user_heap_base :: int where "task_slot_user_heap_base = 21"
definition task_slot_user_heap_limit :: int where "task_slot_user_heap_limit = 22"
definition task_slot_user_heap_break :: int where "task_slot_user_heap_break = 23"
definition task_slot_irq_frame_ptr :: int where "task_slot_irq_frame_ptr = 24"
definition task_slot_limit :: int where "task_slot_limit = 25"
definition task_state_empty :: int where "task_state_empty = 0"
definition task_state_runnable :: int where "task_state_runnable = 1"
definition task_state_waiting :: int where "task_state_waiting = 2"
definition task_state_exited :: int where "task_state_exited = 3"
definition task_mode_kernel :: int where "task_mode_kernel = 0"
definition task_mode_user :: int where "task_mode_user = 1"
definition task_fd_kind_closed :: int where "task_fd_kind_closed = 0"
definition task_fd_kind_console_in :: int where "task_fd_kind_console_in = 1"
definition task_fd_kind_console_out :: int where "task_fd_kind_console_out = 2"
definition max_tasks :: int where "max_tasks = 8"
definition ready_queue_capacity :: int where "ready_queue_capacity = 16"
definition task_stack_size :: int where "task_stack_size = 4096"
definition user_task_region_size :: int where "user_task_region_size = 0x200000"
definition user_page_size :: int where "user_page_size = 4096"
definition max_user_mapped_pages :: int where "max_user_mapped_pages = 69"
definition user_task_heap_pages :: int where "user_task_heap_pages = 4"
definition interrupt_frame_qword_count :: int where "interrupt_frame_qword_count = 20"
definition sched_slot_task_count :: int where "sched_slot_task_count = 0"
definition sched_slot_current_task :: int where "sched_slot_current_task = 1"
definition sched_slot_idle_task :: int where "sched_slot_idle_task = 2"
definition sched_slot_last_tick :: int where "sched_slot_last_tick = 3"
definition sched_slot_last_report :: int where "sched_slot_last_report = 4"
definition sched_slot_total_ticks :: int where "sched_slot_total_ticks = 5"
definition sched_slot_idle_ticks :: int where "sched_slot_idle_ticks = 6"
definition sched_slot_switch_count :: int where "sched_slot_switch_count = 7"
definition sched_slot_task_table_ptr :: int where "sched_slot_task_table_ptr = 8"
definition sched_slot_ready_queue_ptr :: int where "sched_slot_ready_queue_ptr = 9"
definition sched_slot_ready_head :: int where "sched_slot_ready_head = 10"
definition sched_slot_ready_tail :: int where "sched_slot_ready_tail = 11"
definition sched_slot_pmm_state :: int where "sched_slot_pmm_state = 12"
definition sched_slot_vmm_state :: int where "sched_slot_vmm_state = 13"
definition sched_slot_vfs_state :: int where "sched_slot_vfs_state = 14"
definition sched_slot_limit :: int where "sched_slot_limit = 15"
definition scheduler_user_page_flags_default :: int where "scheduler_user_page_flags_default = 0x005"
definition scheduler_user_page_flags_writable :: int where "scheduler_user_page_flags_writable = 0x007"

lemmas sched_const = context_slot_rsp_def context_slot_rbx_def context_slot_rbp_def
  context_slot_r12_def context_slot_r13_def context_slot_r14_def context_slot_r15_def
  context_slot_limit_def task_slot_id_def task_slot_state_def task_slot_runtime_ticks_def
  task_slot_switches_def task_slot_name_tag_def task_slot_wait_ticks_def task_slot_exit_code_def
  task_slot_context_ptr_def task_slot_stack_base_def task_slot_mode_def task_slot_cr3_def
  task_slot_user_base_def task_slot_user_limit_def task_slot_user_page_array_ptr_def
  task_slot_user_page_count_def task_slot_user_stack_phys_def task_slot_fd0_kind_def
  task_slot_fd1_kind_def task_slot_fd2_kind_def task_slot_fd3_kind_def task_slot_parent_pid_def
  task_slot_user_heap_base_def task_slot_user_heap_limit_def task_slot_user_heap_break_def
  task_slot_irq_frame_ptr_def task_slot_limit_def task_state_empty_def task_state_runnable_def
  task_state_waiting_def task_state_exited_def task_mode_kernel_def task_mode_user_def
  task_fd_kind_closed_def task_fd_kind_console_in_def task_fd_kind_console_out_def max_tasks_def
  ready_queue_capacity_def task_stack_size_def user_task_region_size_def user_page_size_def
  max_user_mapped_pages_def user_task_heap_pages_def interrupt_frame_qword_count_def
  sched_slot_task_count_def sched_slot_current_task_def sched_slot_idle_task_def
  sched_slot_last_tick_def sched_slot_last_report_def sched_slot_total_ticks_def
  sched_slot_idle_ticks_def sched_slot_switch_count_def sched_slot_task_table_ptr_def
  sched_slot_ready_queue_ptr_def sched_slot_ready_head_def sched_slot_ready_tail_def
  sched_slot_pmm_state_def sched_slot_vmm_state_def sched_slot_vfs_state_def sched_slot_limit_def
  scheduler_user_page_flags_default_def scheduler_user_page_flags_writable_def

definition user_task_region_base :: "int \<Rightarrow> int" where
  "user_task_region_base task_id = 0x20000000"

definition user_task_page_virt :: "int \<Rightarrow> int \<Rightarrow> int" where
  "user_task_page_virt task_id page_index = user_task_region_base task_id + page_index * user_page_size"

definition user_task_stack_base_virt :: "int \<Rightarrow> int \<Rightarrow> int" where
  "user_task_stack_base_virt task_id page_count = user_task_page_virt task_id (page_count - 1)"

definition user_task_stack_top :: "int \<Rightarrow> int \<Rightarrow> int" where
  "user_task_stack_top task_id page_count = user_task_page_virt task_id page_count"

definition task_kernel_rsp0_top :: "int \<Rightarrow> int" where
  "task_kernel_rsp0_top stack_base = align_down (stack_base + task_stack_size) 16"

section \<open>Accessors\<close>

definition scheduler_state_qword :: "machine \<Rightarrow> int \<Rightarrow> int \<Rightarrow> int option" where
  "scheduler_state_qword s state_ptr slot = load_qword_region s state_ptr sched_slot_limit slot"

definition set_scheduler_state_qword :: "machine \<Rightarrow> int \<Rightarrow> int \<Rightarrow> int \<Rightarrow> machine option" where
  "set_scheduler_state_qword s state_ptr slot v = store_qword_region s state_ptr sched_slot_limit slot v"

definition scheduler_task_entry_ptr :: "int \<Rightarrow> int \<Rightarrow> int option" where
  "scheduler_task_entry_ptr task_table_ptr task_id =
     (if task_id < 0 \<or> task_id \<ge> max_tasks then panic ''scheduler task id out of range''
      else Some (task_table_ptr + task_id * task_slot_limit * 8))"

definition scheduler_task_qword :: "machine \<Rightarrow> int \<Rightarrow> int \<Rightarrow> int \<Rightarrow> int option" where
  "scheduler_task_qword s task_table_ptr task_id slot = do {
     entry \<leftarrow> scheduler_task_entry_ptr task_table_ptr task_id;
     load_qword_region s entry task_slot_limit slot }"

definition set_scheduler_task_qword :: "machine \<Rightarrow> int \<Rightarrow> int \<Rightarrow> int \<Rightarrow> int \<Rightarrow> machine option" where
  "set_scheduler_task_qword s task_table_ptr task_id slot v = do {
     entry \<leftarrow> scheduler_task_entry_ptr task_table_ptr task_id;
     store_qword_region s entry task_slot_limit slot v }"

definition task_context_qword :: "machine \<Rightarrow> int \<Rightarrow> int \<Rightarrow> int option" where
  "task_context_qword s ctx_ptr slot = load_qword_region s ctx_ptr context_slot_limit slot"

definition set_task_context_qword :: "machine \<Rightarrow> int \<Rightarrow> int \<Rightarrow> int \<Rightarrow> machine option" where
  "set_task_context_qword s ctx_ptr slot v = store_qword_region s ctx_ptr context_slot_limit slot v"

definition ready_queue_qword :: "machine \<Rightarrow> int \<Rightarrow> int \<Rightarrow> int option" where
  "ready_queue_qword s queue_ptr slot = load_qword_region s queue_ptr ready_queue_capacity slot"

definition set_ready_queue_qword :: "machine \<Rightarrow> int \<Rightarrow> int \<Rightarrow> int \<Rightarrow> machine option" where
  "set_ready_queue_qword s queue_ptr slot v = store_qword_region s queue_ptr ready_queue_capacity slot v"

definition scheduler_task_count :: "machine \<Rightarrow> int \<Rightarrow> int option" where
  "scheduler_task_count s state_ptr = scheduler_state_qword s state_ptr sched_slot_task_count"

definition scheduler_current_task :: "machine \<Rightarrow> int \<Rightarrow> int option" where
  "scheduler_current_task s state_ptr = scheduler_state_qword s state_ptr sched_slot_current_task"

definition scheduler_idle_task :: "machine \<Rightarrow> int \<Rightarrow> int option" where
  "scheduler_idle_task s state_ptr = scheduler_state_qword s state_ptr sched_slot_idle_task"

definition scheduler_total_ticks :: "machine \<Rightarrow> int \<Rightarrow> int option" where
  "scheduler_total_ticks s state_ptr = scheduler_state_qword s state_ptr sched_slot_total_ticks"

definition scheduler_idle_ticks :: "machine \<Rightarrow> int \<Rightarrow> int option" where
  "scheduler_idle_ticks s state_ptr = scheduler_state_qword s state_ptr sched_slot_idle_ticks"

definition scheduler_switch_count :: "machine \<Rightarrow> int \<Rightarrow> int option" where
  "scheduler_switch_count s state_ptr = scheduler_state_qword s state_ptr sched_slot_switch_count"

definition scheduler_task_table_ptr :: "machine \<Rightarrow> int \<Rightarrow> int option" where
  "scheduler_task_table_ptr s state_ptr = scheduler_state_qword s state_ptr sched_slot_task_table_ptr"

definition scheduler_ready_queue_ptr :: "machine \<Rightarrow> int \<Rightarrow> int option" where
  "scheduler_ready_queue_ptr s state_ptr = scheduler_state_qword s state_ptr sched_slot_ready_queue_ptr"

definition scheduler_pmm_state :: "machine \<Rightarrow> int \<Rightarrow> int option" where
  "scheduler_pmm_state s state_ptr = scheduler_state_qword s state_ptr sched_slot_pmm_state"

definition scheduler_vmm_state :: "machine \<Rightarrow> int \<Rightarrow> int option" where
  "scheduler_vmm_state s state_ptr = scheduler_state_qword s state_ptr sched_slot_vmm_state"

definition scheduler_vfs_state :: "machine \<Rightarrow> int \<Rightarrow> int option" where
  "scheduler_vfs_state s state_ptr = scheduler_state_qword s state_ptr sched_slot_vfs_state"

definition scheduler_ready_size :: "machine \<Rightarrow> int \<Rightarrow> int option" where
  "scheduler_ready_size s state_ptr = do {
     head \<leftarrow> scheduler_state_qword s state_ptr sched_slot_ready_head;
     tail \<leftarrow> scheduler_state_qword s state_ptr sched_slot_ready_tail;
     Some (i64 (tail - head)) }"

definition scheduler_task_state :: "machine \<Rightarrow> int \<Rightarrow> int \<Rightarrow> int option" where
  "scheduler_task_state s state_ptr task_id = do {
     table \<leftarrow> scheduler_task_table_ptr s state_ptr;
     scheduler_task_qword s table task_id task_slot_state }"

definition scheduler_task_runtime_ticks :: "machine \<Rightarrow> int \<Rightarrow> int \<Rightarrow> int option" where
  "scheduler_task_runtime_ticks s state_ptr task_id = do {
     table \<leftarrow> scheduler_task_table_ptr s state_ptr;
     scheduler_task_qword s table task_id task_slot_runtime_ticks }"

definition scheduler_task_switches :: "machine \<Rightarrow> int \<Rightarrow> int \<Rightarrow> int option" where
  "scheduler_task_switches s state_ptr task_id = do {
     table \<leftarrow> scheduler_task_table_ptr s state_ptr;
     scheduler_task_qword s table task_id task_slot_switches }"

definition scheduler_task_name_tag :: "machine \<Rightarrow> int \<Rightarrow> int \<Rightarrow> int option" where
  "scheduler_task_name_tag s state_ptr task_id = do {
     table \<leftarrow> scheduler_task_table_ptr s state_ptr;
     scheduler_task_qword s table task_id task_slot_name_tag }"

definition scheduler_task_wait_ticks :: "machine \<Rightarrow> int \<Rightarrow> int \<Rightarrow> int option" where
  "scheduler_task_wait_ticks s state_ptr task_id = do {
     table \<leftarrow> scheduler_task_table_ptr s state_ptr;
     scheduler_task_qword s table task_id task_slot_wait_ticks }"

definition scheduler_task_exit_code :: "machine \<Rightarrow> int \<Rightarrow> int \<Rightarrow> int option" where
  "scheduler_task_exit_code s state_ptr task_id = do {
     table \<leftarrow> scheduler_task_table_ptr s state_ptr;
     scheduler_task_qword s table task_id task_slot_exit_code }"

definition scheduler_task_context_ptr :: "machine \<Rightarrow> int \<Rightarrow> int \<Rightarrow> int option" where
  "scheduler_task_context_ptr s state_ptr task_id = do {
     table \<leftarrow> scheduler_task_table_ptr s state_ptr;
     scheduler_task_qword s table task_id task_slot_context_ptr }"

definition scheduler_task_stack_base :: "machine \<Rightarrow> int \<Rightarrow> int \<Rightarrow> int option" where
  "scheduler_task_stack_base s state_ptr task_id = do {
     table \<leftarrow> scheduler_task_table_ptr s state_ptr;
     scheduler_task_qword s table task_id task_slot_stack_base }"

definition scheduler_task_mode :: "machine \<Rightarrow> int \<Rightarrow> int \<Rightarrow> int option" where
  "scheduler_task_mode s state_ptr task_id = do {
     table \<leftarrow> scheduler_task_table_ptr s state_ptr;
     scheduler_task_qword s table task_id task_slot_mode }"

definition scheduler_task_cr3 :: "machine \<Rightarrow> int \<Rightarrow> int \<Rightarrow> int option" where
  "scheduler_task_cr3 s state_ptr task_id = do {
     table \<leftarrow> scheduler_task_table_ptr s state_ptr;
     scheduler_task_qword s table task_id task_slot_cr3 }"

definition scheduler_task_user_base :: "machine \<Rightarrow> int \<Rightarrow> int \<Rightarrow> int option" where
  "scheduler_task_user_base s state_ptr task_id = do {
     table \<leftarrow> scheduler_task_table_ptr s state_ptr;
     scheduler_task_qword s table task_id task_slot_user_base }"

definition scheduler_task_user_limit :: "machine \<Rightarrow> int \<Rightarrow> int \<Rightarrow> int option" where
  "scheduler_task_user_limit s state_ptr task_id = do {
     table \<leftarrow> scheduler_task_table_ptr s state_ptr;
     scheduler_task_qword s table task_id task_slot_user_limit }"

definition scheduler_task_user_page_array_ptr :: "machine \<Rightarrow> int \<Rightarrow> int \<Rightarrow> int option" where
  "scheduler_task_user_page_array_ptr s state_ptr task_id = do {
     table \<leftarrow> scheduler_task_table_ptr s state_ptr;
     scheduler_task_qword s table task_id task_slot_user_page_array_ptr }"

definition scheduler_task_user_page_count :: "machine \<Rightarrow> int \<Rightarrow> int \<Rightarrow> int option" where
  "scheduler_task_user_page_count s state_ptr task_id = do {
     table \<leftarrow> scheduler_task_table_ptr s state_ptr;
     scheduler_task_qword s table task_id task_slot_user_page_count }"

definition scheduler_task_user_stack_phys :: "machine \<Rightarrow> int \<Rightarrow> int \<Rightarrow> int option" where
  "scheduler_task_user_stack_phys s state_ptr task_id = do {
     table \<leftarrow> scheduler_task_table_ptr s state_ptr;
     scheduler_task_qword s table task_id task_slot_user_stack_phys }"

definition scheduler_task_parent_pid :: "machine \<Rightarrow> int \<Rightarrow> int \<Rightarrow> int option" where
  "scheduler_task_parent_pid s state_ptr task_id = do {
     table \<leftarrow> scheduler_task_table_ptr s state_ptr;
     scheduler_task_qword s table task_id task_slot_parent_pid }"

definition scheduler_task_user_heap_base :: "machine \<Rightarrow> int \<Rightarrow> int \<Rightarrow> int option" where
  "scheduler_task_user_heap_base s state_ptr task_id = do {
     table \<leftarrow> scheduler_task_table_ptr s state_ptr;
     scheduler_task_qword s table task_id task_slot_user_heap_base }"

definition scheduler_task_user_heap_limit :: "machine \<Rightarrow> int \<Rightarrow> int \<Rightarrow> int option" where
  "scheduler_task_user_heap_limit s state_ptr task_id = do {
     table \<leftarrow> scheduler_task_table_ptr s state_ptr;
     scheduler_task_qword s table task_id task_slot_user_heap_limit }"

definition scheduler_task_user_heap_break :: "machine \<Rightarrow> int \<Rightarrow> int \<Rightarrow> int option" where
  "scheduler_task_user_heap_break s state_ptr task_id = do {
     table \<leftarrow> scheduler_task_table_ptr s state_ptr;
     scheduler_task_qword s table task_id task_slot_user_heap_break }"

definition scheduler_task_irq_frame_ptr :: "machine \<Rightarrow> int \<Rightarrow> int \<Rightarrow> int option" where
  "scheduler_task_irq_frame_ptr s state_ptr task_id = do {
     table \<leftarrow> scheduler_task_table_ptr s state_ptr;
     scheduler_task_qword s table task_id task_slot_irq_frame_ptr }"

definition scheduler_set_task_state :: "machine \<Rightarrow> int \<Rightarrow> int \<Rightarrow> int \<Rightarrow> machine option" where
  "scheduler_set_task_state s state_ptr task_id v = do {
     table \<leftarrow> scheduler_task_table_ptr s state_ptr;
     set_scheduler_task_qword s table task_id task_slot_state v }"

definition scheduler_set_task_wait_ticks :: "machine \<Rightarrow> int \<Rightarrow> int \<Rightarrow> int \<Rightarrow> machine option" where
  "scheduler_set_task_wait_ticks s state_ptr task_id v = do {
     table \<leftarrow> scheduler_task_table_ptr s state_ptr;
     set_scheduler_task_qword s table task_id task_slot_wait_ticks v }"

definition scheduler_set_task_exit_code :: "machine \<Rightarrow> int \<Rightarrow> int \<Rightarrow> int \<Rightarrow> machine option" where
  "scheduler_set_task_exit_code s state_ptr task_id v = do {
     table \<leftarrow> scheduler_task_table_ptr s state_ptr;
     set_scheduler_task_qword s table task_id task_slot_exit_code v }"

definition scheduler_set_task_user_heap_break :: "machine \<Rightarrow> int \<Rightarrow> int \<Rightarrow> int \<Rightarrow> machine option" where
  "scheduler_set_task_user_heap_break s state_ptr task_id v = do {
     table \<leftarrow> scheduler_task_table_ptr s state_ptr;
     set_scheduler_task_qword s table task_id task_slot_user_heap_break v }"

lemmas sched_getters = scheduler_task_count_def scheduler_current_task_def scheduler_idle_task_def
  scheduler_total_ticks_def scheduler_idle_ticks_def scheduler_switch_count_def
  scheduler_task_table_ptr_def scheduler_ready_queue_ptr_def scheduler_pmm_state_def
  scheduler_vmm_state_def scheduler_vfs_state_def scheduler_task_state_def
  scheduler_task_runtime_ticks_def scheduler_task_switches_def scheduler_task_name_tag_def
  scheduler_task_wait_ticks_def scheduler_task_exit_code_def scheduler_task_context_ptr_def
  scheduler_task_stack_base_def scheduler_task_mode_def scheduler_task_cr3_def
  scheduler_task_user_base_def scheduler_task_user_limit_def scheduler_task_user_page_array_ptr_def
  scheduler_task_user_page_count_def scheduler_task_user_stack_phys_def
  scheduler_task_parent_pid_def scheduler_task_user_heap_base_def scheduler_task_user_heap_limit_def
  scheduler_task_user_heap_break_def scheduler_task_irq_frame_ptr_def

lemmas sched_setters = scheduler_set_task_state_def scheduler_set_task_wait_ticks_def scheduler_set_task_exit_code_def scheduler_set_task_user_heap_break_def

section \<open>Descriptors of a task\<close>

definition task_fd_slot :: "int \<Rightarrow> int" where
  "task_fd_slot fd =
     (if fd = 0 then task_slot_fd0_kind
      else if fd = 1 then task_slot_fd1_kind
      else if fd = 2 then task_slot_fd2_kind
      else if fd = 3 then task_slot_fd3_kind
      else - 1)"

definition scheduler_task_fd_object :: "machine \<Rightarrow> int \<Rightarrow> int \<Rightarrow> int \<Rightarrow> int option" where
  "scheduler_task_fd_object s state_ptr task_id fd =
     (let slot = task_fd_slot fd
      in if slot < 0 then Some 0
         else do {
           table \<leftarrow> scheduler_task_table_ptr s state_ptr;
           scheduler_task_qword s table task_id slot })"

definition scheduler_set_task_fd_object :: "machine \<Rightarrow> int \<Rightarrow> int \<Rightarrow> int \<Rightarrow> int \<Rightarrow> machine option" where
  "scheduler_set_task_fd_object s state_ptr task_id fd desc_id =
     (let slot = task_fd_slot fd
      in if slot < 0 then panic ''task fd out of range''
         else do {
           table \<leftarrow> scheduler_task_table_ptr s state_ptr;
           set_scheduler_task_qword s table task_id slot desc_id })"

definition scheduler_init_task_fds :: "machine \<Rightarrow> int \<Rightarrow> int \<Rightarrow> machine option" where
  "scheduler_init_task_fds s state_ptr task_id = do {
     vfs_state \<leftarrow> scheduler_vfs_state s state_ptr;
     (fd0, s) \<leftarrow> vfs_alloc_console_in_descriptor s vfs_state;
     (fd1, s) \<leftarrow> vfs_alloc_console_out_descriptor s vfs_state;
     (fd2, s) \<leftarrow> vfs_alloc_console_out_descriptor s vfs_state;
     if fd0 = 0 \<or> fd1 = 0 \<or> fd2 = 0 then panic ''task fd alloc failed''
     else do {
       s \<leftarrow> scheduler_set_task_fd_object s state_ptr task_id 0 fd0;
       s \<leftarrow> scheduler_set_task_fd_object s state_ptr task_id 1 fd1;
       s \<leftarrow> scheduler_set_task_fd_object s state_ptr task_id 2 fd2;
       scheduler_set_task_fd_object s state_ptr task_id 3 0 } }"

definition scheduler_release_task_fds :: "machine \<Rightarrow> int \<Rightarrow> int \<Rightarrow> machine option" where
  "scheduler_release_task_fds s state_ptr task_id = do {
     vfs_state \<leftarrow> scheduler_vfs_state s state_ptr;
     for_range 0 4 (\<lambda>fd s. do {
       desc_id \<leftarrow> scheduler_task_fd_object s state_ptr task_id fd;
       if desc_id \<noteq> 0 then do {
         (_, s) \<leftarrow> vfs_close_descriptor s vfs_state desc_id;
         scheduler_set_task_fd_object s state_ptr task_id fd 0 }
       else Some s }) s }"

section \<open>The task table\<close>

definition scheduler_clear_task :: "machine \<Rightarrow> int \<Rightarrow> int \<Rightarrow> machine option" where
  "scheduler_clear_task s task_table_ptr task_id =
     for_range 0 task_slot_limit (\<lambda>slot s. set_scheduler_task_qword s task_table_ptr task_id slot 0) s"

definition scheduler_find_free_task_id :: "machine \<Rightarrow> int \<Rightarrow> int option" where
  "scheduler_find_free_task_id s state_ptr = do {
     limit \<leftarrow> scheduler_task_count s state_ptr;
     found \<leftarrow> for_range 0 limit (\<lambda>task_id found. if found \<ge> 0 then Some found else do {
       st \<leftarrow> scheduler_task_state s state_ptr task_id;
       Some (if st = task_state_empty then task_id else - 1) }) (- 1);
     if found \<ge> 0 then Some found
     else if limit \<ge> max_tasks then panic ''scheduler task table full''
     else Some limit }"

text \<open>The loop that lowers the task count past empty slots at the end of the table.\<close>

function scheduler_trim_count :: "machine \<Rightarrow> int \<Rightarrow> int \<Rightarrow> int option" where
  "scheduler_trim_count s state_ptr task_count =
     (if task_count > 0 then do {
        st \<leftarrow> scheduler_task_state s state_ptr (task_count - 1);
        if st \<noteq> task_state_empty then Some task_count
        else scheduler_trim_count s state_ptr (task_count - 1) }
      else Some task_count)"
  by pat_completeness auto
termination
  by (relation "measure (\<lambda>(s, p, n). nat n)") auto

declare scheduler_trim_count.simps [simp del]

definition scheduler_release_task_slot :: "machine \<Rightarrow> int \<Rightarrow> int \<Rightarrow> machine option" where
  "scheduler_release_task_slot s state_ptr task_id = do {
     task_table_ptr \<leftarrow> scheduler_task_table_ptr s state_ptr;
     s \<leftarrow> scheduler_release_task_fds s state_ptr task_id;
     s \<leftarrow> scheduler_clear_task s task_table_ptr task_id;
     task_count \<leftarrow> scheduler_task_count s state_ptr;
     task_count \<leftarrow> scheduler_trim_count s state_ptr task_count;
     set_scheduler_state_qword s state_ptr sched_slot_task_count task_count }"

definition scheduler_runnable_count :: "machine \<Rightarrow> int \<Rightarrow> int option" where
  "scheduler_runnable_count s state_ptr = do {
     count \<leftarrow> scheduler_task_count s state_ptr;
     for_range 0 count (\<lambda>task_id runnable. do {
       st \<leftarrow> scheduler_task_state s state_ptr task_id;
       Some (if st = task_state_runnable then runnable + 1 else runnable) }) 0 }"

section \<open>The ready queue\<close>

definition scheduler_enqueue_task :: "machine \<Rightarrow> int \<Rightarrow> int \<Rightarrow> machine option" where
  "scheduler_enqueue_task s state_ptr task_id =
     (if task_id < 0 \<or> task_id \<ge> max_tasks then panic ''scheduler enqueue task id out of range''
      else do {
        sz \<leftarrow> scheduler_ready_size s state_ptr;
        if sz \<ge> ready_queue_capacity then panic ''scheduler ready queue full''
        else do {
          queue_ptr \<leftarrow> scheduler_ready_queue_ptr s state_ptr;
          tail \<leftarrow> scheduler_state_qword s state_ptr sched_slot_ready_tail;
          s \<leftarrow> set_ready_queue_qword s queue_ptr (tail mod ready_queue_capacity) task_id;
          set_scheduler_state_qword s state_ptr sched_slot_ready_tail (tail + 1) } })"

definition scheduler_dequeue_task :: "machine \<Rightarrow> int \<Rightarrow> (int \<times> machine) option" where
  "scheduler_dequeue_task s state_ptr = do {
     sz \<leftarrow> scheduler_ready_size s state_ptr;
     if sz = 0 then do { idle \<leftarrow> scheduler_idle_task s state_ptr; Some (idle, s) }
     else do {
       queue_ptr \<leftarrow> scheduler_ready_queue_ptr s state_ptr;
       head \<leftarrow> scheduler_state_qword s state_ptr sched_slot_ready_head;
       task_id \<leftarrow> ready_queue_qword s queue_ptr (head mod ready_queue_capacity);
       s \<leftarrow> set_scheduler_state_qword s state_ptr sched_slot_ready_head (head + 1);
       Some (task_id, s) } }"

section \<open>Accounting and the choice of the next task\<close>

definition scheduler_add_runtime_ticks :: "machine \<Rightarrow> int \<Rightarrow> int \<Rightarrow> int \<Rightarrow> machine option" where
  "scheduler_add_runtime_ticks s state_ptr task_id delta = do {
     table_ptr \<leftarrow> scheduler_task_table_ptr s state_ptr;
     current \<leftarrow> scheduler_task_qword s table_ptr task_id task_slot_runtime_ticks;
     set_scheduler_task_qword s table_ptr task_id task_slot_runtime_ticks (current + delta) }"

definition scheduler_record_switch :: "machine \<Rightarrow> int \<Rightarrow> int \<Rightarrow> machine option" where
  "scheduler_record_switch s state_ptr task_id = do {
     table_ptr \<leftarrow> scheduler_task_table_ptr s state_ptr;
     current \<leftarrow> scheduler_task_qword s table_ptr task_id task_slot_switches;
     set_scheduler_task_qword s table_ptr task_id task_slot_switches (current + 1) }"

text \<open>The loop of \<open>scheduler_pick_next_task\<close>: take tasks off the queue until one is runnable.\<close>

function scheduler_pick_loop :: "machine \<Rightarrow> int \<Rightarrow> int \<Rightarrow> int \<Rightarrow> (int \<times> machine) option" where
  "scheduler_pick_loop s state_ptr attempts next_task =
     (if attempts > 0 then do {
        (candidate, s) \<leftarrow> scheduler_dequeue_task s state_ptr;
        idle \<leftarrow> scheduler_idle_task s state_ptr;
        if candidate = idle then scheduler_pick_loop s state_ptr (attempts - 1) next_task
        else do {
          st \<leftarrow> scheduler_task_state s state_ptr candidate;
          if st = task_state_runnable then Some (candidate, s)
          else scheduler_pick_loop s state_ptr (attempts - 1) next_task } }
      else Some (next_task, s))"
  by pat_completeness auto
termination
  by (relation "measure (\<lambda>(s, p, n, t). nat n)") auto

declare scheduler_pick_loop.simps [simp del]

definition scheduler_pick_next_task :: "machine \<Rightarrow> int \<Rightarrow> (int \<times> machine) option" where
  "scheduler_pick_next_task s state_ptr = do {
     current_task \<leftarrow> scheduler_current_task s state_ptr;
     idle \<leftarrow> scheduler_idle_task s state_ptr;
     s \<leftarrow> (if current_task \<noteq> idle then do {
         st \<leftarrow> scheduler_task_state s state_ptr current_task;
         if st = task_state_runnable then scheduler_enqueue_task s state_ptr current_task else Some s }
       else Some s);
     sz \<leftarrow> scheduler_ready_size s state_ptr;
     next_task \<leftarrow> scheduler_idle_task s state_ptr;
     (next_task, s) \<leftarrow> scheduler_pick_loop s state_ptr (sz + 1) next_task;
     s \<leftarrow> set_scheduler_state_qword s state_ptr sched_slot_current_task next_task;
     switches \<leftarrow> scheduler_switch_count s state_ptr;
     s \<leftarrow> set_scheduler_state_qword s state_ptr sched_slot_switch_count (switches + 1);
     s \<leftarrow> scheduler_record_switch s state_ptr next_task;
     Some (next_task, s) }"

definition scheduler_account_tick :: "machine \<Rightarrow> int \<Rightarrow> int \<Rightarrow> (int \<times> machine) option" where
  "scheduler_account_tick s state_ptr now = do {
     last_tick \<leftarrow> scheduler_state_qword s state_ptr sched_slot_last_tick;
     if now \<le> last_tick then Some (0, s)
     else do {
       let delta = i64 (now - last_tick);
       current_task \<leftarrow> scheduler_current_task s state_ptr;
       s \<leftarrow> set_scheduler_state_qword s state_ptr sched_slot_last_tick now;
       total \<leftarrow> scheduler_total_ticks s state_ptr;
       s \<leftarrow> set_scheduler_state_qword s state_ptr sched_slot_total_ticks (total + delta);
       s \<leftarrow> scheduler_add_runtime_ticks s state_ptr current_task delta;
       idle \<leftarrow> scheduler_idle_task s state_ptr;
       s \<leftarrow> (if current_task = idle then do {
           idle_ticks \<leftarrow> scheduler_idle_ticks s state_ptr;
           set_scheduler_state_qword s state_ptr sched_slot_idle_ticks (idle_ticks + delta) }
         else Some s);
       Some (delta, s) } }"

section \<open>Parents and children\<close>

definition scheduler_reparent_target :: "machine \<Rightarrow> int \<Rightarrow> int \<Rightarrow> int option" where
  "scheduler_reparent_target s state_ptr current_task = do {
     count \<leftarrow> (if current_task \<noteq> 1 then scheduler_task_count s state_ptr else Some 0);
     if current_task \<noteq> 1 \<and> count > 1 then Some 1 else scheduler_idle_task s state_ptr }"

definition scheduler_reparent_children :: "machine \<Rightarrow> int \<Rightarrow> int \<Rightarrow> int \<Rightarrow> machine option" where
  "scheduler_reparent_children s state_ptr parent_pid new_parent_pid = do {
     task_table_ptr \<leftarrow> scheduler_task_table_ptr s state_ptr;
     count \<leftarrow> scheduler_task_count s state_ptr;
     for_range 0 count (\<lambda>task_id s. do {
       st \<leftarrow> scheduler_task_state s state_ptr task_id;
       if st \<noteq> task_state_empty then do {
         parent \<leftarrow> scheduler_task_parent_pid s state_ptr task_id;
         if parent = parent_pid
         then set_scheduler_task_qword s task_table_ptr task_id task_slot_parent_pid new_parent_pid
         else Some s }
       else Some s }) s }"

definition scheduler_find_child :: "machine \<Rightarrow> int \<Rightarrow> int \<Rightarrow> int \<Rightarrow> int option" where
  "scheduler_find_child s state_ptr parent_pid require_exited = do {
     count \<leftarrow> scheduler_task_count s state_ptr;
     for_range 0 count (\<lambda>task_id found. if found \<ge> 0 then Some found else do {
       st \<leftarrow> scheduler_task_state s state_ptr task_id;
       if st \<noteq> task_state_empty then do {
         parent \<leftarrow> scheduler_task_parent_pid s state_ptr task_id;
         if parent = parent_pid \<and> (require_exited = 0 \<or> st = task_state_exited) then Some task_id
         else Some (- 1) }
       else Some (- 1) }) (- 1) }"

definition scheduler_brk :: "machine \<Rightarrow> int \<Rightarrow> int \<Rightarrow> int \<Rightarrow> (int \<times> machine) option" where
  "scheduler_brk s state_ptr task_id requested = do {
     heap_base \<leftarrow> scheduler_task_user_heap_base s state_ptr task_id;
     heap_limit \<leftarrow> scheduler_task_user_heap_limit s state_ptr task_id;
     current_break \<leftarrow> scheduler_task_user_heap_break s state_ptr task_id;
     mode \<leftarrow> scheduler_task_mode s state_ptr task_id;
     if mode \<noteq> task_mode_user then Some (- 1, s)
     else if requested = 0 then Some (current_break, s)
     else if requested < heap_base \<or> requested > heap_limit then Some (- 1, s)
     else do {
       s \<leftarrow> scheduler_set_task_user_heap_break s state_ptr task_id requested;
       Some (requested, s) } }"

section \<open>Switching contexts\<close>

text \<open>
  A context switch leaves the caller until another task switches back.  What runs in between is the
  argument \<open>others\<close>: from the machine in which the new context has just been loaded to the machine in
  which the old one is loaded again, \<^const>\<open>None\<close> when that never happens.
\<close>

definition scheduler_enter_context :: "machine \<Rightarrow> int \<Rightarrow> int \<Rightarrow> int \<Rightarrow> machine option" where
  "scheduler_enter_context s state_ptr old_task next_task = do {
     old_ctx_ptr \<leftarrow> scheduler_task_context_ptr s state_ptr old_task;
     new_ctx_ptr \<leftarrow> scheduler_task_context_ptr s state_ptr next_task;
     stack_base \<leftarrow> scheduler_task_stack_base s state_ptr next_task;
     let s = set_tss_rsp0 s (task_kernel_rsp0_top stack_base);
     root \<leftarrow> scheduler_task_cr3 s state_ptr next_task;
     let s = load_cr3 s root;
     Some (context_switch s old_ctx_ptr new_ctx_ptr) }"

definition scheduler_switch_to_task ::
    "(machine \<Rightarrow> machine option) \<Rightarrow> machine \<Rightarrow> int \<Rightarrow> int \<Rightarrow> int \<Rightarrow> (int \<times> machine) option" where
  "scheduler_switch_to_task others s state_ptr old_task next_task =
     (if next_task = old_task then Some (next_task, s)
      else do {
        s \<leftarrow> scheduler_enter_context s state_ptr old_task next_task;
        s \<leftarrow> others s;
        current \<leftarrow> scheduler_current_task s state_ptr;
        Some (current, s) })"

definition scheduler_yield_current_task :: "(machine \<Rightarrow> machine option) \<Rightarrow> machine \<Rightarrow> int \<Rightarrow> (int \<times> machine) option" where
  "scheduler_yield_current_task others s state_ptr = do {
     old_task \<leftarrow> scheduler_current_task s state_ptr;
     (next_task, s) \<leftarrow> scheduler_pick_next_task s state_ptr;
     scheduler_switch_to_task others s state_ptr old_task next_task }"

definition scheduler_timer_interrupt ::
    "(machine \<Rightarrow> machine option) \<Rightarrow> machine \<Rightarrow> int \<Rightarrow> int \<Rightarrow> (int \<times> machine) option" where
  "scheduler_timer_interrupt others s state_ptr allow_preempt = do {
     let now = current_kernel_ticks s;
     (delta, s) \<leftarrow> scheduler_account_tick s state_ptr now;
     if delta = 0 then do { t \<leftarrow> scheduler_current_task s state_ptr; Some (t, s) }
     else if allow_preempt = 0 then do { t \<leftarrow> scheduler_current_task s state_ptr; Some (t, s) }
     else do {
       n \<leftarrow> scheduler_runnable_count s state_ptr;
       if n \<le> 1 then do { t \<leftarrow> scheduler_current_task s state_ptr; Some (t, s) }
       else scheduler_yield_current_task others s state_ptr } }"

text \<open>
  \<^verbatim>\<open>restore_task_context\<close> does not come back: the result of a function that ends in it is the machine
  in which the restored context takes over.
\<close>

definition scheduler_resume_task_context :: "machine \<Rightarrow> int \<Rightarrow> int \<Rightarrow> machine option" where
  "scheduler_resume_task_context s state_ptr task_id = do {
     stack_base \<leftarrow> scheduler_task_stack_base s state_ptr task_id;
     let s = set_tss_rsp0 s (task_kernel_rsp0_top stack_base);
     root \<leftarrow> scheduler_task_cr3 s state_ptr task_id;
     let s = load_cr3 s root;
     ctx_ptr \<leftarrow> scheduler_task_context_ptr s state_ptr task_id;
     Some (restore_task_context s ctx_ptr) }"

definition scheduler_enter_first_task :: "machine \<Rightarrow> int \<Rightarrow> machine option" where
  "scheduler_enter_first_task s state_ptr = do {
     current_task \<leftarrow> scheduler_current_task s state_ptr;
     stack_base \<leftarrow> scheduler_task_stack_base s state_ptr current_task;
     let s = set_tss_rsp0 s (task_kernel_rsp0_top stack_base);
     root \<leftarrow> scheduler_task_cr3 s state_ptr current_task;
     let s = load_cr3 s root;
     ctx_ptr \<leftarrow> scheduler_task_context_ptr s state_ptr current_task;
     Some (restore_task_context s ctx_ptr) }"

definition scheduler_configure_interrupt_return_context :: "machine \<Rightarrow> int \<Rightarrow> int \<Rightarrow> int \<Rightarrow> machine option" where
  "scheduler_configure_interrupt_return_context s ctx_ptr stack_base frame_ptr = do {
     let stack_top = align_down (stack_base + task_stack_size) 16;
     let initial_rsp = stack_top - 8;
     s \<leftarrow> store_qword_region s initial_rsp 1 0 (interrupt_return_trampoline_addr s);
     s \<leftarrow> set_task_context_qword s ctx_ptr context_slot_rsp initial_rsp;
     s \<leftarrow> set_task_context_qword s ctx_ptr context_slot_rbx 0;
     s \<leftarrow> set_task_context_qword s ctx_ptr context_slot_rbp 0;
     s \<leftarrow> set_task_context_qword s ctx_ptr context_slot_r12 frame_ptr;
     s \<leftarrow> set_task_context_qword s ctx_ptr context_slot_r13 0;
     s \<leftarrow> set_task_context_qword s ctx_ptr context_slot_r14 0;
     set_task_context_qword s ctx_ptr context_slot_r15 0 }"

definition scheduler_copy_interrupt_frame :: "machine \<Rightarrow> int \<Rightarrow> int \<Rightarrow> machine option" where
  "scheduler_copy_interrupt_frame s dst_ptr src_ptr =
     for_range 0 interrupt_frame_qword_count (\<lambda>slot s. do {
       v \<leftarrow> load_qword_region s src_ptr interrupt_frame_qword_count slot;
       store_qword_region s dst_ptr interrupt_frame_qword_count slot v }) s"

definition scheduler_save_user_irq_context :: "machine \<Rightarrow> int \<Rightarrow> int \<Rightarrow> int \<Rightarrow> machine option" where
  "scheduler_save_user_irq_context s state_ptr task_id frame_ptr = do {
     irq_frame_ptr \<leftarrow> scheduler_task_irq_frame_ptr s state_ptr task_id;
     ctx_ptr \<leftarrow> scheduler_task_context_ptr s state_ptr task_id;
     stack_base \<leftarrow> scheduler_task_stack_base s state_ptr task_id;
     if irq_frame_ptr = 0 then panic ''scheduler missing irq frame buffer''
     else do {
       s \<leftarrow> scheduler_copy_interrupt_frame s irq_frame_ptr frame_ptr;
       scheduler_configure_interrupt_return_context s ctx_ptr stack_base irq_frame_ptr } }"

definition scheduler_timer_irq :: "machine \<Rightarrow> int \<Rightarrow> int \<Rightarrow> int \<Rightarrow> (int \<times> machine) option" where
  "scheduler_timer_irq s state_ptr frame_ptr code_segment = do {
     let now = current_kernel_ticks s;
     (delta, s) \<leftarrow> scheduler_account_tick s state_ptr now;
     current_task \<leftarrow> scheduler_current_task s state_ptr;
     if delta = 0 then Some (current_task, s)
     else if code_segment AND 0x3 \<noteq> 0x3 then Some (current_task, s)
     else do {
       mode \<leftarrow> scheduler_task_mode s state_ptr current_task;
       if mode \<noteq> task_mode_user then Some (current_task, s)
       else do {
         n \<leftarrow> scheduler_runnable_count s state_ptr;
         if n \<le> 1 then Some (current_task, s)
         else do {
           (next_task, s) \<leftarrow> scheduler_pick_next_task s state_ptr;
           if next_task = current_task then Some (current_task, s)
           else do {
             s \<leftarrow> scheduler_save_user_irq_context s state_ptr current_task frame_ptr;
             s \<leftarrow> scheduler_resume_task_context s state_ptr next_task;
             Some (next_task, s) } } } } }"

definition scheduler_exit_current_task :: "machine \<Rightarrow> int \<Rightarrow> int \<Rightarrow> machine option" where
  "scheduler_exit_current_task s state_ptr exit_code = do {
     current_task \<leftarrow> scheduler_current_task s state_ptr;
     idle \<leftarrow> scheduler_idle_task s state_ptr;
     if current_task = idle then panic ''cannot exit idle task''
     else do {
       target \<leftarrow> scheduler_reparent_target s state_ptr current_task;
       s \<leftarrow> scheduler_reparent_children s state_ptr current_task target;
       s \<leftarrow> scheduler_set_task_state s state_ptr current_task task_state_exited;
       s \<leftarrow> scheduler_set_task_exit_code s state_ptr current_task exit_code;
       (next_task, s) \<leftarrow> scheduler_pick_next_task s state_ptr;
       if next_task = current_task then panic ''exited task resumed''
       else scheduler_enter_context s state_ptr current_task next_task } }"

end
