(* ===== verification/Elf.thy ===== *)
theory Elf
  imports Console
begin

text \<open>
  The ELF reader and validator, \<^verbatim>\<open>kelf.py\<close>.  An image is a range of memory; every access goes
  through the checked byte accessor, so reading outside the image halts the kernel.  The validator
  is compared with a specification on the list of loadable segments.
\<close>

section \<open>Constants\<close>

definition elf_magic0 :: int where "elf_magic0 = 0x7F"
definition elf_magic1 :: int where "elf_magic1 = 0x45"
definition elf_magic2 :: int where "elf_magic2 = 0x4C"
definition elf_magic3 :: int where "elf_magic3 = 0x46"
definition elf_class_64 :: int where "elf_class_64 = 2"
definition elf_data_little :: int where "elf_data_little = 1"
definition elf_type_exec :: int where "elf_type_exec = 2"
definition elf_machine_x86_64 :: int where "elf_machine_x86_64 = 62"
definition elf_pt_load :: int where "elf_pt_load = 1"
definition elf_pf_x :: int where "elf_pf_x = 1"
definition elf_pf_w :: int where "elf_pf_w = 2"
definition elf_pf_r :: int where "elf_pf_r = 4"
definition elf_page_size :: int where "elf_page_size = 4096"
definition elf_max_user_pages :: int where "elf_max_user_pages = 64"

section \<open>Readers\<close>

definition elf_align_up :: "int \<Rightarrow> int \<Rightarrow> int" where
  "elf_align_up v align = i64 (v + align - 1) AND NOT (align - 1)"

definition elf_u16 :: "machine \<Rightarrow> int \<Rightarrow> int \<Rightarrow> int \<Rightarrow> int option" where
  "elf_u16 s image_ptr image_len offset = do {
     b0 \<leftarrow> load_byte_region s image_ptr image_len offset;
     b1 \<leftarrow> load_byte_region s image_ptr image_len (i64 (offset + 1));
     Some (b0 OR push_bit 8 b1) }"

definition elf_bytes :: "int \<Rightarrow> machine \<Rightarrow> int \<Rightarrow> int \<Rightarrow> int \<Rightarrow> int option" where
  "elf_bytes n s image_ptr image_len offset = do {
     (v, shift) \<leftarrow> for_range 0 n (\<lambda>i (v, shift). do {
       b \<leftarrow> load_byte_region s image_ptr image_len (i64 (offset + i));
       Some (v OR i64 (push_bit shift b), shift + 8) }) (0 :: int, 0 :: nat);
     Some v }"

definition elf_u32 :: "machine \<Rightarrow> int \<Rightarrow> int \<Rightarrow> int \<Rightarrow> int option" where
  "elf_u32 s image_ptr image_len offset = elf_bytes 4 s image_ptr image_len offset"

definition elf_u64 :: "machine \<Rightarrow> int \<Rightarrow> int \<Rightarrow> int \<Rightarrow> int option" where
  "elf_u64 s image_ptr image_len offset = elf_bytes 8 s image_ptr image_len offset"

definition elf_validate_header :: "machine \<Rightarrow> int \<Rightarrow> int \<Rightarrow> bool option" where
  "elf_validate_header s image_ptr image_len =
     (if image_len < 64 then Some False else do {
     b \<leftarrow> load_byte_region s image_ptr image_len 0;
     if b \<noteq> elf_magic0 then Some False else do {
     b \<leftarrow> load_byte_region s image_ptr image_len 1;
     if b \<noteq> elf_magic1 then Some False else do {
     b \<leftarrow> load_byte_region s image_ptr image_len 2;
     if b \<noteq> elf_magic2 then Some False else do {
     b \<leftarrow> load_byte_region s image_ptr image_len 3;
     if b \<noteq> elf_magic3 then Some False else do {
     b \<leftarrow> load_byte_region s image_ptr image_len 4;
     if b \<noteq> elf_class_64 then Some False else do {
     b \<leftarrow> load_byte_region s image_ptr image_len 5;
     if b \<noteq> elf_data_little then Some False else do {
     t \<leftarrow> elf_u16 s image_ptr image_len 16;
     if t \<noteq> elf_type_exec then Some False else do {
     m \<leftarrow> elf_u16 s image_ptr image_len 18;
     if m \<noteq> elf_machine_x86_64 then Some False else Some True } } } } } } } })"

definition elf_entry_offset :: "machine \<Rightarrow> int \<Rightarrow> int \<Rightarrow> int option" where
  "elf_entry_offset s image_ptr image_len = elf_u64 s image_ptr image_len 24"

definition elf_phoff :: "machine \<Rightarrow> int \<Rightarrow> int \<Rightarrow> int option" where
  "elf_phoff s image_ptr image_len = elf_u64 s image_ptr image_len 32"

definition elf_phentsize :: "machine \<Rightarrow> int \<Rightarrow> int \<Rightarrow> int option" where
  "elf_phentsize s image_ptr image_len = elf_u16 s image_ptr image_len 54"

definition elf_phnum :: "machine \<Rightarrow> int \<Rightarrow> int \<Rightarrow> int option" where
  "elf_phnum s image_ptr image_len = elf_u16 s image_ptr image_len 56"

definition elf_segment_offset :: "machine \<Rightarrow> int \<Rightarrow> int \<Rightarrow> int \<Rightarrow> int option" where
  "elf_segment_offset s image_ptr image_len ph_index = do {
     phoff \<leftarrow> elf_phoff s image_ptr image_len;
     entsize \<leftarrow> elf_phentsize s image_ptr image_len;
     Some (i64 (phoff + ph_index * entsize)) }"

definition elf_segment_type :: "machine \<Rightarrow> int \<Rightarrow> int \<Rightarrow> int \<Rightarrow> int option" where
  "elf_segment_type s image_ptr image_len ph_index = do {
     off \<leftarrow> elf_segment_offset s image_ptr image_len ph_index;
     elf_u32 s image_ptr image_len (i64 (off + 0)) }"

definition elf_segment_flags :: "machine \<Rightarrow> int \<Rightarrow> int \<Rightarrow> int \<Rightarrow> int option" where
  "elf_segment_flags s image_ptr image_len ph_index = do {
     off \<leftarrow> elf_segment_offset s image_ptr image_len ph_index;
     elf_u32 s image_ptr image_len (i64 (off + 4)) }"

definition elf_segment_file_offset :: "machine \<Rightarrow> int \<Rightarrow> int \<Rightarrow> int \<Rightarrow> int option" where
  "elf_segment_file_offset s image_ptr image_len ph_index = do {
     off \<leftarrow> elf_segment_offset s image_ptr image_len ph_index;
     elf_u64 s image_ptr image_len (i64 (off + 8)) }"

definition elf_segment_vaddr :: "machine \<Rightarrow> int \<Rightarrow> int \<Rightarrow> int \<Rightarrow> int option" where
  "elf_segment_vaddr s image_ptr image_len ph_index = do {
     off \<leftarrow> elf_segment_offset s image_ptr image_len ph_index;
     elf_u64 s image_ptr image_len (i64 (off + 16)) }"

definition elf_segment_filesz :: "machine \<Rightarrow> int \<Rightarrow> int \<Rightarrow> int \<Rightarrow> int option" where
  "elf_segment_filesz s image_ptr image_len ph_index = do {
     off \<leftarrow> elf_segment_offset s image_ptr image_len ph_index;
     elf_u64 s image_ptr image_len (i64 (off + 32)) }"

definition elf_segment_memsz :: "machine \<Rightarrow> int \<Rightarrow> int \<Rightarrow> int \<Rightarrow> int option" where
  "elf_segment_memsz s image_ptr image_len ph_index = do {
     off \<leftarrow> elf_segment_offset s image_ptr image_len ph_index;
     elf_u64 s image_ptr image_len (i64 (off + 40)) }"

definition elf_segment_is_user_load :: "machine \<Rightarrow> int \<Rightarrow> int \<Rightarrow> int \<Rightarrow> bool option" where
  "elf_segment_is_user_load s image_ptr image_len ph_index = do {
     t \<leftarrow> elf_segment_type s image_ptr image_len ph_index;
     if t \<noteq> elf_pt_load then Some False else do {
     m \<leftarrow> elf_segment_memsz s image_ptr image_len ph_index;
     Some (m > 0) } }"

section \<open>Walking the program headers\<close>

lemma elf_u16_range: "elf_u16 s p l off = Some v \<Longrightarrow> 0 \<le> v \<and> v < 65536"
proof -
  assume "elf_u16 s p l off = Some v"
  then obtain a b where v: "v = load_byte s a OR push_bit 8 (load_byte s b)"
    by (auto simp: elf_u16_def load_byte_region_eq Option.bind_eq_Some_conv split: if_splits)
  have r: "0 \<le> load_byte s x \<and> load_byte s x < 256" for x
    using uint_bounded [of "mem s x"] by (simp add: load_byte_def)
  have p: "push_bit 8 (load_byte s b) = load_byte s b * 256" by (simp add: push_bit_eq_mult)
  have "0 \<le> v" unfolding v p using r [of a] r [of b] by (simp add: or_nonnegative_int_iff)
  moreover have "v < 2 ^ 16" unfolding v p using r [of a] r [of b] by (intro OR_upper) auto
  ultimately show ?thesis by simp
qed

lemma elf_phnum_range: "elf_phnum s p l = Some v \<Longrightarrow> 0 \<le> v \<and> v < 65536"
  unfolding elf_phnum_def by (rule elf_u16_range)

function elf_count_from :: "machine \<Rightarrow> int \<Rightarrow> int \<Rightarrow> int \<Rightarrow> int \<Rightarrow> int option" where
  "elf_count_from s image_ptr image_len ph_index load_count = do {
     n \<leftarrow> elf_phnum s image_ptr image_len;
     if ph_index < n then do {
       b \<leftarrow> elf_segment_is_user_load s image_ptr image_len ph_index;
       elf_count_from s image_ptr image_len (ph_index + 1) (if b then load_count + 1 else load_count) }
     else Some load_count }"
  by pat_completeness auto
termination
  by (relation "measure (\<lambda>(s, p, l, i, c). nat (65536 - i))") (auto dest!: elf_phnum_range)

declare elf_count_from.simps [simp del]

definition elf_user_load_segment_count :: "machine \<Rightarrow> int \<Rightarrow> int \<Rightarrow> int option" where
  "elf_user_load_segment_count s image_ptr image_len = elf_count_from s image_ptr image_len 0 0"

function elf_find_from :: "machine \<Rightarrow> int \<Rightarrow> int \<Rightarrow> int \<Rightarrow> int \<Rightarrow> int \<Rightarrow> int option" where
  "elf_find_from s image_ptr image_len load_index ph_index current = do {
     n \<leftarrow> elf_phnum s image_ptr image_len;
     if ph_index < n then do {
       b \<leftarrow> elf_segment_is_user_load s image_ptr image_len ph_index;
       if b \<and> current = load_index then Some ph_index
       else elf_find_from s image_ptr image_len load_index (ph_index + 1) (if b then current + 1 else current) }
     else Some (- 1) }"
  by pat_completeness auto
termination
  by (relation "measure (\<lambda>(s, p, l, k, i, c). nat (65536 - i))") (auto dest!: elf_phnum_range)

declare elf_find_from.simps [simp del]

definition elf_user_load_segment_ph_index :: "machine \<Rightarrow> int \<Rightarrow> int \<Rightarrow> int \<Rightarrow> int option" where
  "elf_user_load_segment_ph_index s image_ptr image_len load_index = elf_find_from s image_ptr image_len load_index 0 0"

definition elf_user_segment_vaddr :: "machine \<Rightarrow> int \<Rightarrow> int \<Rightarrow> int \<Rightarrow> int option" where
  "elf_user_segment_vaddr s image_ptr image_len load_index = do {
     ph_index \<leftarrow> elf_user_load_segment_ph_index s image_ptr image_len load_index;
     if ph_index < 0 then panic ''missing user elf vaddr''
     else elf_segment_vaddr s image_ptr image_len ph_index }"

definition elf_user_segment_offset :: "machine \<Rightarrow> int \<Rightarrow> int \<Rightarrow> int \<Rightarrow> int option" where
  "elf_user_segment_offset s image_ptr image_len load_index = do {
     ph_index \<leftarrow> elf_user_load_segment_ph_index s image_ptr image_len load_index;
     if ph_index < 0 then panic ''missing user elf segment''
     else elf_segment_file_offset s image_ptr image_len ph_index }"

definition elf_user_segment_filesz :: "machine \<Rightarrow> int \<Rightarrow> int \<Rightarrow> int \<Rightarrow> int option" where
  "elf_user_segment_filesz s image_ptr image_len load_index = do {
     ph_index \<leftarrow> elf_user_load_segment_ph_index s image_ptr image_len load_index;
     if ph_index < 0 then panic ''missing user elf filesz''
     else elf_segment_filesz s image_ptr image_len ph_index }"

definition elf_user_segment_memsz :: "machine \<Rightarrow> int \<Rightarrow> int \<Rightarrow> int \<Rightarrow> int option" where
  "elf_user_segment_memsz s image_ptr image_len load_index = do {
     ph_index \<leftarrow> elf_user_load_segment_ph_index s image_ptr image_len load_index;
     if ph_index < 0 then panic ''missing user elf memsz''
     else elf_segment_memsz s image_ptr image_len ph_index }"

definition elf_user_segment_flags :: "machine \<Rightarrow> int \<Rightarrow> int \<Rightarrow> int \<Rightarrow> int option" where
  "elf_user_segment_flags s image_ptr image_len load_index = do {
     ph_index \<leftarrow> elf_user_load_segment_ph_index s image_ptr image_len load_index;
     if ph_index < 0 then panic ''missing user elf flags''
     else elf_segment_flags s image_ptr image_len ph_index }"

text \<open>The loops over load indices test the count again on each iteration; it does not change.\<close>

definition elf_user_image_top :: "machine \<Rightarrow> int \<Rightarrow> int \<Rightarrow> int option" where
  "elf_user_image_top s image_ptr image_len = do {
     n \<leftarrow> elf_user_load_segment_count s image_ptr image_len;
     for_range 0 n (\<lambda>load_index image_top. do {
       vaddr \<leftarrow> elf_user_segment_vaddr s image_ptr image_len load_index;
       memsz \<leftarrow> elf_user_segment_memsz s image_ptr image_len load_index;
       let seg_top = i64 (vaddr + memsz);
       Some (if seg_top > image_top then seg_top else image_top) }) 0 }"

definition elf_user_image_page_count :: "machine \<Rightarrow> int \<Rightarrow> int \<Rightarrow> int option" where
  "elf_user_image_page_count s image_ptr image_len = do {
     top \<leftarrow> elf_user_image_top s image_ptr image_len;
     Some (drop_bit 12 (elf_align_up top elf_page_size)) }"

definition elf_entry_in_load_segment :: "machine \<Rightarrow> int \<Rightarrow> int \<Rightarrow> bool option" where
  "elf_entry_in_load_segment s image_ptr image_len = do {
     entry \<leftarrow> elf_entry_offset s image_ptr image_len;
     n \<leftarrow> elf_user_load_segment_count s image_ptr image_len;
     for_range 0 n (\<lambda>load_index found. if found then Some True else do {
       seg_start \<leftarrow> elf_user_segment_vaddr s image_ptr image_len load_index;
       memsz \<leftarrow> elf_user_segment_memsz s image_ptr image_len load_index;
       Some (entry \<ge> seg_start \<and> entry < i64 (seg_start + memsz)) }) False }"

text \<open>The inner loop of the validator: whether segment \<open>i\<close> overlaps none of the later ones.\<close>

definition elf_no_overlap :: "machine \<Rightarrow> int \<Rightarrow> int \<Rightarrow> int \<Rightarrow> int \<Rightarrow> int \<Rightarrow> int \<Rightarrow> bool option" where
  "elf_no_overlap s image_ptr image_len load_count i seg_vaddr seg_memsz =
     for_range (i + 1) load_count (\<lambda>j ok. if \<not> ok then Some False else do {
       other_start \<leftarrow> elf_user_segment_vaddr s image_ptr image_len j;
       other_memsz \<leftarrow> elf_user_segment_memsz s image_ptr image_len j;
       let other_end = i64 (other_start + other_memsz);
       Some (\<not> (seg_vaddr < other_end \<and> other_start < i64 (seg_vaddr + seg_memsz))) }) True"

definition elf_check_segment :: "machine \<Rightarrow> int \<Rightarrow> int \<Rightarrow> int \<Rightarrow> int \<Rightarrow> bool option" where
  "elf_check_segment s image_ptr image_len load_count i = do {
     seg_offset \<leftarrow> elf_user_segment_offset s image_ptr image_len i;
     seg_vaddr \<leftarrow> elf_user_segment_vaddr s image_ptr image_len i;
     seg_filesz \<leftarrow> elf_user_segment_filesz s image_ptr image_len i;
     seg_memsz \<leftarrow> elf_user_segment_memsz s image_ptr image_len i;
     let seg_page_end = drop_bit 12 (elf_align_up (i64 (seg_vaddr + seg_memsz)) elf_page_size);
     if seg_vaddr AND (elf_page_size - 1) \<noteq> 0 then Some False
     else if seg_memsz \<le> 0 \<or> seg_memsz < seg_filesz then Some False
     else if i64 (seg_offset + seg_filesz) > image_len then Some False
     else if seg_page_end > elf_max_user_pages then Some False
     else elf_no_overlap s image_ptr image_len load_count i seg_vaddr seg_memsz }"

definition elf_validate_user_image :: "machine \<Rightarrow> int \<Rightarrow> int \<Rightarrow> bool option" where
  "elf_validate_user_image s image_ptr image_len = do {
     header \<leftarrow> elf_validate_header s image_ptr image_len;
     if \<not> header then Some False else do {
     entsize \<leftarrow> elf_phentsize s image_ptr image_len;
     if entsize < 56 then Some False else do {
     load_count \<leftarrow> elf_user_load_segment_count s image_ptr image_len;
     if load_count \<le> 0 then Some False else do {
     ok \<leftarrow> for_range 0 load_count (\<lambda>i ok. if \<not> ok then Some False
       else elf_check_segment s image_ptr image_len load_count i) True;
     if \<not> ok then Some False else do {
     pages \<leftarrow> elf_user_image_page_count s image_ptr image_len;
     if pages \<le> 0 then Some False
     else if pages > elf_max_user_pages then Some False
     else do {
     inside \<leftarrow> elf_entry_in_load_segment s image_ptr image_len;
     if \<not> inside then Some False else Some True } } } } } }"

definition elf_user_entry_offset :: "machine \<Rightarrow> int \<Rightarrow> int \<Rightarrow> int option" where
  "elf_user_entry_offset s image_ptr image_len = do {
     ok \<leftarrow> elf_validate_user_image s image_ptr image_len;
     if \<not> ok then panic ''invalid user elf'' else elf_entry_offset s image_ptr image_len }"

section \<open>The readers are little-endian loads\<close>

lemma le_load_snoc: "le_load (Suc n) m a = le_load n m a + 256 ^ n * uint (m (a + int n))"
proof (induction n arbitrary: a)
  case (Suc n)
  have "le_load (Suc (Suc n)) m a = uint (m a) + 256 * le_load (Suc n) m (a + 1)" by simp
  also have "\<dots> = uint (m a) + 256 * (le_load n m (a + 1) + 256 ^ n * uint (m (a + 1 + int n)))"
    by (simp only: Suc.IH)
  finally show ?case by (simp add: algebra_simps)
qed simp

lemma load_byte_bounds: "0 \<le> load_byte s a" "load_byte s a < 256"
  using uint_bounded [of "mem s a"] by (simp_all add: load_byte_def)

lemma or_top_byte:
  assumes "0 \<le> b" "b < 256" "0 \<le> v" "v < 256 ^ n" "n < 8"
  shows "v OR i64 (push_bit (8 * n) b) = i64 (v + 256 ^ n * b)"
proof -
  define w :: int where "w = 256 ^ n"
  have pow: "(2 :: int) ^ (8 * n) = w" by (simp add: w_def power_mult)
  have w: "0 < w" "w * 256 \<le> 2 ^ 64" "w dvd 2 ^ 64"
  proof -
    have "n = 0 \<or> n = 1 \<or> n = 2 \<or> n = 3 \<or> n = 4 \<or> n = 5 \<or> n = 6 \<or> n = 7" using assms(5) by auto
    then show "0 < w" "w * 256 \<le> 2 ^ 64" "w dvd 2 ^ 64" by (auto simp: w_def)
  qed
  have "w * b \<le> w * 255" using w(1) assms(2) by (intro mult_left_mono) auto
  moreover have "v < w" using assms(4) by (simp add: w_def)
  moreover have "0 \<le> w * b" using w assms(1) by simp
  ultimately have r: "0 \<le> w * b" "v + w * b < 2 ^ 64" "v < w" using w(2) by linarith+
  have "w dvd i64 (w * b)"
    using r assms(3) w(3) i64_cases [of "w * b"] by (auto intro: dvd_diff dvd_trans)
  then have "i64 (w * b) OR v = i64 (w * b) + v"
    by (intro or_disjoint_add [of "8 * n"]) (use pow r assms(3) in auto)
  moreover have "i64 (w * b) + v = i64 (v + w * b)"
  proof -
    have "v + w * b < 2 ^ 63 \<longleftrightarrow> w * b < 2 ^ 63"
    proof (cases "n = 7")
      case True
      then show ?thesis using r(3) assms(3) w(1) by (auto simp: w_def)
    next
      case False
      then have "n = 0 \<or> n = 1 \<or> n = 2 \<or> n = 3 \<or> n = 4 \<or> n = 5 \<or> n = 6" using assms(5) by auto
      then have "v + w * b < 2 ^ 63" using r(3) assms(2) by (auto simp: w_def)
      then show ?thesis using assms(3) by simp
    qed
    then show ?thesis using i64_cases [of "w * b"] i64_cases [of "v + w * b"] r assms(3) by auto
  qed
  ultimately show ?thesis
    using or.commute [of v "i64 (w * b)"] unfolding push_bit_eq_mult pow w_def [symmetric]
    by (simp add: mult.commute)
qed

lemma elf_bytes_eq:
  assumes "p \<noteq> 0" "0 \<le> off" "off + int n \<le> l" "in64 l" "n \<le> 8"
  shows "elf_bytes (int n) s p l off = Some (i64 (le_load n (mem s) (p + off)))"
proof -
  let ?body = "\<lambda>i (v, shift). do {
       b \<leftarrow> load_byte_region s p l (i64 (off + i));
       Some (v OR i64 (push_bit shift b), shift + 8) }"
  let ?P = "\<lambda>i (v, shift). v = i64 (le_load (nat i) (mem s) (p + off)) \<and> shift = 8 * nat i"
  have "\<exists>r. for_range 0 (int n) ?body (0, 0) = Some r \<and> ?P (int n) r"
  proof (rule for_range_total [where P = ?P])
    fix i and r :: "int \<times> nat"
    assume i: "0 \<le> i" "i < int n" and r: "?P i r"
    define k where "k = nat i"
    have k: "i = int k" "k < 8" using i assms(5) by (auto simp: k_def)
    have "in64 (off + i)" using assms i in64D [of l] by (intro in64I) auto
    then have byte: "load_byte_region s p l (i64 (off + i)) = Some (load_byte s (p + (off + i)))"
      using assms i by (simp add: region_simps i64_id)
    have "le_load k (mem s) (p + off) < 256 ^ k" "0 \<le> le_load k (mem s) (p + off)"
      using le_load_range [of k "mem s" "p + off"] by auto
    moreover have "i64 (le_load k (mem s) (p + off)) = le_load k (mem s) (p + off)"
    proof -
      have "(256 :: int) ^ k \<le> 256 ^ 7" using k(2) by (intro power_increasing) auto
      then show ?thesis using le_load_range [of k "mem s" "p + off"] by (intro i64_id in64I) auto
    qed
    ultimately have "i64 (le_load k (mem s) (p + off)) OR i64 (push_bit (8 * k) (load_byte s (p + (off + i))))
        = i64 (le_load (Suc k) (mem s) (p + off))"
      using or_top_byte [OF load_byte_bounds, of _ k s] k
      by (simp add: le_load_snoc load_byte_def add.assoc del: le_load.simps)
    moreover have "nat (i + 1) = Suc k" using i by (simp add: k_def)
    ultimately show "\<exists>r'. ?body i r = Some r' \<and> ?P (i + 1) r'"
      using r byte unfolding k_def [symmetric] by (cases r) (simp add: k_def [symmetric] del: le_load.simps)
  qed (simp_all add: i64_id in64_def)
  then show ?thesis unfolding elf_bytes_def by auto
qed

definition load_word :: "machine \<Rightarrow> int \<Rightarrow> int" where
  "load_word s a = le_load 2 (mem s) a"

lemma elf_u64_eq: "p \<noteq> 0 \<Longrightarrow> 0 \<le> off \<Longrightarrow> off + 8 \<le> l \<Longrightarrow> in64 l \<Longrightarrow> elf_u64 s p l off = Some (load_qword s (p + off))"
  using elf_bytes_eq [of p off 8 l s] by (simp add: elf_u64_def load_qword_def)

lemma elf_u32_eq: "p \<noteq> 0 \<Longrightarrow> 0 \<le> off \<Longrightarrow> off + 4 \<le> l \<Longrightarrow> in64 l \<Longrightarrow> elf_u32 s p l off = Some (load_dword s (p + off))"
  using elf_bytes_eq [of p off 4 l s] le_load_range [of 4 "mem s" "p + off"]
  by (simp add: elf_u32_def load_dword_def i64_id in64_def)

lemma elf_u16_eq: "p \<noteq> 0 \<Longrightarrow> 0 \<le> off \<Longrightarrow> off + 2 \<le> l \<Longrightarrow> in64 l \<Longrightarrow> elf_u16 s p l off = Some (load_word s (p + off))"
proof -
  assume a: "p \<noteq> 0" "0 \<le> off" "off + 2 \<le> l" "in64 l"
  have "in64 (off + 1)" using a in64D [of l] by (intro in64I) auto
  moreover have "push_bit 8 (load_byte s (p + off + 1)) OR load_byte s (p + off) =
      push_bit 8 (load_byte s (p + off + 1)) + load_byte s (p + off)"
    using load_byte_bounds [of s "p + off"] by (intro or_disjoint_add [of 8]) (auto simp: push_bit_eq_mult)
  then have "load_byte s (p + off) OR push_bit 8 (load_byte s (p + off + 1)) = load_word s (p + off)"
    by (simp add: load_word_def load_byte_def numeral_2_eq_2 push_bit_eq_mult or.commute)
  ultimately show ?thesis using a by (simp add: elf_u16_def region_simps i64_id add.assoc)
qed

lemma elf_read_outside:
  assumes "off < 0 \<or> l \<le> off" "in64 off"
  shows "elf_u16 s p l off = None" "elf_u32 s p l off = None" "elf_u64 s p l off = None"
  using assms by (auto simp: elf_u16_def elf_u32_def elf_u64_def elf_bytes_def region_simps for_range_step i64_id)

section \<open>The image a validated file describes\<close>

text \<open>
  The reference: the program header table as a list of segments, read with plain loads, and the
  conditions on it without any loop or count.
\<close>

record segment =
  seg_offset :: int
  seg_vaddr :: int
  seg_filesz :: int
  seg_memsz :: int
  seg_flags :: int

definition seg_end :: "segment \<Rightarrow> int" where
  "seg_end g = i64 (seg_vaddr g + seg_memsz g)"

definition ph_addr :: "machine \<Rightarrow> int \<Rightarrow> int \<Rightarrow> int" where
  "ph_addr s p i = p + (load_qword s (p + 32) + i * load_word s (p + 54))"

definition is_load :: "machine \<Rightarrow> int \<Rightarrow> int \<Rightarrow> bool" where
  "is_load s p i \<longleftrightarrow> load_dword s (ph_addr s p i) = 1 \<and> load_qword s (ph_addr s p i + 40) > 0"

definition segment_at :: "machine \<Rightarrow> int \<Rightarrow> segment" where
  "segment_at s a = \<lparr>seg_offset = load_qword s (a + 8), seg_vaddr = load_qword s (a + 16),
     seg_filesz = load_qword s (a + 32), seg_memsz = load_qword s (a + 40), seg_flags = load_dword s (a + 4)\<rparr>"

definition load_headers :: "machine \<Rightarrow> int \<Rightarrow> int list" where
  "load_headers s p = filter (is_load s p) [0..load_word s (p + 56) - 1]"

definition segments :: "machine \<Rightarrow> int \<Rightarrow> segment list" where
  "segments s p = map (\<lambda>i. segment_at s (ph_addr s p i)) (load_headers s p)"

definition header_ok :: "machine \<Rightarrow> int \<Rightarrow> bool" where
  "header_ok s p \<longleftrightarrow> map (\<lambda>i. load_byte s (p + i)) [0..5] = [0x7F, 0x45, 0x4C, 0x46, 2, 1]
     \<and> load_word s (p + 16) = 2 \<and> load_word s (p + 18) = 62 \<and> load_word s (p + 54) \<ge> 56"

definition segment_ok :: "int \<Rightarrow> segment \<Rightarrow> bool" where
  "segment_ok l g \<longleftrightarrow> seg_vaddr g mod 4096 = 0 \<and> seg_filesz g \<le> seg_memsz g
     \<and> i64 (seg_offset g + seg_filesz g) \<le> l \<and> seg_end g \<le> 64 * 4096"

definition apart :: "segment \<Rightarrow> segment \<Rightarrow> bool" where
  "apart g h \<longleftrightarrow> seg_end h \<le> seg_vaddr g \<or> seg_end g \<le> seg_vaddr h"

definition image_ok :: "machine \<Rightarrow> int \<Rightarrow> int \<Rightarrow> bool" where
  "image_ok s p l \<longleftrightarrow> 64 \<le> l \<and> header_ok s p \<and> (\<forall>g \<in> set (segments s p). segment_ok l g)
     \<and> sorted_wrt apart (segments s p) \<and> (\<exists>g \<in> set (segments s p). 0 < seg_end g)
     \<and> (\<exists>g \<in> set (segments s p). seg_vaddr g \<le> load_qword s (p + 24) \<and> load_qword s (p + 24) < seg_end g)"

text \<open>The program header table lies inside the file.\<close>

definition table_inside :: "machine \<Rightarrow> int \<Rightarrow> int \<Rightarrow> bool" where
  "table_inside s p l \<longleftrightarrow> p \<noteq> 0 \<and> 64 \<le> l \<and> in64 l \<and> 0 \<le> load_qword s (p + 32)
     \<and> load_qword s (p + 32) + load_word s (p + 56) * load_word s (p + 54) \<le> l"

lemma load_word_bounds: "0 \<le> load_word s a" "load_word s a < 65536"
  using le_load_range [of 2 "mem s" a] by (simp_all add: load_word_def)

lemma elf_header_fields:
  assumes "table_inside s p l"
  shows "elf_phnum s p l = Some (load_word s (p + 56))" "elf_phentsize s p l = Some (load_word s (p + 54))"
    "elf_phoff s p l = Some (load_qword s (p + 32))" "elf_entry_offset s p l = Some (load_qword s (p + 24))"
  using assms unfolding table_inside_def elf_phnum_def elf_phentsize_def elf_phoff_def elf_entry_offset_def
  by (simp_all add: elf_u16_eq elf_u64_eq)

lemma elf_header_row:
  assumes "table_inside s p l" "56 \<le> load_word s (p + 54)" "0 \<le> i" "i < load_word s (p + 56)"
  defines "off \<equiv> load_qword s (p + 32) + i * load_word s (p + 54)"
  shows "elf_segment_offset s p l i = Some off" "0 \<le> off" "off + 56 \<le> l" "in64 l" "in64 off"
proof -
  have l: "in64 l" using assms(1) by (simp add: table_inside_def)
  then show "in64 l" .
  have "(i + 1) * load_word s (p + 54) \<le> load_word s (p + 56) * load_word s (p + 54)"
    using assms by (intro mult_right_mono) auto
  moreover have "0 \<le> i * load_word s (p + 54)" using assms by simp
  ultimately show off: "0 \<le> off" "off + 56 \<le> l"
    using assms by (auto simp: table_inside_def algebra_simps)
  then show "in64 off" using in64D [OF l] by (intro in64I) auto
  then show "elf_segment_offset s p l i = Some off"
    using assms(1) unfolding elf_segment_offset_def by (simp add: elf_header_fields off_def i64_id)
qed

lemma elf_row_fields:
  assumes "table_inside s p l" "56 \<le> load_word s (p + 54)" "0 \<le> i" "i < load_word s (p + 56)"
  shows "elf_segment_type s p l i = Some (load_dword s (ph_addr s p i))"
    "elf_segment_flags s p l i = Some (load_dword s (ph_addr s p i + 4))"
    "elf_segment_file_offset s p l i = Some (load_qword s (ph_addr s p i + 8))"
    "elf_segment_vaddr s p l i = Some (load_qword s (ph_addr s p i + 16))"
    "elf_segment_filesz s p l i = Some (load_qword s (ph_addr s p i + 32))"
    "elf_segment_memsz s p l i = Some (load_qword s (ph_addr s p i + 40))"
proof -
  note row = elf_header_row [OF assms]
  have p: "p \<noteq> 0" using assms(1) by (simp add: table_inside_def)
  have "i64 (load_qword s (p + 32) + i * load_word s (p + 54) + k) =
      load_qword s (p + 32) + i * load_word s (p + 54) + k" if "0 \<le> k" "k \<le> 56" for k
    using row(2,3) in64D [OF row(4)] that by (intro i64_id in64I) auto
  then show "elf_segment_type s p l i = Some (load_dword s (ph_addr s p i))"
    "elf_segment_flags s p l i = Some (load_dword s (ph_addr s p i + 4))"
    "elf_segment_file_offset s p l i = Some (load_qword s (ph_addr s p i + 8))"
    "elf_segment_vaddr s p l i = Some (load_qword s (ph_addr s p i + 16))"
    "elf_segment_filesz s p l i = Some (load_qword s (ph_addr s p i + 32))"
    "elf_segment_memsz s p l i = Some (load_qword s (ph_addr s p i + 40))"
    using row p unfolding elf_segment_type_def elf_segment_flags_def elf_segment_file_offset_def
      elf_segment_vaddr_def elf_segment_filesz_def elf_segment_memsz_def
    by (simp_all add: elf_u32_eq elf_u64_eq ph_addr_def add.assoc i64_id)
qed

lemma elf_is_load:
  assumes "table_inside s p l" "56 \<le> load_word s (p + 54)" "0 \<le> i" "i < load_word s (p + 56)"
  shows "elf_segment_is_user_load s p l i = Some (is_load s p i)"
  using elf_row_fields [OF assms] by (simp add: elf_segment_is_user_load_def is_load_def elf_pt_load_def)

lemma elf_count_from_eq:
  assumes "table_inside s p l" "56 \<le> load_word s (p + 54)" "0 \<le> i"
  shows "elf_count_from s p l i c = Some (c + int (length (filter (is_load s p) [i..load_word s (p + 56) - 1])))"
  using assms
proof (induction s p l i c rule: elf_count_from.induct)
  case (1 s p l i c)
  show ?case
  proof (cases "i < load_word s (p + 56)")
    case True
    then show ?thesis
      using "1.prems" "1.IH" [OF elf_header_fields(1) [OF "1.prems"(1)] True]
      by (simp add: elf_count_from.simps [of s p l i c] elf_header_fields elf_is_load upto_rec1)
  next
    case False
    then show ?thesis
      using "1.prems" by (simp add: elf_count_from.simps [of s p l i c] elf_header_fields)
  qed
qed

lemma elf_find_from_eq:
  assumes "table_inside s p l" "56 \<le> load_word s (p + 54)" "0 \<le> i"
  shows "elf_find_from s p l k i c =
    Some (let hs = filter (is_load s p) [i..load_word s (p + 56) - 1]
          in if c \<le> k \<and> k < c + int (length hs) then hs ! nat (k - c) else - 1)"
  using assms
proof (induction s p l k i c rule: elf_find_from.induct)
  case (1 s p l k i c)
  show ?case
  proof (cases "i < load_word s (p + 56)")
    case True
    define hs where "hs = filter (is_load s p) [i + 1..load_word s (p + 56) - 1]"
    have "nat (k - c) = Suc (nat (k - (c + 1)))" if "c < k" using that by simp
    then show ?thesis
      using "1.prems" True "1.IH" [OF elf_header_fields(1) [OF "1.prems"(1)] True elf_is_load]
      by (auto simp: elf_find_from.simps [of s p l k i c] elf_header_fields elf_is_load upto_rec1 hs_def [symmetric])
  next
    case False
    then show ?thesis
      using "1.prems" by (simp add: elf_find_from.simps [of s p l k i c] elf_header_fields)
  qed
qed

lemma elf_segments:
  assumes "table_inside s p l" "56 \<le> load_word s (p + 54)"
  shows "elf_user_load_segment_count s p l = Some (int (length (segments s p)))"
    and "\<And>k. 0 \<le> k \<Longrightarrow> k < int (length (segments s p)) \<Longrightarrow>
      elf_user_segment_vaddr s p l k = Some (seg_vaddr (segments s p ! nat k))"
    and "\<And>k. 0 \<le> k \<Longrightarrow> k < int (length (segments s p)) \<Longrightarrow>
      elf_user_segment_offset s p l k = Some (seg_offset (segments s p ! nat k))"
    and "\<And>k. 0 \<le> k \<Longrightarrow> k < int (length (segments s p)) \<Longrightarrow>
      elf_user_segment_filesz s p l k = Some (seg_filesz (segments s p ! nat k))"
    and "\<And>k. 0 \<le> k \<Longrightarrow> k < int (length (segments s p)) \<Longrightarrow>
      elf_user_segment_memsz s p l k = Some (seg_memsz (segments s p ! nat k))"
    and "\<And>k. 0 \<le> k \<Longrightarrow> k < int (length (segments s p)) \<Longrightarrow>
      elf_user_segment_flags s p l k = Some (seg_flags (segments s p ! nat k))"
proof -
  show "elf_user_load_segment_count s p l = Some (int (length (segments s p)))"
    using elf_count_from_eq [OF assms, of 0 0]
    by (simp add: elf_user_load_segment_count_def segments_def load_headers_def)
  fix k assume k: "0 \<le> k" "k < int (length (segments s p))"
  define i where "i = load_headers s p ! nat k"
  have len: "nat k < length (load_headers s p)" using k by (simp add: segments_def)
  then have "i \<in> set (load_headers s p)" unfolding i_def by (rule nth_mem)
  then have i: "0 \<le> i" "i < load_word s (p + 56)" by (auto simp: load_headers_def)
  have find: "elf_user_load_segment_ph_index s p l k = Some i"
    using elf_find_from_eq [OF assms, of 0 k 0] k len
    by (auto simp: elf_user_load_segment_ph_index_def i_def load_headers_def segments_def Let_def)
  have g: "segments s p ! nat k = segment_at s (ph_addr s p i)"
    using len by (simp add: segments_def i_def)
  note fields = elf_row_fields [OF assms i] find g i
  show "elf_user_segment_vaddr s p l k = Some (seg_vaddr (segments s p ! nat k))"
    "elf_user_segment_offset s p l k = Some (seg_offset (segments s p ! nat k))"
    "elf_user_segment_filesz s p l k = Some (seg_filesz (segments s p ! nat k))"
    "elf_user_segment_memsz s p l k = Some (seg_memsz (segments s p ! nat k))"
    "elf_user_segment_flags s p l k = Some (seg_flags (segments s p ! nat k))"
    unfolding elf_user_segment_vaddr_def elf_user_segment_offset_def elf_user_segment_filesz_def
      elf_user_segment_memsz_def elf_user_segment_flags_def
    by (simp_all add: fields segment_at_def not_less)
qed

lemma segments_positive: "g \<in> set (segments s p) \<Longrightarrow> 0 < seg_memsz g"
  by (auto simp: segments_def load_headers_def is_load_def segment_at_def)

definition image_top :: "machine \<Rightarrow> int \<Rightarrow> int" where
  "image_top s p = foldl (\<lambda>top g. max top (seg_end g)) 0 (segments s p)"

lemma elf_image_top:
  assumes "table_inside s p l" "56 \<le> load_word s (p + 54)"
  shows "elf_user_image_top s p l = Some (image_top s p)"
proof -
  note seg = elf_segments [OF assms]
  have "for_range (int 0) (int (length (segments s p))) (\<lambda>load_index image_top. do {
       vaddr \<leftarrow> elf_user_segment_vaddr s p l load_index;
       memsz \<leftarrow> elf_user_segment_memsz s p l load_index;
       let seg_top = i64 (vaddr + memsz);
       Some (if seg_top > image_top then seg_top else image_top) }) 0 =
     Some (foldl (\<lambda>top g. max top (seg_end g)) 0 (drop 0 (segments s p)))"
    by (rule for_range_foldl) (auto simp: seg seg_end_def Let_def)
  then show ?thesis unfolding elf_user_image_top_def image_top_def seg(1) by simp
qed

lemma foldl_max_less: "foldl (\<lambda>top g. max top (f g)) a gs \<le> (b :: int) \<longleftrightarrow> a \<le> b \<and> (\<forall>g \<in> set gs. f g \<le> b)"
  by (induction gs arbitrary: a) auto

lemma image_top_bounds:
  "image_top s p \<le> b \<longleftrightarrow> 0 \<le> b \<and> (\<forall>g \<in> set (segments s p). seg_end g \<le> b)" "0 \<le> image_top s p"
  "in64 (image_top s p)"
proof -
  show *: "image_top s p \<le> b \<longleftrightarrow> 0 \<le> b \<and> (\<forall>g \<in> set (segments s p). seg_end g \<le> b)" for b
    by (simp add: image_top_def foldl_max_less)
  show 0: "0 \<le> image_top s p" using * [of "image_top s p"] by simp
  have "seg_end g \<le> 9223372036854775807" for g
    using in64D [OF in64_i64, of "seg_vaddr g + seg_memsz g"] by (simp add: seg_end_def)
  then have "image_top s p \<le> 9223372036854775807" by (simp add: *)
  then show "in64 (image_top s p)" using 0 by (intro in64I) auto
qed

lemma elf_pages:
  assumes "in64 x"
  shows "drop_bit 12 (elf_align_up x 4096) = (if x < 2 ^ 63 - 4095 then (x + 4095) div 4096 else (x + 4095 - 2 ^ 64) div 4096)"
proof -
  have "drop_bit 12 (elf_align_up x 4096) = i64 (x + 4095) div 4096"
    using and_not_mask [of "i64 (x + 4095)" 12]
    by (simp add: elf_align_up_def mask_simps minus_mod_eq_div_mult add.commute)
  then show ?thesis using i64_cases [of "x + 4095"] in64D [OF assms] by auto
qed

lemma elf_page_limits:
  assumes "table_inside s p l" "56 \<le> load_word s (p + 54)"
  shows "\<exists>n. elf_user_image_page_count s p l = Some n
    \<and> (0 < n \<and> n \<le> 64 \<longleftrightarrow> 0 < image_top s p \<and> image_top s p \<le> 64 * 4096)"
    and "\<And>g. seg_end g \<le> 64 * 4096 \<Longrightarrow> drop_bit 12 (elf_align_up (seg_end g) 4096) \<le> 64"
proof -
  have "0 < drop_bit 12 (elf_align_up (image_top s p) 4096) \<and> drop_bit 12 (elf_align_up (image_top s p) 4096) \<le> 64
      \<longleftrightarrow> 0 < image_top s p \<and> image_top s p \<le> 64 * 4096"
    using elf_pages [of "image_top s p"] image_top_bounds(2,3) [of s p] in64D [of "image_top s p"] by auto
  then show "\<exists>n. elf_user_image_page_count s p l = Some n
    \<and> (0 < n \<and> n \<le> 64 \<longleftrightarrow> 0 < image_top s p \<and> image_top s p \<le> 64 * 4096)"
    using elf_image_top [OF assms] by (simp add: elf_user_image_page_count_def elf_page_size_def)
  show "drop_bit 12 (elf_align_up (seg_end g) 4096) \<le> 64" if "seg_end g \<le> 64 * 4096" for g
    using elf_pages [of "seg_end g"] that by (auto simp: seg_end_def)
qed

lemma all_nth_int: "(\<forall>i. 0 \<le> i \<longrightarrow> i < int (length xs) \<longrightarrow> P (xs ! nat i)) \<longleftrightarrow> (\<forall>x \<in> set xs. P x)"
  by (auto simp: all_set_conv_all_nth) (metis nat_int of_nat_0_le_iff zless_nat_eq_int_zless of_nat_less_iff)

lemma ex_nth_int: "(\<exists>i. 0 \<le> i \<and> i < int (length xs) \<and> P (xs ! nat i)) \<longleftrightarrow> (\<exists>x \<in> set xs. P x)"
  using all_nth_int [of xs "\<lambda>x. \<not> P x"] by blast

lemma elf_entry_inside:
  assumes "table_inside s p l" "56 \<le> load_word s (p + 54)"
  shows "elf_entry_in_load_segment s p l = Some (\<exists>g \<in> set (segments s p).
    seg_vaddr g \<le> load_qword s (p + 24) \<and> load_qword s (p + 24) < seg_end g)"
proof -
  note seg = elf_segments [OF assms]
  have "elf_entry_in_load_segment s p l = Some (False \<or> (\<exists>i. 0 \<le> i \<and> i < int (length (segments s p))
    \<and> seg_vaddr (segments s p ! nat i) \<le> load_qword s (p + 24)
    \<and> load_qword s (p + 24) < seg_end (segments s p ! nat i)))"
    unfolding elf_entry_in_load_segment_def elf_header_fields [OF assms(1)] seg(1) Option.bind.simps
    by (rule for_range_ex) (simp_all add: seg seg_end_def)
  then show ?thesis
    using ex_nth_int [of "segments s p" "\<lambda>g. seg_vaddr g \<le> load_qword s (p + 24) \<and> load_qword s (p + 24) < seg_end g"]
    by simp
qed

lemma elf_check_segment_eq:
  assumes "table_inside s p l" "56 \<le> load_word s (p + 54)" "0 \<le> i" "i < int (length (segments s p))"
  defines "g \<equiv> segments s p ! nat i"
  shows "elf_check_segment s p l (int (length (segments s p))) i = Some (seg_vaddr g mod 4096 = 0
    \<and> seg_filesz g \<le> seg_memsz g \<and> i64 (seg_offset g + seg_filesz g) \<le> l
    \<and> drop_bit 12 (elf_align_up (seg_end g) 4096) \<le> 64
    \<and> (\<forall>j. i + 1 \<le> j \<longrightarrow> j < int (length (segments s p)) \<longrightarrow> apart g (segments s p ! nat j)))"
proof -
  note seg = elf_segments [OF assms(1,2)]
  have "elf_no_overlap s p l (int (length (segments s p))) i (seg_vaddr g) (seg_memsz g) = Some (True \<and>
    (\<forall>j. i + 1 \<le> j \<longrightarrow> j < int (length (segments s p)) \<longrightarrow> apart g (segments s p ! nat j)))"
    unfolding elf_no_overlap_def
    by (rule for_range_all) (use assms(3) in \<open>auto simp: seg seg_end_def apart_def Let_def not_less\<close>)
  moreover have "0 < seg_memsz g" using segments_positive [of g s p] nth_mem [of "nat i" "segments s p"] assms
    by (simp add: g_def nat_less_iff)
  ultimately show ?thesis
    unfolding elf_check_segment_def using assms(3,4)
    by (simp add: seg g_def [symmetric] seg_end_def elf_page_size_def elf_max_user_pages_def mask_simps
        Let_def not_less not_le)
qed

lemma elf_header_bytes:
  assumes a: "p \<noteq> 0" "64 \<le> l" "in64 l"
  shows "(do { h \<leftarrow> elf_validate_header s p l; n \<leftarrow> elf_phentsize s p l; Some (h \<and> n \<ge> 56) }) = Some (header_ok s p)"
proof -
  have "load_byte_region s p l i = Some (load_byte s (p + i))" if "0 \<le> i" "i < 64" for i
    using a that by (simp add: region_simps)
  moreover have "[0..5] = [0, 1, 2, 3, 4, 5 :: int]" by (simp add: upto_rec1)
  ultimately show ?thesis
    using a unfolding elf_validate_header_def header_ok_def elf_phentsize_def
    by (simp add: elf_u16_eq elf_magic0_def elf_magic1_def elf_magic2_def elf_magic3_def elf_class_64_def
        elf_data_little_def elf_type_exec_def elf_machine_x86_64_def)
qed

lemma elf_header_eq:
  assumes "table_inside s p l"
  shows "(do { h \<leftarrow> elf_validate_header s p l; n \<leftarrow> elf_phentsize s p l; Some (h \<and> n \<ge> 56) }) = Some (header_ok s p)"
  using assms by (intro elf_header_bytes) (auto simp: table_inside_def)

lemma sorted_wrt_int: "sorted_wrt P xs \<longleftrightarrow>
  (\<forall>i. 0 \<le> i \<longrightarrow> i < int (length xs) \<longrightarrow> (\<forall>j. i + 1 \<le> j \<longrightarrow> j < int (length xs) \<longrightarrow> P (xs ! nat i) (xs ! nat j)))"
  unfolding sorted_wrt_iff_nth_less
proof safe
  fix i j assume *: "\<forall>i j. i < j \<longrightarrow> j < length xs \<longrightarrow> P (xs ! i) (xs ! j)"
    and "0 \<le> i" "i + 1 \<le> j" "j < int (length xs)"
  then have "nat i < nat j" "nat j < length xs" by auto
  then show "P (xs ! nat i) (xs ! nat j)" using * by blast
next
  fix i j assume *: "\<forall>i. 0 \<le> i \<longrightarrow> i < int (length xs) \<longrightarrow> (\<forall>j. i + 1 \<le> j \<longrightarrow> j < int (length xs) \<longrightarrow> P (xs ! nat i) (xs ! nat j))"
    and "i < j" "j < length xs"
  then have "P (xs ! nat (int i)) (xs ! nat (int j))" by (intro * [rule_format]) auto
  then show "P (xs ! i) (xs ! j)" by simp
qed

lemma elf_validate_eq:
  assumes "table_inside s p l"
  shows "elf_validate_user_image s p l = Some (image_ok s p l)"
proof -
  define segs where "segs = segments s p"
  have l: "64 \<le> l" using assms by (simp add: table_inside_def)
  obtain h where h: "elf_validate_header s p l = Some h" "header_ok s p \<longleftrightarrow> h \<and> load_word s (p + 54) \<ge> 56"
    using elf_header_eq [OF assms] elf_header_fields(2) [OF assms] by (auto simp: Option.bind_eq_Some_conv)
  show ?thesis
  proof (cases "header_ok s p")
    case False
    then show ?thesis
      using h by (auto simp: elf_validate_user_image_def image_ok_def elf_header_fields [OF assms])
  next
    case True
    then have ent: "56 \<le> load_word s (p + 54)" using h by simp
    note seg = elf_segments(1) [OF assms ent, folded segs_def]
    define ok where "ok \<longleftrightarrow> (\<forall>i. 0 \<le> i \<longrightarrow> i < int (length segs) \<longrightarrow> seg_vaddr (segs ! nat i) mod 4096 = 0
      \<and> seg_filesz (segs ! nat i) \<le> seg_memsz (segs ! nat i)
      \<and> i64 (seg_offset (segs ! nat i) + seg_filesz (segs ! nat i)) \<le> l
      \<and> drop_bit 12 (elf_align_up (seg_end (segs ! nat i)) 4096) \<le> 64
      \<and> (\<forall>j. i + 1 \<le> j \<longrightarrow> j < int (length segs) \<longrightarrow> apart (segs ! nat i) (segs ! nat j)))"
    have loop: "for_range 0 (int (length segs)) (\<lambda>i ok. if \<not> ok then Some False
       else elf_check_segment s p l (int (length segs)) i) True = Some (True \<and> ok)"
      unfolding ok_def segs_def
      by (rule for_range_all) (simp_all add: elf_check_segment_eq [OF assms ent])
    obtain n where n: "elf_user_image_page_count s p l = Some n"
      "0 < n \<and> n \<le> 64 \<longleftrightarrow> 0 < image_top s p \<and> image_top s p \<le> 64 * 4096"
      using elf_page_limits(1) [OF assms ent] by blast
    let ?E = "\<lambda>g. seg_vaddr g \<le> load_qword s (p + 24) \<and> load_qword s (p + 24) < seg_end g"
    have run: "elf_validate_user_image s p l = Some (segs \<noteq> [] \<and> ok \<and> (0 < n \<and> n \<le> 64) \<and> (\<exists>g \<in> set segs. ?E g))"
      using h True ent loop n(1) elf_entry_inside [OF assms ent, folded segs_def]
      unfolding elf_validate_user_image_def elf_header_fields [OF assms] seg
      by (auto simp: elf_max_user_pages_def)
    have top: "0 < n \<and> n \<le> 64 \<longleftrightarrow> (\<exists>g \<in> set segs. 0 < seg_end g) \<and> (\<forall>g \<in> set segs. seg_end g \<le> 64 * 4096)"
      using n(2) image_top_bounds(1) [of s p 0] image_top_bounds(1) [of s p "64 * 4096"]
      by (auto simp: segs_def not_le)
    have "ok \<and> (\<forall>g \<in> set segs. seg_end g \<le> 64 * 4096) \<longleftrightarrow> (\<forall>g \<in> set segs. segment_ok l g) \<and> sorted_wrt apart segs"
      unfolding ok_def sorted_wrt_int segment_ok_def all_nth_int [symmetric]
      using elf_page_limits(2) [OF assms ent] by blast
    then show ?thesis unfolding run image_ok_def segs_def [symmetric] using top l True by auto
  qed
qed

text \<open>
  C8: on every file whose program header table lies inside it, the validator
  returns, and accepts exactly the images the specification describes: the header identifies an
  x86-64 executable, every loadable segment is page aligned, not larger on file than in memory, ends
  inside the file and inside the 64-page window, no two loadable segments overlap, and the entry
  point lies in one of them.
\<close>

theorem elf_validator_meets_spec:
  assumes "table_inside s p l"
  shows "elf_validate_user_image s p l = Some (image_ok s p l)"
  using assms by (rule elf_validate_eq)

text \<open>A small executable: one loadable segment of 256 bytes, half of it on file.\<close>

definition sample_elf :: machine where
  "sample_elf = poke [(0x200000, 0x00010102464C457F), (0x200010, 0x00000001003E0002), (0x200018, 16),
     (0x200020, 64), (0x200030, 0x0038004000000000), (0x200038, 1), (0x200040, 0x0000000500000001),
     (0x200060, 128), (0x200068, 256)] blank_machine"

lemma le_load_part: "k + n \<le> j \<Longrightarrow> le_load n m (a + int k) = le_load j m a div 256 ^ k mod 256 ^ n"
proof (induction j arbitrary: a k n)
  case (Suc j)
  have byte: "0 \<le> uint (m a)" "uint (m a) < 256" using uint_bounded [of "m a"] by auto
  show ?case
  proof (cases k)
    case 0
    show ?thesis
    proof (cases n)
      case n: (Suc n')
      have "le_load n' m (a + 1) = le_load j m (a + 1) mod 256 ^ n'"
        using Suc.IH [of 0 n' "a + 1"] Suc.prems 0 n by simp
      moreover have "(uint (m a) + 256 * x) mod (256 * 256 ^ n') = 256 * (x mod 256 ^ n') + uint (m a)" for x
        using zmod_zmult2_eq [of "256 ^ n'" "uint (m a) + 256 * x" 256] byte by simp
      ultimately show ?thesis using 0 n by simp
    qed simp
  next
    case k: (Suc k')
    have "(uint (m a) + 256 * x) div (256 * 256 ^ k') = x div 256 ^ k'" for x
      using zdiv_zmult2_eq [of "256 ^ k'" "uint (m a) + 256 * x" 256] byte by simp
    then show ?thesis using Suc.IH [of k' n "a + 1"] Suc.prems k by (simp add: add.assoc)
  qed
qed simp

lemma load_part:
  assumes "k + n \<le> 8"
  shows "le_load n (mem s) (a + int k) = load_qword s a mod 2 ^ 64 div 256 ^ k mod 256 ^ n"
proof -
  have "load_qword s a mod 2 ^ 64 = le_load 8 (mem s) a mod 2 ^ 64"
    using take_bit_signed_take_bit [of 64 63 "le_load 8 (mem s) a"]
    by (simp add: load_qword_def i64_def take_bit_eq_mod)
  then show ?thesis using le_load_part [OF assms, of "mem s" a] le_load_256_8 [of "mem s" a] by simp
qed

lemma sample_elf_qwords:
  "load_qword sample_elf 0x200000 = 0x00010102464C457F" "load_qword sample_elf 0x200010 = 0x00000001003E0002"
  "load_qword sample_elf 0x200018 = 16" "load_qword sample_elf 0x200020 = 64"
  "load_qword sample_elf 0x200030 = 0x0038004000000000" "load_qword sample_elf 0x200038 = 1"
  "load_qword sample_elf 0x200040 = 0x0000000500000001" "load_qword sample_elf 0x200048 = 0"
  "load_qword sample_elf 0x200050 = 0" "load_qword sample_elf 0x200060 = 128" "load_qword sample_elf 0x200068 = 256"
  by (simp_all add: sample_elf_def sample_simps)

lemma sample_elf_fields:
  "load_word sample_elf 0x200036 = 56" "load_word sample_elf 0x200038 = 1"
  "load_dword sample_elf 0x200040 = 1" "load_dword sample_elf 0x200044 = 5"
  "load_word sample_elf 0x200010 = 2" "load_word sample_elf 0x200012 = 62"
  using load_part [of 6 2 sample_elf "0x200030"] load_part [of 0 2 sample_elf "0x200038"]
    load_part [of 0 4 sample_elf "0x200040"] load_part [of 4 4 sample_elf "0x200040"]
    load_part [of 0 2 sample_elf "0x200010"] load_part [of 2 2 sample_elf "0x200010"]
  by (simp_all add: load_word_def load_dword_def sample_elf_qwords)

lemma sample_elf_ident: "load_byte sample_elf 0x200000 = 0x7F" "load_byte sample_elf 0x200001 = 0x45"
  "load_byte sample_elf 0x200002 = 0x4C" "load_byte sample_elf 0x200003 = 0x46"
  "load_byte sample_elf 0x200004 = 2" "load_byte sample_elf 0x200005 = 1"
  using load_part [of 0 1 sample_elf "0x200000"] load_part [of 1 1 sample_elf "0x200000"]
    load_part [of 2 1 sample_elf "0x200000"] load_part [of 3 1 sample_elf "0x200000"]
    load_part [of 4 1 sample_elf "0x200000"] load_part [of 5 1 sample_elf "0x200000"]
  by (simp_all add: load_byte_def sample_elf_qwords)

lemma sample_elf_header: "header_ok sample_elf 0x200000"
  by (simp add: header_ok_def sample_elf_fields sample_elf_ident upto_rec1)

lemma sample_elf_table: "table_inside sample_elf 0x200000 128"
  by (simp add: table_inside_def sample_elf_fields sample_elf_qwords in64_def)

lemma sample_elf_segments: "segments sample_elf 0x200000 =
  [\<lparr>seg_offset = 0, seg_vaddr = 0, seg_filesz = 128, seg_memsz = 256, seg_flags = 5\<rparr>]"
  by (simp add: segments_def load_headers_def is_load_def ph_addr_def segment_at_def sample_elf_fields
      sample_elf_qwords upto_rec1)

theorem elf_validator_meets_spec_witness: "elf_validate_user_image sample_elf 0x200000 128 = Some True"
  using elf_validator_meets_spec [OF sample_elf_table]
  by (simp add: image_ok_def sample_elf_header sample_elf_segments segment_ok_def seg_end_def sample_elf_qwords
      i64_id in64_def)

lemma elf_accepted:
  assumes "table_inside s p l" "elf_validate_user_image s p l = Some True"
    and "\<forall>g \<in> set (segments s p). 0 \<le> seg_offset g \<and> 0 \<le> seg_vaddr g \<and> 0 \<le> seg_filesz g
      \<and> seg_vaddr g + seg_memsz g < 2 ^ 63 \<and> seg_offset g + seg_filesz g < 2 ^ 63"
  shows "\<forall>g \<in> set (segments s p). {seg_offset g..<seg_offset g + seg_filesz g} \<subseteq> {0..<l}
      \<and> {seg_vaddr g..<seg_vaddr g + seg_memsz g} \<subseteq> {0..<64 * 4096}"
    and "\<forall>i j. i < j \<longrightarrow> j < length (segments s p) \<longrightarrow>
      (let g = segments s p ! i; h = segments s p ! j in
       {seg_vaddr g..<seg_vaddr g + seg_memsz g} \<inter> {seg_vaddr h..<seg_vaddr h + seg_memsz h} = {})"
    and "\<exists>n. elf_user_image_page_count s p l = Some n \<and> 0 < n \<and> n \<le> 64"
    and "\<exists>g \<in> set (segments s p). elf_user_entry_offset s p l = Some (load_qword s (p + 24))
      \<and> load_qword s (p + 24) \<in> {seg_vaddr g..<seg_vaddr g + seg_memsz g}"
proof -
  have ok: "image_ok s p l" using elf_validate_eq [OF assms(1)] assms(2) by simp
  have fin: "seg_end g = seg_vaddr g + seg_memsz g" "i64 (seg_offset g + seg_filesz g) = seg_offset g + seg_filesz g"
    if "g \<in> set (segments s p)" for g
    using assms(3) that segments_positive [OF that] by (auto simp: seg_end_def intro!: i64_id in64I)
  show "\<forall>g \<in> set (segments s p). {seg_offset g..<seg_offset g + seg_filesz g} \<subseteq> {0..<l}
      \<and> {seg_vaddr g..<seg_vaddr g + seg_memsz g} \<subseteq> {0..<64 * 4096}"
    using ok assms(3) fin by (auto simp: image_ok_def segment_ok_def)
  show "\<forall>i j. i < j \<longrightarrow> j < length (segments s p) \<longrightarrow>
      (let g = segments s p ! i; h = segments s p ! j in
       {seg_vaddr g..<seg_vaddr g + seg_memsz g} \<inter> {seg_vaddr h..<seg_vaddr h + seg_memsz h} = {})"
    using ok fin unfolding image_ok_def sorted_wrt_iff_nth_less apart_def Let_def by fastforce
  have ent: "56 \<le> load_word s (p + 54)" using ok by (simp add: image_ok_def header_ok_def)
  have "0 < image_top s p \<and> image_top s p \<le> 64 * 4096"
    using ok image_top_bounds(1) [of s p 0] image_top_bounds(1) [of s p "64 * 4096"]
    by (auto simp: image_ok_def segment_ok_def not_le)
  then show "\<exists>n. elf_user_image_page_count s p l = Some n \<and> 0 < n \<and> n \<le> 64"
    using elf_page_limits(1) [OF assms(1) ent] by blast
  show "\<exists>g \<in> set (segments s p). elf_user_entry_offset s p l = Some (load_qword s (p + 24))
      \<and> load_qword s (p + 24) \<in> {seg_vaddr g..<seg_vaddr g + seg_memsz g}"
    using ok fin unfolding image_ok_def by (auto simp: elf_user_entry_offset_def assms(2) elf_header_fields [OF assms(1)])
qed

text \<open>
  C9: what the loader relies on.  The validator compares signed sums and tests neither the signs
  nor the overflow, so the statement is about images whose loadable segments have non-negative file offsets, addresses
  and sizes, with both sums \<open>offset + filesz\<close> and \<open>vaddr + memsz\<close> below \<open>2 ^ 63\<close>: of an accepted image of this kind, every
  file byte of a segment is inside the file, every memory byte is in one of the
  first 64 pages of the window, and different segments never share a byte.
\<close>

theorem elf_accepted_image_loads:
  assumes "table_inside s p l" "elf_validate_user_image s p l = Some True"
    and "\<forall>g \<in> set (segments s p). 0 \<le> seg_offset g \<and> 0 \<le> seg_vaddr g \<and> 0 \<le> seg_filesz g
      \<and> seg_vaddr g + seg_memsz g < 2 ^ 63 \<and> seg_offset g + seg_filesz g < 2 ^ 63"
  shows "(\<forall>g \<in> set (segments s p). {seg_offset g..<seg_offset g + seg_filesz g} \<subseteq> {0..<l}
      \<and> {seg_vaddr g..<seg_vaddr g + seg_memsz g} \<subseteq> {0..<64 * 4096})
    \<and> (\<forall>i j. i < j \<longrightarrow> j < length (segments s p) \<longrightarrow>
      (let g = segments s p ! i; h = segments s p ! j in
       {seg_vaddr g..<seg_vaddr g + seg_memsz g} \<inter> {seg_vaddr h..<seg_vaddr h + seg_memsz h} = {}))
    \<and> (\<exists>n. elf_user_image_page_count s p l = Some n \<and> 0 < n \<and> n \<le> 64)
    \<and> (\<exists>g \<in> set (segments s p). elf_user_entry_offset s p l = Some (load_qword s (p + 24))
      \<and> load_qword s (p + 24) \<in> {seg_vaddr g..<seg_vaddr g + seg_memsz g})"
  using elf_accepted [OF assms] by (intro conjI)

theorem elf_accepted_image_loads_witness:
  "(\<exists>n. elf_user_image_page_count sample_elf 0x200000 128 = Some n \<and> 0 < n \<and> n \<le> 64)
    \<and> elf_user_entry_offset sample_elf 0x200000 128 = Some 16"
proof -
  have "elf_validate_user_image sample_elf 0x200000 128 = Some True"
    using elf_validate_eq [OF sample_elf_table]
    by (simp add: image_ok_def sample_elf_header sample_elf_segments segment_ok_def seg_end_def
        sample_elf_qwords i64_id in64_def)
  from elf_accepted_image_loads [OF sample_elf_table this] show ?thesis
    by (simp add: sample_elf_segments sample_elf_qwords)
qed

text \<open>
  C10: a file with a valid header whose first program header starts outside the
  file is not rejected: the validator reads through the checked accessor and halts the kernel.
\<close>

theorem elf_table_outside_halts:
  assumes "p \<noteq> 0" "64 \<le> l" "in64 l" "header_ok s p" "0 < load_word s (p + 56)"
    and "load_qword s (p + 32) < 0 \<or> l \<le> load_qword s (p + 32)"
  shows "elf_validate_user_image s p l = None"
proof -
  have in64: "in64 (load_qword s (p + 32))" by (rule memory.load_in64)
  have fields: "elf_phentsize s p l = Some (load_word s (p + 54))" "elf_phnum s p l = Some (load_word s (p + 56))"
    "elf_phoff s p l = Some (load_qword s (p + 32))"
    using assms(1-3) unfolding elf_phentsize_def elf_phnum_def elf_phoff_def by (simp_all add: elf_u16_eq elf_u64_eq)
  have "elf_segment_is_user_load s p l 0 = None"
    using elf_read_outside(2) [OF assms(6) in64] in64
    by (simp add: elf_segment_is_user_load_def elf_segment_type_def elf_segment_offset_def fields i64_id)
  then have count: "elf_user_load_segment_count s p l = None"
    using assms(5) by (simp add: elf_user_load_segment_count_def elf_count_from.simps [of s p l 0 0] fields)
  have "elf_validate_header s p l \<noteq> Some False"
    using elf_header_bytes [OF assms(1-3), of s] assms(4) fields(1) by (auto simp: Option.bind_eq_Some_conv)
  then show ?thesis
    using assms(4) count unfolding elf_validate_user_image_def fields header_ok_def
    by (cases "elf_validate_header s p l") auto
qed

definition sample_broken_elf :: machine where
  "sample_broken_elf = put_qword sample_elf 0x200020 4096"

theorem elf_table_outside_halts_witness: "elf_validate_user_image sample_broken_elf 0x200000 128 = None"
proof (rule elf_table_outside_halts)
  have part: "le_load n (mem sample_broken_elf) (a + int k) = le_load n (mem sample_elf) (a + int k)"
    if "k + n \<le> 8" "a + 8 \<le> 0x200020 \<or> 0x200028 \<le> a" for a k n
    using that load_part [of k n sample_broken_elf a] load_part [of k n sample_elf a]
      load_put_qword_other [of "0x200020" a sample_elf 4096]
    by (auto simp: sample_broken_elf_def)
  show "header_ok sample_broken_elf 0x200000"
    using sample_elf_header part [of 0 1 "0x200000"] part [of 1 1 "0x200000"] part [of 2 1 "0x200000"]
      part [of 3 1 "0x200000"] part [of 4 1 "0x200000"] part [of 5 1 "0x200000"] part [of 0 2 "0x200010"]
      part [of 2 2 "0x200010"] part [of 6 2 "0x200030"]
    by (simp add: header_ok_def load_word_def load_byte_def upto_rec1)
  show "0 < load_word sample_broken_elf (0x200000 + 56)"
    using sample_elf_fields part [of 0 2 "0x200038"] by (simp add: load_word_def)
qed (simp_all add: in64_def sample_broken_elf_def sample_simps)

end
