(* ===== verification/Tasks.thy ===== *)
theory Tasks
  imports Sched Elf Vmm
begin

text \<open>
  Tasks and programs, the rest of \<^verbatim>\<open>ksched.py\<close>: contexts of new tasks, the initial user stack, loading
  an executable into user pages, creating, replacing, destroying and waiting for tasks, and the
  scheduler's initialisation, reports and self-test.
\<close>

section \<open>Filling a task entry\<close>

definition scheduler_set_task ::
    "machine \<Rightarrow> int \<Rightarrow> int \<Rightarrow> int \<Rightarrow> int \<Rightarrow> int \<Rightarrow> int \<Rightarrow> int \<Rightarrow> int \<Rightarrow> int \<Rightarrow> int \<Rightarrow> int \<Rightarrow> int \<Rightarrow> int \<Rightarrow> int
     \<Rightarrow> int \<Rightarrow> int \<Rightarrow> int \<Rightarrow> int \<Rightarrow> machine option" where
  "scheduler_set_task s state_ptr task_id state name_tag ctx_ptr stack_base mode root user_base user_limit
     user_page_array_ptr user_page_count user_stack_phys parent_pid user_heap_base user_heap_limit
     user_heap_break irq_frame_ptr = do {
     task_table_ptr \<leftarrow> scheduler_task_table_ptr s state_ptr;
     s \<leftarrow> set_scheduler_task_qword s task_table_ptr task_id task_slot_id task_id;
     s \<leftarrow> set_scheduler_task_qword s task_table_ptr task_id task_slot_state state;
     s \<leftarrow> set_scheduler_task_qword s task_table_ptr task_id task_slot_runtime_ticks 0;
     s \<leftarrow> set_scheduler_task_qword s task_table_ptr task_id task_slot_switches 0;
     s \<leftarrow> set_scheduler_task_qword s task_table_ptr task_id task_slot_name_tag name_tag;
     s \<leftarrow> set_scheduler_task_qword s task_table_ptr task_id task_slot_wait_ticks 0;
     s \<leftarrow> set_scheduler_task_qword s task_table_ptr task_id task_slot_exit_code 0;
     s \<leftarrow> set_scheduler_task_qword s task_table_ptr task_id task_slot_context_ptr ctx_ptr;
     s \<leftarrow> set_scheduler_task_qword s task_table_ptr task_id task_slot_stack_base stack_base;
     s \<leftarrow> set_scheduler_task_qword s task_table_ptr task_id task_slot_mode mode;
     s \<leftarrow> set_scheduler_task_qword s task_table_ptr task_id task_slot_cr3 root;
     s \<leftarrow> set_scheduler_task_qword s task_table_ptr task_id task_slot_user_base user_base;
     s \<leftarrow> set_scheduler_task_qword s task_table_ptr task_id task_slot_user_limit user_limit;
     s \<leftarrow> set_scheduler_task_qword s task_table_ptr task_id task_slot_user_page_array_ptr user_page_array_ptr;
     s \<leftarrow> set_scheduler_task_qword s task_table_ptr task_id task_slot_user_page_count user_page_count;
     s \<leftarrow> set_scheduler_task_qword s task_table_ptr task_id task_slot_user_stack_phys user_stack_phys;
     s \<leftarrow> set_scheduler_task_qword s task_table_ptr task_id task_slot_parent_pid parent_pid;
     s \<leftarrow> set_scheduler_task_qword s task_table_ptr task_id task_slot_user_heap_base user_heap_base;
     s \<leftarrow> set_scheduler_task_qword s task_table_ptr task_id task_slot_user_heap_limit user_heap_limit;
     s \<leftarrow> set_scheduler_task_qword s task_table_ptr task_id task_slot_user_heap_break user_heap_break;
     s \<leftarrow> set_scheduler_task_qword s task_table_ptr task_id task_slot_irq_frame_ptr irq_frame_ptr;
     scheduler_init_task_fds s state_ptr task_id }"

section \<open>Contexts of new tasks\<close>

definition scheduler_prepare_kernel_task_context :: "machine \<Rightarrow> int \<Rightarrow> ((int \<times> int) \<times> machine) option" where
  "scheduler_prepare_kernel_task_context s task_id = do {
     (ctx_ptr, s) \<leftarrow> alloc_bytes s (context_slot_limit * 8);
     (stack_base, s) \<leftarrow> alloc_bytes s task_stack_size;
     let stack_top = align_down (stack_base + task_stack_size) 16;
     let initial_rsp = stack_top - 8;
     s \<leftarrow> store_qword_region s initial_rsp 1 0 (task_trampoline_addr s);
     s \<leftarrow> set_task_context_qword s ctx_ptr context_slot_rsp initial_rsp;
     s \<leftarrow> set_task_context_qword s ctx_ptr context_slot_rbx 0;
     s \<leftarrow> set_task_context_qword s ctx_ptr context_slot_rbp 0;
     s \<leftarrow> set_task_context_qword s ctx_ptr context_slot_r12 task_id;
     s \<leftarrow> set_task_context_qword s ctx_ptr context_slot_r13 0;
     s \<leftarrow> set_task_context_qword s ctx_ptr context_slot_r14 0;
     s \<leftarrow> set_task_context_qword s ctx_ptr context_slot_r15 0;
     Some ((ctx_ptr, stack_base), s) }"

definition scheduler_configure_user_task_context ::
    "machine \<Rightarrow> int \<Rightarrow> int \<Rightarrow> int \<Rightarrow> int \<Rightarrow> int \<Rightarrow> int \<Rightarrow> int \<Rightarrow> int \<Rightarrow> ((int \<times> int) \<times> machine) option" where
  "scheduler_configure_user_task_context s ctx_ptr stack_base task_id user_rip user_rsp argc argv_ptr envp_ptr = do {
     let stack_top = align_down (stack_base + task_stack_size) 16;
     let initial_rsp = stack_top - 8;
     s \<leftarrow> store_qword_region s initial_rsp 1 0 (user_task_trampoline_addr s);
     s \<leftarrow> set_task_context_qword s ctx_ptr context_slot_rsp initial_rsp;
     s \<leftarrow> set_task_context_qword s ctx_ptr context_slot_rbx argc;
     s \<leftarrow> set_task_context_qword s ctx_ptr context_slot_rbp argv_ptr;
     s \<leftarrow> set_task_context_qword s ctx_ptr context_slot_r12 user_rip;
     s \<leftarrow> set_task_context_qword s ctx_ptr context_slot_r13 user_rsp;
     s \<leftarrow> set_task_context_qword s ctx_ptr context_slot_r14 envp_ptr;
     s \<leftarrow> set_task_context_qword s ctx_ptr context_slot_r15 0;
     Some ((ctx_ptr, stack_base), s) }"

definition scheduler_prepare_user_task_context ::
    "machine \<Rightarrow> int \<Rightarrow> int \<Rightarrow> int \<Rightarrow> int \<Rightarrow> int \<Rightarrow> int \<Rightarrow> ((int \<times> int) \<times> machine) option" where
  "scheduler_prepare_user_task_context s task_id user_rip user_rsp argc argv_ptr envp_ptr = do {
     (ctx_ptr, s) \<leftarrow> alloc_bytes s (context_slot_limit * 8);
     (stack_base, s) \<leftarrow> alloc_bytes s task_stack_size;
     scheduler_configure_user_task_context s ctx_ptr stack_base task_id user_rip user_rsp argc argv_ptr envp_ptr }"

section \<open>The initial user stack\<close>

definition exec_vec_entry_ptr :: "int \<Rightarrow> int \<Rightarrow> int" where
  "exec_vec_entry_ptr vec_ptr index = vec_ptr + index * 16"

definition exec_vec_arg_ptr :: "machine \<Rightarrow> int \<Rightarrow> int \<Rightarrow> int option" where
  "exec_vec_arg_ptr s vec_ptr index = load_qword_region s (exec_vec_entry_ptr vec_ptr index) 2 0"

definition exec_vec_arg_len :: "machine \<Rightarrow> int \<Rightarrow> int \<Rightarrow> int option" where
  "exec_vec_arg_len s vec_ptr index = load_qword_region s (exec_vec_entry_ptr vec_ptr index) 2 1"

definition user_page_array_qword :: "machine \<Rightarrow> int \<Rightarrow> int \<Rightarrow> int \<Rightarrow> int option" where
  "user_page_array_qword s page_array_ptr page_count slot = load_qword_region s page_array_ptr page_count slot"

definition set_user_page_array_qword :: "machine \<Rightarrow> int \<Rightarrow> int \<Rightarrow> int \<Rightarrow> int \<Rightarrow> machine option" where
  "set_user_page_array_qword s page_array_ptr page_count slot v = store_qword_region s page_array_ptr page_count slot v"

definition scheduler_copy_stack_string :: "machine \<Rightarrow> int \<Rightarrow> int \<Rightarrow> int \<Rightarrow> int \<Rightarrow> (int \<times> machine) option" where
  "scheduler_copy_stack_string s stack_phys stack_top_off src_ptr src_len = do {
     let stack_top_off = i64 (stack_top_off - (src_len + 1));
     s \<leftarrow> for_range 0 src_len (\<lambda>copied s. do {
       b \<leftarrow> load_byte_region s src_ptr src_len copied;
       store_byte_region s stack_phys user_page_size (stack_top_off + copied) b }) s;
     s \<leftarrow> store_byte_region s stack_phys user_page_size (stack_top_off + src_len) 0;
     Some (stack_top_off, s) }"

text \<open>
  The strings of a vector are copied from the last to the first, each below the one before; the user
  address of each is kept in a scratch array.
\<close>

function copy_stack_strings ::
    "machine \<Rightarrow> int \<Rightarrow> int \<Rightarrow> int \<Rightarrow> int \<Rightarrow> int \<Rightarrow> int \<Rightarrow> int \<Rightarrow> (int \<times> machine) option" where
  "copy_stack_strings s stack_phys stack_base vec_ptr user_ptrs vec_count index stack_top_off =
     (if index \<ge> 0 then do {
        src_ptr \<leftarrow> exec_vec_arg_ptr s vec_ptr index;
        src_len \<leftarrow> exec_vec_arg_len s vec_ptr index;
        (stack_top_off, s) \<leftarrow> scheduler_copy_stack_string s stack_phys stack_top_off src_ptr src_len;
        s \<leftarrow> store_qword_region s user_ptrs vec_count index (stack_base + stack_top_off);
        copy_stack_strings s stack_phys stack_base vec_ptr user_ptrs vec_count (index - 1) stack_top_off }
      else Some (stack_top_off, s))"
  by pat_completeness auto
termination
  by (relation "measure (\<lambda>(s, p, b, v, u, n, i, off). nat (i + 1))") auto

declare copy_stack_strings.simps [simp del]

definition copy_pointer_vector :: "machine \<Rightarrow> int \<Rightarrow> int \<Rightarrow> int \<Rightarrow> machine option" where
  "copy_pointer_vector s dst user_ptrs vec_count = do {
     s \<leftarrow> for_range 0 vec_count (\<lambda>index s. do {
       v \<leftarrow> load_qword_region s user_ptrs vec_count index;
       store_qword_region s dst (vec_count + 1) index v }) s;
     store_qword_region s dst (vec_count + 1) vec_count 0 }"

definition scheduler_build_user_initial_stack ::
    "machine \<Rightarrow> int \<Rightarrow> int \<Rightarrow> int \<Rightarrow> int \<Rightarrow> int \<Rightarrow> int \<Rightarrow> int \<Rightarrow> ((int \<times> int \<times> int \<times> int) \<times> machine) option" where
  "scheduler_build_user_initial_stack s task_id page_count page_array_ptr argvec_ptr arg_count envvec_ptr env_count = do {
     stack_phys \<leftarrow> user_page_array_qword s page_array_ptr page_count (page_count - 1);
     let stack_base = user_task_stack_base_virt task_id page_count;
     (arg_user_ptrs, s) \<leftarrow> (if arg_count > 0 then alloc_bytes s (arg_count * 8) else Some (0, s));
     (env_user_ptrs, s) \<leftarrow> (if env_count > 0 then alloc_bytes s (env_count * 8) else Some (0, s));
     (stack_top_off, s) \<leftarrow>
       copy_stack_strings s stack_phys stack_base envvec_ptr env_user_ptrs env_count (env_count - 1) user_page_size;
     (stack_top_off, s) \<leftarrow>
       copy_stack_strings s stack_phys stack_base argvec_ptr arg_user_ptrs arg_count (arg_count - 1) stack_top_off;
     let stack_top_off = align_down stack_top_off 16 - (env_count + 1) * 8;
     let envp_ptr = stack_base + stack_top_off;
     s \<leftarrow> copy_pointer_vector s (stack_phys + stack_top_off) env_user_ptrs env_count;
     let stack_top_off = stack_top_off - (arg_count + 1) * 8;
     let argv_ptr = stack_base + stack_top_off;
     s \<leftarrow> copy_pointer_vector s (stack_phys + stack_top_off) arg_user_ptrs arg_count;
     let stack_top_off = stack_top_off - 8;
     s \<leftarrow> store_qword_region s (stack_phys + stack_top_off) 1 0 arg_count;
     Some ((stack_base + stack_top_off, arg_count, argv_ptr, envp_ptr), s) }"

section \<open>User pages\<close>

definition scheduler_user_image_total_pages :: "machine \<Rightarrow> int \<Rightarrow> int \<Rightarrow> int option" where
  "scheduler_user_image_total_pages s image_ptr image_len = do {
     n \<leftarrow> elf_user_image_page_count s image_ptr image_len;
     Some (n + user_task_heap_pages + 1) }"

definition scheduler_set_page_flags :: "machine \<Rightarrow> int \<Rightarrow> int \<Rightarrow> int \<Rightarrow> int \<Rightarrow> machine option" where
  "scheduler_set_page_flags s page_flags_ptr image_page_count page_index v =
     store_qword_region s page_flags_ptr image_page_count page_index v"

definition scheduler_page_flags :: "machine \<Rightarrow> int \<Rightarrow> int \<Rightarrow> int \<Rightarrow> int option" where
  "scheduler_page_flags s page_flags_ptr image_page_count page_index =
     load_qword_region s page_flags_ptr image_page_count page_index"

text \<open>One segment: the flags of its pages when it is writable, then its file bytes.\<close>

definition load_segment ::
    "int \<Rightarrow> int \<Rightarrow> int \<Rightarrow> int \<Rightarrow> int \<Rightarrow> int \<Rightarrow> int \<Rightarrow> machine \<Rightarrow> machine option" where
  "load_segment image_ptr image_len page_array_ptr page_count page_flags_ptr image_page_count load_index s = do {
     seg_offset \<leftarrow> elf_user_segment_offset s image_ptr image_len load_index;
     seg_vaddr \<leftarrow> elf_user_segment_vaddr s image_ptr image_len load_index;
     seg_filesz \<leftarrow> elf_user_segment_filesz s image_ptr image_len load_index;
     seg_memsz \<leftarrow> elf_user_segment_memsz s image_ptr image_len load_index;
     seg_flags \<leftarrow> elf_user_segment_flags s image_ptr image_len load_index;
     let seg_page = drop_bit 12 seg_vaddr;
     let seg_page_end = drop_bit 12 (align_down (i64 (seg_vaddr + seg_memsz + user_page_size - 1)) user_page_size);
     s \<leftarrow> (if seg_flags AND elf_pf_w \<noteq> 0 then
         for_range seg_page seg_page_end (\<lambda>page_index s.
           scheduler_set_page_flags s page_flags_ptr image_page_count page_index scheduler_user_page_flags_writable) s
       else Some s);
     for_range 0 seg_filesz (\<lambda>copied s. do {
       let page_index = drop_bit 12 (i64 (seg_vaddr + copied));
       let page_off = i64 (seg_vaddr + copied) AND (user_page_size - 1);
       phys \<leftarrow> user_page_array_qword s page_array_ptr page_count page_index;
       b \<leftarrow> load_byte_region s image_ptr image_len (i64 (seg_offset + copied));
       store_byte_region s phys user_page_size page_off b }) s }"

definition scheduler_prepare_user_image_pages ::
    "machine \<Rightarrow> int \<Rightarrow> int \<Rightarrow> int \<Rightarrow> int \<Rightarrow> int \<Rightarrow> ((int \<times> int \<times> int) \<times> machine) option" where
  "scheduler_prepare_user_image_pages s state_ptr task_id pmm_state image_ptr image_len = do {
     file_page_count \<leftarrow> elf_user_image_page_count s image_ptr image_len;
     let image_page_count = file_page_count + user_task_heap_pages;
     let page_count = image_page_count + 1;
     (page_array_ptr, s) \<leftarrow> alloc_bytes s (page_count * 8);
     (page_flags_ptr, s) \<leftarrow> alloc_bytes s (image_page_count * 8);
     if page_count \<le> 1 \<or> page_count > max_user_mapped_pages then panic ''user image page count invalid''
     else do {
     s \<leftarrow> for_range 0 image_page_count (\<lambda>page_index s.
       scheduler_set_page_flags s page_flags_ptr image_page_count page_index scheduler_user_page_flags_default) s;
     s \<leftarrow> for_range file_page_count image_page_count (\<lambda>page_index s.
       scheduler_set_page_flags s page_flags_ptr image_page_count page_index scheduler_user_page_flags_writable) s;
     s \<leftarrow> for_range 0 page_count (\<lambda>page_index s. do {
       (phys, s) \<leftarrow> pmm_alloc_page s pmm_state;
       if phys = 0 then panic ''scheduler user image alloc failed''
       else do {
         s \<leftarrow> zero_page s phys;
         set_user_page_array_qword s page_array_ptr page_count page_index phys } }) s;
     load_count \<leftarrow> elf_user_load_segment_count s image_ptr image_len;
     s \<leftarrow> for_range 0 load_count
       (load_segment image_ptr image_len page_array_ptr page_count page_flags_ptr image_page_count) s;
     Some ((page_array_ptr, page_count, page_flags_ptr), s) } }"

definition scheduler_map_user_image_pages ::
    "machine \<Rightarrow> int \<Rightarrow> int \<Rightarrow> int \<Rightarrow> int \<Rightarrow> int \<Rightarrow> int \<Rightarrow> int \<Rightarrow> machine option" where
  "scheduler_map_user_image_pages s state_ptr task_id root_p4 pmm_state page_array_ptr page_count page_flags_ptr = do {
     let image_page_count = page_count - 1;
     vmm_state \<leftarrow> scheduler_vmm_state s state_ptr;
     s \<leftarrow> for_range 0 image_page_count (\<lambda>page_index s. do {
       let virt = user_task_page_virt task_id page_index;
       mapped \<leftarrow> vmm_translate_root s vmm_state root_p4 virt;
       s \<leftarrow> (if mapped \<noteq> 0 then vmm_unmap_page_root s vmm_state root_p4 pmm_state virt else Some s);
       phys \<leftarrow> user_page_array_qword s page_array_ptr page_count page_index;
       flags \<leftarrow> scheduler_page_flags s page_flags_ptr image_page_count page_index;
       vmm_map_page_root s vmm_state root_p4 pmm_state virt phys flags }) s;
     let virt = user_task_stack_base_virt task_id page_count;
     mapped \<leftarrow> vmm_translate_root s vmm_state root_p4 virt;
     s \<leftarrow> (if mapped \<noteq> 0 then vmm_unmap_page_root s vmm_state root_p4 pmm_state virt else Some s);
     phys \<leftarrow> user_page_array_qword s page_array_ptr page_count (page_count - 1);
     vmm_map_page_root s vmm_state root_p4 pmm_state virt phys scheduler_user_page_flags_writable }"

definition scheduler_unmap_user_image_pages :: "machine \<Rightarrow> int \<Rightarrow> int \<Rightarrow> int \<Rightarrow> int \<Rightarrow> int \<Rightarrow> machine option" where
  "scheduler_unmap_user_image_pages s state_ptr root_p4 pmm_state user_base page_count = do {
     vmm_state \<leftarrow> scheduler_vmm_state s state_ptr;
     for_range 0 page_count (\<lambda>page_index s.
       vmm_unmap_page_root s vmm_state root_p4 pmm_state (user_base + page_index * user_page_size)) s }"

definition scheduler_release_user_pages :: "machine \<Rightarrow> int \<Rightarrow> int \<Rightarrow> int \<Rightarrow> machine option" where
  "scheduler_release_user_pages s pmm_state page_array_ptr page_count =
     for_range 0 page_count (\<lambda>page_index s. do {
       phys \<leftarrow> user_page_array_qword s page_array_ptr page_count page_index;
       if phys \<noteq> 0 then pmm_free_page s pmm_state phys else Some s }) s"

section \<open>Programs\<close>

text \<open>
  What an installed program needs: page array, page count, entry, limit, stack page, stack pointer,
  argument count, argument and environment vectors, heap base, limit and break.
\<close>

definition scheduler_install_user_image ::
    "machine \<Rightarrow> int \<Rightarrow> int \<Rightarrow> int \<Rightarrow> int \<Rightarrow> int \<Rightarrow> int \<Rightarrow> int \<Rightarrow> int \<Rightarrow> int \<Rightarrow> int
     \<Rightarrow> ((int \<times> int \<times> int \<times> int \<times> int \<times> int \<times> int \<times> int \<times> int \<times> int \<times> int \<times> int) \<times> machine) option" where
  "scheduler_install_user_image s state_ptr task_id root_p4 pmm_state image_ptr image_len
     argvec_ptr arg_count envvec_ptr env_count = do {
     ((page_array_ptr, page_count, page_flags_ptr), s) \<leftarrow>
       scheduler_prepare_user_image_pages s state_ptr task_id pmm_state image_ptr image_len;
     ((user_rsp, user_argc, user_argv_ptr, user_envp_ptr), s) \<leftarrow>
       scheduler_build_user_initial_stack s task_id page_count page_array_ptr argvec_ptr arg_count envvec_ptr env_count;
     s \<leftarrow> scheduler_map_user_image_pages s state_ptr task_id root_p4 pmm_state page_array_ptr page_count page_flags_ptr;
     let user_base = user_task_region_base task_id;
     pages \<leftarrow> elf_user_image_page_count s image_ptr image_len;
     let user_heap_base = user_base + pages * user_page_size;
     let user_heap_limit = user_task_stack_base_virt task_id page_count;
     entry \<leftarrow> elf_user_entry_offset s image_ptr image_len;
     stack_phys \<leftarrow> user_page_array_qword s page_array_ptr page_count (page_count - 1);
     Some ((page_array_ptr, page_count, user_base + entry, user_base + page_count * user_page_size, stack_phys,
       user_rsp, user_argc, user_argv_ptr, user_envp_ptr, user_heap_base, user_heap_limit, user_heap_base), s) }"

definition scheduler_replace_current_user_context ::
    "machine \<Rightarrow> int \<Rightarrow> int \<Rightarrow> int \<Rightarrow> int \<Rightarrow> int \<Rightarrow> int \<Rightarrow> int \<Rightarrow> machine option" where
  "scheduler_replace_current_user_context s state_ptr task_id user_rip user_rsp argc argv_ptr envp_ptr = do {
     ctx_ptr \<leftarrow> scheduler_task_context_ptr s state_ptr task_id;
     stack_base \<leftarrow> scheduler_task_stack_base s state_ptr task_id;
     (_, s) \<leftarrow> scheduler_configure_user_task_context s ctx_ptr stack_base task_id user_rip user_rsp argc argv_ptr envp_ptr;
     let s = set_tss_rsp0 s (task_kernel_rsp0_top stack_base);
     root \<leftarrow> scheduler_task_cr3 s state_ptr task_id;
     let s = load_cr3 s root;
     Some (restore_task_context s ctx_ptr) }"

definition scheduler_user_code_flags :: "machine \<Rightarrow> int \<Rightarrow> int \<Rightarrow> int option" where
  "scheduler_user_code_flags s image_ptr image_len = do {
     flags \<leftarrow> elf_user_segment_flags s image_ptr image_len 0;
     Some (if flags AND elf_pf_w \<noteq> 0 then 0x007 else 0x005) }"

definition scheduler_destroy_user_task :: "machine \<Rightarrow> int \<Rightarrow> int \<Rightarrow> machine option" where
  "scheduler_destroy_user_task s state_ptr task_id = do {
     mode \<leftarrow> scheduler_task_mode s state_ptr task_id;
     if mode \<noteq> task_mode_user then Some s
     else do {
       pmm_state \<leftarrow> scheduler_pmm_state s state_ptr;
       vmm_state \<leftarrow> scheduler_vmm_state s state_ptr;
       root_p4 \<leftarrow> scheduler_task_cr3 s state_ptr task_id;
       page_array_ptr \<leftarrow> scheduler_task_user_page_array_ptr s state_ptr task_id;
       page_count \<leftarrow> scheduler_task_user_page_count s state_ptr task_id;
       s \<leftarrow> (if page_array_ptr \<noteq> 0 \<and> page_count > 0
         then scheduler_release_user_pages s pmm_state page_array_ptr page_count else Some s);
       if root_p4 \<noteq> 0 then vmm_free_cloned_address_space s vmm_state pmm_state root_p4 else Some s } }"

definition scheduler_create_user_task :: "machine \<Rightarrow> int \<Rightarrow> int \<Rightarrow> machine option" where
  "scheduler_create_user_task s state_ptr name_tag =
     panic ''scheduler_create_user_task is obsolete; use ELF exec path''"

text \<open>The end of the creation: the slot is counted and the task queued.\<close>

definition scheduler_publish_task :: "machine \<Rightarrow> int \<Rightarrow> int \<Rightarrow> machine option" where
  "scheduler_publish_task s state_ptr task_id = do {
     count \<leftarrow> scheduler_task_count s state_ptr;
     s \<leftarrow> (if task_id \<ge> count then set_scheduler_state_qword s state_ptr sched_slot_task_count (task_id + 1)
       else Some s);
     scheduler_enqueue_task s state_ptr task_id }"

definition scheduler_create_user_elf_task ::
    "machine \<Rightarrow> int \<Rightarrow> int \<Rightarrow> int \<Rightarrow> int \<Rightarrow> int \<Rightarrow> int \<Rightarrow> int \<Rightarrow> int \<Rightarrow> (int \<times> machine) option" where
  "scheduler_create_user_elf_task s state_ptr name_tag image_ptr image_len argvec_ptr arg_count envvec_ptr env_count = do {
     task_id \<leftarrow> scheduler_find_free_task_id s state_ptr;
     pmm_state \<leftarrow> scheduler_pmm_state s state_ptr;
     vmm_state \<leftarrow> scheduler_vmm_state s state_ptr;
     (user_cr3, s) \<leftarrow> vmm_create_task_address_space s vmm_state pmm_state;
     let user_base = user_task_region_base task_id;
     (irq_frame_ptr, s) \<leftarrow> alloc_bytes s (interrupt_frame_qword_count * 8);
     ok \<leftarrow> elf_validate_user_image s image_ptr image_len;
     if \<not> ok then panic ''scheduler invalid user elf''
     else do {
     ((page_array_ptr, page_count, user_rip, user_limit, stack_phys, user_rsp, user_argc, user_argv_ptr,
       user_envp_ptr, user_heap_base, user_heap_limit, user_heap_break), s) \<leftarrow>
       scheduler_install_user_image s state_ptr task_id user_cr3 pmm_state image_ptr image_len
         argvec_ptr arg_count envvec_ptr env_count;
     ((ctx_ptr, stack_base), s) \<leftarrow>
       scheduler_prepare_user_task_context s task_id user_rip user_rsp user_argc user_argv_ptr user_envp_ptr;
     current \<leftarrow> scheduler_current_task s state_ptr;
     s \<leftarrow> scheduler_set_task s state_ptr task_id task_state_runnable name_tag ctx_ptr stack_base task_mode_user
       user_cr3 user_base user_limit page_array_ptr page_count stack_phys current user_heap_base user_heap_limit
       user_heap_break irq_frame_ptr;
     s \<leftarrow> scheduler_publish_task s state_ptr task_id;
     Some (task_id, s) } }"

definition scheduler_exec_current_task ::
    "machine \<Rightarrow> int \<Rightarrow> int \<Rightarrow> int \<Rightarrow> int \<Rightarrow> int \<Rightarrow> int \<Rightarrow> int \<Rightarrow> (int \<times> machine) option" where
  "scheduler_exec_current_task s state_ptr image_ptr image_len argvec_ptr arg_count envvec_ptr env_count = do {
     current_task \<leftarrow> scheduler_current_task s state_ptr;
     pmm_state \<leftarrow> scheduler_pmm_state s state_ptr;
     root_p4 \<leftarrow> scheduler_task_cr3 s state_ptr current_task;
     old_page_array_ptr \<leftarrow> scheduler_task_user_page_array_ptr s state_ptr current_task;
     old_page_count \<leftarrow> scheduler_task_user_page_count s state_ptr current_task;
     user_base \<leftarrow> scheduler_task_user_base s state_ptr current_task;
     mode \<leftarrow> scheduler_task_mode s state_ptr current_task;
     if mode \<noteq> task_mode_user then Some (- 1, s)
     else do {
     ok \<leftarrow> elf_validate_user_image s image_ptr image_len;
     if \<not> ok then Some (- 1, s)
     else do {
     ((page_array_ptr, page_count, page_flags_ptr), s) \<leftarrow>
       scheduler_prepare_user_image_pages s state_ptr current_task pmm_state image_ptr image_len;
     ((user_rsp, user_argc, user_argv_ptr, user_envp_ptr), s) \<leftarrow>
       scheduler_build_user_initial_stack s current_task page_count page_array_ptr argvec_ptr arg_count
         envvec_ptr env_count;
     s \<leftarrow> (if old_page_array_ptr \<noteq> 0 \<and> old_page_count > 0 then do {
         s \<leftarrow> scheduler_unmap_user_image_pages s state_ptr root_p4 pmm_state user_base old_page_count;
         scheduler_release_user_pages s pmm_state old_page_array_ptr old_page_count }
       else Some s);
     s \<leftarrow> scheduler_map_user_image_pages s state_ptr current_task root_p4 pmm_state page_array_ptr page_count
       page_flags_ptr;
     entry \<leftarrow> elf_user_entry_offset s image_ptr image_len;
     let user_rip = user_task_region_base current_task + entry;
     let user_limit = user_task_region_base current_task + page_count * user_page_size;
     pages \<leftarrow> elf_user_image_page_count s image_ptr image_len;
     let user_heap_base = user_task_region_base current_task + pages * user_page_size;
     let user_heap_limit = user_task_stack_base_virt current_task page_count;
     let user_heap_break = user_heap_base;
     stack_phys \<leftarrow> user_page_array_qword s page_array_ptr page_count (page_count - 1);
     table \<leftarrow> scheduler_task_table_ptr s state_ptr;
     s \<leftarrow> set_scheduler_task_qword s table current_task task_slot_user_page_array_ptr page_array_ptr;
     s \<leftarrow> set_scheduler_task_qword s table current_task task_slot_user_page_count page_count;
     s \<leftarrow> set_scheduler_task_qword s table current_task task_slot_user_limit user_limit;
     s \<leftarrow> set_scheduler_task_qword s table current_task task_slot_user_stack_phys stack_phys;
     s \<leftarrow> set_scheduler_task_qword s table current_task task_slot_user_heap_base user_heap_base;
     s \<leftarrow> set_scheduler_task_qword s table current_task task_slot_user_heap_limit user_heap_limit;
     s \<leftarrow> set_scheduler_task_qword s table current_task task_slot_user_heap_break user_heap_break;
     s \<leftarrow> scheduler_replace_current_user_context s state_ptr current_task user_rip user_rsp user_argc
       user_argv_ptr user_envp_ptr;
     Some (0, s) } } }"

section \<open>Start-up\<close>

definition scheduler_init_bootstrap_tasks :: "machine \<Rightarrow> int \<Rightarrow> int \<Rightarrow> int \<Rightarrow> machine option" where
  "scheduler_init_bootstrap_tasks s state_ptr pmm_state vmm_state = do {
     kernel_cr3 \<leftarrow> vmm_state_qword s vmm_state 1;
     ((idle_ctx_ptr, idle_stack_base), s) \<leftarrow> scheduler_prepare_kernel_task_context s 0;
     ((task1_ctx_ptr, task1_stack_base), s) \<leftarrow> scheduler_prepare_kernel_task_context s 1;
     s \<leftarrow> scheduler_set_task s state_ptr 0 task_state_runnable 0 idle_ctx_ptr idle_stack_base task_mode_kernel
       kernel_cr3 0 0 0 0 0 0 0 0 0 0;
     s \<leftarrow> scheduler_set_task s state_ptr 1 task_state_runnable 1 task1_ctx_ptr task1_stack_base task_mode_kernel
       kernel_cr3 0 0 0 0 0 0 0 0 0 0;
     s \<leftarrow> set_scheduler_state_qword s state_ptr sched_slot_task_count 2;
     s \<leftarrow> set_scheduler_state_qword s state_ptr sched_slot_current_task 1;
     s \<leftarrow> set_scheduler_state_qword s state_ptr sched_slot_idle_task 0;
     s \<leftarrow> scheduler_enqueue_task s state_ptr 0;
     scheduler_record_switch s state_ptr 1 }"

definition init_scheduler :: "machine \<Rightarrow> int \<Rightarrow> int \<Rightarrow> int \<Rightarrow> (int \<times> machine) option" where
  "init_scheduler s pmm_state vmm_state vfs_state = do {
     (state_ptr, s) \<leftarrow> alloc_bytes s (sched_slot_limit * 8);
     (task_table_ptr, s) \<leftarrow> alloc_bytes s (max_tasks * task_slot_limit * 8);
     (ready_queue_ptr, s) \<leftarrow> alloc_bytes s (ready_queue_capacity * 8);
     let now = current_kernel_ticks s;
     s \<leftarrow> set_scheduler_state_qword s state_ptr sched_slot_task_count 0;
     s \<leftarrow> set_scheduler_state_qword s state_ptr sched_slot_current_task 0;
     s \<leftarrow> set_scheduler_state_qword s state_ptr sched_slot_idle_task 0;
     s \<leftarrow> set_scheduler_state_qword s state_ptr sched_slot_last_tick now;
     s \<leftarrow> set_scheduler_state_qword s state_ptr sched_slot_last_report now;
     s \<leftarrow> set_scheduler_state_qword s state_ptr sched_slot_total_ticks 0;
     s \<leftarrow> set_scheduler_state_qword s state_ptr sched_slot_idle_ticks 0;
     s \<leftarrow> set_scheduler_state_qword s state_ptr sched_slot_switch_count 0;
     s \<leftarrow> set_scheduler_state_qword s state_ptr sched_slot_task_table_ptr task_table_ptr;
     s \<leftarrow> set_scheduler_state_qword s state_ptr sched_slot_ready_queue_ptr ready_queue_ptr;
     s \<leftarrow> set_scheduler_state_qword s state_ptr sched_slot_ready_head 0;
     s \<leftarrow> set_scheduler_state_qword s state_ptr sched_slot_ready_tail 0;
     s \<leftarrow> set_scheduler_state_qword s state_ptr sched_slot_pmm_state pmm_state;
     s \<leftarrow> set_scheduler_state_qword s state_ptr sched_slot_vmm_state vmm_state;
     s \<leftarrow> set_scheduler_state_qword s state_ptr sched_slot_vfs_state vfs_state;
     s \<leftarrow> for_range 0 max_tasks (\<lambda>task_id s. scheduler_clear_task s task_table_ptr task_id) s;
     s \<leftarrow> scheduler_init_bootstrap_tasks s state_ptr pmm_state vmm_state;
     let s = set_active_scheduler s state_ptr;
     Some (state_ptr, s) }"

section \<open>Waiting for a task\<close>

text \<open>
  The two loops that yield until a child has exited.  They may wait for ever; \<open>others\<close> is what the
  rest of the system does each time the caller is switched out.
\<close>

partial_function (option) wait_any_child ::
    "(machine \<Rightarrow> machine option) \<Rightarrow> machine \<Rightarrow> int \<Rightarrow> int \<Rightarrow> int \<Rightarrow> (int \<times> machine) option" where
  "wait_any_child others s state_ptr current_task target_task =
     (if target_task < 0 then do {
        (_, s) \<leftarrow> scheduler_yield_current_task others s state_ptr;
        target_task \<leftarrow> scheduler_find_child s state_ptr current_task 1;
        wait_any_child others s state_ptr current_task target_task }
      else Some (target_task, s))"

partial_function (option) wait_exited ::
    "(machine \<Rightarrow> machine option) \<Rightarrow> machine \<Rightarrow> int \<Rightarrow> int \<Rightarrow> machine option" where
  "wait_exited others s state_ptr target_task = do {
     st \<leftarrow> scheduler_task_state s state_ptr target_task;
     if st \<noteq> task_state_exited then do {
       (_, s) \<leftarrow> scheduler_yield_current_task others s state_ptr;
       wait_exited others s state_ptr target_task }
     else Some s }"

definition reap_task ::
    "(machine \<Rightarrow> machine option) \<Rightarrow> machine \<Rightarrow> int \<Rightarrow> int \<Rightarrow> (int \<times> machine) option" where
  "reap_task others s state_ptr target_task = do {
     s \<leftarrow> wait_exited others s state_ptr target_task;
     status \<leftarrow> scheduler_task_exit_code s state_ptr target_task;
     s \<leftarrow> scheduler_destroy_user_task s state_ptr target_task;
     s \<leftarrow> scheduler_release_task_slot s state_ptr target_task;
     Some (status, s) }"

definition scheduler_waitpid ::
    "(machine \<Rightarrow> machine option) \<Rightarrow> machine \<Rightarrow> int \<Rightarrow> int \<Rightarrow> (int \<times> machine) option" where
  "scheduler_waitpid others s state_ptr task_id = do {
     current_task \<leftarrow> scheduler_current_task s state_ptr;
     count \<leftarrow> scheduler_task_count s state_ptr;
     if task_id < - 1 \<or> task_id \<ge> count then Some (- 1, s)
     else if task_id = current_task then Some (- 1, s)
     else if task_id = - 1 then do {
       child \<leftarrow> scheduler_find_child s state_ptr current_task 0;
       if child < 0 then Some (- 1, s)
       else do {
         target_task \<leftarrow> scheduler_find_child s state_ptr current_task 1;
         (target_task, s) \<leftarrow> wait_any_child others s state_ptr current_task target_task;
         reap_task others s state_ptr target_task } }
     else do {
       st \<leftarrow> scheduler_task_state s state_ptr task_id;
       if st = task_state_empty then Some (- 1, s)
       else do {
         parent \<leftarrow> scheduler_task_parent_pid s state_ptr task_id;
         if parent \<noteq> current_task then Some (- 1, s)
         else reap_task others s state_ptr task_id } } }"

section \<open>Reports and self-test\<close>

definition write_field :: "machine \<Rightarrow> string \<Rightarrow> int option \<Rightarrow> machine option" where
  "write_field s label v = do { v \<leftarrow> v; Some (console_write_u64 (console_write s label) v) }"

definition dump_scheduler_task_summary :: "machine \<Rightarrow> int \<Rightarrow> int \<Rightarrow> machine option" where
  "dump_scheduler_task_summary s state_ptr task_id = do {
     let s = console_write_u64 (console_write s ''sched.task['') task_id;
     s \<leftarrow> write_field s ''] tag='' (scheduler_task_name_tag s state_ptr task_id);
     s \<leftarrow> write_field s '' runtime='' (scheduler_task_runtime_ticks s state_ptr task_id);
     s \<leftarrow> write_field s '' switches='' (scheduler_task_switches s state_ptr task_id);
     s \<leftarrow> write_field s '' state='' (scheduler_task_state s state_ptr task_id);
     s \<leftarrow> write_field s '' mode='' (scheduler_task_mode s state_ptr task_id);
     s \<leftarrow> write_field s '' wait='' (scheduler_task_wait_ticks s state_ptr task_id);
     s \<leftarrow> write_field s '' user=['' (scheduler_task_user_base s state_ptr task_id);
     s \<leftarrow> write_field s '','' (scheduler_task_user_limit s state_ptr task_id);
     let s = console_write s '')'';
     s \<leftarrow> write_field s '' exit='' (scheduler_task_exit_code s state_ptr task_id);
     Some (console_write s [CHR 0x0A]) }"

definition label_field :: "machine \<Rightarrow> string \<Rightarrow> int option \<Rightarrow> machine option" where
  "label_field s label v = do { v \<leftarrow> v; Some (console_write_label_u64 s label v) }"

definition dump_scheduler_summary :: "machine \<Rightarrow> int \<Rightarrow> machine option" where
  "dump_scheduler_summary s state_ptr = do {
     s \<leftarrow> label_field s ''sched.tasks='' (scheduler_task_count s state_ptr);
     s \<leftarrow> label_field s ''sched.runnable='' (scheduler_runnable_count s state_ptr);
     s \<leftarrow> label_field s ''sched.current='' (scheduler_current_task s state_ptr);
     s \<leftarrow> label_field s ''sched.idle='' (scheduler_idle_task s state_ptr);
     s \<leftarrow> label_field s ''sched.ready='' (scheduler_ready_size s state_ptr);
     s \<leftarrow> label_field s ''sched.ticks='' (scheduler_total_ticks s state_ptr);
     s \<leftarrow> label_field s ''sched.idle_ticks='' (scheduler_idle_ticks s state_ptr);
     s \<leftarrow> label_field s ''sched.switches='' (scheduler_switch_count s state_ptr);
     count \<leftarrow> scheduler_task_count s state_ptr;
     for_range 0 count (\<lambda>task_id s. dump_scheduler_task_summary s state_ptr task_id) s }"

text \<open>The self-test waits for tick edges; \<open>irq\<close> is the machine after the interrupt it waited for.\<close>

partial_function (option) self_test_loop ::
    "(machine \<Rightarrow> machine) \<Rightarrow> machine \<Rightarrow> int \<Rightarrow> int \<Rightarrow> int \<Rightarrow> machine option" where
  "self_test_loop irq s state_ptr target observed =
     (if observed < target then do {
        (_, s) \<leftarrow> wait_for_tick_edge irq s;
        observed \<leftarrow> scheduler_total_ticks s state_ptr;
        (_, s) \<leftarrow> scheduler_pick_next_task s state_ptr;
        self_test_loop irq s state_ptr target observed }
      else Some s)"

definition scheduler_self_test :: "(machine \<Rightarrow> machine) \<Rightarrow> machine \<Rightarrow> int \<Rightarrow> int \<Rightarrow> machine option" where
  "scheduler_self_test irq s state_ptr delta =
     (if delta \<le> 0 then panic ''scheduler self-test requires ticks''
      else do {
      start \<leftarrow> scheduler_total_ticks s state_ptr;
      start_switches \<leftarrow> scheduler_switch_count s state_ptr;
      s \<leftarrow> self_test_loop irq s state_ptr (i64 (start + delta)) start;
      end' \<leftarrow> scheduler_total_ticks s state_ptr;
      if end' < i64 (start + delta) then panic ''scheduler tick accounting failed''
      else do {
      switches \<leftarrow> scheduler_switch_count s state_ptr;
      if switches \<le> start_switches then panic ''scheduler made no task decisions''
      else do {
      let s = console_write_label_u64 s ''sched.self_test.start='' start;
      let s = console_write_label_u64 s ''sched.self_test.end='' end';
      let s = console_write_label_u64 s ''sched.self_test.switches='' (switches - start_switches);
      Some (console_write_line s ''scheduler self-test ok'') } } })"

end
