(* ===== verification/Syscall.thy ===== *)
theory Syscall
  imports Tasks
begin

text \<open>
  System calls, \<^verbatim>\<open>ksyscall.py\<close>: the checks on user memory, the copies of strings and vectors, the calls on
  files, programs and tasks, the dispatcher and the kernel's own stubs.

  \<open>others\<close> is, as for the scheduler, what the rest of the system does while the caller is switched out.
  A call that never returns to its caller (an exit, or an exec that succeeded) has no result value:
  the answer of the dispatcher is an \<^typ>\<open>int option\<close> next to the machine.
\<close>

section \<open>Numbers and limits\<close>

definition syscall_write_number :: int where "syscall_write_number = 1"
definition syscall_getpid_number :: int where "syscall_getpid_number = 2"
definition syscall_clock_ticks_number :: int where "syscall_clock_ticks_number = 3"
definition syscall_yield_number :: int where "syscall_yield_number = 4"
definition syscall_exit_number :: int where "syscall_exit_number = 5"
definition syscall_waitpid_number :: int where "syscall_waitpid_number = 6"
definition syscall_spawn_user_demo_number :: int where "syscall_spawn_user_demo_number = 7"
definition syscall_close_number :: int where "syscall_close_number = 8"
definition syscall_open_number :: int where "syscall_open_number = 9"
definition syscall_read_number :: int where "syscall_read_number = 10"
definition syscall_fstat_number :: int where "syscall_fstat_number = 11"
definition syscall_readdir_number :: int where "syscall_readdir_number = 12"
definition syscall_spawn_exec_number :: int where "syscall_spawn_exec_number = 13"
definition syscall_exec_number :: int where "syscall_exec_number = 14"
definition syscall_getppid_number :: int where "syscall_getppid_number = 15"
definition syscall_brk_number :: int where "syscall_brk_number = 16"
definition syscall_exec_max_args :: int where "syscall_exec_max_args = 8"
definition syscall_exec_max_env :: int where "syscall_exec_max_env = 8"
definition syscall_exec_max_string :: int where "syscall_exec_max_string = 64"
definition sys_open_flag_create :: int where "sys_open_flag_create = 1"
definition sys_open_flag_trunc :: int where "sys_open_flag_trunc = 2"

lemmas syscall_const = syscall_write_number_def syscall_getpid_number_def syscall_clock_ticks_number_def
  syscall_yield_number_def syscall_exit_number_def syscall_waitpid_number_def
  syscall_spawn_user_demo_number_def syscall_close_number_def syscall_open_number_def
  syscall_read_number_def syscall_fstat_number_def syscall_readdir_number_def
  syscall_spawn_exec_number_def syscall_exec_number_def syscall_getppid_number_def
  syscall_brk_number_def syscall_exec_max_args_def syscall_exec_max_env_def syscall_exec_max_string_def
  sys_open_flag_create_def sys_open_flag_trunc_def

definition active_scheduler_state :: "machine \<Rightarrow> int option" where
  "active_scheduler_state s =
     (if get_active_scheduler s = 0 then panic ''syscalls require active scheduler''
      else Some (get_active_scheduler s))"

definition syscall_return_with_tick ::
    "(machine \<Rightarrow> machine option) \<Rightarrow> machine \<Rightarrow> int \<Rightarrow> int \<Rightarrow> int \<Rightarrow> (int \<times> machine) option" where
  "syscall_return_with_tick others s state_ptr allow_preempt result = do {
     (_, s) \<leftarrow> scheduler_timer_interrupt others s state_ptr allow_preempt;
     Some (result, s) }"

section \<open>User memory\<close>

definition syscall_validate_user_buffer :: "machine \<Rightarrow> int \<Rightarrow> int \<Rightarrow> int \<Rightarrow> int \<Rightarrow> bool option" where
  "syscall_validate_user_buffer s state_ptr task_id ptr len = do {
     base \<leftarrow> scheduler_task_user_base s state_ptr task_id;
     limit \<leftarrow> scheduler_task_user_limit s state_ptr task_id;
     heap_base \<leftarrow> scheduler_task_user_heap_base s state_ptr task_id;
     heap_limit \<leftarrow> scheduler_task_user_heap_limit s state_ptr task_id;
     heap_break \<leftarrow> scheduler_task_user_heap_break s state_ptr task_id;
     Some (if base = 0 \<or> limit \<le> base then False
       else if len < 0 then False
       else if ptr = 0 \<and> len \<noteq> 0 then False
       else if ptr < base then False
       else let end' = i64 (ptr + len) in
         if end' < ptr \<or> end' > limit then False
         else if end' \<le> heap_base then True
         else if ptr \<ge> heap_limit then True
         else if ptr \<ge> heap_base \<and> end' \<le> heap_break then True
         else False) }"

definition set_exec_vec_entry :: "machine \<Rightarrow> int \<Rightarrow> int \<Rightarrow> int \<Rightarrow> int \<Rightarrow> machine option" where
  "set_exec_vec_entry s vec_ptr index str_ptr str_len = do {
     s \<leftarrow> store_qword_region s (exec_vec_entry_ptr vec_ptr index) 2 0 str_ptr;
     store_qword_region s (exec_vec_entry_ptr vec_ptr index) 2 1 str_len }"

text \<open>The copy both string readers make once they have found the terminating zero at \<open>len\<close>.\<close>

definition copy_cstring :: "machine \<Rightarrow> int \<Rightarrow> int \<Rightarrow> int \<Rightarrow> ((int \<times> int) \<times> machine) option" where
  "copy_cstring s ptr bound len = do {
     (dst, s) \<leftarrow> alloc_bytes s (len + 1);
     s \<leftarrow> for_range 0 len (\<lambda>copied s. do {
       b \<leftarrow> load_byte_region s ptr bound copied;
       Some (store_byte s (dst + copied) b) }) s;
     Some ((dst, len), store_byte s (dst + len) 0) }"

function copy_kernel_cstring_from :: "machine \<Rightarrow> int \<Rightarrow> int \<Rightarrow> ((int \<times> int) \<times> machine) option" where
  "copy_kernel_cstring_from s ptr len =
     (if len < syscall_exec_max_string then do {
        b \<leftarrow> load_byte_region s ptr (syscall_exec_max_string + 1) len;
        if b = 0 then copy_cstring s ptr (syscall_exec_max_string + 1) len
        else copy_kernel_cstring_from s ptr (len + 1) }
      else Some ((0, 0), s))"
  by pat_completeness auto
termination
  by (relation "measure (\<lambda>(s, p, n). nat (syscall_exec_max_string - n))") auto

declare copy_kernel_cstring_from.simps [simp del]

definition syscall_copy_kernel_cstring :: "machine \<Rightarrow> int \<Rightarrow> ((int \<times> int) \<times> machine) option" where
  "syscall_copy_kernel_cstring s ptr = copy_kernel_cstring_from s ptr 0"

function copy_user_cstring_from :: "machine \<Rightarrow> int \<Rightarrow> int \<Rightarrow> int \<Rightarrow> int \<Rightarrow> ((int \<times> int) \<times> machine) option" where
  "copy_user_cstring_from s state_ptr task_id ptr len =
     (if len < syscall_exec_max_string then do {
        ok \<leftarrow> syscall_validate_user_buffer s state_ptr task_id ptr (len + 1);
        if \<not> ok then Some ((0, 0), s)
        else do {
          b \<leftarrow> load_byte_region s ptr (len + 1) len;
          if b = 0 then copy_cstring s ptr (len + 1) len
          else copy_user_cstring_from s state_ptr task_id ptr (len + 1) } }
      else Some ((0, 0), s))"
  by pat_completeness auto
termination
  by (relation "measure (\<lambda>(s, st, t, p, n). nat (syscall_exec_max_string - n))") auto

declare copy_user_cstring_from.simps [simp del]

definition syscall_copy_user_cstring :: "machine \<Rightarrow> int \<Rightarrow> int \<Rightarrow> int \<Rightarrow> ((int \<times> int) \<times> machine) option" where
  "syscall_copy_user_cstring s state_ptr task_id ptr =
     (if ptr = 0 then Some ((0, 0), s) else copy_user_cstring_from s state_ptr task_id ptr 0)"

function copy_kernel_vector_from :: "machine \<Rightarrow> int \<Rightarrow> int \<Rightarrow> int \<Rightarrow> int \<Rightarrow> ((int \<times> int) \<times> machine) option" where
  "copy_kernel_vector_from s array_ptr max_count vec_ptr count =
     (if count < max_count then do {
        entry_ptr \<leftarrow> load_qword_region s array_ptr (max_count + 1) count;
        if entry_ptr = 0 then Some ((vec_ptr, count), s)
        else do {
          ((str_ptr, str_len), s) \<leftarrow> syscall_copy_kernel_cstring s entry_ptr;
          if str_ptr = 0 then Some ((0, 0), s)
          else do {
            s \<leftarrow> set_exec_vec_entry s vec_ptr count str_ptr str_len;
            copy_kernel_vector_from s array_ptr max_count vec_ptr (count + 1) } } }
      else do {
        last' \<leftarrow> load_qword_region s array_ptr (max_count + 1) max_count;
        Some (if last' \<noteq> 0 then (0, 0) else (vec_ptr, count), s) })"
  by pat_completeness auto
termination
  by (relation "measure (\<lambda>(s, a, m, v, n). nat (m - n))") auto

declare copy_kernel_vector_from.simps [simp del]

definition syscall_copy_kernel_exec_vector :: "machine \<Rightarrow> int \<Rightarrow> int \<Rightarrow> ((int \<times> int) \<times> machine) option" where
  "syscall_copy_kernel_exec_vector s array_ptr max_count =
     (if array_ptr = 0 then Some ((0, 0), s)
      else do {
        (vec_ptr, s) \<leftarrow> alloc_bytes s (max_count * 16);
        copy_kernel_vector_from s array_ptr max_count vec_ptr 0 })"

function copy_user_vector_from ::
    "machine \<Rightarrow> int \<Rightarrow> int \<Rightarrow> int \<Rightarrow> int \<Rightarrow> int \<Rightarrow> int \<Rightarrow> ((int \<times> int) \<times> machine) option" where
  "copy_user_vector_from s state_ptr task_id array_ptr max_count vec_ptr count =
     (if count < max_count then do {
        ok \<leftarrow> syscall_validate_user_buffer s state_ptr task_id (i64 (array_ptr + count * 8)) 8;
        if \<not> ok then Some ((0, 0), s)
        else do {
          entry_ptr \<leftarrow> load_qword_region s array_ptr (max_count + 1) count;
          if entry_ptr = 0 then Some ((vec_ptr, count), s)
          else do {
            ((str_ptr, str_len), s) \<leftarrow> syscall_copy_user_cstring s state_ptr task_id entry_ptr;
            if str_ptr = 0 then Some ((0, 0), s)
            else do {
              s \<leftarrow> set_exec_vec_entry s vec_ptr count str_ptr str_len;
              copy_user_vector_from s state_ptr task_id array_ptr max_count vec_ptr (count + 1) } } } }
      else do {
        ok \<leftarrow> syscall_validate_user_buffer s state_ptr task_id (i64 (array_ptr + max_count * 8)) 8;
        if \<not> ok then Some ((0, 0), s)
        else do {
          last' \<leftarrow> load_qword_region s array_ptr (max_count + 1) max_count;
          Some (if last' \<noteq> 0 then (0, 0) else (vec_ptr, count), s) } })"
  by pat_completeness auto
termination
  by (relation "measure (\<lambda>(s, st, t, a, m, v, n). nat (m - n))") auto

declare copy_user_vector_from.simps [simp del]

definition syscall_copy_user_exec_vector :: "machine \<Rightarrow> int \<Rightarrow> int \<Rightarrow> int \<Rightarrow> int \<Rightarrow> ((int \<times> int) \<times> machine) option" where
  "syscall_copy_user_exec_vector s state_ptr task_id array_ptr max_count =
     (if array_ptr = 0 then Some ((0, 0), s)
      else if array_ptr AND 0x7 \<noteq> 0 then Some ((0, 0), s)
      else do {
        (vec_ptr, s) \<leftarrow> alloc_bytes s (max_count * 16);
        copy_user_vector_from s state_ptr task_id array_ptr max_count vec_ptr 0 })"

section \<open>Files\<close>

definition syscall_write_user_buffer :: "machine \<Rightarrow> int \<Rightarrow> int \<Rightarrow> int \<Rightarrow> int \<Rightarrow> int \<Rightarrow> (int \<times> machine) option" where
  "syscall_write_user_buffer s state_ptr task_id fd ptr len = do {
     ok \<leftarrow> syscall_validate_user_buffer s state_ptr task_id ptr len;
     if \<not> ok then Some (- 1, s)
     else do {
       vfs_state \<leftarrow> scheduler_vfs_state s state_ptr;
       desc \<leftarrow> scheduler_task_fd_object s state_ptr task_id fd;
       vfs_write_descriptor s vfs_state desc ptr len } }"

definition syscall_write_kernel_buffer :: "machine \<Rightarrow> int \<Rightarrow> int \<Rightarrow> int \<Rightarrow> int \<Rightarrow> int \<Rightarrow> (int \<times> machine) option" where
  "syscall_write_kernel_buffer s state_ptr task_id fd ptr len =
     (if len < 0 then Some (- 1, s)
      else if ptr = 0 \<and> len \<noteq> 0 then Some (- 1, s)
      else do {
       vfs_state \<leftarrow> scheduler_vfs_state s state_ptr;
       desc \<leftarrow> scheduler_task_fd_object s state_ptr task_id fd;
       vfs_write_descriptor s vfs_state desc ptr len })"

text \<open>The loop goes from descriptor 3 down to 0.\<close>

function alloc_task_fd_from :: "machine \<Rightarrow> int \<Rightarrow> int \<Rightarrow> int \<Rightarrow> int \<Rightarrow> (int \<times> machine) option" where
  "alloc_task_fd_from s state_ptr task_id desc fd =
     (if fd \<ge> 0 then do {
        object \<leftarrow> scheduler_task_fd_object s state_ptr task_id fd;
        if object = 0 then do {
          s \<leftarrow> scheduler_set_task_fd_object s state_ptr task_id fd desc;
          Some (fd, s) }
        else alloc_task_fd_from s state_ptr task_id desc (fd - 1) }
      else Some (- 1, s))"
  by pat_completeness auto
termination
  by (relation "measure (\<lambda>(s, st, t, d, fd). nat (fd + 1))") auto

declare alloc_task_fd_from.simps [simp del]

definition syscall_alloc_task_fd :: "machine \<Rightarrow> int \<Rightarrow> int \<Rightarrow> int \<Rightarrow> (int \<times> machine) option" where
  "syscall_alloc_task_fd s state_ptr task_id desc = alloc_task_fd_from s state_ptr task_id desc 3"

definition syscall_read_user_buffer :: "machine \<Rightarrow> int \<Rightarrow> int \<Rightarrow> int \<Rightarrow> int \<Rightarrow> int \<Rightarrow> (int \<times> machine) option" where
  "syscall_read_user_buffer s state_ptr task_id fd ptr len = do {
     ok \<leftarrow> syscall_validate_user_buffer s state_ptr task_id ptr len;
     if \<not> ok then Some (- 1, s)
     else do {
       vfs_state \<leftarrow> scheduler_vfs_state s state_ptr;
       desc \<leftarrow> scheduler_task_fd_object s state_ptr task_id fd;
       vfs_read_descriptor s vfs_state desc ptr len } }"

definition syscall_read_kernel_buffer :: "machine \<Rightarrow> int \<Rightarrow> int \<Rightarrow> int \<Rightarrow> int \<Rightarrow> int \<Rightarrow> (int \<times> machine) option" where
  "syscall_read_kernel_buffer s state_ptr task_id fd ptr len =
     (if len < 0 then Some (- 1, s)
      else if ptr = 0 \<and> len \<noteq> 0 then Some (- 1, s)
      else do {
       vfs_state \<leftarrow> scheduler_vfs_state s state_ptr;
       desc \<leftarrow> scheduler_task_fd_object s state_ptr task_id fd;
       vfs_read_descriptor s vfs_state desc ptr len })"

text \<open>What both forms of open do once the path is accepted.\<close>

definition open_and_install :: "machine \<Rightarrow> int \<Rightarrow> int \<Rightarrow> int \<Rightarrow> int \<Rightarrow> int \<Rightarrow> (int \<times> machine) option" where
  "open_and_install s state_ptr task_id path_ptr path_len flags = do {
     vfs_state \<leftarrow> scheduler_vfs_state s state_ptr;
     (desc, s) \<leftarrow> vfs_open_path s vfs_state path_ptr path_len flags;
     if desc = 0 then Some (- 1, s)
     else do {
       (fd, s) \<leftarrow> syscall_alloc_task_fd s state_ptr task_id desc;
       if fd < 0 then do {
         vfs_state \<leftarrow> scheduler_vfs_state s state_ptr;
         (_, s) \<leftarrow> vfs_close_descriptor s vfs_state desc;
         Some (- 1, s) }
       else Some (fd, s) } }"

definition syscall_open_user_path :: "machine \<Rightarrow> int \<Rightarrow> int \<Rightarrow> int \<Rightarrow> int \<Rightarrow> int \<Rightarrow> (int \<times> machine) option" where
  "syscall_open_user_path s state_ptr task_id path_ptr path_len flags = do {
     ok \<leftarrow> syscall_validate_user_buffer s state_ptr task_id path_ptr path_len;
     if \<not> ok then Some (- 1, s) else open_and_install s state_ptr task_id path_ptr path_len flags }"

definition syscall_open_kernel_path :: "machine \<Rightarrow> int \<Rightarrow> int \<Rightarrow> int \<Rightarrow> int \<Rightarrow> int \<Rightarrow> (int \<times> machine) option" where
  "syscall_open_kernel_path s state_ptr task_id path_ptr path_len flags =
     (if path_ptr = 0 \<or> path_len \<le> 0 then Some (- 1, s)
      else open_and_install s state_ptr task_id path_ptr path_len flags)"

definition syscall_close_fd :: "machine \<Rightarrow> int \<Rightarrow> int \<Rightarrow> int \<Rightarrow> (int \<times> machine) option" where
  "syscall_close_fd s state_ptr task_id fd = do {
     desc \<leftarrow> scheduler_task_fd_object s state_ptr task_id fd;
     if desc = 0 then Some (- 1, s)
     else do {
       vfs_state \<leftarrow> scheduler_vfs_state s state_ptr;
       (r, s) \<leftarrow> vfs_close_descriptor s vfs_state desc;
       if r \<noteq> 0 then Some (- 1, s)
       else do {
         s \<leftarrow> scheduler_set_task_fd_object s state_ptr task_id fd 0;
         Some (0, s) } } }"

definition syscall_fstat_user_buffer :: "machine \<Rightarrow> int \<Rightarrow> int \<Rightarrow> int \<Rightarrow> int \<Rightarrow> (int \<times> machine) option" where
  "syscall_fstat_user_buffer s state_ptr task_id fd ptr = do {
     ok \<leftarrow> syscall_validate_user_buffer s state_ptr task_id ptr 16;
     if \<not> ok then Some (- 1, s)
     else do {
       vfs_state \<leftarrow> scheduler_vfs_state s state_ptr;
       desc \<leftarrow> scheduler_task_fd_object s state_ptr task_id fd;
       vfs_stat_descriptor s vfs_state desc ptr } }"

definition syscall_fstat_kernel_buffer :: "machine \<Rightarrow> int \<Rightarrow> int \<Rightarrow> int \<Rightarrow> int \<Rightarrow> (int \<times> machine) option" where
  "syscall_fstat_kernel_buffer s state_ptr task_id fd ptr =
     (if ptr = 0 then Some (- 1, s)
      else do {
       vfs_state \<leftarrow> scheduler_vfs_state s state_ptr;
       desc \<leftarrow> scheduler_task_fd_object s state_ptr task_id fd;
       vfs_stat_descriptor s vfs_state desc ptr })"

definition syscall_readdir_user_buffer :: "machine \<Rightarrow> int \<Rightarrow> int \<Rightarrow> int \<Rightarrow> int \<Rightarrow> int \<Rightarrow> (int \<times> machine) option" where
  "syscall_readdir_user_buffer s state_ptr task_id fd ptr len = do {
     ok \<leftarrow> syscall_validate_user_buffer s state_ptr task_id ptr len;
     if \<not> ok then Some (- 1, s)
     else do {
       vfs_state \<leftarrow> scheduler_vfs_state s state_ptr;
       desc \<leftarrow> scheduler_task_fd_object s state_ptr task_id fd;
       vfs_readdir_descriptor s vfs_state desc ptr len } }"

definition syscall_readdir_kernel_buffer :: "machine \<Rightarrow> int \<Rightarrow> int \<Rightarrow> int \<Rightarrow> int \<Rightarrow> int \<Rightarrow> (int \<times> machine) option" where
  "syscall_readdir_kernel_buffer s state_ptr task_id fd ptr len =
     (if len < 0 then Some (- 1, s)
      else if ptr = 0 \<and> len \<noteq> 0 then Some (- 1, s)
      else do {
       vfs_state \<leftarrow> scheduler_vfs_state s state_ptr;
       desc \<leftarrow> scheduler_task_fd_object s state_ptr task_id fd;
       vfs_readdir_descriptor s vfs_state desc ptr len })"

section \<open>Programs\<close>

definition close_and_fail :: "machine \<Rightarrow> int \<Rightarrow> int \<Rightarrow> ((int \<times> int) \<times> machine) option" where
  "close_and_fail s vfs_state desc = do {
     (_, s) \<leftarrow> vfs_close_descriptor s vfs_state desc;
     Some ((0, 0), s) }"

definition syscall_load_exec_image :: "machine \<Rightarrow> int \<Rightarrow> int \<Rightarrow> int \<Rightarrow> ((int \<times> int) \<times> machine) option" where
  "syscall_load_exec_image s vfs_state path_ptr path_len =
     (if path_ptr = 0 \<or> path_len \<le> 0 then Some ((0, 0), s)
      else do {
      (desc, s) \<leftarrow> vfs_open_path s vfs_state path_ptr path_len 0;
      if desc = 0 then Some ((0, 0), s)
      else do {
      (stat_buf, s) \<leftarrow> alloc_bytes s 16;
      (r, s) \<leftarrow> vfs_stat_descriptor s vfs_state desc stat_buf;
      if r \<noteq> 0 then close_and_fail s vfs_state desc
      else do {
      kind \<leftarrow> load_qword_region s stat_buf 2 0;
      if kind \<noteq> 1 then close_and_fail s vfs_state desc
      else do {
      image_len \<leftarrow> load_qword_region s stat_buf 2 1;
      if image_len \<le> 0 \<or> image_len > 16384 then close_and_fail s vfs_state desc
      else do {
      (image_ptr, s) \<leftarrow> alloc_bytes s image_len;
      (read_count, s) \<leftarrow> vfs_read_descriptor s vfs_state desc image_ptr image_len;
      (_, s) \<leftarrow> vfs_close_descriptor s vfs_state desc;
      if read_count \<noteq> image_len then Some ((0, 0), s)
      else do {
      ok \<leftarrow> elf_validate_user_image s image_ptr image_len;
      Some (if ok then (image_ptr, image_len) else (0, 0), s) } } } } } })"

definition spawn_image ::
    "machine \<Rightarrow> int \<Rightarrow> int \<Rightarrow> int \<Rightarrow> int \<Rightarrow> int \<Rightarrow> int \<Rightarrow> int \<Rightarrow> (int \<times> machine) option" where
  "spawn_image s state_ptr image_ptr image_len argvec_ptr arg_count envvec_ptr env_count = do {
     n \<leftarrow> scheduler_runnable_count s state_ptr;
     scheduler_create_user_elf_task s state_ptr (200 + n) image_ptr image_len argvec_ptr arg_count envvec_ptr env_count }"

text \<open>
  The kernel forms of spawn and exec load the image first and then copy the vectors; the user forms check
  the path, copy the vectors and then load.  Both end in \<open>k\<close>, the creation of a task or the replacement of
  the current one.
\<close>

definition with_kernel_program ::
    "(machine \<Rightarrow> int \<Rightarrow> int \<Rightarrow> int \<Rightarrow> int \<Rightarrow> int \<Rightarrow> int \<Rightarrow> (int \<times> machine) option) \<Rightarrow> machine \<Rightarrow> int \<Rightarrow> int \<Rightarrow> int \<Rightarrow> int \<Rightarrow> int
     \<Rightarrow> (int \<times> machine) option" where
  "with_kernel_program k s state_ptr path_ptr path_len argv_ptr envp_ptr = do {
     vfs_state \<leftarrow> scheduler_vfs_state s state_ptr;
     ((image_ptr, image_len), s) \<leftarrow> syscall_load_exec_image s vfs_state path_ptr path_len;
     if image_ptr = 0 then Some (- 1, s)
     else do {
       ((argvec_ptr, arg_count), s) \<leftarrow> syscall_copy_kernel_exec_vector s argv_ptr syscall_exec_max_args;
       if argv_ptr \<noteq> 0 \<and> argvec_ptr = 0 then Some (- 1, s)
       else do {
         ((envvec_ptr, env_count), s) \<leftarrow> syscall_copy_kernel_exec_vector s envp_ptr syscall_exec_max_env;
         if envp_ptr \<noteq> 0 \<and> envvec_ptr = 0 then Some (- 1, s)
         else k s image_ptr image_len argvec_ptr arg_count envvec_ptr env_count } } }"

definition with_user_program ::
    "(machine \<Rightarrow> int \<Rightarrow> int \<Rightarrow> int \<Rightarrow> int \<Rightarrow> int \<Rightarrow> int \<Rightarrow> (int \<times> machine) option) \<Rightarrow> machine \<Rightarrow> int \<Rightarrow> int \<Rightarrow> int \<Rightarrow> int \<Rightarrow> int
     \<Rightarrow> int \<Rightarrow> (int \<times> machine) option" where
  "with_user_program k s state_ptr task_id path_ptr path_len argv_ptr envp_ptr = do {
     ok \<leftarrow> syscall_validate_user_buffer s state_ptr task_id path_ptr path_len;
     if \<not> ok then Some (- 1, s)
     else do {
     ((argvec_ptr, arg_count), s) \<leftarrow> syscall_copy_user_exec_vector s state_ptr task_id argv_ptr syscall_exec_max_args;
     if argv_ptr \<noteq> 0 \<and> argvec_ptr = 0 then Some (- 1, s)
     else do {
     ((envvec_ptr, env_count), s) \<leftarrow> syscall_copy_user_exec_vector s state_ptr task_id envp_ptr syscall_exec_max_env;
     if envp_ptr \<noteq> 0 \<and> envvec_ptr = 0 then Some (- 1, s)
     else do {
     vfs_state \<leftarrow> scheduler_vfs_state s state_ptr;
     ((image_ptr, image_len), s) \<leftarrow> syscall_load_exec_image s vfs_state path_ptr path_len;
     if image_ptr = 0 then Some (- 1, s)
     else k s image_ptr image_len argvec_ptr arg_count envvec_ptr env_count } } } }"

definition syscall_spawn_exec_kernel_path ::
    "machine \<Rightarrow> int \<Rightarrow> int \<Rightarrow> int \<Rightarrow> int \<Rightarrow> int \<Rightarrow> int \<Rightarrow> (int \<times> machine) option" where
  "syscall_spawn_exec_kernel_path s state_ptr task_id path_ptr path_len argv_ptr envp_ptr =
     with_kernel_program (\<lambda>s. spawn_image s state_ptr) s state_ptr path_ptr path_len argv_ptr envp_ptr"

definition syscall_spawn_exec_user_path ::
    "machine \<Rightarrow> int \<Rightarrow> int \<Rightarrow> int \<Rightarrow> int \<Rightarrow> int \<Rightarrow> int \<Rightarrow> (int \<times> machine) option" where
  "syscall_spawn_exec_user_path s state_ptr task_id path_ptr path_len argv_ptr envp_ptr =
     with_user_program (\<lambda>s. spawn_image s state_ptr) s state_ptr task_id path_ptr path_len argv_ptr envp_ptr"

definition syscall_exec_kernel_path ::
    "machine \<Rightarrow> int \<Rightarrow> int \<Rightarrow> int \<Rightarrow> int \<Rightarrow> int \<Rightarrow> int \<Rightarrow> (int \<times> machine) option" where
  "syscall_exec_kernel_path s state_ptr task_id path_ptr path_len argv_ptr envp_ptr =
     with_kernel_program (\<lambda>s. scheduler_exec_current_task s state_ptr) s state_ptr path_ptr path_len argv_ptr envp_ptr"

definition syscall_exec_user_path ::
    "machine \<Rightarrow> int \<Rightarrow> int \<Rightarrow> int \<Rightarrow> int \<Rightarrow> int \<Rightarrow> int \<Rightarrow> (int \<times> machine) option" where
  "syscall_exec_user_path s state_ptr task_id path_ptr path_len argv_ptr envp_ptr =
     with_user_program (\<lambda>s. scheduler_exec_current_task s state_ptr) s state_ptr task_id path_ptr path_len argv_ptr envp_ptr"

section \<open>The dispatcher\<close>

text \<open>An answer with its tick, an answer without one, and the answer of an exec.\<close>

definition ticked ::
    "(machine \<Rightarrow> machine option) \<Rightarrow> int \<Rightarrow> int \<Rightarrow> (int \<times> machine) option \<Rightarrow> (int option \<times> machine) option" where
  "ticked others state_ptr user_mode result = do {
     (r, s) \<leftarrow> result;
     (r, s) \<leftarrow> syscall_return_with_tick others s state_ptr user_mode r;
     Some (Some r, s) }"

definition answer :: "(int \<times> machine) option \<Rightarrow> (int option \<times> machine) option" where
  "answer result = do { (r, s) \<leftarrow> result; Some (Some r, s) }"

definition exec_answer :: "(int \<times> machine) option \<Rightarrow> (int option \<times> machine) option" where
  "exec_answer result = do { (r, s) \<leftarrow> result; Some (if r = 0 then None else Some r, s) }"

definition by_mode :: "int \<Rightarrow> 'a \<Rightarrow> 'a \<Rightarrow> 'a" where
  "by_mode user_mode u k = (if user_mode \<noteq> 0 then u else k)"

definition syscall_dispatch ::
    "(machine \<Rightarrow> machine option) \<Rightarrow> machine \<Rightarrow> int \<Rightarrow> int \<Rightarrow> int \<Rightarrow> int \<Rightarrow> int \<Rightarrow> int \<Rightarrow> int
     \<Rightarrow> (int option \<times> machine) option" where
  "syscall_dispatch others s number a0 a1 a2 a3 a4 a5 = do {
     st \<leftarrow> active_scheduler_state s;
     cur \<leftarrow> scheduler_current_task s st;
     mode \<leftarrow> scheduler_task_mode s st cur;
     let um = (if mode = task_mode_user then 1 else 0);
     if number = syscall_write_number then
       ticked others st um (by_mode um (syscall_write_user_buffer s st cur a0 a1 a2) (syscall_write_kernel_buffer s st cur a0 a1 a2))
     else if number = syscall_open_number then
       ticked others st um (by_mode um (syscall_open_user_path s st cur a0 a1 a2) (syscall_open_kernel_path s st cur a0 a1 a2))
     else if number = syscall_read_number then
       ticked others st um (by_mode um (syscall_read_user_buffer s st cur a0 a1 a2) (syscall_read_kernel_buffer s st cur a0 a1 a2))
     else if number = syscall_fstat_number then
       ticked others st um (by_mode um (syscall_fstat_user_buffer s st cur a0 a1) (syscall_fstat_kernel_buffer s st cur a0 a1))
     else if number = syscall_readdir_number then
       ticked others st um (by_mode um (syscall_readdir_user_buffer s st cur a0 a1 a2) (syscall_readdir_kernel_buffer s st cur a0 a1 a2))
     else if number = syscall_getpid_number then ticked others st um (Some (cur, s))
     else if number = syscall_getppid_number then
       ticked others st um (do { parent \<leftarrow> scheduler_task_parent_pid s st cur; Some (parent, s) })
     else if number = syscall_brk_number then
       (if um = 0 then Some (Some (- 1), s) else ticked others st um (scheduler_brk s st cur a0))
     else if number = syscall_clock_ticks_number then ticked others st um (Some (current_kernel_ticks s, s))
     else if number = syscall_yield_number then answer (scheduler_yield_current_task others s st)
     else if number = syscall_exit_number then do {
       let s = (if um \<noteq> 0 then console_write_line s ''user syscall exit'' else s);
       s \<leftarrow> scheduler_exit_current_task s st a0;
       Some (None, s) }
     else if number = syscall_waitpid_number then answer (scheduler_waitpid others s st a0)
     else if number = syscall_spawn_user_demo_number then Some (Some (- 1), s)
     else if number = syscall_spawn_exec_number then
       ticked others st um (by_mode um (syscall_spawn_exec_user_path s st cur a0 a1 a2 a3)
         (syscall_spawn_exec_kernel_path s st cur a0 a1 a2 a3))
     else if number = syscall_exec_number then
       exec_answer (by_mode um (syscall_exec_user_path s st cur a0 a1 a2 a3) (syscall_exec_kernel_path s st cur a0 a1 a2 a3))
     else if number = syscall_close_number then ticked others st um (syscall_close_fd s st cur a0)
     else panic ''unknown syscall number'' }"

definition syscall_entry ::
    "(machine \<Rightarrow> machine option) \<Rightarrow> machine \<Rightarrow> int \<Rightarrow> int \<Rightarrow> int \<Rightarrow> int \<Rightarrow> int \<Rightarrow> int \<Rightarrow> (int option \<times> machine) option" where
  "syscall_entry others s number a0 a1 a2 a3 a4 = syscall_dispatch others s number a0 a1 a2 a3 a4 0"

section \<open>The kernel's stubs\<close>

text \<open>
  \<^verbatim>\<open>invoke_syscall_asm\<close> raises interrupt 128 with the number and the arguments in registers; \<^verbatim>\<open>isr128\<close> hands
  them to \<^verbatim>\<open>syscall_entry\<close> in the same order and returns its result.  A call that does not come back makes
  the caller not come back.
\<close>

definition invoke_syscall ::
    "(machine \<Rightarrow> machine option) \<Rightarrow> machine \<Rightarrow> int \<Rightarrow> int \<Rightarrow> int \<Rightarrow> int \<Rightarrow> int \<Rightarrow> int \<Rightarrow> (int \<times> machine) option" where
  "invoke_syscall others s number a0 a1 a2 a3 a4 = do {
     (r, s) \<leftarrow> syscall_entry others s number a0 a1 a2 a3 a4;
     v \<leftarrow> r;
     Some (v, s) }"

definition sys_write :: "machine \<Rightarrow> string \<Rightarrow> machine" where
  "sys_write s msg = console_write s msg"

definition sys_write_u64 :: "machine \<Rightarrow> int \<Rightarrow> machine" where
  "sys_write_u64 s v = console_write_u64 s v"

definition sys_write_fd_ptr :: "(machine \<Rightarrow> machine option) \<Rightarrow> machine \<Rightarrow> int \<Rightarrow> int \<Rightarrow> int \<Rightarrow> (int \<times> machine) option" where
  "sys_write_fd_ptr others s fd ptr len = invoke_syscall others s syscall_write_number fd ptr len 0 0"

definition sys_getpid :: "(machine \<Rightarrow> machine option) \<Rightarrow> machine \<Rightarrow> (int \<times> machine) option" where
  "sys_getpid others s = invoke_syscall others s syscall_getpid_number 0 0 0 0 0"

definition sys_getppid :: "(machine \<Rightarrow> machine option) \<Rightarrow> machine \<Rightarrow> (int \<times> machine) option" where
  "sys_getppid others s = invoke_syscall others s syscall_getppid_number 0 0 0 0 0"

definition sys_brk :: "(machine \<Rightarrow> machine option) \<Rightarrow> machine \<Rightarrow> int \<Rightarrow> (int \<times> machine) option" where
  "sys_brk others s addr = invoke_syscall others s syscall_brk_number addr 0 0 0 0"

definition sys_clock_ticks :: "(machine \<Rightarrow> machine option) \<Rightarrow> machine \<Rightarrow> (int \<times> machine) option" where
  "sys_clock_ticks others s = invoke_syscall others s syscall_clock_ticks_number 0 0 0 0 0"

definition sys_yield :: "(machine \<Rightarrow> machine option) \<Rightarrow> machine \<Rightarrow> (int \<times> machine) option" where
  "sys_yield others s = invoke_syscall others s syscall_yield_number 0 0 0 0 0"

definition sys_exit :: "(machine \<Rightarrow> machine option) \<Rightarrow> machine \<Rightarrow> int \<Rightarrow> (int \<times> machine) option" where
  "sys_exit others s code = invoke_syscall others s syscall_exit_number code 0 0 0 0"

definition sys_waitpid :: "(machine \<Rightarrow> machine option) \<Rightarrow> machine \<Rightarrow> int \<Rightarrow> (int \<times> machine) option" where
  "sys_waitpid others s task_id = invoke_syscall others s syscall_waitpid_number task_id 0 0 0 0"

definition sys_spawn_user_demo :: "(machine \<Rightarrow> machine option) \<Rightarrow> machine \<Rightarrow> (int \<times> machine) option" where
  "sys_spawn_user_demo others s = invoke_syscall others s syscall_spawn_user_demo_number 0 0 0 0 0"

definition sys_close :: "(machine \<Rightarrow> machine option) \<Rightarrow> machine \<Rightarrow> int \<Rightarrow> (int \<times> machine) option" where
  "sys_close others s fd = invoke_syscall others s syscall_close_number fd 0 0 0 0"

definition sys_open_ptr :: "(machine \<Rightarrow> machine option) \<Rightarrow> machine \<Rightarrow> int \<Rightarrow> int \<Rightarrow> int \<Rightarrow> (int \<times> machine) option" where
  "sys_open_ptr others s path_ptr path_len flags = invoke_syscall others s syscall_open_number path_ptr path_len flags 0 0"

definition sys_read :: "(machine \<Rightarrow> machine option) \<Rightarrow> machine \<Rightarrow> int \<Rightarrow> int \<Rightarrow> int \<Rightarrow> (int \<times> machine) option" where
  "sys_read others s fd ptr len = invoke_syscall others s syscall_read_number fd ptr len 0 0"

definition sys_fstat :: "(machine \<Rightarrow> machine option) \<Rightarrow> machine \<Rightarrow> int \<Rightarrow> int \<Rightarrow> (int \<times> machine) option" where
  "sys_fstat others s fd ptr = invoke_syscall others s syscall_fstat_number fd ptr 0 0 0"

definition sys_readdir :: "(machine \<Rightarrow> machine option) \<Rightarrow> machine \<Rightarrow> int \<Rightarrow> int \<Rightarrow> int \<Rightarrow> (int \<times> machine) option" where
  "sys_readdir others s fd ptr len = invoke_syscall others s syscall_readdir_number fd ptr len 0 0"

definition sys_spawn_exec_ptr :: "(machine \<Rightarrow> machine option) \<Rightarrow> machine \<Rightarrow> int \<Rightarrow> int \<Rightarrow> (int \<times> machine) option" where
  "sys_spawn_exec_ptr others s path_ptr path_len = invoke_syscall others s syscall_spawn_exec_number path_ptr path_len 0 0 0"

definition sys_spawn_execve_ptr ::
    "(machine \<Rightarrow> machine option) \<Rightarrow> machine \<Rightarrow> int \<Rightarrow> int \<Rightarrow> int \<Rightarrow> int \<Rightarrow> (int \<times> machine) option" where
  "sys_spawn_execve_ptr others s path_ptr path_len argv_ptr envp_ptr =
     invoke_syscall others s syscall_spawn_exec_number path_ptr path_len argv_ptr envp_ptr 0"

definition sys_exec_ptr :: "(machine \<Rightarrow> machine option) \<Rightarrow> machine \<Rightarrow> int \<Rightarrow> int \<Rightarrow> (int \<times> machine) option" where
  "sys_exec_ptr others s path_ptr path_len = invoke_syscall others s syscall_exec_number path_ptr path_len 0 0 0"

definition sys_execve_ptr ::
    "(machine \<Rightarrow> machine option) \<Rightarrow> machine \<Rightarrow> int \<Rightarrow> int \<Rightarrow> int \<Rightarrow> int \<Rightarrow> (int \<times> machine) option" where
  "sys_execve_ptr others s path_ptr path_len argv_ptr envp_ptr =
     invoke_syscall others s syscall_exec_number path_ptr path_len argv_ptr envp_ptr 0"

fun sys_cstring_len :: "string \<Rightarrow> int" where
  "sys_cstring_len [] = 0"
| "sys_cstring_len (c # cs) = (if c = CHR 0x00 then 0 else 1 + sys_cstring_len cs)"

definition copy_path :: "machine \<Rightarrow> string \<Rightarrow> ((int \<times> int) \<times> machine) option" where
  "copy_path s path = do {
     let len = sys_cstring_len path;
     (buf, s) \<leftarrow> alloc_bytes s (len + 1);
     let s = store_bytes s buf (map of_char (take (nat len) path));
     Some ((buf, len), store_byte s (buf + len) 0) }"

definition sys_exec_cstring :: "(machine \<Rightarrow> machine option) \<Rightarrow> machine \<Rightarrow> string \<Rightarrow> (int \<times> machine) option" where
  "sys_exec_cstring others s path = do { ((buf, len), s) \<leftarrow> copy_path s path; sys_exec_ptr others s buf len }"

definition sys_spawn_exec_cstring :: "(machine \<Rightarrow> machine option) \<Rightarrow> machine \<Rightarrow> string \<Rightarrow> (int \<times> machine) option" where
  "sys_spawn_exec_cstring others s path = do { ((buf, len), s) \<leftarrow> copy_path s path; sys_spawn_exec_ptr others s buf len }"

section \<open>Self-test\<close>

text \<open>A labelled call: the label and the result on the console.\<close>

definition report :: "string \<Rightarrow> (int \<times> machine) option \<Rightarrow> (int \<times> machine) option" where
  "report label result = do { (r, s) \<leftarrow> result; Some (r, console_write_label_u64 s label r) }"

definition report_field :: "machine \<Rightarrow> string \<Rightarrow> int option \<Rightarrow> machine option" where
  "report_field s label v = do { v \<leftarrow> v; Some (console_write_label_u64 s label v) }"

definition syscall_self_test_dir ::
    "(machine \<Rightarrow> machine option) \<Rightarrow> machine \<Rightarrow> string \<Rightarrow> string \<Rightarrow> string \<Rightarrow> string \<Rightarrow> int \<Rightarrow> int \<Rightarrow> int \<Rightarrow> machine option" where
  "syscall_self_test_dir others s open_label read_label sample_label close_label path len buf = do {
     (dir_fd, s) \<leftarrow> report open_label (sys_open_ptr others s path len 0);
     (dir_len, s) \<leftarrow> report read_label (sys_readdir others s dir_fd buf 64);
     let s = console_write s sample_label;
     (_, s) \<leftarrow> (if dir_len > 0 then sys_write_fd_ptr others s 1 buf dir_len else Some (0, s));
     let s = console_write s [CHR 0x0A];
     (_, s) \<leftarrow> report close_label (sys_close others s dir_fd);
     Some s }"

definition syscall_self_test :: "(machine \<Rightarrow> machine option) \<Rightarrow> machine \<Rightarrow> machine option" where
  "syscall_self_test others s = do {
     (file_path, s) \<leftarrow> alloc_bytes s 16;
     (dir_path, s) \<leftarrow> alloc_bytes s 4;
     (tmp_path, s) \<leftarrow> alloc_bytes s 16;
     (tmp_dir_path, s) \<leftarrow> alloc_bytes s 8;
     (tmp_msg, s) \<leftarrow> alloc_bytes s 16;
     (buf, s) \<leftarrow> alloc_bytes s 64;
     (stat_buf, s) \<leftarrow> alloc_bytes s 16;
     let s = store_bytes s file_path [47, 104, 101, 108, 108, 111, 46, 116, 120, 116, 0];
     let s = store_bytes s dir_path [47, 0];
     let s = store_bytes s tmp_path [47, 116, 109, 112, 47, 115, 121, 115, 46, 116, 120, 116, 0];
     let s = store_bytes s tmp_dir_path [47, 116, 109, 112, 0];
     let s = store_bytes s tmp_msg [116, 109, 112, 102, 115, 45, 111, 107, 0];
     let s = sys_write s (''syscall self-test begin'' @ [CHR 0x0A]);
     (_, s) \<leftarrow> report ''sys.pid='' (sys_getpid others s);
     (_, s) \<leftarrow> report ''sys.ppid='' (sys_getppid others s);
     (_, s) \<leftarrow> report ''sys.ticks='' (sys_clock_ticks others s);
     st \<leftarrow> active_scheduler_state s;
     s \<leftarrow> report_field s ''sys.runnable='' (scheduler_runnable_count s st);
     (file_fd, s) \<leftarrow> report ''sys.open.file='' (sys_open_ptr others s file_path 10 0);
     (_, s) \<leftarrow> report ''sys.read.file='' (sys_read others s file_fd buf 64);
     (r, s) \<leftarrow> sys_fstat others s file_fd stat_buf;
     if r \<noteq> 0 then panic ''syscall self-test fstat failed''
     else do {
     s \<leftarrow> report_field s ''sys.fstat.kind='' (load_qword_region s stat_buf 2 0);
     s \<leftarrow> report_field s ''sys.fstat.size='' (load_qword_region s stat_buf 2 1);
     (_, s) \<leftarrow> report ''sys.close.file='' (sys_close others s file_fd);
     s \<leftarrow> syscall_self_test_dir others s ''sys.open.dir='' ''sys.readdir='' ''sys.readdir.sample='' ''sys.close.dir='' dir_path 1 buf;
     (tmp_fd, s) \<leftarrow> report ''sys.open.tmp='' (sys_open_ptr others s tmp_path 12 (sys_open_flag_create OR sys_open_flag_trunc));
     (_, s) \<leftarrow> report ''sys.write.tmp='' (sys_write_fd_ptr others s tmp_fd tmp_msg 8);
     (_, s) \<leftarrow> report ''sys.close.tmp='' (sys_close others s tmp_fd);
     (tmp_fd, s) \<leftarrow> report ''sys.reopen.tmp='' (sys_open_ptr others s tmp_path 12 0);
     (_, s) \<leftarrow> report ''sys.read.tmp='' (sys_read others s tmp_fd buf 64);
     let s = console_write s ''sys.read.tmp.sample='';
     (_, s) \<leftarrow> sys_write_fd_ptr others s 1 buf 8;
     let s = console_write s [CHR 0x0A];
     (r, s) \<leftarrow> sys_fstat others s tmp_fd stat_buf;
     if r \<noteq> 0 then panic ''syscall self-test tmp fstat failed''
     else do {
     s \<leftarrow> report_field s ''sys.tmp.size='' (load_qword_region s stat_buf 2 1);
     (_, s) \<leftarrow> report ''sys.close.tmp2='' (sys_close others s tmp_fd);
     s \<leftarrow> syscall_self_test_dir others s ''sys.open.tmpdir='' ''sys.readdir.tmp='' ''sys.readdir.tmp.sample='' ''sys.close.tmpdir='' tmp_dir_path 4 buf;
     (_, s) \<leftarrow> report ''sys.read.stdin='' (sys_read others s 0 buf 64);
     (_, s) \<leftarrow> report ''sys.close.bad='' (sys_close others s 99);
     Some (console_write_line s ''syscall self-test ok'') } } }"

end
