(* ===== verification/Shell.thy ===== *)
theory Shell
  imports Syscall
begin

text \<open>
  The kernel shell, \<^verbatim>\<open>kshell.py\<close>: buffers and paths, the commands, the interpretation of a line, the line
  editor and the self-test.  Every access to files and tasks is a system call.
\<close>

section \<open>Buffers\<close>

definition shell_line_capacity :: int where "shell_line_capacity = 128"
definition shell_io_capacity :: int where "shell_io_capacity = 128"
definition shell_path_capacity :: int where "shell_path_capacity = 128"

definition newline :: string where "newline = [CHR 0x0A]"

definition shell_prompt :: "machine \<Rightarrow> machine" where
  "shell_prompt s = sys_write s ''pco> ''"

fun shell_cstring_len :: "string \<Rightarrow> int" where
  "shell_cstring_len [] = 0"
| "shell_cstring_len (c # cs) = (if c = CHR 0x00 then 0 else 1 + shell_cstring_len cs)"

text \<open>The comparison both string tests make, byte by byte up to the length of the literal.\<close>

fun shell_bytes_match :: "machine \<Rightarrow> int \<Rightarrow> string \<Rightarrow> bool" where
  "shell_bytes_match s ptr [] = True"
| "shell_bytes_match s ptr (c # cs) =
     (if c = CHR 0x00 then True
      else if load_byte s ptr \<noteq> of_char c then False
      else shell_bytes_match s (ptr + 1) cs)"

definition shell_buffer_equals :: "machine \<Rightarrow> int \<Rightarrow> int \<Rightarrow> string \<Rightarrow> bool" where
  "shell_buffer_equals s ptr len msg = (if len \<noteq> shell_cstring_len msg then False else shell_bytes_match s ptr msg)"

definition shell_buffer_startswith :: "machine \<Rightarrow> int \<Rightarrow> int \<Rightarrow> string \<Rightarrow> bool" where
  "shell_buffer_startswith s ptr len msg = (if len < shell_cstring_len msg then False else shell_bytes_match s ptr msg)"

definition shell_copy_cstring :: "machine \<Rightarrow> int \<Rightarrow> string \<Rightarrow> int \<times> machine" where
  "shell_copy_cstring s dst_ptr msg =
     (let len = shell_cstring_len msg
      in (len, store_byte (store_bytes s dst_ptr (map of_char (take (nat len) msg))) (dst_ptr + len) 0))"

definition shell_copy_buffer :: "machine \<Rightarrow> int \<Rightarrow> int \<Rightarrow> int \<Rightarrow> machine" where
  "shell_copy_buffer s dst_ptr src_ptr len = store_byte (copy_bytes s dst_ptr src_ptr len) (dst_ptr + len) 0"

section \<open>Paths\<close>

function shell_scan :: "machine \<Rightarrow> int \<Rightarrow> int \<Rightarrow> bool \<Rightarrow> int \<Rightarrow> int" where
  "shell_scan s src_ptr src_len slashes i =
     (if i < src_len \<and> (load_byte s (src_ptr + i) = 47) = slashes
      then shell_scan s src_ptr src_len slashes (i + 1) else i)"
  by pat_completeness auto
termination
  by (relation "measure (\<lambda>(s, p, n, b, i). nat (n - i))") auto

declare shell_scan.simps [simp del]

lemma shell_scan_ge: "i \<le> shell_scan s p n b i"
proof (induction s p n b i rule: shell_scan.induct)
  case (1 s p n b i)
  then show ?case by (subst shell_scan.simps) auto
qed

lemma shell_scan_stop: "shell_scan s p n b i < n \<Longrightarrow> (load_byte s (p + shell_scan s p n b i) = 47) \<noteq> b"
proof (induction s p n b i rule: shell_scan.induct)
  case (1 s p n b i)
  show ?case
  proof (cases "i < n \<and> (load_byte s (p + i) = 47) = b")
    case True
    then have "shell_scan s p n b i = shell_scan s p n b (i + 1)" by (subst shell_scan.simps) simp
    then show ?thesis using "1.IH" [OF True] "1.prems" by simp
  next
    case False
    then have "shell_scan s p n b i = i" by (subst shell_scan.simps) auto
    then show ?thesis using False "1.prems" by auto
  qed
qed

lemma shell_scan_past:
  assumes "shell_scan s p n True i < n"
  shows "shell_scan s p n True i < shell_scan s p n False (shell_scan s p n True i)"
proof -
  let ?j = "shell_scan s p n True i"
  have "shell_scan s p n False ?j = shell_scan s p n False (?j + 1)"
    using assms shell_scan_stop [OF assms] by (subst shell_scan.simps) simp
  then show ?thesis using shell_scan_ge [of "?j + 1" s p n False] by simp
qed

text \<open>The loop of \<open>shell_normalize_path\<close>: the same steps as in the file system's normaliser.\<close>

function shell_normalize_loop :: "machine \<Rightarrow> int \<Rightarrow> int \<Rightarrow> int \<Rightarrow> int \<Rightarrow> int \<Rightarrow> int \<times> machine" where
  "shell_normalize_loop s src_ptr src_len dst_ptr src_index dst_len =
     (if src_index < src_len then
        let start = shell_scan s src_ptr src_len True src_index
        in if start \<ge> src_len then (dst_len, s)
           else let stop = shell_scan s src_ptr src_len False start; len = stop - start
             in if len = 1 \<and> load_byte s (src_ptr + start) = 46
                then shell_normalize_loop s src_ptr src_len dst_ptr stop dst_len
                else if len = 2 \<and> load_byte s (src_ptr + start) = 46 \<and> load_byte s (src_ptr + start + 1) = 46
                then shell_normalize_loop s src_ptr src_len dst_ptr stop
                       (if dst_len > 1 then vfs_drop_component s dst_ptr (dst_len - 1) else dst_len)
                else let (dst_len, s) = vfs_add_component s src_ptr dst_ptr dst_len start len
                     in shell_normalize_loop s src_ptr src_len dst_ptr stop dst_len
      else (dst_len, s))"
  by pat_completeness auto
termination
proof (relation "measure (\<lambda>(s, p, n, d, i, l). nat (n - i))", goal_cases)
  case (2 s p n d i l start stop len)
  then show ?case using shell_scan_ge [of i s p n True] shell_scan_past [of s p n i] by auto
next
  case (3 s p n d i l start stop len)
  then show ?case using shell_scan_ge [of i s p n True] shell_scan_past [of s p n i] by auto
next
  case (4 s p n d i l start stop len)
  then show ?case using shell_scan_ge [of i s p n True] shell_scan_past [of s p n i] by auto
qed simp

declare shell_normalize_loop.simps [simp del]

definition shell_normalize_path :: "machine \<Rightarrow> int \<Rightarrow> int \<Rightarrow> int \<Rightarrow> int \<times> machine" where
  "shell_normalize_path s src_ptr src_len dst_ptr =
     (if src_ptr = 0 \<or> src_len \<le> 0 then (- 1, s)
      else if load_byte s src_ptr \<noteq> 47 then (- 1, s)
      else let (dst_len, s) = shell_normalize_loop (store_byte s dst_ptr 47) src_ptr src_len dst_ptr 1 1
           in (dst_len, store_byte s (dst_ptr + dst_len) 0))"

definition shell_resolve_path :: "machine \<Rightarrow> int \<Rightarrow> int \<Rightarrow> int \<Rightarrow> int \<Rightarrow> int \<Rightarrow> int \<times> machine" where
  "shell_resolve_path s cwd_ptr cwd_len path_ptr path_len dst_ptr =
     (if path_len \<le> 0 then (- 1, s)
      else if load_byte s path_ptr = 47 then (path_len, shell_copy_buffer s dst_ptr path_ptr path_len)
      else if cwd_len \<le> 0 then (- 1, s)
      else if cwd_len = 1 \<and> load_byte s cwd_ptr = 47 then
        (let s = store_byte s dst_ptr 47; s = copy_bytes s (dst_ptr + 1) path_ptr path_len
         in (path_len + 1, store_byte s (dst_ptr + path_len + 1) 0))
      else
        (let s = shell_copy_buffer s dst_ptr cwd_ptr cwd_len; s = store_byte s (dst_ptr + cwd_len) 47;
             s = copy_bytes s (dst_ptr + cwd_len + 1) path_ptr path_len
         in (cwd_len + 1 + path_len, store_byte s (dst_ptr + cwd_len + 1 + path_len) 0)))"

section \<open>Commands\<close>

definition shell_print_open_failed :: "machine \<Rightarrow> machine" where
  "shell_print_open_failed s = sys_write s (''open failed'' @ newline)"

definition shell_print_cd_failed :: "machine \<Rightarrow> machine" where
  "shell_print_cd_failed s = sys_write s (''cd failed'' @ newline)"

definition shell_print_help :: "machine \<Rightarrow> machine" where
  "shell_print_help s = fold (\<lambda>l s. sys_write s (l @ newline))
     [''help              show commands'',
      ''pwd               print current path'',
      ''ppid              print parent pid'',
      ''cd <path>         change current path'',
      ''clear             clear the console'',
      ''ls                list root directory'',
      ''cat <path>        print a file'',
      ''stat <path>       print file metadata'',
      ''write <p> <text>  write text to a tmpfs file'',
      ''ticks             print kernel tick count'',
      ''spawn             run /bin/demo'',
      ''run <path>        exec a user program''] s"

text \<open>A value between two texts.\<close>

definition say_value :: "machine \<Rightarrow> string \<Rightarrow> int \<Rightarrow> machine" where
  "say_value s label v = sys_write (sys_write_u64 (sys_write s label) v) newline"

partial_function (option) ls_loop ::
    "(machine \<Rightarrow> machine option) \<Rightarrow> machine \<Rightarrow> int \<Rightarrow> int \<Rightarrow> machine option" where
  "ls_loop others s fd io_buf = do {
     (count, s) \<leftarrow> sys_readdir others s fd io_buf shell_io_capacity;
     if count \<le> 0 then Some s
     else do {
       (_, s) \<leftarrow> sys_write_fd_ptr others s 1 io_buf count;
       ls_loop others (sys_write s newline) fd io_buf } }"

definition shell_run_ls :: "(machine \<Rightarrow> machine option) \<Rightarrow> machine \<Rightarrow> int \<Rightarrow> int \<Rightarrow> int \<Rightarrow> machine option" where
  "shell_run_ls others s path_ptr path_len io_buf = do {
     (fd, s) \<leftarrow> sys_open_ptr others s path_ptr path_len 0;
     if fd < 0 then Some (shell_print_open_failed s)
     else do {
       s \<leftarrow> ls_loop others s fd io_buf;
       (_, s) \<leftarrow> sys_close others s fd;
       Some s } }"

partial_function (option) cat_loop ::
    "(machine \<Rightarrow> machine option) \<Rightarrow> machine \<Rightarrow> int \<Rightarrow> int \<Rightarrow> machine option" where
  "cat_loop others s fd io_buf = do {
     (count, s) \<leftarrow> sys_read others s fd io_buf shell_io_capacity;
     if count \<le> 0 then Some s
     else do {
       (_, s) \<leftarrow> sys_write_fd_ptr others s 1 io_buf count;
       cat_loop others s fd io_buf } }"

definition shell_run_cat :: "(machine \<Rightarrow> machine option) \<Rightarrow> machine \<Rightarrow> int \<Rightarrow> int \<Rightarrow> int \<Rightarrow> machine option" where
  "shell_run_cat others s path_ptr path_len io_buf = do {
     (fd, s) \<leftarrow> sys_open_ptr others s path_ptr path_len 0;
     if fd < 0 then Some (shell_print_open_failed s)
     else do {
       s \<leftarrow> cat_loop others s fd io_buf;
       (_, s) \<leftarrow> sys_close others s fd;
       Some (sys_write s newline) } }"

definition shell_run_stat :: "(machine \<Rightarrow> machine option) \<Rightarrow> machine \<Rightarrow> int \<Rightarrow> int \<Rightarrow> int \<Rightarrow> machine option" where
  "shell_run_stat others s path_ptr path_len stat_buf = do {
     (fd, s) \<leftarrow> sys_open_ptr others s path_ptr path_len 0;
     if fd < 0 then Some (shell_print_open_failed s)
     else do {
       (r, s) \<leftarrow> sys_fstat others s fd stat_buf;
       if r \<noteq> 0 then do {
         (_, s) \<leftarrow> sys_close others (sys_write s (''stat failed'' @ newline)) fd;
         Some s }
       else do {
         kind \<leftarrow> load_qword_region s stat_buf 2 0;
         let s = sys_write_u64 (sys_write s ''kind='') kind;
         len \<leftarrow> load_qword_region s stat_buf 2 1;
         let s = say_value s '' size='' len;
         (_, s) \<leftarrow> sys_close others s fd;
         Some s } } }"

definition shell_run_write :: "(machine \<Rightarrow> machine option) \<Rightarrow> machine \<Rightarrow> int \<Rightarrow> int \<Rightarrow> int \<Rightarrow> int \<Rightarrow> machine option" where
  "shell_run_write others s path_ptr path_len text_ptr text_len = do {
     (fd, s) \<leftarrow> sys_open_ptr others s path_ptr path_len (sys_open_flag_create OR sys_open_flag_trunc);
     if fd < 0 then Some (shell_print_open_failed s)
     else do {
       (count, s) \<leftarrow> sys_write_fd_ptr others s fd text_ptr text_len;
       (_, s) \<leftarrow> sys_close others s fd;
       Some (say_value s ''write bytes='' count) } }"

definition shell_run_spawn :: "(machine \<Rightarrow> machine option) \<Rightarrow> machine \<Rightarrow> machine option" where
  "shell_run_spawn others s = do {
     (path, s) \<leftarrow> alloc_bytes s 16;
     let s = store_bytes s path [47, 98, 105, 110, 47, 100, 101, 109, 111, 0];
     (pid, s) \<leftarrow> sys_spawn_exec_ptr others s path 9;
     let s = say_value s ''spawn pid='' pid;
     if pid < 0 then Some s
     else do {
       (status, s) \<leftarrow> sys_waitpid others s pid;
       Some (say_value s ''spawn status='' status) } }"

definition shell_run_exec :: "(machine \<Rightarrow> machine option) \<Rightarrow> machine \<Rightarrow> int \<Rightarrow> int \<Rightarrow> machine option" where
  "shell_run_exec others s path_ptr path_len = do {
     (pid, s) \<leftarrow> sys_spawn_exec_ptr others s path_ptr path_len;
     let s = say_value s ''run pid='' pid;
     if pid < 0 then Some s
     else do {
       (status, s) \<leftarrow> sys_waitpid others s pid;
       Some (say_value s ''run status='' status) } }"

definition shell_run_cd :: "(machine \<Rightarrow> machine option) \<Rightarrow> machine \<Rightarrow> int \<Rightarrow> int \<Rightarrow> int \<Rightarrow> int \<Rightarrow> int \<Rightarrow> machine option" where
  "shell_run_cd others s path_ptr path_len cwd_ptr cwd_len_ptr stat_buf = do {
     (fd, s) \<leftarrow> sys_open_ptr others s path_ptr path_len 0;
     if fd < 0 then Some (shell_print_cd_failed s)
     else do {
       (r, s) \<leftarrow> sys_fstat others s fd stat_buf;
       bad \<leftarrow> (if r \<noteq> 0 then Some True else do { kind \<leftarrow> load_qword_region s stat_buf 2 0; Some (kind \<noteq> 2) });
       if bad then do {
         (_, s) \<leftarrow> sys_close others (shell_print_cd_failed s) fd;
         Some s }
       else do {
         let s = shell_copy_buffer s cwd_ptr path_ptr path_len;
         s \<leftarrow> store_qword_region s cwd_len_ptr 1 0 path_len;
         (_, s) \<leftarrow> sys_close others s fd;
         Some s } } }"

section \<open>Interpreting a line\<close>

text \<open>The loop that looks for a space, in the line and in the arguments of \<^verbatim>\<open>write\<close>.\<close>

function find_space :: "machine \<Rightarrow> int \<Rightarrow> int \<Rightarrow> int \<Rightarrow> int" where
  "find_space s ptr len i =
     (if i < len \<and> load_byte s (ptr + i) \<noteq> 32 then find_space s ptr len (i + 1) else i)"
  by pat_completeness auto
termination
  by (relation "measure (\<lambda>(s, p, n, i). nat (n - i))") auto

declare find_space.simps [simp del]

text \<open>A command with a path argument: resolve it, or report \<open>fail\<close>.\<close>

definition with_path ::
    "machine \<Rightarrow> int \<Rightarrow> int \<Rightarrow> int \<Rightarrow> int \<Rightarrow> int \<Rightarrow> (machine \<Rightarrow> machine) \<Rightarrow> (machine \<Rightarrow> int \<Rightarrow> machine option) \<Rightarrow> machine option" where
  "with_path s cwd_ptr cwd_len arg_ptr arg_len path_buf fail run =
     (let (resolved_len, s) = shell_resolve_path s cwd_ptr cwd_len arg_ptr arg_len path_buf
      in if resolved_len \<le> 0 then Some (fail s) else run s resolved_len)"

definition shell_execute_line ::
    "(machine \<Rightarrow> machine option) \<Rightarrow> machine \<Rightarrow> int \<Rightarrow> int \<Rightarrow> int \<Rightarrow> int \<Rightarrow> int \<Rightarrow> int \<Rightarrow> int \<Rightarrow> machine option" where
  "shell_execute_line others s line_ptr line_len cwd_ptr cwd_len_ptr io_buf stat_buf path_buf = do {
     cwd_len \<leftarrow> load_qword_region s cwd_len_ptr 1 0;
     if line_len \<le> 0 then Some s
     else do {
     let verb_len = find_space s line_ptr line_len 0;
     let arg_ptr = (if verb_len < line_len then line_ptr + verb_len + 1 else 0);
     let arg_len = (if verb_len < line_len then line_len - verb_len - 1 else 0);
     let verb = (\<lambda>name. shell_buffer_equals s line_ptr verb_len name);
     if verb ''help'' \<and> arg_len = 0 then Some (shell_print_help s)
     else if verb ''pwd'' \<and> arg_len = 0 then do {
       (_, s) \<leftarrow> sys_write_fd_ptr others s 1 cwd_ptr cwd_len;
       Some (sys_write s newline) }
     else if verb ''ppid'' \<and> arg_len = 0 then do {
       (v, s) \<leftarrow> sys_getppid others (sys_write s ''ppid='');
       Some (sys_write (sys_write_u64 s v) newline) }
     else if verb ''clear'' \<and> arg_len = 0 then Some (sys_write s (CHR 0x1B # ''[2J'' @ CHR 0x1B # ''[H''))
     else if verb ''ls'' \<and> arg_len = 0 then shell_run_ls others s cwd_ptr cwd_len io_buf
     else if verb ''ticks'' \<and> arg_len = 0 then do {
       (v, s) \<leftarrow> sys_clock_ticks others (sys_write s ''ticks='');
       Some (sys_write (sys_write_u64 s v) newline) }
     else if verb ''spawn'' \<and> arg_len = 0 then shell_run_spawn others s
     else if verb ''cd'' \<and> arg_len > 0 then
       with_path s cwd_ptr cwd_len arg_ptr arg_len path_buf shell_print_cd_failed
         (\<lambda>s n. shell_run_cd others s path_buf n cwd_ptr cwd_len_ptr stat_buf)
     else if verb ''ls'' \<and> arg_len > 0 then
       with_path s cwd_ptr cwd_len arg_ptr arg_len path_buf shell_print_open_failed
         (\<lambda>s n. shell_run_ls others s path_buf n io_buf)
     else if verb ''run'' \<and> arg_len > 0 then
       with_path s cwd_ptr cwd_len arg_ptr arg_len path_buf shell_print_open_failed
         (\<lambda>s n. shell_run_exec others s path_buf n)
     else if verb ''cat'' \<and> arg_len > 0 then
       with_path s cwd_ptr cwd_len arg_ptr arg_len path_buf shell_print_open_failed
         (\<lambda>s n. shell_run_cat others s path_buf n io_buf)
     else if verb ''stat'' \<and> arg_len > 0 then
       with_path s cwd_ptr cwd_len arg_ptr arg_len path_buf shell_print_open_failed
         (\<lambda>s n. shell_run_stat others s path_buf n stat_buf)
     else if verb ''write'' \<and> arg_len > 0 then
       (let split = find_space s arg_ptr arg_len 0; text_len = arg_len - split - 1
        in if split \<ge> arg_len \<or> text_len < 0 then Some (sys_write s (''usage: write <path> <text>'' @ newline))
           else with_path s cwd_ptr cwd_len arg_ptr split path_buf shell_print_open_failed
             (\<lambda>s n. shell_run_write others s path_buf n (arg_ptr + split + 1) text_len))
     else Some (sys_write s (''unknown command'' @ newline)) } }"

section \<open>The line editor\<close>

text \<open>One byte of input; the state is the length of the line next to the machine.\<close>

definition shell_input_byte ::
    "(machine \<Rightarrow> machine option) \<Rightarrow> int \<Rightarrow> int \<Rightarrow> int \<Rightarrow> int \<Rightarrow> int \<Rightarrow> int \<Rightarrow> int \<Rightarrow> int \<Rightarrow> int \<times> machine \<Rightarrow> (int \<times> machine) option" where
  "shell_input_byte others line_buf read_buf io_buf stat_buf path_buf cwd_buf cwd_len_ptr read_index ls = do {
     let (line_len, s) = ls;
     let ch = load_byte s (read_buf + read_index);
     if ch = 0 then Some (line_len, s)
     else if ch = 8 \<or> ch = 127 then
       (if line_len > 0
        then Some (line_len - 1, sys_write (store_byte s (line_buf + line_len - 1) 0) [CHR 0x08, CHR 0x20, CHR 0x08])
        else Some (line_len, s))
     else if ch = 10 then do {
       let s = store_byte (sys_write s newline) (line_buf + line_len) 0;
       s \<leftarrow> shell_execute_line others s line_buf line_len cwd_buf cwd_len_ptr io_buf stat_buf path_buf;
       Some (0, shell_prompt (store_byte s line_buf 0)) }
     else if ch < 32 \<or> ch > 126 then Some (line_len, s)
     else if line_len + 1 \<ge> shell_line_capacity then Some (line_len, s)
     else do {
       let s = store_byte (store_byte s (line_buf + line_len) ch) (line_buf + line_len + 1) 0;
       (_, s) \<leftarrow> sys_write_fd_ptr others s 1 (read_buf + read_index) 1;
       Some (line_len + 1, s) } }"

text \<open>
  The endless loop of \<^verbatim>\<open>shell_run\<close> gives up the processor, reads what has arrived and handles it.  \<open>rounds\<close> is how
  many times it has gone round.
\<close>

definition shell_round ::
    "(machine \<Rightarrow> machine option) \<Rightarrow> int \<Rightarrow> int \<Rightarrow> int \<Rightarrow> int \<Rightarrow> int \<Rightarrow> int \<Rightarrow> int \<Rightarrow> int \<times> machine \<Rightarrow> (int \<times> machine) option" where
  "shell_round others line_buf read_buf io_buf stat_buf path_buf cwd_buf cwd_len_ptr ls = do {
     let (line_len, s) = ls;
     (_, s) \<leftarrow> sys_yield others s;
     (read_count, s) \<leftarrow> sys_read others s 0 read_buf shell_io_capacity;
     for_range 0 read_count
       (shell_input_byte others line_buf read_buf io_buf stat_buf path_buf cwd_buf cwd_len_ptr) (line_len, s) }"

primrec shell_rounds ::
    "nat \<Rightarrow> (machine \<Rightarrow> machine option) \<Rightarrow> int \<Rightarrow> int \<Rightarrow> int \<Rightarrow> int \<Rightarrow> int \<Rightarrow> int \<Rightarrow> int \<Rightarrow> int \<times> machine \<Rightarrow> (int \<times> machine) option" where
  "shell_rounds 0 others line_buf read_buf io_buf stat_buf path_buf cwd_buf cwd_len_ptr ls = Some ls"
| "shell_rounds (Suc n) others line_buf read_buf io_buf stat_buf path_buf cwd_buf cwd_len_ptr ls = do {
     ls \<leftarrow> shell_round others line_buf read_buf io_buf stat_buf path_buf cwd_buf cwd_len_ptr ls;
     shell_rounds n others line_buf read_buf io_buf stat_buf path_buf cwd_buf cwd_len_ptr ls }"

definition shell_run :: "nat \<Rightarrow> (machine \<Rightarrow> machine option) \<Rightarrow> machine \<Rightarrow> (int \<times> machine) option" where
  "shell_run rounds others s = do {
     (line_buf, s) \<leftarrow> alloc_bytes s shell_line_capacity;
     (read_buf, s) \<leftarrow> alloc_bytes s shell_io_capacity;
     (io_buf, s) \<leftarrow> alloc_bytes s shell_io_capacity;
     (stat_buf, s) \<leftarrow> alloc_bytes s 16;
     (path_buf, s) \<leftarrow> alloc_bytes s shell_path_capacity;
     (cwd_buf, s) \<leftarrow> alloc_bytes s shell_path_capacity;
     (cwd_len_ptr, s) \<leftarrow> alloc_bytes s 8;
     let s = store_bytes s cwd_buf [47, 0];
     s \<leftarrow> store_qword_region s cwd_len_ptr 1 0 1;
     let s = shell_prompt (sys_write (store_byte s line_buf 0) (''shell ready'' @ newline));
     shell_rounds rounds others line_buf read_buf io_buf stat_buf path_buf cwd_buf cwd_len_ptr (0, s) }"

section \<open>Self-test\<close>

definition run_line ::
    "(machine \<Rightarrow> machine option) \<Rightarrow> int \<Rightarrow> int \<Rightarrow> int \<Rightarrow> int \<Rightarrow> int \<Rightarrow> int \<Rightarrow> machine \<Rightarrow> string \<Rightarrow> machine option" where
  "run_line others line_buf cwd_buf cwd_len_ptr io_buf stat_buf path_buf s cmd =
     (let (cmd_len, s) = shell_copy_cstring s line_buf cmd
      in shell_execute_line others s line_buf cmd_len cwd_buf cwd_len_ptr io_buf stat_buf path_buf)"

definition shell_self_test :: "(machine \<Rightarrow> machine option) \<Rightarrow> machine \<Rightarrow> machine option" where
  "shell_self_test others s = do {
     (line_buf, s) \<leftarrow> alloc_bytes s shell_line_capacity;
     (io_buf, s) \<leftarrow> alloc_bytes s shell_io_capacity;
     (stat_buf, s) \<leftarrow> alloc_bytes s 16;
     (path_buf, s) \<leftarrow> alloc_bytes s shell_path_capacity;
     (cwd_buf, s) \<leftarrow> alloc_bytes s shell_path_capacity;
     (cwd_len_ptr, s) \<leftarrow> alloc_bytes s 8;
     (bin_path, s) \<leftarrow> alloc_bytes s 8;
     (docs_dir_path, s) \<leftarrow> alloc_bytes s 8;
     (hello_path, s) \<leftarrow> alloc_bytes s 16;
     (docs_path, s) \<leftarrow> alloc_bytes s 20;
     (root_path, s) \<leftarrow> alloc_bytes s 4;
     (tmp_dir_path, s) \<leftarrow> alloc_bytes s 8;
     (tmp_path, s) \<leftarrow> alloc_bytes s 20;
     (note2_name, s) \<leftarrow> alloc_bytes s 16;
     (tmpfs_data, s) \<leftarrow> alloc_bytes s 16;
     (rel_data, s) \<leftarrow> alloc_bytes s 16;
     (rwtest_exec_path, s) \<leftarrow> alloc_bytes s 16;
     (chain_exec_path, s) \<leftarrow> alloc_bytes s 16;
     let s = store_bytes s cwd_buf [47, 0];
     s \<leftarrow> store_qword_region s cwd_len_ptr 1 0 1;
     let s = store_bytes s bin_path [47, 98, 105, 110, 0];
     let s = store_bytes s docs_dir_path [47, 100, 111, 99, 115, 0];
     let s = store_bytes s hello_path [47, 104, 101, 108, 108, 111, 46, 116, 120, 116, 0];
     let s = store_bytes s docs_path [47, 100, 111, 99, 115, 47, 105, 110, 102, 111, 46, 116, 120, 116, 0];
     let s = store_bytes s root_path [47, 0];
     let s = store_bytes s tmp_path [47, 116, 109, 112, 47, 110, 111, 116, 101, 46, 116, 120, 116, 0];
     let s = store_bytes s tmp_dir_path [47, 116, 109, 112, 0];
     let s = store_bytes s note2_name [110, 111, 116, 101, 50, 46, 116, 120, 116, 0];
     let s = store_bytes s tmpfs_data [116, 109, 112, 102, 115, 45, 100, 97, 116, 97, 0];
     let s = store_bytes s rel_data [114, 101, 108, 45, 100, 97, 116, 97, 0];
     let s = store_bytes s rwtest_exec_path [47, 98, 105, 110, 47, 114, 119, 116, 101, 115, 116, 0];
     let s = store_bytes s chain_exec_path [47, 98, 105, 110, 47, 99, 104, 97, 105, 110, 0];
     let s = sys_write s (''shell self-test begin'' @ newline);
     let line = run_line others line_buf cwd_buf cwd_len_ptr io_buf stat_buf path_buf;
     s \<leftarrow> line s ''help'';
     s \<leftarrow> line s ''ls'';
     s \<leftarrow> line s ''pwd'';
     s \<leftarrow> line s ''ppid'';
     s \<leftarrow> shell_run_ls others s bin_path 4 io_buf;
     s \<leftarrow> shell_run_ls others s docs_dir_path 5 io_buf;
     s \<leftarrow> shell_run_stat others s hello_path 10 stat_buf;
     s \<leftarrow> shell_run_cat others s hello_path 10 io_buf;
     s \<leftarrow> shell_run_stat others s docs_path 14 stat_buf;
     s \<leftarrow> shell_run_cat others s docs_path 14 io_buf;
     s \<leftarrow> shell_run_write others s tmp_path 13 tmpfs_data 10;
     s \<leftarrow> shell_run_cd others s tmp_dir_path 4 cwd_buf cwd_len_ptr stat_buf;
     s \<leftarrow> line s ''pwd'';
     cwd_len \<leftarrow> load_qword_region s cwd_len_ptr 1 0;
     let (resolved_len, s) = shell_resolve_path s cwd_buf cwd_len note2_name 9 path_buf;
     s \<leftarrow> shell_run_write others s path_buf resolved_len rel_data 8;
     cwd_len \<leftarrow> load_qword_region s cwd_len_ptr 1 0;
     s \<leftarrow> shell_run_ls others s cwd_buf cwd_len io_buf;
     s \<leftarrow> shell_run_stat others s path_buf resolved_len stat_buf;
     s \<leftarrow> shell_run_cat others s path_buf resolved_len io_buf;
     s \<leftarrow> shell_run_cd others s root_path 1 cwd_buf cwd_len_ptr stat_buf;
     s \<leftarrow> shell_run_ls others s tmp_dir_path 4 io_buf;
     s \<leftarrow> shell_run_stat others s tmp_path 13 stat_buf;
     s \<leftarrow> shell_run_cat others s tmp_path 13 io_buf;
     s \<leftarrow> shell_run_spawn others s;
     s \<leftarrow> shell_run_exec others s rwtest_exec_path 11;
     s \<leftarrow> shell_run_exec others s chain_exec_path 10;
     s \<leftarrow> line s ''ticks'';
     Some (sys_write s (''shell self-test ok'' @ newline)) }"

end
