(* ===== verification/Kernel.thy ===== *)
theory Kernel
  imports Shell Boot Pmm Vmm
begin

text \<open>
  The kernel's entry points, \<^verbatim>\<open>kernel.py\<close>: interrupts, the idle task, the two worker tasks and the start-up
  sequence.  Tasks that loop for ever are given a number of rounds.  \<open>irq\<close>, \<open>device\<close>, \<open>trap\<close> and \<open>others\<close> are the
  arguments explained with the devices and the scheduler; \<open>arch\<close> is \<^verbatim>\<open>arch_init\<close>, assembly that loads
  segments and the task register.
\<close>

section \<open>Interrupts\<close>

definition isr_dispatch :: "machine \<Rightarrow> int \<Rightarrow> int \<Rightarrow> int \<Rightarrow> machine option" where
  "isr_dispatch s frame vector error_code = handle_exception s frame vector error_code"

definition timer_irq_entry :: "machine \<Rightarrow> int \<Rightarrow> int \<Rightarrow> machine option" where
  "timer_irq_entry s frame code_segment = do {
     let scheduler_state = get_active_scheduler s;
     if scheduler_state = 0 then Some s
     else do {
       (_, s) \<leftarrow> scheduler_timer_irq s scheduler_state frame code_segment;
       Some s } }"

section \<open>Tasks\<close>

primrec idle_task_main :: "nat \<Rightarrow> (machine \<Rightarrow> machine) \<Rightarrow> (machine \<Rightarrow> machine option) \<Rightarrow> machine \<Rightarrow> machine option" where
  "idle_task_main 0 irq others s = Some s"
| "idle_task_main (Suc n) irq others s = do {
     (_, s) \<leftarrow> wait_for_tick_edge irq s;
     (_, s) \<leftarrow> sys_yield others s;
     idle_task_main n irq others s }"

primrec halt_forever :: "nat \<Rightarrow> (machine \<Rightarrow> machine) \<Rightarrow> machine \<Rightarrow> machine option" where
  "halt_forever 0 irq s = Some s"
| "halt_forever (Suc n) irq s = do { (_, s) \<leftarrow> wait_for_tick_edge irq s; halt_forever n irq s }"

definition say_ticks :: "(machine \<Rightarrow> machine option) \<Rightarrow> machine \<Rightarrow> machine option" where
  "say_ticks others s = do {
     (t, s) \<leftarrow> sys_clock_ticks others (sys_write s '' ticks='');
     Some (sys_write (sys_write_u64 s t) newline) }"

text \<open>Start a program and report its task; wait for it, report its status and compare it.\<close>

definition report_pid :: "machine \<Rightarrow> string \<Rightarrow> int \<Rightarrow> string \<Rightarrow> machine option" where
  "report_pid s label pid failed = (let s = say_value s label pid in if pid < 0 then panic failed else Some s)"

definition spawn_reported ::
    "(machine \<Rightarrow> machine option) \<Rightarrow> machine \<Rightarrow> int \<Rightarrow> int \<Rightarrow> string \<Rightarrow> string \<Rightarrow> (int \<times> machine) option" where
  "spawn_reported others s path len label failed = do {
     (pid, s) \<leftarrow> sys_spawn_exec_ptr others s path len;
     s \<leftarrow> report_pid s label pid failed;
     Some (pid, s) }"

definition report_wait :: "(machine \<Rightarrow> machine option) \<Rightarrow> machine \<Rightarrow> string \<Rightarrow> int \<Rightarrow> int \<Rightarrow> machine option" where
  "report_wait others s label pid status =
     say_ticks others (sys_write_u64 (sys_write (sys_write_u64 (sys_write s label) pid) '' status='') status)"

definition wait_reported ::
    "(machine \<Rightarrow> machine option) \<Rightarrow> machine \<Rightarrow> int \<Rightarrow> string \<Rightarrow> int \<Rightarrow> string \<Rightarrow> machine option" where
  "wait_reported others s pid label expected failed = do {
     (status, s) \<leftarrow> sys_waitpid others s pid;
     s \<leftarrow> say_ticks others (sys_write_u64 (sys_write s label) status);
     if status \<noteq> expected then panic failed else Some s }"

definition check_reuse :: "machine \<Rightarrow> int \<Rightarrow> int \<Rightarrow> machine option" where
  "check_reuse s new old = (if new \<noteq> old then panic ''scheduler slot reuse failed'' else Some s)"

definition task1_children ::
    "(machine \<Rightarrow> machine option) \<Rightarrow> machine \<Rightarrow> int \<Rightarrow> int \<Rightarrow> int \<Rightarrow> int \<Rightarrow> int \<Rightarrow> int \<Rightarrow> machine option" where
  "task1_children others s demo_path rwtest_path argv_path chain_path spawn_argv spawn_envp = do {
     (first_child, s) \<leftarrow> spawn_reported others s demo_path 9 ''task1 spawned pid='' ''exec demo spawn failed'';
     (status, s) \<leftarrow> sys_waitpid others s first_child;
     s \<leftarrow> report_wait others s ''task1 waitpid='' first_child status;
     (second_child, s) \<leftarrow> spawn_reported others s rwtest_path 11 ''task1 rwtest pid='' ''exec rwtest spawn failed'';
     s \<leftarrow> check_reuse s second_child first_child;
     (status, s) \<leftarrow> sys_waitpid others s second_child;
     s \<leftarrow> report_wait others s ''task1 rwtest waitpid='' second_child status;
     if status \<noteq> 42 then panic ''rwtest status mismatch''
     else do {
     (third_child, s) \<leftarrow> sys_spawn_execve_ptr others s argv_path 9 spawn_argv spawn_envp;
     s \<leftarrow> report_pid s ''task1 argv pid='' third_child ''exec argv spawn failed'';
     s \<leftarrow> check_reuse s third_child second_child;
     (status, s) \<leftarrow> sys_waitpid others s third_child;
     s \<leftarrow> report_wait others s ''task1 argv waitpid='' third_child status;
     if status \<noteq> 33 then panic ''argv status mismatch''
     else do {
     (third_child, s) \<leftarrow> spawn_reported others s chain_path 10 ''task1 chain pid='' ''exec chain spawn failed'';
     s \<leftarrow> check_reuse s third_child second_child;
     (status, s) \<leftarrow> sys_waitpid others s third_child;
     s \<leftarrow> report_wait others s ''task1 chain waitpid='' third_child status;
     if status \<noteq> 33 then panic ''chain exec status mismatch'' else Some s } } }"

definition task1_preemption :: "(machine \<Rightarrow> machine option) \<Rightarrow> machine \<Rightarrow> int \<Rightarrow> int \<Rightarrow> machine option" where
  "task1_preemption others s preempt_path hello_path = do {
     (preempt_start, s) \<leftarrow> sys_clock_ticks others s;
     (fourth_child, s) \<leftarrow> spawn_reported others s preempt_path 12 ''task1 preempt slow pid='' ''exec preempt spawn failed'';
     (fifth_child, s) \<leftarrow> spawn_reported others s hello_path 10 ''task1 preempt fast pid='' ''exec hello spawn failed'';
     if fifth_child = fourth_child then panic ''scheduler failed to allocate second live child''
     else do {
     (status, s) \<leftarrow> sys_waitpid others s fifth_child;
     (preempt_mid, s) \<leftarrow> sys_clock_ticks others s;
     let s = sys_write_u64 (sys_write s ''task1 preempt fast status='') status;
     let s = sys_write (sys_write_u64 (sys_write s '' ticks='') preempt_mid) newline;
     if status \<noteq> 7 then panic ''preempt fast status mismatch''
     else if preempt_mid \<ge> i64 (preempt_start + 4) then panic ''timer preemption did not advance fast child early''
     else wait_reported others s fourth_child ''task1 preempt slow status='' 55 ''preempt slow status mismatch'' } }"

definition task1_heap_and_orphan :: "(machine \<Rightarrow> machine option) \<Rightarrow> machine \<Rightarrow> int \<Rightarrow> int \<Rightarrow> machine option" where
  "task1_heap_and_orphan others s heap_path orphan_path = do {
     (sixth_child, s) \<leftarrow> spawn_reported others s heap_path 9 ''task1 heap pid='' ''exec heap spawn failed'';
     s \<leftarrow> wait_reported others s sixth_child ''task1 heap status='' 88 ''heap status mismatch'';
     (sixth_child, s) \<leftarrow> spawn_reported others s orphan_path 11 ''task1 orphan pid='' ''exec orphan spawn failed'';
     s \<leftarrow> wait_reported others s sixth_child ''task1 orphan status='' 21 ''orphan parent status mismatch'';
     wait_reported others s (- 1) ''task1 adopted status='' 7 ''orphan adoption status mismatch'' }"

definition worker_task_one :: "nat \<Rightarrow> (machine \<Rightarrow> machine option) \<Rightarrow> machine \<Rightarrow> machine option" where
  "worker_task_one rounds others s = do {
     (demo_path, s) \<leftarrow> alloc_bytes s 16;
     (rwtest_path, s) \<leftarrow> alloc_bytes s 16;
     (chain_path, s) \<leftarrow> alloc_bytes s 16;
     (argv_path, s) \<leftarrow> alloc_bytes s 16;
     (hello_path, s) \<leftarrow> alloc_bytes s 16;
     (preempt_path, s) \<leftarrow> alloc_bytes s 16;
     (heap_path, s) \<leftarrow> alloc_bytes s 16;
     (orphan_path, s) \<leftarrow> alloc_bytes s 16;
     (spawn_arg, s) \<leftarrow> alloc_bytes s 16;
     (spawn_env, s) \<leftarrow> alloc_bytes s 16;
     (spawn_argv, s) \<leftarrow> alloc_bytes s 24;
     (spawn_envp, s) \<leftarrow> alloc_bytes s 16;
     let s = store_bytes s demo_path [47, 98, 105, 110, 47, 100, 101, 109, 111, 0];
     let s = store_bytes s rwtest_path [47, 98, 105, 110, 47, 114, 119, 116, 101, 115, 116, 0];
     let s = store_bytes s chain_path [47, 98, 105, 110, 47, 99, 104, 97, 105, 110, 0];
     let s = store_bytes s argv_path [47, 98, 105, 110, 47, 97, 114, 103, 118, 0];
     let s = store_bytes s hello_path [47, 98, 105, 110, 47, 104, 101, 108, 108, 111, 0];
     let s = store_bytes s preempt_path [47, 98, 105, 110, 47, 112, 114, 101, 101, 109, 112, 116, 0];
     let s = store_bytes s heap_path [47, 98, 105, 110, 47, 104, 101, 97, 112, 0];
     let s = store_bytes s orphan_path [47, 98, 105, 110, 47, 111, 114, 112, 104, 97, 110, 0];
     let s = store_bytes s spawn_arg [115, 112, 97, 119, 110, 45, 97, 114, 103, 118, 0];
     let s = store_bytes s spawn_env [77, 79, 68, 69, 61, 115, 112, 97, 119, 110, 0];
     s \<leftarrow> store_qword_region s spawn_argv 3 0 argv_path;
     s \<leftarrow> store_qword_region s spawn_argv 3 1 spawn_arg;
     s \<leftarrow> store_qword_region s spawn_argv 3 2 0;
     s \<leftarrow> store_qword_region s spawn_envp 2 0 spawn_env;
     s \<leftarrow> store_qword_region s spawn_envp 2 1 0;
     (pid, s) \<leftarrow> sys_getpid others (sys_write s ''task1 start pid='');
     (ppid, s) \<leftarrow> sys_getppid others (sys_write (sys_write_u64 s pid) '' ppid='');
     let s = sys_write (sys_write_u64 s ppid) newline;
     s \<leftarrow> task1_children others s demo_path rwtest_path argv_path chain_path spawn_argv spawn_envp;
     s \<leftarrow> task1_preemption others s preempt_path hello_path;
     s \<leftarrow> task1_heap_and_orphan others s heap_path orphan_path;
     s \<leftarrow> shell_self_test others s;
     (_, s) \<leftarrow> shell_run rounds others s;
     Some s }"

text \<open>The second worker ends in an exit: the result is the machine in which another task takes over.\<close>

definition worker_task_two :: "(machine \<Rightarrow> machine option) \<Rightarrow> machine \<Rightarrow> machine option" where
  "worker_task_two others s = do {
     (pid, s) \<leftarrow> sys_getpid others (sys_write s ''task2 start pid='');
     let s = sys_write (sys_write_u64 s pid) newline;
     s \<leftarrow> for_range 0 3 (\<lambda>turn s. do {
       s \<leftarrow> say_ticks others (sys_write_u64 (sys_write s ''task2 turn='') turn);
       (_, s) \<leftarrow> sys_yield others s;
       Some s }) s;
     let s = sys_write s (''task2 exit=42'' @ newline);
     (_, s) \<leftarrow> syscall_entry others s syscall_exit_number 42 0 0 0 0;
     Some s }"

definition task_bootstrap ::
    "nat \<Rightarrow> (machine \<Rightarrow> machine) \<Rightarrow> (machine \<Rightarrow> machine option) \<Rightarrow> machine \<Rightarrow> int \<Rightarrow> machine option" where
  "task_bootstrap rounds irq others s task_id =
     (if task_id = 0 then idle_task_main rounds irq others s
      else if task_id = 1 then worker_task_one rounds others s
      else if task_id = 2 then worker_task_two others s
      else halt_forever rounds irq (console_write (console_write_u64 (console_write s ''unknown task id='') task_id) newline))"

definition task_returned :: "nat \<Rightarrow> (machine \<Rightarrow> machine) \<Rightarrow> machine \<Rightarrow> int \<Rightarrow> machine option" where
  "task_returned rounds irq s code =
     halt_forever rounds irq (console_write (console_write_u64 (console_write s ''task returned code='') code) newline)"

section \<open>Start-up\<close>

text \<open>\<^verbatim>\<open>serial_init\<close> programs the UART with seven port writes.\<close>

definition serial_init :: "machine \<Rightarrow> machine" where
  "serial_init s = fold (\<lambda>(port, v) s. outb s port v)
     [(0x3F9, 0), (0x3FB, 0x80), (0x3F8, 1), (0x3F9, 0), (0x3FB, 3), (0x3FA, 0xC7), (0x3FC, 0x0B)] s"

definition boot_banner :: "machine \<Rightarrow> machine" where
  "boot_banner s =
     (let s = console_write s (''Hello from Codon over serial!'' @ newline);
          s = console_write_hex (console_write s ''idt base='') (symbol s ''idt_table'');
          s = console_write_hex (console_write s '' idtr='') (symbol s ''idtr'');
          s = console_write s newline;
          s = console_write_hex (console_write s ''boot marker: '') 0xC0D0;
          s = console_write_u64 (console_write s '' build='') 1
      in console_write s newline)"

text \<open>The memory part of the start-up sequence.\<close>

definition memory_boot :: "machine \<Rightarrow> int \<Rightarrow> (int \<times> int \<times> machine) option" where
  "memory_boot s boot_info_ptr = do {
     (pmm_state, s) \<leftarrow> init_pmm s boot_info_ptr;
     s \<leftarrow> dump_pmm_summary s pmm_state;
     s \<leftarrow> pmm_self_test s pmm_state;
     (vmm_state, s) \<leftarrow> init_vmm s pmm_state boot_info_ptr;
     s \<leftarrow> dump_vmm_summary s vmm_state;
     s \<leftarrow> vmm_self_test s vmm_state pmm_state boot_info_ptr;
     Some (pmm_state, vmm_state, s) }"

definition kernel_main ::
    "(machine \<Rightarrow> machine) \<Rightarrow> (machine \<Rightarrow> machine) \<Rightarrow> (machine \<Rightarrow> machine) \<Rightarrow> (int \<Rightarrow> machine \<Rightarrow> machine option)
     \<Rightarrow> (machine \<Rightarrow> machine option) \<Rightarrow> machine \<Rightarrow> int \<Rightarrow> machine option" where
  "kernel_main arch irq device trap others s boot_info_ptr = do {
     let exception_test = 0;
     let lapic_timer_count = 10000000;
     let lapic_tick_reload = 1000000;
     let s = boot_banner (init_idt (arch (init_console (serial_init s))));
     s \<leftarrow> dump_boot_info s boot_info_ptr;
     (vfs_state, s) \<leftarrow> init_vfs s boot_info_ptr;
     s \<leftarrow> dump_vfs_summary s vfs_state;
     s \<leftarrow> vfs_self_test s vfs_state;
     (pmm_state, vmm_state, s) \<leftarrow> memory_boot s boot_info_ptr;
     let s = print_msg s ''PCO/OS console online'' 0 0x0A 0;
     s \<leftarrow> run_exception_test trap s exception_test;
     s \<leftarrow> init_local_apic s;
     s \<leftarrow> dump_local_apic_summary s;
     s \<leftarrow> arm_timer_masked s lapic_timer_count;
     s \<leftarrow> dump_timer_summary s;
     s \<leftarrow> probe_timer_progress device s;
     s \<leftarrow> probe_timer_interrupts irq s lapic_tick_reload 3;
     s \<leftarrow> start_kernel_tick_source s lapic_tick_reload;
     s \<leftarrow> timekeeping_self_test irq s 5;
     (scheduler_state, s) \<leftarrow> init_scheduler s pmm_state vmm_state vfs_state;
     s \<leftarrow> dump_scheduler_summary s scheduler_state;
     s \<leftarrow> syscall_self_test others s;
     s \<leftarrow> dump_scheduler_summary s scheduler_state;
     s \<leftarrow> scheduler_self_test irq s scheduler_state 5;
     scheduler_enter_first_task s scheduler_state }"

end
