(* ===== verification/MemoryBoot.thy ===== *)
theory MemoryBoot
  imports VmmProps Kernel
begin

text \<open>
  The memory part of the start-up sequence: the page allocator, its report and self-test, then the kernel's
  address space, its report and self-test, one after the other on the same machine.
\<close>

section \<open>Reports\<close>

lemma layout_prints: "pmm_layout s p \<Longrightarrow> prints s t \<Longrightarrow> pmm_layout t p"
  using prints_load [of s t] by (simp add: pmm_layout_def)

lemma dump_pmm_prints:
  assumes "pmm_inv s p"
  shows "\<exists>t. dump_pmm_summary s p = Some t \<and> prints s t"
proof -
  have L: "pmm_layout s p" using assms by (simp add: pmm_inv_def)
  have st: "pmm_state_qword t p j = Some (load_qword s (p + j * 8))" if "prints s t" "0 \<le> j" "j < 7" for t j
    using pmm_state_access(1) [OF layout_prints [OF L that(1)] that(2,3)] prints_load [OF that(1)] by simp
  define s1 where "s1 = console_write_label_u64 s ''pmm.regions='' (load_qword s (p + 8))"
  define s2 where "s2 = console_write_label_u64 s1 ''pmm.total_pages='' (load_qword s (p + 40))"
  define s3 where "s3 = console_write_label_u64 s2 ''pmm.free_pages='' (load_qword s (p + 48))"
  have pr: "prints s s1" "prints s s2" "prints s s3" unfolding s1_def s2_def s3_def by (blast intro: prints_lines)+
  let ?body = "\<lambda>region_index s'. do {
       let s' = console_write_u64 (console_write s' ''pmm.region['') region_index;
       let s' = console_write s' ''] start='';
       start \<leftarrow> pmm_region_start s' (load_qword s p) region_index;
       let s' = console_write (console_write_hex s' start) '' end='';
       end' \<leftarrow> pmm_region_end s' (load_qword s p) region_index;
       Some (console_write (console_write_hex s' end') [CHR 0x0A]) }"
  have n: "0 \<le> load_qword s (p + 8)" using L by (simp add: pmm_layout_def)
  have "\<exists>t. for_range 0 (min (load_qword s (p + 8)) 8) ?body s3 = Some t \<and> prints s t"
  proof (rule for_range_total [where P = "\<lambda>i t. prints s t"])
    fix i t assume i: "0 \<le> i" "i < min (load_qword s (p + 8)) 8" "prints s t"
    have acc: "\<exists>x. pmm_region_start u (load_qword s p) i = Some x" "\<exists>x. pmm_region_end u (load_qword s p) i = Some x" if "prints s u" for u
      using pmm_region_access [OF layout_prints [OF L that], of i] i(1,2) prints_load [OF that] by auto
    define u where "u = console_write (console_write_u64 (console_write t ''pmm.region['') i) ''] start=''"
    have pu: "prints s u" unfolding u_def using i(3) by blast
    obtain x where x: "pmm_region_start u (load_qword s p) i = Some x" using acc(1) [OF pu] by blast
    define v where "v = console_write (console_write_hex u x) '' end=''"
    have pv: "prints s v" unfolding v_def using pu by blast
    obtain y where y: "pmm_region_end v (load_qword s p) i = Some y" using acc(2) [OF pv] by blast
    have "?body i t = Some (console_write (console_write_hex v y) [CHR 0x0A])"
      unfolding Let_def u_def [symmetric] x bind.bind_lunit v_def [symmetric] y by (rule refl)
    then show "\<exists>s'. ?body i t = Some s' \<and> prints s s'" using pv by blast
  qed (use n pr in auto)
  moreover have "dump_pmm_summary s p = for_range 0 (min (load_qword s (p + 8)) 8) ?body s3"
    unfolding dump_pmm_summary_def
    using st [of s 1] st [OF pr(1), of 5] st [OF pr(2), of 6] st [OF pr(3), of 0] st [OF pr(3), of 1]
    by (simp add: s1_def [symmetric] s2_def [symmetric] s3_def [symmetric] Let_def)
  ultimately show ?thesis by simp
qed

lemma dump_vmm_prints:
  assumes "qword_ptr vs"
  shows "\<exists>t. dump_vmm_summary s vs = Some t \<and> prints s t"
  using assms by (simp add: dump_vmm_summary_def vmm_block_access Let_def) (intro prints_lines prints_refl)

section \<open>The sequence\<close>

text \<open>
  What the boot loader leaves: a memory map of any length whose usable ranges are disjoint, fill at most the 64 places of
  the allocator's region table and hold at least eight pages, the boot block with its magic number outside the memory
  that is handed out, and the free part of the early heap inside the kernel image.
\<close>

definition boot_block_ok :: "machine \<Rightarrow> int \<Rightarrow> bool" where
  "boot_block_ok s bp \<longleftrightarrow> boot_ok s bp \<and> boot_regions s bp \<le> 64 \<and> 8 \<le> card (boot_pages s bp)
     \<and> align_down (load_qword s (bp + 104)) 4096 \<le> heap_ptr s
     \<and> heap_ptr s + 17536 \<le> align_up (load_qword s (bp + 112)) 4096 \<and> heap_ptr s + 17536 \<le> heap_end s
     \<and> load_qword s bp = 0x50434F424F4F5431
     \<and> {bp..<bp + 184} \<inter> ({heap_ptr s..<heap_ptr s + 17536} \<union> page_bytes (boot_pages s bp)) = {}"

lemma heap_outside_pages:
  assumes "boot_block_ok s bp"
  shows "{heap_ptr s..<heap_ptr s + 17536} \<inter> page_bytes (boot_pages s bp) = {}"
proof -
  have "{q..<q + 4096} \<inter> {heap_ptr s..<heap_ptr s + 17536} = {}" if "q \<in> boot_pages s bp" for q
    using boot_page_gap [OF that] assms by (auto simp: boot_block_ok_def)
  then show ?thesis unfolding page_bytes_def by blast
qed

lemma quiet_load:
  assumes "pmm_quiet p s t" "{a..<a + 8} \<inter> pmm_area s p = {}"
  shows "load_qword t a = load_qword s a"
  unfolding load_qword_def
proof (intro arg_cong [of _ _ i64] le_load_cong)
  fix x assume "a \<le> x" "x < a + int 8"
  then have "x \<notin> pmm_area s p" using assms(2) by auto
  then show "mem t x = mem s x" using assms(1) by (simp add: pmm_quiet_def)
qed

lemma mem_ok_quiet:
  assumes "mem_ok p U s {}" "pmm_inv t p" "pmm_pages t p = pmm_pages s p" "pmm_area t p = pmm_area s p"
  shows "mem_ok p U t {}"
  using assms by (simp add: mem_ok_def)

lemma pmm_boot_run:
  assumes "boot_block_ok s bp"
  shows "\<exists>p s1 s2 t. init_pmm s bp = Some (p, s1) \<and> dump_pmm_summary s1 p = Some s2 \<and> pmm_self_test s2 p = Some t
    \<and> vmm_boot_ok p (boot_pages s bp) t {} bp \<and> length (recycled (pmm_view t p)) \<le> 3 \<and> qword_ptr (heap_ptr t)"
proof -
  let ?U = "boot_pages s bp" and ?h = "heap_ptr s"
  note b = assms [unfolded boot_block_ok_def]
  have U: "?U \<noteq> {}" using b by auto
  have hp: "0 < ?h" "?h mod 16 = 0" "heap_end s < 2 ^ 62" "qword_ptr bp" using b by (auto simp: boot_ok_def Let_def)
  obtain p s1 where i: "init_pmm s bp = Some (p, s1)" "mem_ok p ?U s1 {}" "recycled (pmm_view s1 p) = []"
      "pmm_area s1 p \<subseteq> {?h..<?h + 17472}" "writes_in {?h..<?h + 17472} (s\<lparr>heap_ptr := ?h + 17472\<rparr>) s1"
    using boot_mem_ok [of s bp] b U by auto
  have f1: "heap_ptr s1 = ?h + 17472" "heap_end s1 = heap_end s" using writes_in_fields [OF i(5)] by simp_all
  have inv1: "pmm_inv s1 p" "pmm_pages s1 p = ?U" using i(2) by (auto simp: mem_ok_def)
  obtain s2 where s2: "dump_pmm_summary s1 p = Some s2" "prints s1 s2" using dump_pmm_prints [OF inv1(1)] by blast
  note q2 = pmm_quiet_prints [OF s2(2), of p]
  have inv2: "pmm_inv s2 p" "pmm_pages s2 p = ?U" "recycled (pmm_view s2 p) = []"
    using pmm_inv_frame [OF inv1(1) outside_pmm_prints [OF s2(2)]] inv1(2) i(3) by simp_all
  obtain s3 where s3: "pmm_self_test s2 p = Some s3" "pmm_inv s3 p" "pmm_pages s3 p = ?U" "pmm_quiet p s2 s3"
      "length (recycled (pmm_view s3 p)) \<le> 3"
    using pmm_self_test_passes [OF inv2(1)] inv2(2,3) b by auto
  have q3: "pmm_quiet p s1 s3" using q2 s3(4) by (rule pmm_quiet_trans)
  have m3: "mem_ok p ?U s3 {}" using mem_ok_quiet [OF i(2) s3(2)] s3(3) inv1(2) q3 by (simp add: pmm_quiet_def)
  have f3: "heap_ptr s3 = ?h + 17472" "heap_end s3 = heap_end s" "pmm_area s3 p = pmm_area s1 p" using q3 f1 by (simp_all add: pmm_quiet_def)
  have far: "{bp..<bp + 184} \<inter> ({?h..<?h + 17536} \<union> page_bytes ?U) = {}" using b by blast
  have "{bp..<bp + 8} \<subseteq> {bp..<bp + 184}" "{?h..<?h + 17472} \<subseteq> {?h..<?h + 17536}" by auto
  then have "{bp..<bp + 8} \<inter> {?h..<?h + 17472} = {}" "{bp..<bp + 8} \<inter> pmm_area s1 p = {}" using far i(4) by blast+
  then have ld: "load_qword s3 bp = load_qword s bp"
    using quiet_load [OF q3, of bp] writes_in_load [OF i(5), of bp] by simp
  have new: "{?h + 17472..<?h + 17472 + 64} \<subseteq> {?h..<?h + 17536}" "{?h + 17472..<?h + 17472 + 64} \<inter> {?h..<?h + 17472} = {}"
      "{?h..<?h + 17472} \<subseteq> {?h..<?h + 17536}" by auto
  have "{?h + 17472..<?h + 17472 + 64} \<inter> (pmm_area s3 p \<union> page_bytes ?U) = {}"
    using i(4) heap_outside_pages [OF assms] new unfolding f3(3) by blast
  moreover have "{bp..<bp + 184} \<inter> (pmm_area s3 p \<union> page_bytes ?U \<union> {?h + 17472..<?h + 17472 + 64}) = {}"
    using far i(4) new unfolding f3(3) by blast
  ultimately have "vmm_boot_ok p ?U s3 {} bp"
    using m3 b hp ld f3(1,2) by (simp add: vmm_boot_ok_def mod_add_eq [symmetric, of ?h 17472 16])
  moreover have "qword_ptr (heap_ptr s3)" using f3(1) hp by (simp add: qword_ptr_def) presburger
  ultimately show ?thesis using i(1) s2(1) s3(1,5) by blast
qed

lemma memory_boot_run:
  assumes "boot_block_ok s bp"
  shows "\<exists>p vs t K. memory_boot s bp = Some (p, vs, t) \<and> mem_ok p (boot_pages s bp) t K \<and> card K \<le> 7
    \<and> (\<forall>virt. 0 \<le> virt \<and> virt < 0x100000000 \<longrightarrow> vmm_translate t vs virt = Some virt)"
proof -
  let ?U = "boot_pages s bp"
  obtain p s1 s2 s3 where s3: "init_pmm s bp = Some (p, s1)" "dump_pmm_summary s1 p = Some s2" "pmm_self_test s2 p = Some s3"
      "vmm_boot_ok p ?U s3 {} bp" "length (recycled (pmm_view s3 p)) \<le> 3" "qword_ptr (heap_ptr s3)"
    using pmm_boot_run [OF assms] by blast
  have "8 \<le> card (?U - {})" "length (recycled (pmm_view s3 p)) < 2048" using assms s3(5) by (simp_all add: boot_block_ok_def)
  then obtain r s4 T where s4: "init_vmm s3 p bp = Some (heap_ptr s3, s4)" "card T = 6"
      "\<And>u. prints s4 u \<Longrightarrow> \<exists>t s''. vmm_self_test u (heap_ptr s3) p bp = Some s'' \<and> kspace p ?U s'' (insert t ({} \<union> T)) (heap_ptr s3) r 4
        \<and> (\<forall>virt. 0 \<le> virt \<and> virt < 0x100000000 \<longrightarrow> vmm_translate u (heap_ptr s3) virt = Some virt \<and> vmm_translate s'' (heap_ptr s3) virt = Some virt)"
    using vmm_boot_run [OF s3(4)] by blast
  obtain s5 where s5: "dump_vmm_summary s4 (heap_ptr s3) = Some s5" "prints s4 s5" using dump_vmm_prints [OF s3(6)] by blast
  obtain q t where t: "vmm_self_test s5 (heap_ptr s3) p bp = Some t" "kspace p ?U t (insert q T) (heap_ptr s3) r 4"
      "\<forall>virt. 0 \<le> virt \<and> virt < 0x100000000 \<longrightarrow> vmm_translate t (heap_ptr s3) virt = Some virt"
    using s4(3) [OF s5(2)] unfolding Un_empty_left by blast
  have "memory_boot s bp = Some (p, heap_ptr s3, t)"
    using s3(1-3) s4(1) s5(1) t(1) by (simp add: memory_boot_def)
  moreover have "mem_ok p ?U t (insert q T)" using t(2) by (simp add: kspace_def space_in_def)
  moreover have "card (insert q T) \<le> 7" using card_insert_le_m1 [of 7 T q] s4(2) by simp
  ultimately show ?thesis using t(3) by blast
qed

lemma sample_block_ok: "boot_block_ok sample_boot 0x9000"
proof -
  have "page_bytes sample_ram \<subseteq> {0x200000..<0x211000}" by (auto simp: page_bytes_def sample_ram_mem)
  moreover have "{0x9000..<0x90B8} \<inter> ({0x110000..<0x114480} \<union> {0x200000..<0x211000}) = ({} :: int set)" by auto
  ultimately have "{0x9000..<0x90B8} \<inter> ({0x110000..<0x114480} \<union> page_bytes sample_ram) = {}" by blast
  then show ?thesis using sample_boot_ok sample_regions
    by (simp add: boot_block_ok_def sample_pages sample_ram_card sample_loads mask_simps)
qed

end
