(* ===== verification/SchedView.thy ===== *)
theory SchedView
  imports Sched
begin

text \<open>
  The scheduler's memory as three families of quadwords: the slots of the state block, the fields of
  the task table and the cells of the ready ring; what a store to one of them changes; and what every
  accessor returns in terms of them.
\<close>

definition sq :: "machine \<Rightarrow> int \<Rightarrow> int \<Rightarrow> int" where
  "sq s p k = load_qword s (p + k * 8)"

definition tf :: "machine \<Rightarrow> int \<Rightarrow> int \<Rightarrow> int \<Rightarrow> int" where
  "tf s p t k = load_qword s (sq s p 8 + t * 200 + k * 8)"

definition rq :: "machine \<Rightarrow> int \<Rightarrow> int \<Rightarrow> int" where
  "rq s p i = load_qword s (sq s p 9 + i mod 16 * 8)"

text \<open>The three blocks, in the order \<open>init_scheduler\<close> allocates them.\<close>

definition sched_layout :: "machine \<Rightarrow> int \<Rightarrow> bool" where
  "sched_layout s p \<longleftrightarrow> 0 < p \<and> p mod 8 = 0 \<and> sq s p 8 mod 8 = 0 \<and> sq s p 9 mod 8 = 0
     \<and> p + 120 \<le> sq s p 8 \<and> sq s p 8 + 1600 \<le> sq s p 9"

definition sched_area :: "machine \<Rightarrow> int \<Rightarrow> int set" where
  "sched_area s p = {p..<p + 120} \<union> {sq s p 8..<sq s p 8 + 1600} \<union> {sq s p 9..<sq s p 9 + 128}"

lemma sched_ptrs:
  assumes "sched_layout s p"
  shows "qword_ptr p" "qword_ptr (sq s p 9)" "\<And>t. 0 \<le> t \<Longrightarrow> qword_ptr (sq s p 8 + t * 200)"
proof -
  have r: "0 < p" "0 < sq s p 8" "0 < sq s p 9" "p mod 8 = 0" "sq s p 8 mod 8 = 0" "sq s p 9 mod 8 = 0"
    using assms by (auto simp: sched_layout_def)
  then show "qword_ptr p" "qword_ptr (sq s p 9)" by (auto simp: qword_ptr_def)
  fix t :: int assume "0 \<le> t"
  moreover have "(sq s p 8 + t * 200) mod 8 = 0" using r(5) by presburger
  ultimately show "qword_ptr (sq s p 8 + t * 200)" using r(2) by (simp add: qword_ptr_def)
qed

section \<open>Accessors\<close>

lemma sched_read [simp]:
  assumes "sched_layout s p"
  shows "0 \<le> k \<Longrightarrow> k < 15 \<Longrightarrow> scheduler_state_qword s p k = Some (sq s p k)"
    and "0 \<le> t \<Longrightarrow> t < 8 \<Longrightarrow> 0 \<le> k \<Longrightarrow> k < 25 \<Longrightarrow> scheduler_task_qword s (sq s p 8) t k = Some (tf s p t k)"
    and "ready_queue_qword s (sq s p 9) (i mod 16) = Some (rq s p i)"
  using sched_ptrs [OF assms]
  by (simp_all add: scheduler_state_qword_def scheduler_task_qword_def scheduler_task_entry_ptr_def
      ready_queue_qword_def region_simps sched_const sq_def tf_def rq_def mult.assoc)

lemma sched_write [simp]:
  assumes "sched_layout s p"
  shows "0 \<le> k \<Longrightarrow> k < 15 \<Longrightarrow> set_scheduler_state_qword s p k v = Some (put_qword s (p + k * 8) v)"
    and "0 \<le> t \<Longrightarrow> t < 8 \<Longrightarrow> 0 \<le> k \<Longrightarrow> k < 25 \<Longrightarrow>
      set_scheduler_task_qword s (sq s p 8) t k v = Some (put_qword s (sq s p 8 + t * 200 + k * 8) v)"
    and "set_ready_queue_qword s (sq s p 9) (i mod 16) v = Some (put_qword s (sq s p 9 + i mod 16 * 8) v)"
  using sched_ptrs [OF assms]
  by (simp_all add: set_scheduler_state_qword_def set_scheduler_task_qword_def scheduler_task_entry_ptr_def
      set_ready_queue_qword_def region_simps sched_const mult.assoc)

lemma task_id_range:
  "t < 0 \<or> 8 \<le> t \<Longrightarrow> scheduler_task_qword s table t k = None"
  "t < 0 \<or> 8 \<le> t \<Longrightarrow> set_scheduler_task_qword s table t k v = None"
  by (auto simp: scheduler_task_qword_def set_scheduler_task_qword_def scheduler_task_entry_ptr_def sched_const)

section \<open>Stores\<close>

lemma ring_bounds: "q \<le> q + i mod 16 * 8" "q + i mod 16 * 8 + 8 \<le> q + 128" for q :: int
  by simp_all

text \<open>A store to a state slot other than the two pointers.\<close>

lemma slot_gap: "j \<noteq> k \<Longrightarrow> p + k * 8 + 8 \<le> p + j * 8 \<or> p + j * 8 + 8 \<le> p + k * (8 :: int)"
  by auto

lemma put_state:
  fixes v :: int
  assumes "sched_layout s p" "0 \<le> k" "k < 15" "k \<noteq> 8" "k \<noteq> 9"
  defines "s' \<equiv> put_qword s (p + k * 8) v"
  shows "sq s' p j = (if j = k then i64 v else sq s p j)"
    and "0 \<le> t \<Longrightarrow> 0 \<le> m \<Longrightarrow> tf s' p t m = tf s p t m"
    and "rq s' p i = rq s p i"
    and "sched_layout s' p" "sched_area s' p = sched_area s p" "writes_in (sched_area s p) s s'"
proof -
  show sq: "sq s' p j = (if j = k then i64 v else sq s p j)" for j
    using slot_gap [of j k p] by (simp add: sq_def s'_def load_put_qword load_put_qword_other)
  have lay: "p + 120 \<le> sq s p 8" "p + 120 \<le> sq s p 9" using assms(1) by (auto simp: sched_layout_def)
  show "tf s' p t m = tf s p t m" if "0 \<le> t" "0 \<le> m"
    unfolding tf_def sq using assms(2-5) lay that by (simp add: s'_def load_put_qword_other)
  have "p + k * 8 + 8 \<le> sq s p 9 + i mod 16 * 8" using ring_bounds(1) [of "sq s p 9" i] assms(3) lay by linarith
  then show "rq s' p i = rq s p i"
    unfolding rq_def sq using assms(4,5) by (simp add: s'_def load_put_qword_other)
  show "sched_layout s' p" "sched_area s' p = sched_area s p"
    using assms(1-5) by (simp_all add: sched_layout_def sched_area_def sq)
  show "writes_in (sched_area s p) s s'"
    unfolding s'_def using assms(2,3) by (intro writes_in_put) (auto simp: sched_area_def)
qed

lemma field_gap:
  assumes "0 \<le> k" "k < 25" "0 \<le> m" "m < 25" "t \<noteq> u \<or> k \<noteq> m"
  shows "T + t * 200 + k * 8 + 8 \<le> T + u * 200 + m * 8 \<or> T + u * 200 + m * 8 + 8 \<le> T + t * 200 + k * (8 :: int)"
proof (cases "t = u")
  case True
  then show ?thesis using assms by auto
next
  case False
  then have "t + 1 \<le> u \<or> u + 1 \<le> t" by auto
  then show ?thesis using assms by auto
qed

lemma put_task:
  fixes v :: int
  assumes "sched_layout s p" "0 \<le> t" "t < 8" "0 \<le> k" "k < 25"
  defines "s' \<equiv> put_qword s (sq s p 8 + t * 200 + k * 8) v"
  shows "sq s' p j = (if 0 \<le> j \<and> j < 15 then sq s p j else sq s' p j)"
    and "0 \<le> m \<Longrightarrow> m < 25 \<Longrightarrow> tf s' p u m = (if u = t \<and> m = k then i64 v else tf s p u m)"
    and "rq s' p i = rq s p i"
    and "sched_layout s' p" "sched_area s' p = sched_area s p" "writes_in (sched_area s p) s s'"
proof -
  have lay: "p + 120 \<le> sq s p 8" "sq s p 8 + 1600 \<le> sq s p 9" using assms(1) by (auto simp: sched_layout_def)
  have sq: "sq s' p j = sq s p j" if "0 \<le> j" "j < 15" for j
    using lay that assms(2-5) by (simp add: sq_def s'_def load_put_qword_other)
  then show "sq s' p j = (if 0 \<le> j \<and> j < 15 then sq s p j else sq s' p j)" for j by simp
  have T: "sq s' p 8 = sq s p 8" "sq s' p 9 = sq s p 9" by (simp_all add: sq)
  show "tf s' p u m = (if u = t \<and> m = k then i64 v else tf s p u m)" if "0 \<le> m" "m < 25"
  proof (cases "u = t \<and> m = k")
    case True
    then show ?thesis unfolding tf_def T by (simp add: s'_def load_put_qword)
  next
    case False
    then have "t \<noteq> u \<or> k \<noteq> m" by auto
    from field_gap [OF assms(4,5) that this, of "sq s p 8"] False show ?thesis
      unfolding tf_def T unfolding s'_def by (auto simp: load_put_qword_other)
  qed
  have "sq s p 8 + t * 200 + k * 8 + 8 \<le> sq s p 9 + i mod 16 * 8"
    using ring_bounds(1) [of "sq s p 9" i] assms(2-5) lay by linarith
  then show "rq s' p i = rq s p i"
    unfolding rq_def T by (simp add: s'_def load_put_qword_other)
  show "sched_layout s' p" "sched_area s' p = sched_area s p"
    using assms(1) by (simp_all add: sched_layout_def sched_area_def T)
  show "writes_in (sched_area s p) s s'"
    unfolding s'_def using assms(2-5) by (intro writes_in_put) (auto simp: sched_area_def)
qed

lemma put_ring:
  fixes i v :: int
  assumes "sched_layout s p"
  defines "s' \<equiv> put_qword s (sq s p 9 + i mod 16 * 8) v"
  shows "0 \<le> j \<Longrightarrow> j < 15 \<Longrightarrow> sq s' p j = sq s p j"
    and "0 \<le> t \<Longrightarrow> t < 8 \<Longrightarrow> 0 \<le> m \<Longrightarrow> m < 25 \<Longrightarrow> tf s' p t m = tf s p t m"
    and "rq s' p j = (if j mod 16 = i mod 16 then i64 v else rq s p j)"
    and "sched_layout s' p" "sched_area s' p = sched_area s p" "writes_in (sched_area s p) s s'"
proof -
  have lay: "p + 120 \<le> sq s p 8" "sq s p 8 + 1600 \<le> sq s p 9" using assms(1) by (auto simp: sched_layout_def)
  note r = ring_bounds [of "sq s p 9" i]
  have sq: "sq s' p j = sq s p j" if "0 \<le> j" "j < 15" for j
  proof -
    have "p + j * 8 + 8 \<le> sq s p 9 + i mod 16 * 8" using lay that r(1) by linarith
    then show ?thesis by (simp add: sq_def s'_def load_put_qword_other)
  qed
  then show "0 \<le> j \<Longrightarrow> j < 15 \<Longrightarrow> sq s' p j = sq s p j" by blast
  have T: "sq s' p 8 = sq s p 8" "sq s' p 9 = sq s p 9" by (simp_all add: sq)
  show "tf s' p t m = tf s p t m" if "0 \<le> t" "t < 8" "0 \<le> m" "m < 25"
  proof -
    have "sq s p 8 + t * 200 + m * 8 + 8 \<le> sq s p 9 + i mod 16 * 8" using lay that r(1) by linarith
    then show ?thesis unfolding tf_def T by (simp add: s'_def load_put_qword_other)
  qed
  show "rq s' p j = (if j mod 16 = i mod 16 then i64 v else rq s p j)"
    unfolding rq_def T using slot_gap [of "j mod 16" "i mod 16" "sq s p 9"]
    by (auto simp: s'_def load_put_qword load_put_qword_other)
  show "sched_layout s' p" "sched_area s' p = sched_area s p"
    using assms(1) by (simp_all add: sched_layout_def sched_area_def T)
  show "writes_in (sched_area s p) s s'"
    unfolding s'_def using r(2) by (intro writes_in_put) (auto simp: sched_area_def)
qed

text \<open>A change of anything outside the three blocks.\<close>

lemma sched_frame:
  assumes "sched_layout s p" "\<forall>a \<in> sched_area s p. mem s' a = mem s a"
  shows "0 \<le> k \<Longrightarrow> k < 15 \<Longrightarrow> sq s' p k = sq s p k"
    and "0 \<le> t \<Longrightarrow> t < 8 \<Longrightarrow> 0 \<le> k \<Longrightarrow> k < 25 \<Longrightarrow> tf s' p t k = tf s p t k"
    and "rq s' p i = rq s p i"
    and "sched_layout s' p" "sched_area s' p = sched_area s p"
proof -
  have load: "load_qword s' a = load_qword s a" if "{a..<a + 8} \<subseteq> sched_area s p" for a
    unfolding load_qword_def
  proof (intro arg_cong [of _ _ i64] le_load_cong)
    fix b assume "a \<le> b" "b < a + int 8"
    then have "b \<in> sched_area s p" using that by auto
    then show "mem s' b = mem s b" using assms(2) by blast
  qed
  have sq: "sq s' p k = sq s p k" if "0 \<le> k" "k < 15" for k
    unfolding sq_def by (rule load) (use that in \<open>auto simp: sched_area_def\<close>)
  then show "0 \<le> k \<Longrightarrow> k < 15 \<Longrightarrow> sq s' p k = sq s p k" by blast
  have T: "sq s' p 8 = sq s p 8" "sq s' p 9 = sq s p 9" by (simp_all add: sq)
  show "tf s' p t k = tf s p t k" if "0 \<le> t" "t < 8" "0 \<le> k" "k < 25"
    unfolding tf_def T by (rule load) (use that in \<open>auto simp: sched_area_def\<close>)
  have "0 \<le> i mod 16" "i mod 16 < 16" by simp_all
  then show "rq s' p i = rq s p i"
    unfolding rq_def T by (intro load) (auto simp: sched_area_def)
  show "sched_layout s' p" "sched_area s' p = sched_area s p"
    using assms(1) by (simp_all add: sched_layout_def sched_area_def T)
qed

end
