(* ===== verification/SchedQueue.thy ===== *)
theory SchedQueue
  imports SchedView
begin

text \<open>
  The ready queue and the choice of the next task.  The ring of sixteen cells with its ever growing
  head and tail counters is a bounded first-in first-out queue; the choice of the next task is then a
  function on lists.
\<close>

section \<open>Bounded queues\<close>

text \<open>
  The interface: contents as a list, a capacity, a budget of enqueue operations (the counters are
  machine integers), and a frame every operation keeps.
\<close>

locale bounded_queue =
  fixes inv :: "'s \<Rightarrow> bool" and contents :: "'s \<Rightarrow> 'a list" and cap :: nat and valid :: "'a \<Rightarrow> bool"
    and budget :: "'s \<Rightarrow> nat" and frame :: "'s \<Rightarrow> 's \<Rightarrow> bool"
    and enq :: "'s \<Rightarrow> 'a \<Rightarrow> 's option" and deq :: "'s \<Rightarrow> ('a \<times> 's) option"
  assumes enq_law: "inv s \<Longrightarrow> valid x \<Longrightarrow> length (contents s) < cap \<Longrightarrow> 0 < budget s \<Longrightarrow>
      \<exists>s'. enq s x = Some s' \<and> inv s' \<and> contents s' = contents s @ [x] \<and> budget s' = budget s - 1 \<and> frame s s'"
    and full_law: "inv s \<Longrightarrow> cap \<le> length (contents s) \<Longrightarrow> enq s x = None"
    and deq_law: "inv s \<Longrightarrow> contents s = x # xs \<Longrightarrow>
      \<exists>s'. deq s = Some (x, s') \<and> inv s' \<and> contents s' = xs \<and> budget s' = budget s \<and> frame s s'"
    and frame_refl: "frame s s"
    and frame_trans: "frame s t \<Longrightarrow> frame t u \<Longrightarrow> frame s u"
begin

primrec enq_all :: "'a list \<Rightarrow> 's \<Rightarrow> 's option" where
  "enq_all [] s = Some s"
| "enq_all (x # xs) s = do { s \<leftarrow> enq s x; enq_all xs s }"

primrec deq_all :: "nat \<Rightarrow> 's \<Rightarrow> ('a list \<times> 's) option" where
  "deq_all 0 s = Some ([], s)"
| "deq_all (Suc n) s = do { (x, s) \<leftarrow> deq s; (xs, s) \<leftarrow> deq_all n s; Some (x # xs, s) }"

lemma enq_all_law:
  assumes "inv s" "list_all valid xs" "length (contents s) + length xs \<le> cap" "length xs \<le> budget s"
  shows "\<exists>s'. enq_all xs s = Some s' \<and> inv s' \<and> contents s' = contents s @ xs
    \<and> budget s' = budget s - length xs \<and> frame s s'"
  using assms
proof (induction xs arbitrary: s)
  case Nil
  then show ?case by (simp add: frame_refl)
next
  case (Cons x xs)
  then obtain t where t: "enq s x = Some t" "inv t" "contents t = contents s @ [x]" "budget t = budget s - 1" "frame s t"
    using enq_law [of s x] by auto
  have "length (contents t) + length xs \<le> cap" "length xs \<le> budget t" "list_all valid xs"
    using Cons.prems t(3,4) by simp_all
  then obtain u where "enq_all xs t = Some u \<and> inv u \<and> contents u = contents t @ xs \<and> budget u = budget t - length xs \<and> frame t u"
    using Cons.IH [OF t(2)] by blast
  then show ?case using t frame_trans [of s t u] by auto
qed

lemma deq_all_law:
  assumes "inv s" "contents s = xs @ ys"
  shows "\<exists>s'. deq_all (length xs) s = Some (xs, s') \<and> inv s' \<and> contents s' = ys
    \<and> budget s' = budget s \<and> frame s s'"
  using assms
proof (induction xs arbitrary: s)
  case Nil
  then show ?case by (simp add: frame_refl)
next
  case (Cons x xs)
  then obtain t where t: "deq s = Some (x, t)" "inv t" "contents t = xs @ ys" "budget t = budget s" "frame s t"
    using deq_law [of s x "xs @ ys"] by auto
  obtain u where "deq_all (length xs) t = Some (xs, u) \<and> inv u \<and> contents u = ys \<and> budget u = budget t \<and> frame t u"
    using Cons.IH [OF t(2,3)] by auto
  then show ?case using t frame_trans [of s t u] by auto
qed

text \<open>First in, first out, behind whatever was queued before.\<close>

lemma fifo:
  assumes "inv s" "list_all valid xs" "length (contents s) + length xs \<le> cap" "length xs \<le> budget s"
  shows "\<exists>t u. enq_all xs s = Some t
    \<and> deq_all (length (contents s) + length xs) t = Some (contents s @ xs, u) \<and> contents u = [] \<and> frame s u"
proof -
  obtain t where t: "enq_all xs s = Some t" "inv t" "contents t = contents s @ xs" "frame s t"
    using enq_all_law [OF assms] by auto
  then obtain u where "deq_all (length (contents s @ xs)) t = Some (contents s @ xs, u) \<and> contents u = [] \<and> frame t u"
    using deq_all_law [OF t(2), of "contents s @ xs" "[]"] by auto
  then show ?thesis using t frame_trans by auto
qed

end

section \<open>The ring is a bounded queue\<close>

definition ready :: "machine \<Rightarrow> int \<Rightarrow> int list" where
  "ready s p = map (rq s p) [sq s p 10..sq s p 11 - 1]"

definition ring_ok :: "machine \<Rightarrow> int \<Rightarrow> bool" where
  "ring_ok s p \<longleftrightarrow> sched_layout s p \<and> 0 \<le> sq s p 10 \<and> sq s p 10 \<le> sq s p 11
     \<and> sq s p 11 \<le> sq s p 10 + 16 \<and> sq s p 11 \<le> 2 ^ 62"

definition task_id :: "int \<Rightarrow> bool" where
  "task_id t \<longleftrightarrow> 0 \<le> t \<and> t < 8"

text \<open>Everything of the scheduler but the queue, and all other memory, is as before.\<close>

definition same_tasks :: "int \<Rightarrow> machine \<Rightarrow> machine \<Rightarrow> bool" where
  "same_tasks p s s' \<longleftrightarrow> (\<forall>k. 0 \<le> k \<and> k < 15 \<and> k \<noteq> 10 \<and> k \<noteq> 11 \<longrightarrow> sq s' p k = sq s p k)
     \<and> (\<forall>t k. task_id t \<and> 0 \<le> k \<and> k < 25 \<longrightarrow> tf s' p t k = tf s p t k)
     \<and> sched_area s' p = sched_area s p \<and> writes_in (sched_area s p) s s'"

lemma same_tasks_refl [simp, intro]: "same_tasks p s s"
  by (simp add: same_tasks_def)

lemma same_tasks_trans [trans]: "same_tasks p s t \<Longrightarrow> same_tasks p t u \<Longrightarrow> same_tasks p s u"
proof -
  assume a: "same_tasks p s t" "same_tasks p t u"
  then have "writes_in (sched_area s p) s u"
    using writes_in_trans [of "sched_area s p" s t u] by (simp add: same_tasks_def)
  then show ?thesis using a by (simp add: same_tasks_def)
qed

lemma ready_length: "ring_ok s p \<Longrightarrow> int (length (ready s p)) = sq s p 11 - sq s p 10"
  by (simp add: ready_def ring_ok_def)

lemma ready_size:
  assumes "ring_ok s p"
  shows "scheduler_ready_size s p = Some (int (length (ready s p)))"
proof -
  have "in64 (sq s p 11 - sq s p 10)" using assms by (intro in64I) (auto simp: ring_ok_def)
  moreover have "sched_layout s p" using assms by (simp add: ring_ok_def)
  ultimately show ?thesis
    by (simp add: scheduler_ready_size_def sched_const ready_length [OF assms] i64_id)
qed

lemma ring_enqueue:
  assumes "ring_ok s p" "task_id x" "length (ready s p) < 16" "sq s p 11 < 2 ^ 62"
  shows "\<exists>s'. scheduler_enqueue_task s p x = Some s' \<and> ring_ok s' p \<and> ready s' p = ready s p @ [x]
    \<and> sq s' p 11 = sq s p 11 + 1 \<and> same_tasks p s s'"
proof -
  let ?h = "sq s p 10" and ?t = "sq s p 11"
  have lay: "sched_layout s p" using assms(1) by (simp add: ring_ok_def)
  define s1 where "s1 = put_qword s (sq s p 9 + ?t mod 16 * 8) x"
  note r1 = put_ring [OF lay, where i = ?t and v = x, folded s1_def]
  define s2 where "s2 = put_qword s1 (p + 88) (?t + 1)"
  note r2 = put_state [OF r1(4), where k = 11 and v = "?t + 1", simplified, folded s2_def]
  have x: "i64 x = x" using assms(2) by (intro i64_id in64I) (auto simp: task_id_def)
  have t: "i64 (?t + 1) = ?t + 1" using assms(1,4) by (intro i64_id in64I) (auto simp: ring_ok_def)
  have sz: "?t - ?h < 16" using ready_length [OF assms(1)] assms(3) by simp
  have run: "scheduler_enqueue_task s p x = Some s2"
    using lay r1(4) assms(2,3) ready_size [OF assms(1)]
    by (simp add: scheduler_enqueue_task_def sched_const task_id_def scheduler_ready_queue_ptr_def s1_def [symmetric] s2_def)
  have sq: "sq s2 p 10 = ?h" "sq s2 p 11 = ?t + 1" using r1(1) r2(1) t by simp_all
  have cell: "rq s2 p i = rq s p i" if "?h \<le> i" "i < ?t" for i
  proof -
    have "i mod 16 \<noteq> ?t mod 16"
    proof
      assume "i mod 16 = ?t mod 16"
      then have "16 dvd ?t - i" by (metis mod_eq_dvd_iff)
      then have "?t - i \<ge> 16" using that by (intro zdvd_imp_le) auto
      then show False using that sz by simp
    qed
    then show ?thesis using r1(3) r2(3) by simp
  qed
  have last: "rq s2 p ?t = x" using r1(3) r2(3) x by simp
  have "[?h..?t + 1 - 1] = [?h..?t - 1] @ [?t]"
    using assms(1) upto_rec2 [of ?h ?t] by (simp add: ring_ok_def)
  then have "ready s2 p = ready s p @ [x]" unfolding ready_def sq using cell last by simp
  moreover have "ring_ok s2 p" unfolding ring_ok_def sq using assms(1,4) sz r2(4) by (simp add: ring_ok_def)
  moreover have "same_tasks p s s2"
    unfolding same_tasks_def task_id_def
    using r1 r2 writes_in_trans [OF r1(6), of s2] by auto
  ultimately show ?thesis using run sq by blast
qed

lemma ring_full: "ring_ok s p \<Longrightarrow> 16 \<le> length (ready s p) \<Longrightarrow> scheduler_enqueue_task s p x = None"
  using ready_size [of s p] by (simp add: scheduler_enqueue_task_def sched_const)

lemma ring_dequeue:
  assumes "ring_ok s p" "ready s p = x # xs"
  shows "\<exists>s'. scheduler_dequeue_task s p = Some (x, s') \<and> ring_ok s' p \<and> ready s' p = xs
    \<and> sq s' p 11 = sq s p 11 \<and> same_tasks p s s'"
proof -
  let ?h = "sq s p 10" and ?t = "sq s p 11"
  have lay: "sched_layout s p" using assms(1) by (simp add: ring_ok_def)
  have ne: "?h < ?t" using ready_length [OF assms(1)] assms(2) by simp
  then have split: "[?h..?t - 1] = ?h # [?h + 1..?t - 1]" by (simp add: upto_rec1)
  then have x: "x = rq s p ?h" "xs = map (rq s p) [?h + 1..?t - 1]" using assms(2) by (auto simp: ready_def)
  define s1 where "s1 = put_qword s (p + 80) (?h + 1)"
  note r = put_state [OF lay, where k = 10 and v = "?h + 1", simplified, folded s1_def]
  have h: "i64 (?h + 1) = ?h + 1" using assms(1) ne by (intro i64_id in64I) (auto simp: ring_ok_def)
  have run: "scheduler_dequeue_task s p = Some (x, s1)"
    using lay assms(2) ready_size [OF assms(1)]
    by (simp add: scheduler_dequeue_task_def sched_const scheduler_ready_queue_ptr_def x(1) s1_def)
  have sq: "sq s1 p 10 = ?h + 1" "sq s1 p 11 = ?t" using r(1) h by simp_all
  have "ready s1 p = xs" unfolding ready_def sq x(2) using r(3) by simp
  moreover have "ring_ok s1 p" unfolding ring_ok_def sq using assms(1) ne r(4) by (simp add: ring_ok_def)
  moreover have "same_tasks p s s1" unfolding same_tasks_def task_id_def using r by auto
  ultimately show ?thesis using run sq by blast
qed

lemma ring_empty:
  assumes "ring_ok s p" "ready s p = []"
  shows "scheduler_dequeue_task s p = Some (sq s p 2, s)"
  using assms ready_size [OF assms(1)]
  by (simp add: scheduler_dequeue_task_def scheduler_idle_task_def sched_const ring_ok_def)

interpretation ring: bounded_queue "\<lambda>s. ring_ok s p" "\<lambda>s. ready s p" 16 task_id
  "\<lambda>s. nat (2 ^ 62 - sq s p 11)" "same_tasks p" "\<lambda>s t. scheduler_enqueue_task s p t" "\<lambda>s. scheduler_dequeue_task s p"
proof unfold_locales
  fix s x xs t u
  show "\<exists>s'. scheduler_enqueue_task s p x = Some s' \<and> ring_ok s' p \<and> ready s' p = ready s p @ [x]
      \<and> nat (2 ^ 62 - sq s' p 11) = nat (2 ^ 62 - sq s p 11) - 1 \<and> same_tasks p s s'"
    if "ring_ok s p" "task_id x" "length (ready s p) < 16" "0 < nat (2 ^ 62 - sq s p 11)"
    using ring_enqueue [OF that(1-3)] that(4) by fastforce
  show "scheduler_enqueue_task s p x = None" if "ring_ok s p" "16 \<le> length (ready s p)"
    using that by (rule ring_full)
  show "\<exists>s'. scheduler_dequeue_task s p = Some (x, s') \<and> ring_ok s' p \<and> ready s' p = xs
      \<and> nat (2 ^ 62 - sq s' p 11) = nat (2 ^ 62 - sq s p 11) \<and> same_tasks p s s'"
    if "ring_ok s p" "ready s p = x # xs"
    using ring_dequeue [OF that] by auto
  show "same_tasks p s u" if "same_tasks p s t" "same_tasks p t u" using that by (rule same_tasks_trans)
qed simp

end
