(* ===== verification/SchedPick.thy ===== *)
theory SchedPick
  imports SchedQueue
begin

text \<open>
  Choosing the next task.  The loop over the ring computes a function on lists; the invariant of the
  scheduler says that the queue holds every runnable task exactly once, so the choice never halts, is
  fair, and never picks a task that is not runnable.
\<close>

definition runnable :: "machine \<Rightarrow> int \<Rightarrow> int \<Rightarrow> bool" where
  "runnable s p t \<longleftrightarrow> tf s p t 1 = 1"

text \<open>The specification: skip the idle task and tasks that are not runnable.\<close>

definition first_ready :: "(int \<Rightarrow> bool) \<Rightarrow> int \<Rightarrow> int list \<Rightarrow> int \<times> int list" where
  "first_ready run idle q =
     (case dropWhile (\<lambda>t. t = idle \<or> \<not> run t) q of [] \<Rightarrow> (idle, []) | t # ts \<Rightarrow> (t, ts))"

definition requeue :: "(int \<Rightarrow> bool) \<Rightarrow> int \<Rightarrow> int \<Rightarrow> int list \<Rightarrow> int list" where
  "requeue run idle cur q = (if cur \<noteq> idle \<and> run cur then q @ [cur] else q)"

lemma first_ready_simps:
  "first_ready run idle [] = (idle, [])"
  "first_ready run idle (t # q) = (if t = idle \<or> \<not> run t then first_ready run idle q else (t, q))"
  by (simp_all add: first_ready_def)

section \<open>The loop\<close>

lemma same_tasks_runnable: "same_tasks p s s' \<Longrightarrow> task_id t \<Longrightarrow> runnable s' p t = runnable s p t"
  by (simp add: same_tasks_def runnable_def)

lemma task_state_eq: "sched_layout s p \<Longrightarrow> task_id t \<Longrightarrow> scheduler_task_state s p t = Some (tf s p t 1)"
  by (simp add: scheduler_task_state_def scheduler_task_table_ptr_def task_id_def sched_const)

lemma pick_loop_empty:
  assumes "ring_ok s p" "ready s p = []"
  shows "scheduler_pick_loop s p n next_task = Some (next_task, s)"
proof (induction "nat n" arbitrary: n)
  case 0
  then show ?case by (simp add: scheduler_pick_loop.simps)
next
  case (Suc m)
  have "sched_layout s p" using assms(1) by (simp add: ring_ok_def)
  then show ?case
    using Suc.hyps(1) [of "n - 1"] Suc.hyps(2) ring_empty [OF assms]
    by (simp add: scheduler_pick_loop.simps [of s p n] scheduler_idle_task_def sched_const)
qed

lemma pick_loop:
  assumes "ring_ok s p" "\<forall>t \<in> set (ready s p). task_id t" "int (length (ready s p)) < n"
  shows "\<exists>s'. scheduler_pick_loop s p n (sq s p 2) = Some (fst (first_ready (runnable s p) (sq s p 2) (ready s p)), s')
    \<and> ready s' p = snd (first_ready (runnable s p) (sq s p 2) (ready s p))
    \<and> ring_ok s' p \<and> sq s' p 11 = sq s p 11 \<and> same_tasks p s s'"
  using assms
proof (induction "ready s p" arbitrary: s n)
  case Nil
  then show ?case using pick_loop_empty [of s p n "sq s p 2"] by (simp add: first_ready_simps)
next
  case (Cons x xs)
  note prems = Cons.prems(1) Cons.hyps(2) [symmetric]
  obtain t where t: "scheduler_dequeue_task s p = Some (x, t)" "ring_ok t p" "ready t p = xs"
    "sq t p 11 = sq s p 11" "same_tasks p s t" using ring_dequeue [OF prems] by blast
  have x: "task_id x" and xs: "\<forall>t \<in> set xs. task_id t" using Cons.prems(2) prems(2) by auto
  have lay: "sched_layout t p" using t(2) by (simp add: ring_ok_def)
  have idle: "sq t p 2 = sq s p 2" and run: "\<And>u. task_id u \<Longrightarrow> runnable t p u = runnable s p u"
    using t(5) same_tasks_runnable by (auto simp: same_tasks_def)
  have c: "first_ready (runnable t p) (sq s p 2) xs = first_ready (runnable s p) (sq s p 2) xs"
  proof -
    have "dropWhile (\<lambda>u. u = sq s p 2 \<or> \<not> runnable t p u) xs = dropWhile (\<lambda>u. u = sq s p 2 \<or> \<not> runnable s p u) xs"
      using xs run by (intro dropWhile_cong) auto
    then show ?thesis by (simp add: first_ready_def)
  qed
  have n: "n > 0" using Cons.prems(3) by simp
  have step: "scheduler_pick_loop s p n (sq s p 2) =
    (if x = sq s p 2 \<or> \<not> runnable s p x then scheduler_pick_loop t p (n - 1) (sq t p 2) else Some (x, t))"
    using n t(1) lay idle run [OF x] task_state_eq [OF lay x]
    by (simp add: scheduler_pick_loop.simps [of s p n] scheduler_idle_task_def sched_const runnable_def)
  show ?case
  proof (cases "x = sq s p 2 \<or> \<not> runnable s p x")
    case False
    then show ?thesis using step t prems(2) by (simp add: first_ready_simps)
  next
    case True
    have "int (length (ready t p)) < n - 1" using Cons.prems(3) prems(2) t(3) by simp
    then have "\<exists>s'. scheduler_pick_loop t p (n - 1) (sq t p 2) = Some (fst (first_ready (runnable t p) (sq t p 2) (ready t p)), s')
        \<and> ready s' p = snd (first_ready (runnable t p) (sq t p 2) (ready t p))
        \<and> ring_ok s' p \<and> sq s' p 11 = sq t p 11 \<and> same_tasks p t s'"
      using Cons.hyps(1) [of t "n - 1"] t(2,3) xs by simp
    then obtain u where u: "scheduler_pick_loop t p (n - 1) (sq t p 2) = Some (fst (first_ready (runnable s p) (sq s p 2) xs), u)"
        "ready u p = snd (first_ready (runnable s p) (sq s p 2) xs)" "ring_ok u p" "sq u p 11 = sq t p 11" "same_tasks p t u"
      unfolding t(3) idle c by blast
    show ?thesis
      using u step True t(4) same_tasks_trans [OF t(5) u(5)] prems(2) by (simp add: first_ready_simps)
  qed
qed

section \<open>The choice\<close>

text \<open>What a choice changes: the queue, the current task and two counters.\<close>

definition picked :: "int \<Rightarrow> machine \<Rightarrow> int \<Rightarrow> machine \<Rightarrow> bool" where
  "picked p s t s' \<longleftrightarrow> sq s' p 1 = t \<and> sq s' p 7 = i64 (sq s p 7 + 1)
     \<and> (\<forall>k. 0 \<le> k \<and> k < 15 \<and> k \<notin> {1, 7, 10, 11} \<longrightarrow> sq s' p k = sq s p k)
     \<and> (\<forall>u k. task_id u \<and> 0 \<le> k \<and> k < 25 \<longrightarrow>
          tf s' p u k = (if u = t \<and> k = 3 then i64 (tf s p u k + 1) else tf s p u k))
     \<and> sched_area s' p = sched_area s p \<and> writes_in (sched_area s p) s s'"

lemma first_ready_task_id:
  assumes "task_id idle" "\<forall>t \<in> set q. task_id t"
  shows "task_id (fst (first_ready run idle q))"
  using assms by (induction q) (auto simp: first_ready_simps)

lemma record_choice:
  assumes "ring_ok s p" "task_id t"
  shows "\<exists>s'. (do {
      s \<leftarrow> set_scheduler_state_qword s p sched_slot_current_task t;
      switches \<leftarrow> scheduler_switch_count s p;
      s \<leftarrow> set_scheduler_state_qword s p sched_slot_switch_count (switches + 1);
      scheduler_record_switch s p t }) = Some s'
    \<and> picked p s t s' \<and> ring_ok s' p \<and> ready s' p = ready s p \<and> sq s' p 11 = sq s p 11"
proof -
  have lay: "sched_layout s p" using assms(1) by (simp add: ring_ok_def)
  define s1 where "s1 = put_qword s (p + 8) t"
  note r1 = put_state [OF lay, where k = 1 and v = t, simplified, folded s1_def]
  define s2 where "s2 = put_qword s1 (p + 56) (sq s p 7 + 1)"
  note r2 = put_state [OF r1(4), where k = 7 and v = "sq s p 7 + 1", simplified, folded s2_def]
  define s3 where "s3 = put_qword s2 (sq s2 p 8 + t * 200 + 24) (tf s2 p t 3 + 1)"
  have t: "0 \<le> t" "t < 8" "i64 t = t"
    using assms(2) by (auto simp: task_id_def intro!: i64_id in64I)
  note r3 = put_task [OF r2(4) t(1,2), where k = 3 and v = "tf s2 p t 3 + 1", simplified, folded s3_def]
  have sq: "sq s3 p k = (if k = 1 then t else if k = 7 then i64 (sq s p 7 + 1) else sq s p k)" if "0 \<le> k" "k < 15" for k
    using r3(1) [of k] r2(1) r1(1) that t by simp
  have tf: "tf s3 p u k = (if u = t \<and> k = 3 then i64 (tf s p u k + 1) else tf s p u k)"
    if "task_id u" "0 \<le> k" "k < 25" for u k
    using r3(2) [of k u] r2(2) [of u k] r1(2) [of u k] that by (auto simp: task_id_def)
  have rq: "rq s3 p = rq s p" using r3(3) r2(3) r1(3) by auto
  have run: "(do { s \<leftarrow> set_scheduler_state_qword s p sched_slot_current_task t;
      switches \<leftarrow> scheduler_switch_count s p;
      s \<leftarrow> set_scheduler_state_qword s p sched_slot_switch_count (switches + 1);
      scheduler_record_switch s p t }) = Some s3"
    using lay r1(1,4) r2(4) t
    by (simp add: sched_const scheduler_switch_count_def scheduler_record_switch_def scheduler_task_table_ptr_def
        s1_def [symmetric] s2_def [symmetric] s3_def)
  have w: "writes_in (sched_area s p) s s3"
    using writes_in_trans [OF writes_in_trans [OF r1(6), of s2], of s3] r2(6) r3(6) r1(5) r2(5) by simp
  have "picked p s t s3" unfolding picked_def using sq tf w r1(5) r2(5) r3(5) by simp
  moreover have "ready s3 p = ready s p" unfolding ready_def rq using sq by simp
  moreover have "ring_ok s3 p" using assms(1) r3(4) sq by (simp add: ring_ok_def)
  ultimately show ?thesis using run sq by (intro exI [of _ s3]) simp
qed

lemma pick_next:
  assumes "ring_ok s p" "task_id (sq s p 1)" "task_id (sq s p 2)" "\<forall>t \<in> set (ready s p). task_id t"
    and "length (ready s p) < 16" "sq s p 11 < 2 ^ 62"
  defines "c \<equiv> first_ready (runnable s p) (sq s p 2) (requeue (runnable s p) (sq s p 2) (sq s p 1) (ready s p))"
  shows "\<exists>s'. scheduler_pick_next_task s p = Some (fst c, s') \<and> ready s' p = snd c \<and> ring_ok s' p
    \<and> picked p s (fst c) s' \<and> sq s' p 11 \<le> sq s p 11 + 1"
proof -
  let ?cur = "sq s p 1" and ?idle = "sq s p 2"
  have lay: "sched_layout s p" using assms(1) by (simp add: ring_ok_def)
  define q where "q = requeue (runnable s p) ?idle ?cur (ready s p)"
  have "\<exists>t. (if ?cur \<noteq> ?idle then do {
         st \<leftarrow> scheduler_task_state s p ?cur;
         if st = task_state_runnable then scheduler_enqueue_task s p ?cur else Some s } else Some s) = Some t
      \<and> ring_ok t p \<and> ready t p = q \<and> sq t p 11 \<le> sq s p 11 + 1 \<and> same_tasks p s t"
    using ring_enqueue [OF assms(1,2,5,6)] assms(1) task_state_eq [OF lay assms(2)]
    by (auto simp: q_def requeue_def runnable_def sched_const)
  then obtain t where t: "(if ?cur \<noteq> ?idle then do {
         st \<leftarrow> scheduler_task_state s p ?cur;
         if st = task_state_runnable then scheduler_enqueue_task s p ?cur else Some s } else Some s) = Some t"
      "ring_ok t p" "ready t p = q" "sq t p 11 \<le> sq s p 11 + 1" "same_tasks p s t" by blast
  have q: "\<forall>t \<in> set q. task_id t" using assms(2,4) by (auto simp: q_def requeue_def)
  have idle: "sq t p 2 = ?idle" using t(5) by (simp add: same_tasks_def)
  have "dropWhile (\<lambda>u. u = ?idle \<or> \<not> runnable t p u) q = dropWhile (\<lambda>u. u = ?idle \<or> \<not> runnable s p u) q"
    using q same_tasks_runnable [OF t(5)] by (intro dropWhile_cong) auto
  then have c: "first_ready (runnable t p) ?idle q = c" by (simp add: first_ready_def c_def q_def)
  obtain u where u: "scheduler_pick_loop t p (int (length q) + 1) ?idle = Some (fst c, u)" "ready u p = snd c"
      "ring_ok u p" "sq u p 11 = sq t p 11" "same_tasks p t u"
    using pick_loop [OF t(2), of "int (length q) + 1"] q unfolding t(3) idle c by auto
  have su: "same_tasks p s u" using t(5) u(5) by (rule same_tasks_trans)
  have id: "task_id (fst c)" unfolding c_def q_def [symmetric] using assms(3) q by (rule first_ready_task_id)
  obtain v where v: "(do { s \<leftarrow> set_scheduler_state_qword u p sched_slot_current_task (fst c);
      switches \<leftarrow> scheduler_switch_count s p;
      s \<leftarrow> set_scheduler_state_qword s p sched_slot_switch_count (switches + 1);
      scheduler_record_switch s p (fst c) }) = Some v"
    "picked p u (fst c) v" "ring_ok v p" "ready v p = ready u p" "sq v p 11 = sq u p 11"
    using record_choice [OF u(3) id] by blast
  have "picked p s (fst c) v"
    using v(2) su writes_in_trans [of "sched_area s p" s u v] unfolding picked_def same_tasks_def by auto
  moreover have "scheduler_pick_next_task s p = Some (fst c, v)"
  proof -
    have layt: "sched_layout t p" using t(2) by (simp add: ring_ok_def)
    have "scheduler_current_task s p = Some ?cur" "scheduler_idle_task s p = Some ?idle"
      "scheduler_idle_task t p = Some ?idle"
      using lay layt idle by (simp_all add: scheduler_current_task_def scheduler_idle_task_def sched_const)
    then show ?thesis unfolding scheduler_pick_next_task_def
      using t(1) u(1) v(1) ready_size [OF t(2)] t(3) by (simp add: bind_eq_Some_conv)
  qed
  ultimately show ?thesis using u v t(4) by auto
qed

end
