(* ===== verification/SchedInv.thy ===== *)
theory SchedInv
  imports SchedPick
begin

text \<open>
  The scheduler's invariant and its fairness: every runnable task but the current one and the idle
  task waits in the queue exactly once, so eight consecutive choices reach every runnable task.
\<close>

definition sched_inv :: "machine \<Rightarrow> int \<Rightarrow> bool" where
  "sched_inv s p \<longleftrightarrow> ring_ok s p \<and> task_id (sq s p 1) \<and> task_id (sq s p 2) \<and> distinct (ready s p)
     \<and> (\<forall>t \<in> set (ready s p). task_id t \<and> (t = sq s p 2 \<or> runnable s p t))
     \<and> (sq s p 1 \<noteq> sq s p 2 \<longrightarrow> sq s p 1 \<notin> set (ready s p))
     \<and> (\<forall>t. task_id t \<and> runnable s p t \<and> t \<noteq> sq s p 2 \<and> t \<noteq> sq s p 1 \<longrightarrow> t \<in> set (ready s p))"

lemma sched_inv_layout: "sched_inv s p \<Longrightarrow> sched_layout s p"
  by (simp add: sched_inv_def ring_ok_def)

lemma task_ids: "{t. task_id t} = {0..7}"
  by (auto simp: task_id_def)

lemma short_queue:
  assumes "distinct q" "\<forall>t \<in> set q. task_id t"
  shows "length q \<le> 8"
proof -
  have "set q \<subseteq> {0..7 :: int}" using assms(2) task_ids by auto
  then have "card (set q) \<le> card {0..7 :: int}" by (intro card_mono) auto
  then show ?thesis using distinct_card [OF assms(1)] by simp
qed

lemma first_ready_cases:
  obtains (none) "first_ready run idle q = (idle, [])" "\<forall>t \<in> set q. t = idle \<or> \<not> run t"
  | (some) ys t zs where "q = ys @ t # zs" "\<forall>y \<in> set ys. y = idle \<or> \<not> run y" "run t" "t \<noteq> idle"
      "first_ready run idle q = (t, zs)"
proof (cases "dropWhile (\<lambda>t. t = idle \<or> \<not> run t) q")
  case Nil
  then have "\<forall>t \<in> set q. t = idle \<or> \<not> run t" by (simp add: dropWhile_eq_Nil_conv)
  then show ?thesis using none Nil by (simp add: first_ready_def)
next
  case (Cons t zs)
  have "q = takeWhile (\<lambda>t. t = idle \<or> \<not> run t) q @ t # zs" using Cons takeWhile_dropWhile_id by metis
  moreover have "\<not> (t = idle \<or> \<not> run t)" using Cons by (simp add: dropWhile_eq_Cons_conv)
  moreover have "\<forall>y \<in> set (takeWhile (\<lambda>t. t = idle \<or> \<not> run t) q). y = idle \<or> \<not> run y"
    by (auto dest: set_takeWhileD)
  ultimately show ?thesis using some [of "takeWhile (\<lambda>t. t = idle \<or> \<not> run t) q" t zs] Cons
    by (simp add: first_ready_def)
qed

text \<open>The queue with the current task behind it: what the next choices take from.\<close>

definition waiting :: "machine \<Rightarrow> int \<Rightarrow> int list" where
  "waiting s p = requeue (runnable s p) (sq s p 2) (sq s p 1) (ready s p)"

lemma waiting_props:
  assumes "sched_inv s p"
  shows "distinct (waiting s p)" "\<forall>t \<in> set (waiting s p). task_id t \<and> (t = sq s p 2 \<or> runnable s p t)"
    "length (waiting s p) \<le> 8" "\<And>t. task_id t \<Longrightarrow> runnable s p t \<Longrightarrow> t \<noteq> sq s p 2 \<Longrightarrow> t \<in> set (waiting s p)"
    "length (ready s p) < 16"
proof -
  show d: "distinct (waiting s p)" and t: "\<forall>t \<in> set (waiting s p). task_id t \<and> (t = sq s p 2 \<or> runnable s p t)"
    using assms by (auto simp: waiting_def requeue_def sched_inv_def)
  show "length (waiting s p) \<le> 8" using short_queue [OF d] t by blast
  show "\<And>t. task_id t \<Longrightarrow> runnable s p t \<Longrightarrow> t \<noteq> sq s p 2 \<Longrightarrow> t \<in> set (waiting s p)"
    using assms by (auto simp: waiting_def requeue_def sched_inv_def)
  show "length (ready s p) < 16" using short_queue [of "ready s p"] assms by (force simp: sched_inv_def)
qed

lemma picked_runnable: "picked p s t s' \<Longrightarrow> task_id u \<Longrightarrow> runnable s' p u = runnable s p u"
  by (simp add: picked_def runnable_def)

lemma pick_inv:
  assumes "sched_inv s p" "sq s p 11 < 2 ^ 62"
  shows "\<exists>t s'. scheduler_pick_next_task s p = Some (t, s') \<and> sched_inv s' p \<and> picked p s t s'
    \<and> (t = sq s p 2 \<or> runnable s p t) \<and> task_id t \<and> sq s' p 11 \<le> sq s p 11 + 1
    \<and> ((\<forall>u \<in> set (waiting s p). u = sq s p 2) \<and> t = sq s p 2 \<and> ready s' p = []
       \<or> (\<exists>ys zs. waiting s p = ys @ t # zs \<and> (\<forall>y \<in> set ys. y = sq s p 2) \<and> t \<noteq> sq s p 2 \<and> ready s' p = zs))"
proof -
  let ?run = "runnable s p" and ?idle = "sq s p 2"
  note w = waiting_props [OF assms(1)]
  have pre: "ring_ok s p" "task_id (sq s p 1)" "task_id ?idle" "\<forall>t \<in> set (ready s p). task_id t"
    using assms(1) by (auto simp: sched_inv_def)
  obtain s' where s': "scheduler_pick_next_task s p = Some (fst (first_ready ?run ?idle (waiting s p)), s')"
      "ready s' p = snd (first_ready ?run ?idle (waiting s p))" "ring_ok s' p"
      "picked p s (fst (first_ready ?run ?idle (waiting s p))) s'" "sq s' p 11 \<le> sq s p 11 + 1"
    using pick_next [OF pre w(5) assms(2)] unfolding waiting_def by blast
  have run: "\<And>u. task_id u \<Longrightarrow> runnable s' p u = ?run u" using picked_runnable [OF s'(4)] by blast
  have cur: "sq s' p 1 = fst (first_ready ?run ?idle (waiting s p))" "sq s' p 2 = ?idle"
    using s'(4) by (auto simp: picked_def)
  show ?thesis
  proof (cases rule: first_ready_cases [of ?run ?idle "waiting s p"])
    case none
    then have "\<forall>u \<in> set (waiting s p). u = ?idle" using w(2) by blast
    moreover from this have "sched_inv s' p"
      unfolding sched_inv_def using none s' pre(3) cur run w(4) by auto
    ultimately show ?thesis using none s' pre(3) by auto
  next
    case (some ys t zs)
    have t: "task_id t" using w(2) some(1) by auto
    have ys: "\<forall>y \<in> set ys. y = ?idle" using some(1,2) w(2) by auto
    have "sched_inv s' p"
      unfolding sched_inv_def
    proof (intro conjI allI impI ballI)
      show "ring_ok s' p" "task_id (sq s' p 1)" "task_id (sq s' p 2)" using s'(3) cur some t pre(3) by auto
      show "distinct (ready s' p)" using s'(2) some w(1) by simp
      show "task_id u" "u = sq s' p 2 \<or> runnable s' p u" if "u \<in> set (ready s' p)" for u
        using that s'(2) some w(2) run cur by auto
      show "sq s' p 1 \<notin> set (ready s' p)" using s'(2) cur some w(1) by simp
      show "u \<in> set (ready s' p)" if "task_id u \<and> runnable s' p u \<and> u \<noteq> sq s' p 2 \<and> u \<noteq> sq s' p 1" for u
        using that s'(2) cur some w(4) [of u] run ys by auto
    qed
    then show ?thesis using s' some t ys by auto
  qed
qed

section \<open>Fairness\<close>

text \<open>Several choices in a row, with the tasks chosen.\<close>

primrec picks :: "nat \<Rightarrow> machine \<Rightarrow> int \<Rightarrow> (int list \<times> machine) option" where
  "picks 0 s p = Some ([], s)"
| "picks (Suc n) s p = do { (t, s) \<leftarrow> scheduler_pick_next_task s p; (ts, s) \<leftarrow> picks n s p; Some (t # ts, s) }"

lemma picks_total:
  assumes "sched_inv s p" "sq s p 11 + int n \<le> 2 ^ 62"
  shows "\<exists>ts s'. picks n s p = Some (ts, s') \<and> sched_inv s' p \<and> length ts = n
    \<and> (\<forall>t \<in> set ts. task_id t \<and> (t = sq s p 2 \<or> runnable s p t))"
  using assms
proof (induction n arbitrary: s)
  case 0
  then show ?case by simp
next
  case (Suc n)
  have lt: "sq s p 11 < 2 ^ 62" using Suc.prems(2) by simp
  obtain t s1 where s1: "scheduler_pick_next_task s p = Some (t, s1)" "sched_inv s1 p" "picked p s t s1"
      "t = sq s p 2 \<or> runnable s p t" "sq s1 p 11 \<le> sq s p 11 + 1" "task_id t"
    using pick_inv [OF Suc.prems(1) lt] by blast
  then obtain ts s' where "picks n s1 p = Some (ts, s')" "sched_inv s' p" "length ts = n"
      "\<forall>t \<in> set ts. task_id t \<and> (t = sq s1 p 2 \<or> runnable s1 p t)"
    using Suc.IH [of s1] Suc.prems(2) by auto
  moreover have "sq s1 p 2 = sq s p 2" using s1(3) by (simp add: picked_def)
  ultimately show ?case using s1 picked_runnable [OF s1(3)] by auto
qed

lemma picks_reach:
  assumes "sched_inv s p" "sq s p 11 + int n \<le> 2 ^ 62" "i < n" "i < length (waiting s p)"
    and "waiting s p ! i \<noteq> sq s p 2"
  shows "\<exists>ts s'. picks n s p = Some (ts, s') \<and> waiting s p ! i \<in> set ts"
  using assms
proof (induction n arbitrary: s i)
  case 0
  then show ?case by simp
next
  case (Suc n)
  let ?x = "waiting s p ! i"
  have lt: "sq s p 11 < 2 ^ 62" using Suc.prems(2) by simp
  have x: "?x \<in> set (waiting s p)" using Suc.prems(4) by simp
  obtain t s1 ys zs where s1: "scheduler_pick_next_task s p = Some (t, s1)" "sched_inv s1 p" "picked p s t s1"
      "task_id t" "sq s1 p 11 \<le> sq s p 11 + 1" "waiting s p = ys @ t # zs" "\<forall>y \<in> set ys. y = sq s p 2"
      "t \<noteq> sq s p 2" "ready s1 p = zs" "runnable s p t"
    using pick_inv [OF Suc.prems(1) lt] x Suc.prems(5) by blast
  have budget: "sq s1 p 11 + int n \<le> 2 ^ 62" using s1(5) Suc.prems(2) by simp
  show ?case
  proof (cases "?x = t")
    case True
    then show ?thesis using picks_total [OF s1(2) budget] s1(1) by auto
  next
    case False
    have "\<not> i < length ys" using s1(6,7) Suc.prems(5) by (auto simp: nth_append)
    moreover have "i \<noteq> length ys" using False s1(6) by auto
    ultimately obtain j where j: "i = Suc (length ys + j)" by (metis Suc_pred' add_Suc_right less_imp_add_positive linorder_neqE_nat)
    have w: "waiting s1 p = zs @ [t]"
      using s1(3,8,9,10) picked_runnable [OF s1(3,4)] by (simp add: waiting_def requeue_def picked_def)
    have jz: "j < length zs" using j Suc.prems(4) s1(6) by simp
    have "waiting s1 p ! j = ?x" using w j jz s1(6) by (simp add: nth_append)
    moreover have "sq s1 p 2 = sq s p 2" using s1(3) by (simp add: picked_def)
    moreover have "j < n" using j Suc.prems(3) by simp
    moreover have "j < length (waiting s1 p)" using w jz by simp
    ultimately have "\<exists>ts s'. picks n s1 p = Some (ts, s') \<and> ?x \<in> set ts"
      using Suc.IH [OF s1(2) budget, of j] Suc.prems(5) by simp
    then show ?thesis using s1(1) by auto
  qed
qed

end
