(* ===== verification/SchedRows.thy ===== *)
theory SchedRows
  imports SchedInv
begin

text \<open>
  The operations on task entries: accounting of ticks, the program break, the choice of a free slot,
  and the exit of a task with the adoption of its children.
\<close>

section \<open>Views of the scheduler's blocks\<close>

text \<open>
  In \<open>t\<close> the state block holds \<open>g\<close> and the task table \<open>f\<close>; ring and all other memory are those of \<open>s\<close>.
\<close>

definition sview :: "int \<Rightarrow> machine \<Rightarrow> (int \<Rightarrow> int) \<Rightarrow> (int \<Rightarrow> int \<Rightarrow> int) \<Rightarrow> machine \<Rightarrow> bool" where
  "sview p s g f t \<longleftrightarrow> sched_layout t p \<and> (\<forall>k. 0 \<le> k \<and> k < 15 \<longrightarrow> sq t p k = g k)
     \<and> (\<forall>u k. task_id u \<and> 0 \<le> k \<and> k < 25 \<longrightarrow> tf t p u k = f u k)
     \<and> (\<forall>i. rq t p i = rq s p i) \<and> sched_area t p = sched_area s p \<and> writes_in (sched_area s p) s t"

lemma sview_refl: "sched_layout s p \<Longrightarrow> sview p s (sq s p) (tf s p) s"
  by (simp add: sview_def)

lemma sview_layout: "sview p s g f t \<Longrightarrow> sched_layout t p"
  by (simp add: sview_def)

lemma sview_sq: "sview p s g f t \<Longrightarrow> 0 \<le> k \<Longrightarrow> k < 15 \<Longrightarrow> sq t p k = g k"
  by (simp add: sview_def)

lemma sview_tf: "sview p s g f t \<Longrightarrow> task_id u \<Longrightarrow> 0 \<le> k \<Longrightarrow> k < 25 \<Longrightarrow> tf t p u k = f u k"
  by (simp add: sview_def)

lemma sview_state:
  assumes "sview p s g f t" "0 \<le> k" "k < 15" "k \<noteq> 8" "k \<noteq> 9"
  shows "\<exists>t'. set_scheduler_state_qword t p k x = Some t' \<and> sview p s (g(k := i64 x)) f t'"
proof -
  have lay: "sched_layout t p" using assms(1) by (rule sview_layout)
  note r = put_state [OF lay assms(2-5), where v = x]
  have "writes_in (sched_area s p) s (put_qword t (p + k * 8) x)"
    using assms(1) r(6) writes_in_trans [of "sched_area s p" s t] by (simp add: sview_def)
  then show ?thesis using sched_write(1) [OF lay assms(2,3)] assms(1) r
    by (auto simp: sview_def task_id_def)
qed

lemma sview_task:
  assumes "sview p s g f t" "task_id u" "0 \<le> k" "k < 25"
  shows "\<exists>t'. set_scheduler_task_qword t (sq t p 8) u k x = Some t' \<and> sview p s g (f(u := (f u)(k := i64 x))) t'"
proof -
  have lay: "sched_layout t p" using assms(1) by (rule sview_layout)
  have u: "0 \<le> u" "u < 8" using assms(2) by (auto simp: task_id_def)
  define t' where "t' = put_qword t (sq t p 8 + u * 200 + k * 8) x"
  note r = put_task [OF lay u assms(3,4), where v = x, folded t'_def]
  have "writes_in (sched_area s p) s t'"
    using assms(1) r(6) writes_in_trans [of "sched_area s p" s t] by (simp add: sview_def)
  moreover have "sq t' p j = sq t p j" if "0 \<le> j" "j < 15" for j using r(1) [of j] that by simp
  ultimately have "sview p s g (f(u := (f u)(k := i64 x))) t'"
    using assms(1) r(2-5) by (auto simp: sview_def)
  then show ?thesis using sched_write(2) [OF lay u assms(3,4)] t'_def by blast
qed

lemma sview_tf_get:
  "sview p s g f t \<Longrightarrow> task_id u \<Longrightarrow> 0 \<le> k \<Longrightarrow> k < 25 \<Longrightarrow> scheduler_task_qword t (sq t p 8) u k = Some (f u k)"
  using sched_read(2) [of t p u k] by (simp add: sview_layout sview_tf task_id_def)

lemma sview_table: "sview p s g f t \<Longrightarrow> scheduler_task_table_ptr t p = Some (sq t p 8)"
  by (simp add: scheduler_task_table_ptr_def sched_const sview_layout)

lemma sview_ready: "sview p s g f t \<Longrightarrow> g 10 = sq s p 10 \<Longrightarrow> g 11 = sq s p 11 \<Longrightarrow> ready t p = ready s p"
  by (simp add: sview_def ready_def)

lemma sview_ring: "sview p s g f t \<Longrightarrow> g 10 = sq s p 10 \<Longrightarrow> g 11 = sq s p 11 \<Longrightarrow> ring_ok s p \<Longrightarrow> ring_ok t p"
  by (simp add: sview_def ring_ok_def)

section \<open>Ticks\<close>

definition charge :: "int \<Rightarrow> (int \<Rightarrow> int) \<Rightarrow> int \<Rightarrow> int \<Rightarrow> int" where
  "charge delta g now =
     (let g' = g(3 := now, 5 := i64 (g 5 + delta)) in if g 1 = g 2 then g'(6 := i64 (g 6 + delta)) else g')"

lemma account_tick:
  assumes "sched_layout s p" "task_id (sq s p 1)" "in64 now"
  defines "delta \<equiv> i64 (now - sq s p 3)"
  shows "now \<le> sq s p 3 \<Longrightarrow> scheduler_account_tick s p now = Some (0, s)"
    and "sq s p 3 < now \<Longrightarrow> \<exists>t. scheduler_account_tick s p now = Some (delta, t)
      \<and> sview p s (charge delta (sq s p) now)
          ((tf s p)(sq s p 1 := (tf s p (sq s p 1))(2 := i64 (tf s p (sq s p 1) 2 + delta)))) t"
proof -
  show "now \<le> sq s p 3 \<Longrightarrow> scheduler_account_tick s p now = Some (0, s)"
    using assms(1) by (simp add: scheduler_account_tick_def sched_const)
  assume lt: "sq s p 3 < now"
  let ?g = "sq s p" and ?f = "tf s p" and ?c = "sq s p 1"
  have now: "i64 now = now" using assms(3) by (rule i64_id)
  obtain s1 where s1: "set_scheduler_state_qword s p 3 now = Some s1" "sview p s (?g(3 := now)) ?f s1"
    using sview_state [OF sview_refl [OF assms(1)], of 3 now] now by auto
  obtain s2 where s2: "set_scheduler_state_qword s1 p 5 (?g 5 + delta) = Some s2"
      "sview p s (?g(3 := now, 5 := i64 (?g 5 + delta))) ?f s2"
    using sview_state [OF s1(2), of 5 "?g 5 + delta"] by auto
  let ?f' = "?f(?c := (?f ?c)(2 := i64 (?f ?c 2 + delta)))"
  obtain s3 where s3: "set_scheduler_task_qword s2 (sq s2 p 8) ?c 2 (?f ?c 2 + delta) = Some s3"
      "sview p s (?g(3 := now, 5 := i64 (?g 5 + delta))) ?f' s3"
    using sview_task [OF s2(2) assms(2), of 2 "?f ?c 2 + delta"] by auto
  have "\<exists>s4. (if ?c = ?g 2 then set_scheduler_state_qword s3 p 6 (?g 6 + delta) else Some s3) = Some s4
      \<and> sview p s (charge delta ?g now) ?f' s4"
    using sview_state [OF s3(2), of 6 "?g 6 + delta"] s3(2) by (auto simp: charge_def Let_def)
  then obtain s4 where s4: "(if ?c = ?g 2 then set_scheduler_state_qword s3 p 6 (?g 6 + delta) else Some s3) = Some s4"
    "sview p s (charge delta ?g now) ?f' s4" by blast
  have "scheduler_account_tick s p now = Some (delta, s4)"
    using lt assms(1) s1(1) s2(1) s3(1) s4(1) sview_sq [OF s1(2), of 5] sview_sq [OF s3(2), of 2] sview_sq [OF s3(2), of 6]
      sview_layout [OF s1(2)] sview_layout [OF s2(2)] sview_layout [OF s3(2)] sview_tf_get [OF s2(2) assms(2), of 2]
    by (simp add: scheduler_account_tick_def scheduler_add_runtime_ticks_def sched_getters sched_const delta_def [symmetric]
        Let_def del: sched_write split: if_splits)
  with s4(2) show "\<exists>t. scheduler_account_tick s p now = Some (delta, t) \<and> sview p s (charge delta ?g now) ?f' t" by blast
qed

section \<open>The program break\<close>

lemma brk:
  assumes "sched_layout s p" "task_id t" "in64 req"
  shows "\<exists>r s'. scheduler_brk s p t req = Some (r, s')
    \<and> (tf s p t 9 \<noteq> 1 \<and> r = - 1 \<and> s' = s
       \<or> tf s p t 9 = 1 \<and> req = 0 \<and> r = tf s p t 23 \<and> s' = s
       \<or> tf s p t 9 = 1 \<and> req \<noteq> 0 \<and> (req < tf s p t 21 \<or> tf s p t 22 < req) \<and> r = - 1 \<and> s' = s
       \<or> tf s p t 9 = 1 \<and> req \<noteq> 0 \<and> tf s p t 21 \<le> req \<and> req \<le> tf s p t 22 \<and> r = req
         \<and> sview p s (sq s p) ((tf s p)(t := (tf s p t)(23 := req))) s')"
proof -
  obtain u where u: "set_scheduler_task_qword s (sq s p 8) t 23 req = Some u"
      "sview p s (sq s p) ((tf s p)(t := (tf s p t)(23 := req))) u"
    using sview_task [OF sview_refl [OF assms(1)] assms(2), of 23 req] i64_id [OF assms(3)] by auto
  show ?thesis
    using assms(1,2) u by (auto simp: scheduler_brk_def sched_getters sched_setters sched_const task_id_def simp del: sched_write)
qed

section \<open>A free slot\<close>

definition counted :: "machine \<Rightarrow> int \<Rightarrow> bool" where
  "counted s p \<longleftrightarrow> 0 \<le> sq s p 0 \<and> sq s p 0 \<le> 8 \<and> runnable s p (sq s p 1) \<and> runnable s p (sq s p 2)
     \<and> (\<forall>t. task_id t \<and> tf s p t 1 \<noteq> 0 \<longrightarrow> t < sq s p 0)"

lemma find_free:
  assumes "sched_layout s p" "counted s p"
  shows "(\<exists>t. scheduler_find_free_task_id s p = Some t \<and> task_id t \<and> tf s p t 1 = 0 \<and> t \<le> sq s p 0)
    \<or> (scheduler_find_free_task_id s p = None \<and> (\<forall>t. task_id t \<longrightarrow> tf s p t 1 \<noteq> 0))"
proof -
  let ?body = "\<lambda>task_id found. if found \<ge> 0 then Some found else do {
       st \<leftarrow> scheduler_task_state s p task_id;
       Some (if st = task_state_empty then task_id else - 1) }"
  let ?P = "\<lambda>i r. (0 \<le> r \<and> r < i \<and> tf s p r 1 = 0) \<or> (r = - 1 \<and> (\<forall>j. 0 \<le> j \<and> j < i \<longrightarrow> tf s p j 1 \<noteq> 0))"
  have c: "0 \<le> sq s p 0" "sq s p 0 \<le> 8" using assms(2) by (auto simp: counted_def)
  have "\<exists>r. for_range 0 (sq s p 0) ?body (- 1) = Some r \<and> ?P (sq s p 0) r"
  proof (rule for_range_total [where P = ?P])
    fix i r assume i: "0 \<le> i" "i < sq s p 0" and P: "?P i r"
    have "task_id i" using i c by (simp add: task_id_def)
    then have "scheduler_task_state s p i = Some (tf s p i 1)" using assms(1) task_state_eq by blast
    then show "\<exists>r'. ?body i r = Some r' \<and> ?P (i + 1) r'"
      using P i by (cases "0 \<le> r"; cases "tf s p i 1 = 0") (auto simp: sched_const dest: order_le_imp_less_or_eq)
  qed (use c in auto)
  then obtain r where r: "for_range 0 (sq s p 0) ?body (- 1) = Some r" "?P (sq s p 0) r" by blast
  have run: "scheduler_find_free_task_id s p =
      (if 0 \<le> r then Some r else if 8 \<le> sq s p 0 then None else Some (sq s p 0))"
    using r(1) assms(1) by (simp add: scheduler_find_free_task_id_def sched_getters sched_const panic_def)
  show ?thesis
  proof (cases "0 \<le> r")
    case True
    then show ?thesis using run r(2) c by (auto simp: task_id_def)
  next
    case False
    then have all: "\<forall>j. 0 \<le> j \<and> j < sq s p 0 \<longrightarrow> tf s p j 1 \<noteq> 0" using r(2) by auto
    show ?thesis
    proof (cases "sq s p 0 = 8")
      case True
      then show ?thesis using run False all by (auto simp: task_id_def)
    next
      case room: False
      then have "task_id (sq s p 0)" using c by (simp add: task_id_def)
      moreover from this have "tf s p (sq s p 0) 1 = 0" using assms(2) by (auto simp: counted_def)
      ultimately show ?thesis using run False room c by auto
    qed
  qed
qed

section \<open>Exit\<close>

definition adopt :: "int \<Rightarrow> int \<Rightarrow> (int \<Rightarrow> int \<Rightarrow> int) \<Rightarrow> int \<Rightarrow> int \<Rightarrow> int \<Rightarrow> int" where
  "adopt old new f n t = (if t < n \<and> f t 1 \<noteq> 0 \<and> f t 20 = old then (f t)(20 := new) else f t)"

lemma reparent_children:
  assumes "sched_layout s p" "0 \<le> sq s p 0" "sq s p 0 \<le> 8" "in64 new"
  shows "\<exists>t. scheduler_reparent_children s p old new = Some t \<and> sview p s (sq s p) (adopt old new (tf s p) (sq s p 0)) t"
proof -
  let ?body = "\<lambda>task_id s'. do {
       st \<leftarrow> scheduler_task_state s' p task_id;
       if st \<noteq> task_state_empty then do {
         parent \<leftarrow> scheduler_task_parent_pid s' p task_id;
         if parent = old then set_scheduler_task_qword s' (sq s p 8) task_id task_slot_parent_pid new
         else Some s' }
       else Some s' }"
  let ?P = "\<lambda>n t. sview p s (sq s p) (adopt old new (tf s p) n) t"
  have "\<exists>t. for_range 0 (sq s p 0) ?body s = Some t \<and> ?P (sq s p 0) t"
  proof (rule for_range_total [where P = ?P])
    have "adopt old new (tf s p) 0 u k = tf s p u k" if "task_id u" for u k using that by (simp add: adopt_def task_id_def)
    then show "?P 0 s" using sview_refl [OF assms(1)] by (simp add: sview_def)
    fix i t assume i: "0 \<le> i" "i < sq s p 0" and P: "?P i t"
    have id: "task_id i" using i assms(3) by (simp add: task_id_def)
    have T: "sq t p 8 = sq s p 8" using sview_sq [OF P, of 8] by simp
    have f: "tf t p i 1 = tf s p i 1" "tf t p i 20 = tf s p i 20"
      using sview_tf [OF P id] by (simp_all add: adopt_def)
    have st: "scheduler_task_state t p i = Some (tf s p i 1)" "scheduler_task_parent_pid t p i = Some (tf s p i 20)"
      using task_state_eq [OF sview_layout [OF P] id] f id sview_layout [OF P]
      by (simp_all add: scheduler_task_parent_pid_def scheduler_task_table_ptr_def sched_const task_id_def)
    have other: "adopt old new (tf s p) (i + 1) u = adopt old new (tf s p) i u" if "u \<noteq> i" for u
    proof -
      have "u < i + 1 \<longleftrightarrow> u < i" using that by arith
      then show ?thesis by (simp add: adopt_def)
    qed
    show "\<exists>t'. ?body i t = Some t' \<and> ?P (i + 1) t'"
    proof (cases "tf s p i 1 \<noteq> 0 \<and> tf s p i 20 = old")
      case True
      have e: "adopt old new (tf s p) (i + 1) = (adopt old new (tf s p) i)(i := (adopt old new (tf s p) i i)(20 := i64 new))"
        using True other i64_id [OF assms(4)] by (auto simp: adopt_def fun_eq_iff)
      show ?thesis using sview_task [OF P id, of 20 new] True st unfolding e T by (auto simp: sched_const)
    next
      case False
      have e: "adopt old new (tf s p) (i + 1) = adopt old new (tf s p) i"
        using False other by (auto simp: adopt_def fun_eq_iff)
      show ?thesis using P False st unfolding e by (auto simp: sched_const)
    qed
  qed (use assms in auto)
  then show ?thesis using assms(1) by (simp add: scheduler_reparent_children_def scheduler_task_table_ptr_def scheduler_task_count_def sched_const)
qed

end
