(* ===== verification/SchedExit.thy ===== *)
theory SchedExit
  imports SchedRows
begin

text \<open>
  Leaving a task: the switch of contexts and the exit of the current task.
\<close>

lemma sched_inv_view:
  assumes "sched_inv s p" "sview p s g f t" "\<And>k. k \<in> {1, 2, 10, 11} \<Longrightarrow> g k = sq s p k"
    and "\<And>u. task_id u \<Longrightarrow> u \<noteq> sq s p 1 \<Longrightarrow> f u 1 = 1 \<longleftrightarrow> tf s p u 1 = 1"
  shows "sched_inv t p"
proof -
  have q: "ready t p = ready s p" "ring_ok t p"
    using sview_ready [OF assms(2)] sview_ring [OF assms(2)] assms(1,3) by (auto simp: sched_inv_def)
  have g: "sq t p 1 = sq s p 1" "sq t p 2 = sq s p 2" using sview_sq [OF assms(2)] assms(3) by simp_all
  have r: "runnable t p u = runnable s p u" if "task_id u" "u \<noteq> sq s p 1" for u
    using sview_tf [OF assms(2) that(1), of 1] assms(4) [OF that] by (simp add: runnable_def)
  show ?thesis using assms(1) r unfolding sched_inv_def q g by (metis q(2))
qed

section \<open>Switching contexts\<close>

definition context_area :: "machine \<Rightarrow> int \<Rightarrow> int \<Rightarrow> int set" where
  "context_area s p t = {tf s p t 7..<tf s p t 7 + 56}"

lemma save_registers:
  "writes_in {c..<c + 56} s (fold (\<lambda>k s. put_qword s (c + int k * 8) (regs s ! k)) [0..<7] s)"
proof -
  have "writes_in {c..<c + 56} s (fold (\<lambda>k s. put_qword s (c + int k * 8) (regs s ! k)) [0..<n] s)" if "n \<le> 7" for n
    using that
  proof (induction n)
    case (Suc n)
    let ?u = "fold (\<lambda>k s. put_qword s (c + int k * 8) (regs s ! k)) [0..<n] s"
    have "writes_in {c..<c + 56} ?u (put_qword ?u (c + int n * 8) (regs ?u ! n))"
      using Suc.prems by (intro writes_in_put) auto
    then show ?case using writes_in_trans [OF Suc.IH] Suc.prems by simp
  qed simp
  then show ?thesis by blast
qed

lemma enter_context:
  assumes "sched_layout s p" "task_id a" "task_id b"
  shows "\<exists>t. scheduler_enter_context s p a b = Some t \<and> (\<forall>x. x \<notin> context_area s p a \<longrightarrow> mem t x = mem s x)
    \<and> cr3 t = tf s p b 10 \<and> regs t = map (\<lambda>k. load_qword t (tf s p b 7 + k * 8)) [0..6]"
proof -
  define s1 where "s1 = load_cr3 (set_tss_rsp0 s (task_kernel_rsp0_top (tf s p b 8))) (tf s p b 10)"
  define s2 where "s2 = fold (\<lambda>k u. put_qword u (tf s p a 7 + int k * 8) (regs u ! k)) [0..<7] s1"
  define t where "t = restore_task_context s2 (tf s p b 7)"
  have m: "mem s1 = mem s" by (simp add: s1_def load_cr3_def set_tss_rsp0_def)
  have w: "writes_in (context_area s p a) s1 s2" using save_registers [of "tf s p a 7" s1] unfolding s2_def context_area_def .
  define s0 where "s0 = set_tss_rsp0 s (task_kernel_rsp0_top (tf s p b 8))"
  have "\<forall>x \<in> sched_area s p. mem s0 x = mem s x" by (simp add: s0_def set_tss_rsp0_def)
  note f = sched_frame [OF assms(1) this]
  have b: "0 \<le> b" "b < 8" using assms(3) by (auto simp: task_id_def)
  have "scheduler_state_qword s0 p 8 = Some (sq s p 8)" using sched_read(1) [OF f(4), of 8] f(1) [of 8] by simp
  moreover have "scheduler_task_qword s0 (sq s p 8) b 10 = Some (tf s p b 10)"
    using sched_read(2) [OF f(4) b, of 10] f(1) [of 8] f(2) [OF b, of 10] by simp
  ultimately have run: "scheduler_enter_context s p a b = Some t"
    using assms by (simp add: scheduler_enter_context_def sched_getters sched_const task_id_def
        s0_def [symmetric] t_def s2_def s1_def context_switch_def Let_def)
  have "mem t = mem s2" by (simp add: t_def restore_task_context_def)
  moreover have "load_qword t x = load_qword s2 x" for x
    unfolding load_qword_def by (intro arg_cong [of _ _ i64] le_load_cong) (simp add: t_def restore_task_context_def)
  then have "regs t = map (\<lambda>k. load_qword t (tf s p b 7 + k * 8)) [0..6]"
    by (simp add: t_def restore_task_context_def)
  moreover have "cr3 t = tf s p b 10"
    using writes_in_fields [OF w] w by (simp add: t_def restore_task_context_def s1_def load_cr3_def writes_in_def)
  ultimately show ?thesis using run w m by (auto simp: writes_in_def)
qed

lemma sched_inv_frame:
  assumes "sched_inv s p" "\<forall>a \<in> sched_area s p. mem t a = mem s a"
  shows "sched_inv t p" "\<And>k. 0 \<le> k \<Longrightarrow> k < 15 \<Longrightarrow> sq t p k = sq s p k"
    "\<And>u k. task_id u \<Longrightarrow> 0 \<le> k \<Longrightarrow> k < 25 \<Longrightarrow> tf t p u k = tf s p u k" "ready t p = ready s p"
    "sched_area t p = sched_area s p"
proof -
  note r = sched_frame [OF sched_inv_layout [OF assms(1)] assms(2)]
  show sq: "\<And>k. 0 \<le> k \<Longrightarrow> k < 15 \<Longrightarrow> sq t p k = sq s p k" by (rule r(1))
  show tf: "\<And>u k. task_id u \<Longrightarrow> 0 \<le> k \<Longrightarrow> k < 25 \<Longrightarrow> tf t p u k = tf s p u k" using r(2) by (simp add: task_id_def)
  show q: "ready t p = ready s p" using r(3) sq by (simp add: ready_def)
  have "ring_ok t p" using assms(1) r(4) sq by (simp add: sched_inv_def ring_ok_def)
  moreover have "runnable t p u = runnable s p u" if "task_id u" for u using tf [OF that, of 1] by (simp add: runnable_def)
  ultimately show "sched_inv t p" using assms(1) q sq by (auto simp: sched_inv_def)
  show "sched_area t p = sched_area s p" by (rule r(5))
qed

section \<open>Exit\<close>

lemma mark_exited:
  assumes "sched_inv s p" "counted s p" "in64 new" "new \<noteq> sq s p 1" "sq s p 1 \<noteq> sq s p 2"
  defines "c \<equiv> sq s p 1"
  shows "\<exists>t. (do {
       s \<leftarrow> scheduler_reparent_children s p c new;
       s \<leftarrow> scheduler_set_task_state s p c task_state_exited;
       scheduler_set_task_exit_code s p c code }) = Some t
    \<and> sview p s (sq s p) ((adopt c new (tf s p) (sq s p 0))(c := (adopt c new (tf s p) (sq s p 0) c)(1 := 3, 6 := i64 code))) t
    \<and> sched_inv t p"
proof -
  have lay: "sched_layout s p" using assms(1) by (rule sched_inv_layout)
  have id: "task_id c" using assms(1) by (simp add: sched_inv_def c_def)
  let ?f = "adopt c new (tf s p) (sq s p 0)"
  obtain s1 where s1: "scheduler_reparent_children s p c new = Some s1" "sview p s (sq s p) ?f s1"
    using reparent_children [OF lay, of new c] assms(2,3) by (auto simp: counted_def)
  obtain s2 where s2: "set_scheduler_task_qword s1 (sq s1 p 8) c 1 3 = Some s2"
      "sview p s (sq s p) (?f(c := (?f c)(1 := 3))) s2"
    using sview_task [OF s1(2) id, of 1 3] by (auto simp: i64_id in64_def)
  obtain s3 where s3: "set_scheduler_task_qword s2 (sq s2 p 8) c 6 code = Some s3"
      "sview p s (sq s p) (?f(c := (?f c)(1 := 3, 6 := i64 code))) s3"
    using sview_task [OF s2(2) id, of 6 code] by auto
  have "(do { s \<leftarrow> scheduler_reparent_children s p c new;
       s \<leftarrow> scheduler_set_task_state s p c task_state_exited;
       scheduler_set_task_exit_code s p c code }) = Some s3"
    using s1(1) s2(1) s3(1) sview_table [OF s1(2)] sview_table [OF s2(2)] by (simp add: sched_setters sched_const)
  moreover have "sched_inv s3 p"
    using assms(1) s3(2) by (rule sched_inv_view) (auto simp: adopt_def c_def)
  ultimately show ?thesis using s3(2) by blast
qed

text \<open>Who looks after the children of an exiting task: task 1, and the idle task where that is task 1 itself or alone.\<close>

definition adopter :: "machine \<Rightarrow> int \<Rightarrow> int \<Rightarrow> int" where
  "adopter s p c = (if c \<noteq> 1 \<and> sq s p 0 > 1 then 1 else sq s p 2)"

lemma exit_task:
  assumes "sched_inv s p" "counted s p" "sq s p 1 \<noteq> sq s p 2" "sq s p 11 < 2 ^ 62"
    and "context_area s p (sq s p 1) \<inter> sched_area s p = {}"
  defines "c \<equiv> sq s p 1"
  shows "\<exists>t. scheduler_exit_current_task s p code = Some t \<and> sched_inv t p \<and> counted t p \<and> sq t p 1 \<noteq> c
    \<and> tf t p c 1 = 3 \<and> tf t p c 6 = i64 code
    \<and> (\<forall>u. task_id u \<longrightarrow> tf t p u 20 = (if tf s p u 1 \<noteq> 0 \<and> tf s p u 20 = c then adopter s p c else tf s p u 20))
    \<and> cr3 t = tf t p (sq t p 1) 10 \<and> sq t p 11 \<le> sq s p 11 + 1 \<and> sched_area t p = sched_area s p
    \<and> (\<forall>a. a \<notin> sched_area s p \<union> context_area s p c \<longrightarrow> mem t a = mem s a)
    \<and> (\<forall>k. 0 \<le> k \<and> k < 15 \<and> k \<notin> {1, 7, 10, 11} \<longrightarrow> sq t p k = sq s p k)
    \<and> (\<forall>u k. task_id u \<and> 0 \<le> k \<and> k < 25 \<and> k \<notin> {1, 3, 6, 20} \<longrightarrow> tf t p u k = tf s p u k)
    \<and> (\<forall>u. task_id u \<longrightarrow> tf t p u 1 = (if u = c then 3 else tf s p u 1))"
proof -
  have lay: "sched_layout s p" using assms(1) by (rule sched_inv_layout)
  have id: "task_id c" and idle: "task_id (sq s p 2)" using assms(1) by (auto simp: sched_inv_def c_def)
  define new where "new = adopter s p c"
  have new: "in64 new" "new \<noteq> sq s p 1" using idle assms(3) by (auto simp: new_def adopter_def c_def task_id_def intro!: in64I)
  have target: "scheduler_reparent_target s p c = Some new"
    using lay by (auto simp: scheduler_reparent_target_def sched_getters sched_const new_def adopter_def)
  let ?f = "(adopt c new (tf s p) (sq s p 0))(c := (adopt c new (tf s p) (sq s p 0) c)(1 := 3, 6 := i64 code))"
  obtain t where t: "(do { s \<leftarrow> scheduler_reparent_children s p c new;
       s \<leftarrow> scheduler_set_task_state s p c task_state_exited;
       scheduler_set_task_exit_code s p c code }) = Some t" "sview p s (sq s p) ?f t" "sched_inv t p"
    using mark_exited [OF assms(1,2) new assms(3), of code] unfolding c_def by blast
  have tq: "sq t p k = sq s p k" if "0 \<le> k" "k < 15" for k using sview_sq [OF t(2) that] .
  obtain n u where u: "scheduler_pick_next_task t p = Some (n, u)" "sched_inv u p" "picked p t n u"
      "n = sq t p 2 \<or> runnable t p n" "task_id n" "sq u p 11 \<le> sq t p 11 + 1"
    using pick_inv [OF t(3)] tq assms(4) by force
  have n: "n \<noteq> c" using u(4) tq assms(3) sview_tf [OF t(2) id, of 1] by (auto simp: runnable_def c_def)
  have uf: "tf u p x k = (if x = n \<and> k = 3 then i64 (?f x k + 1) else ?f x k)" if "task_id x" "0 \<le> k" "k < 25" for x k
    using u(3) that sview_tf [OF t(2) that] by (auto simp: picked_def)
  have uq: "sq u p 1 = n" "sq u p k = sq s p k" if "0 \<le> k" "k < 15" "k \<notin> {1, 7, 10, 11}" for k
    using u(3) tq that by (auto simp: picked_def)
  obtain v where v: "scheduler_enter_context u p c n = Some v" "\<forall>x. x \<notin> context_area u p c \<longrightarrow> mem v x = mem u x"
      "cr3 v = tf u p n 10"
    using enter_context [OF sched_inv_layout [OF u(2)] id u(5)] by blast
  have area: "sched_area u p = sched_area s p" using u(3) t(2) by (simp add: picked_def sview_def)
  have ctx: "context_area u p c = context_area s p c" using uf [OF id, of 7] by (simp add: context_area_def adopt_def)
  have keep: "\<forall>a \<in> sched_area u p. mem v a = mem u a"
  proof
    fix a assume "a \<in> sched_area u p"
    then have "a \<in> sched_area s p" by (simp only: area)
    then have "a \<notin> context_area s p c" using assms(5) c_def by (metis disjoint_iff)
    then have "a \<notin> context_area u p c" unfolding ctx .
    then show "mem v a = mem u a" using v(2) by simp
  qed
  note fr = sched_inv_frame [OF u(2) keep]
  have run: "scheduler_exit_current_task s p code = Some v"
  proof -
    have "scheduler_current_task s p = Some c" "scheduler_idle_task s p = Some (sq s p 2)"
      using lay by (simp_all add: scheduler_current_task_def scheduler_idle_task_def sched_const c_def)
    moreover obtain a b where "scheduler_reparent_children s p c new = Some a"
        "scheduler_set_task_state a p c task_state_exited = Some b" "scheduler_set_task_exit_code b p c code = Some t"
      using t(1) unfolding bind_eq_Some_conv by blast
    ultimately show ?thesis unfolding scheduler_exit_current_task_def
      using assms(3) target u(1) v(1) n by (simp add: c_def [symmetric])
  qed
  have vf: "tf v p x k = (if x = n \<and> k = 3 then i64 (?f x k + 1) else ?f x k)" if "task_id x" "0 \<le> k" "k < 25" for x k
    using fr(3) [OF that] uf [OF that] by simp
  have vq: "sq v p 1 = n" "sq v p k = sq s p k" if "0 \<le> k" "k < 15" "k \<notin> {1, 7, 10, 11}" for k
    using fr(2) uq that by auto
  have live: "tf v p x 1 \<noteq> 0 \<longleftrightarrow> x = c \<or> tf s p x 1 \<noteq> 0" if "task_id x" for x using vf [OF that, of 1] by (simp add: adopt_def)
  have q: "sq v p 0 = sq s p 0" "sq v p 2 = sq s p 2" "sq v p 1 = n" using vq [of 0] vq [of 2] by simp_all
  have cnt: "counted v p"
  proof -
    have "runnable v p n \<and> runnable v p (sq s p 2)"
      using u(4) n tq [of 2] assms(2,3) vf [OF u(5), of 1] vf [OF idle, of 1] sview_tf [OF t(2) u(5), of 1]
      by (auto simp: runnable_def adopt_def counted_def c_def)
    moreover have "x < sq s p 0" if "task_id x" "tf v p x 1 \<noteq> 0" for x
      using live [OF that(1)] that id assms(2) by (auto simp: counted_def c_def runnable_def)
    ultimately show ?thesis using assms(2) q by (auto simp: counted_def)
  qed
  have "tf v p x 20 = (if tf s p x 1 \<noteq> 0 \<and> tf s p x 20 = c then adopter s p c else tf s p x 20)" if "task_id x" for x
    using vf [OF that, of 20] that assms(2) by (auto simp: adopt_def new_def counted_def)
  moreover have "mem v a = mem s a" if "a \<notin> sched_area s p \<union> context_area s p c" for a
  proof -
    have "mem v a = mem u a" using v(2) that unfolding ctx by simp
    moreover have "mem u a = mem t a" using u(3) that t(2) by (simp add: picked_def writes_in_def sview_def)
    moreover have "mem t a = mem s a" using that t(2) by (simp add: writes_in_def sview_def)
    ultimately show ?thesis by simp
  qed
  moreover have "cr3 v = tf v p (sq v p 1) 10" using v(3) q fr(3) [OF u(5), of 10] by simp
  moreover have "sq v p 11 \<le> sq s p 11 + 1" using fr(2) [of 11] u(6) tq [of 11] by simp
  moreover have "tf v p c 1 = 3" "tf v p c 6 = i64 code" using vf [OF id, of 1] vf [OF id, of 6] n by simp_all
  moreover have "tf v p x k = tf s p x k" if "task_id x" "0 \<le> k" "k < 25" "k \<notin> {1, 3, 6, 20}" for x k
    using vf [OF that(1-3)] that(4) by (simp add: adopt_def)
  moreover have "tf v p x 1 = (if x = c then 3 else tf s p x 1)" if "task_id x" for x
    using vf [OF that, of 1] by (simp add: adopt_def)
  ultimately show ?thesis using run fr(1,5) cnt q n vq area by (intro exI [of _ v]) auto
qed

end
