(* ===== verification/VfsView.thy ===== *)
theory VfsView
  imports Vfs
begin

text \<open>
  The file system's memory: the slots of its state block, the fields of the node table and of the
  descriptor table, what stores change and what the accessors return.  The descriptor table is shown
  to behave as a table of slots with a free list.
\<close>

definition vq :: "machine \<Rightarrow> int \<Rightarrow> int \<Rightarrow> int" where
  "vq s v k = load_qword s (v + k * 8)"

definition nf :: "machine \<Rightarrow> int \<Rightarrow> int \<Rightarrow> int \<Rightarrow> int" where
  "nf s v n k = load_qword s (vq s v 2 + n * 56 + k * 8)"

definition df :: "machine \<Rightarrow> int \<Rightarrow> int \<Rightarrow> int \<Rightarrow> int" where
  "df s v d k = load_qword s (vq s v 4 + (d - 1) * 48 + k * 8)"

definition vfs_layout :: "machine \<Rightarrow> int \<Rightarrow> bool" where
  "vfs_layout s v \<longleftrightarrow> 0 < v \<and> v mod 8 = 0 \<and> vq s v 2 mod 8 = 0 \<and> vq s v 4 mod 8 = 0
     \<and> v + 48 \<le> vq s v 2 \<and> vq s v 2 + 1792 \<le> vq s v 4 \<and> vq s v 5 = 32"

definition vfs_area :: "machine \<Rightarrow> int \<Rightarrow> int set" where
  "vfs_area s v = {v..<v + 48} \<union> {vq s v 2..<vq s v 2 + 1792} \<union> {vq s v 4..<vq s v 4 + 1536}"

definition node_id :: "int \<Rightarrow> bool" where
  "node_id n \<longleftrightarrow> 0 \<le> n \<and> n < 32"

definition desc_id :: "int \<Rightarrow> bool" where
  "desc_id d \<longleftrightarrow> 1 \<le> d \<and> d \<le> 32"

lemma vfs_ptrs:
  assumes "vfs_layout s v"
  shows "qword_ptr v" "\<And>n. 0 \<le> n \<Longrightarrow> qword_ptr (vq s v 2 + n * 56)" "\<And>d. 1 \<le> d \<Longrightarrow> qword_ptr (vq s v 4 + (d - 1) * 48)"
proof -
  have r: "0 < v" "0 < vq s v 2" "0 < vq s v 4" "v mod 8 = 0" "vq s v 2 mod 8 = 0" "vq s v 4 mod 8 = 0"
    using assms by (auto simp: vfs_layout_def)
  then show "qword_ptr v" by (auto simp: qword_ptr_def)
  fix n :: int assume "0 \<le> n"
  moreover have "(vq s v 2 + n * 56) mod 8 = 0" using r(5) by presburger
  ultimately show "qword_ptr (vq s v 2 + n * 56)" using r(2) by (simp add: qword_ptr_def)
next
  fix d :: int assume "1 \<le> d"
  moreover have "0 < vq s v 4" "(vq s v 4 + (d - 1) * 48) mod 8 = 0" using assms unfolding vfs_layout_def by presburger+
  ultimately show "qword_ptr (vq s v 4 + (d - 1) * 48)" by (simp add: qword_ptr_def)
qed

section \<open>Accessors\<close>

lemma vfs_read [simp]:
  assumes "vfs_layout s v"
  shows "0 \<le> k \<Longrightarrow> k < 6 \<Longrightarrow> vfs_state_qword s v k = Some (vq s v k)"
    and "node_id n \<Longrightarrow> 0 \<le> k \<Longrightarrow> k < 7 \<Longrightarrow> vfs_node_qword s v n k = Some (nf s v n k)"
    and "desc_id d \<Longrightarrow> 0 \<le> k \<Longrightarrow> k < 6 \<Longrightarrow> vfs_desc_qword s v d k = Some (df s v d k)"
proof -
  note p = vfs_ptrs [OF assms]
  show st: "0 \<le> k \<Longrightarrow> k < 6 \<Longrightarrow> vfs_state_qword s v k = Some (vq s v k)" for k
    using p(1) by (simp add: vfs_state_qword_def region_simps vfs_const vq_def)
  have cap: "vq s v 5 = 32" using assms by (simp add: vfs_layout_def)
  show "node_id n \<Longrightarrow> 0 \<le> k \<Longrightarrow> k < 7 \<Longrightarrow> vfs_node_qword s v n k = Some (nf s v n k)"
    using st [of 2] p(2) [of n]
    by (simp add: vfs_node_qword_def vfs_node_entry_ptr_def region_simps vfs_const nf_def node_id_def mult.assoc)
  show "desc_id d \<Longrightarrow> 0 \<le> k \<Longrightarrow> k < 6 \<Longrightarrow> vfs_desc_qword s v d k = Some (df s v d k)"
    using st [of 4] st [of 5] cap p(3) [of d]
    by (simp add: vfs_desc_qword_def vfs_desc_entry_ptr_def region_simps vfs_const df_def desc_id_def mult.assoc)
qed

lemma vfs_write [simp]:
  assumes "vfs_layout s v"
  shows "0 \<le> k \<Longrightarrow> k < 6 \<Longrightarrow> set_vfs_state_qword s v k x = Some (put_qword s (v + k * 8) x)"
    and "node_id n \<Longrightarrow> 0 \<le> k \<Longrightarrow> k < 7 \<Longrightarrow>
      set_vfs_node_qword s v n k x = Some (put_qword s (vq s v 2 + n * 56 + k * 8) x)"
    and "desc_id d \<Longrightarrow> 0 \<le> k \<Longrightarrow> k < 6 \<Longrightarrow>
      set_vfs_desc_qword s v d k x = Some (put_qword s (vq s v 4 + (d - 1) * 48 + k * 8) x)"
proof -
  note p = vfs_ptrs [OF assms]
  have st: "0 \<le> k \<Longrightarrow> k < 6 \<Longrightarrow> vfs_state_qword s v k = Some (vq s v k)" for k using assms by (rule vfs_read)
  have cap: "vq s v 5 = 32" using assms by (simp add: vfs_layout_def)
  show "0 \<le> k \<Longrightarrow> k < 6 \<Longrightarrow> set_vfs_state_qword s v k x = Some (put_qword s (v + k * 8) x)"
    using p(1) by (simp add: set_vfs_state_qword_def region_simps vfs_const)
  show "node_id n \<Longrightarrow> 0 \<le> k \<Longrightarrow> k < 7 \<Longrightarrow>
      set_vfs_node_qword s v n k x = Some (put_qword s (vq s v 2 + n * 56 + k * 8) x)"
    using st [of 2] p(2) [of n]
    by (simp add: set_vfs_node_qword_def vfs_node_entry_ptr_def region_simps vfs_const node_id_def mult.assoc)
  show "desc_id d \<Longrightarrow> 0 \<le> k \<Longrightarrow> k < 6 \<Longrightarrow>
      set_vfs_desc_qword s v d k x = Some (put_qword s (vq s v 4 + (d - 1) * 48 + k * 8) x)"
    using st [of 4] st [of 5] cap p(3) [of d]
    by (simp add: set_vfs_desc_qword_def vfs_desc_entry_ptr_def region_simps vfs_const desc_id_def mult.assoc)
qed

lemma vfs_desc_range: "vfs_layout s v \<Longrightarrow> \<not> desc_id d \<Longrightarrow> vfs_desc_qword s v d k = None"
  by (auto simp: vfs_desc_qword_def vfs_desc_entry_ptr_def desc_id_def vfs_const vfs_layout_def bind_eq_None_conv)

section \<open>Stores\<close>

lemma row_gap:
  assumes "0 \<le> k" "k < c" "0 \<le> m" "m < c" "t \<noteq> u \<or> k \<noteq> m"
  shows "T + t * (c * 8) + k * 8 + 8 \<le> T + u * (c * 8) + m * 8 \<or> T + u * (c * 8) + m * 8 + 8 \<le> T + t * (c * 8) + k * (8 :: int)"
proof (cases "t = u")
  case True
  then show ?thesis using assms by auto
next
  case False
  then consider "t + 1 \<le> u" | "u + 1 \<le> t" by linarith
  then show ?thesis
  proof cases
    case 1
    then have "(t + 1) * (c * 8) \<le> u * (c * 8)" using assms by (intro mult_right_mono) auto
    then show ?thesis using assms by (auto simp: algebra_simps)
  next
    case 2
    then have "(u + 1) * (c * 8) \<le> t * (c * 8)" using assms by (intro mult_right_mono) auto
    then show ?thesis using assms by (auto simp: algebra_simps)
  qed
qed

lemma put_vq:
  fixes x :: int
  assumes "vfs_layout s v" "0 \<le> k" "k < 6" "k \<noteq> 2" "k \<noteq> 4" "k \<noteq> 5"
  defines "s' \<equiv> put_qword s (v + k * 8) x"
  shows "vq s' v j = (if j = k then i64 x else vq s v j)"
    and "0 \<le> n \<Longrightarrow> 0 \<le> m \<Longrightarrow> nf s' v n m = nf s v n m"
    and "1 \<le> d \<Longrightarrow> 0 \<le> m \<Longrightarrow> df s' v d m = df s v d m"
    and "vfs_layout s' v" "vfs_area s' v = vfs_area s v" "writes_in (vfs_area s v) s s'"
proof -
  have "j \<noteq> k \<Longrightarrow> v + k * 8 + 8 \<le> v + j * 8 \<or> v + j * 8 + 8 \<le> v + k * 8" for j by auto
  then show vq: "vq s' v j = (if j = k then i64 x else vq s v j)" for j
    by (simp add: vq_def s'_def load_put_qword load_put_qword_other)
  have lay: "v + 48 \<le> vq s v 2" "v + 48 \<le> vq s v 4" using assms(1) by (auto simp: vfs_layout_def)
  show "nf s' v n m = nf s v n m" if "0 \<le> n" "0 \<le> m"
    unfolding nf_def vq using assms(2-6) lay that by (simp add: s'_def load_put_qword_other)
  show "df s' v d m = df s v d m" if "1 \<le> d" "0 \<le> m"
    unfolding df_def vq using assms(2-6) lay that by (simp add: s'_def load_put_qword_other)
  show "vfs_layout s' v" "vfs_area s' v = vfs_area s v"
    using assms(1-6) by (simp_all add: vfs_layout_def vfs_area_def vq)
  show "writes_in (vfs_area s v) s s'"
    unfolding s'_def using assms(2,3) by (intro writes_in_put) (auto simp: vfs_area_def)
qed

lemma put_node:
  fixes x :: int
  assumes "vfs_layout s v" "node_id n" "0 \<le> k" "k < 7"
  defines "s' \<equiv> put_qword s (vq s v 2 + n * 56 + k * 8) x"
  shows "0 \<le> j \<Longrightarrow> j < 6 \<Longrightarrow> vq s' v j = vq s v j"
    and "0 \<le> m \<Longrightarrow> m < 7 \<Longrightarrow> nf s' v i m = (if i = n \<and> m = k then i64 x else nf s v i m)"
    and "1 \<le> d \<Longrightarrow> 0 \<le> m \<Longrightarrow> df s' v d m = df s v d m"
    and "vfs_layout s' v" "vfs_area s' v = vfs_area s v" "writes_in (vfs_area s v) s s'"
proof -
  have lay: "v + 48 \<le> vq s v 2" "vq s v 2 + 1792 \<le> vq s v 4" using assms(1) by (auto simp: vfs_layout_def)
  have n: "0 \<le> n" "n < 32" using assms(2) by (auto simp: node_id_def)
  have vq: "vq s' v j = vq s v j" if "0 \<le> j" "j < 6" for j
    using lay that n assms(3) by (simp add: vq_def s'_def load_put_qword_other)
  then show "0 \<le> j \<Longrightarrow> j < 6 \<Longrightarrow> vq s' v j = vq s v j" by blast
  have T: "vq s' v 2 = vq s v 2" "vq s' v 4 = vq s v 4" "vq s' v 5 = vq s v 5" by (simp_all add: vq)
  show "nf s' v i m = (if i = n \<and> m = k then i64 x else nf s v i m)" if "0 \<le> m" "m < 7"
  proof (cases "i = n \<and> m = k")
    case True
    then show ?thesis unfolding nf_def T by (simp add: s'_def load_put_qword)
  next
    case False
    then have "n \<noteq> i \<or> k \<noteq> m" by auto
    from row_gap [OF assms(3,4) that this, of "vq s v 2"] False show ?thesis
      unfolding nf_def T unfolding s'_def by (auto simp: load_put_qword_other)
  qed
  show "df s' v d m = df s v d m" if "1 \<le> d" "0 \<le> m"
    unfolding df_def T using lay n assms(3,4) that by (simp add: s'_def load_put_qword_other)
  show "vfs_layout s' v" "vfs_area s' v = vfs_area s v"
    using assms(1) by (simp_all add: vfs_layout_def vfs_area_def T)
  show "writes_in (vfs_area s v) s s'"
    unfolding s'_def using assms(3,4) n by (intro writes_in_put) (auto simp: vfs_area_def)
qed

lemma put_desc:
  fixes x :: int
  assumes "vfs_layout s v" "desc_id d" "0 \<le> k" "k < 6"
  defines "s' \<equiv> put_qword s (vq s v 4 + (d - 1) * 48 + k * 8) x"
  shows "0 \<le> j \<Longrightarrow> j < 6 \<Longrightarrow> vq s' v j = vq s v j"
    and "node_id n \<Longrightarrow> 0 \<le> m \<Longrightarrow> m < 7 \<Longrightarrow> nf s' v n m = nf s v n m"
    and "0 \<le> m \<Longrightarrow> m < 6 \<Longrightarrow> df s' v i m = (if i = d \<and> m = k then i64 x else df s v i m)"
    and "vfs_layout s' v" "vfs_area s' v = vfs_area s v" "writes_in (vfs_area s v) s s'"
proof -
  have lay: "v + 48 \<le> vq s v 2" "vq s v 2 + 1792 \<le> vq s v 4" using assms(1) by (auto simp: vfs_layout_def)
  have d: "1 \<le> d" "d \<le> 32" using assms(2) by (auto simp: desc_id_def)
  have vq: "vq s' v j = vq s v j" if "0 \<le> j" "j < 6" for j
    using lay that d assms(3) by (simp add: vq_def s'_def load_put_qword_other)
  then show "0 \<le> j \<Longrightarrow> j < 6 \<Longrightarrow> vq s' v j = vq s v j" by blast
  have T: "vq s' v 2 = vq s v 2" "vq s' v 4 = vq s v 4" "vq s' v 5 = vq s v 5" by (simp_all add: vq)
  show "nf s' v n m = nf s v n m" if "node_id n" "0 \<le> m" "m < 7"
    unfolding nf_def T using lay d assms(3,4) that by (simp add: s'_def load_put_qword_other node_id_def)
  show "df s' v i m = (if i = d \<and> m = k then i64 x else df s v i m)" if "0 \<le> m" "m < 6"
  proof (cases "i = d \<and> m = k")
    case True
    then show ?thesis unfolding df_def T by (simp add: s'_def load_put_qword)
  next
    case False
    then have "d - 1 \<noteq> i - 1 \<or> k \<noteq> m" by auto
    from row_gap [OF assms(3,4) that this, of "vq s v 4"] False show ?thesis
      unfolding df_def T unfolding s'_def by (auto simp: load_put_qword_other)
  qed
  show "vfs_layout s' v" "vfs_area s' v = vfs_area s v"
    using assms(1) by (simp_all add: vfs_layout_def vfs_area_def T)
  show "writes_in (vfs_area s v) s s'"
    unfolding s'_def using assms(3,4) d by (intro writes_in_put) (auto simp: vfs_area_def)
qed

lemma vfs_frame:
  assumes "vfs_layout s v" "\<forall>a \<in> vfs_area s v. mem s' a = mem s a"
  shows "0 \<le> k \<Longrightarrow> k < 6 \<Longrightarrow> vq s' v k = vq s v k"
    and "node_id n \<Longrightarrow> 0 \<le> k \<Longrightarrow> k < 7 \<Longrightarrow> nf s' v n k = nf s v n k"
    and "desc_id d \<Longrightarrow> 0 \<le> k \<Longrightarrow> k < 6 \<Longrightarrow> df s' v d k = df s v d k"
    and "vfs_layout s' v" "vfs_area s' v = vfs_area s v"
proof -
  have load: "load_qword s' a = load_qword s a" if "{a..<a + 8} \<subseteq> vfs_area s v" for a
    unfolding load_qword_def
  proof (intro arg_cong [of _ _ i64] le_load_cong)
    fix b assume "a \<le> b" "b < a + int 8"
    then have "b \<in> vfs_area s v" using that by auto
    then show "mem s' b = mem s b" using assms(2) by blast
  qed
  have vq: "vq s' v k = vq s v k" if "0 \<le> k" "k < 6" for k
    unfolding vq_def by (rule load) (use that in \<open>auto simp: vfs_area_def\<close>)
  then show "0 \<le> k \<Longrightarrow> k < 6 \<Longrightarrow> vq s' v k = vq s v k" by blast
  have T: "vq s' v 2 = vq s v 2" "vq s' v 4 = vq s v 4" "vq s' v 5 = vq s v 5" by (simp_all add: vq)
  show "nf s' v n k = nf s v n k" if "node_id n" "0 \<le> k" "k < 7"
    unfolding nf_def T by (rule load) (use that in \<open>auto simp: vfs_area_def node_id_def\<close>)
  show "df s' v d k = df s v d k" if "desc_id d" "0 \<le> k" "k < 6"
    unfolding df_def T by (rule load) (use that in \<open>auto simp: vfs_area_def desc_id_def\<close>)
  show "vfs_layout s' v" "vfs_area s' v = vfs_area s v"
    using assms(1) by (simp_all add: vfs_layout_def vfs_area_def T)
qed

end
