(* ===== verification/VfsDesc.thy ===== *)
theory VfsDesc
  imports VfsView
begin

text \<open>
  The descriptor table: allocation takes the first closed slot, closing clears one.  Clients see a
  table of open identifiers of bounded size.
\<close>

definition desc_update :: "int \<Rightarrow> int \<Rightarrow> (int \<Rightarrow> int) \<Rightarrow> machine \<Rightarrow> machine \<Rightarrow> bool" where
  "desc_update v d f s s' \<longleftrightarrow> vfs_layout s' v \<and> (\<forall>k. 0 \<le> k \<and> k < 6 \<longrightarrow> vq s' v k = vq s v k)
     \<and> (\<forall>n k. node_id n \<and> 0 \<le> k \<and> k < 7 \<longrightarrow> nf s' v n k = nf s v n k)
     \<and> (\<forall>i k. desc_id i \<and> 0 \<le> k \<and> k < 6 \<longrightarrow> df s' v i k = (if i = d then f k else df s v i k))
     \<and> vfs_area s' v = vfs_area s v \<and> writes_in (vfs_area s v) s s'"

lemma desc_update_refl: "vfs_layout s v \<Longrightarrow> (\<And>k. 0 \<le> k \<Longrightarrow> k < 6 \<Longrightarrow> f k = df s v d k) \<Longrightarrow> desc_update v d f s s"
  by (simp add: desc_update_def)

lemma desc_update_put:
  assumes "desc_update v d f s t" "desc_id d" "0 \<le> k" "k < 6"
    and "\<And>m. 0 \<le> m \<Longrightarrow> m < 6 \<Longrightarrow> g m = (if m = k then i64 x else f m)"
  shows "\<exists>u. set_vfs_desc_qword t v d k x = Some u \<and> desc_update v d g s u"
proof -
  have lay: "vfs_layout t v" using assms(1) by (simp add: desc_update_def)
  define u where "u = put_qword t (vq t v 4 + (d - 1) * 48 + k * 8) x"
  note r = put_desc [OF lay assms(2-4), where x = x, folded u_def]
  have "writes_in (vfs_area s v) s u"
    using assms(1) r(6) writes_in_trans [of "vfs_area s v" s t u] by (simp add: desc_update_def)
  then have "desc_update v d g s u"
    using assms(1,5) r unfolding desc_update_def by auto
  then show ?thesis using vfs_write(3) [OF lay assms(2-4)] u_def by blast
qed

section \<open>Allocation\<close>

definition desc_row :: "int \<Rightarrow> int \<Rightarrow> int \<Rightarrow> int \<Rightarrow> int \<Rightarrow> int" where
  "desc_row kind flags node offset k =
     (if k = 0 then i64 kind else if k = 1 then i64 flags else if k = 2 then i64 node else if k = 3 then i64 offset else 0)"

lemma i64_zero [simp]: "i64 0 = 0"
  by (simp add: i64_id in64_def)

lemma fill_desc:
  assumes "vfs_layout s v" "desc_id d"
  shows "\<exists>s'. (do {
       s \<leftarrow> set_vfs_desc_qword s v d desc_slot_kind kind;
       s \<leftarrow> set_vfs_desc_qword s v d desc_slot_flags flags;
       s \<leftarrow> set_vfs_desc_qword s v d desc_slot_node_id node;
       s \<leftarrow> set_vfs_desc_qword s v d desc_slot_offset offset;
       s \<leftarrow> set_vfs_desc_qword s v d desc_slot_path_ptr 0;
       s \<leftarrow> set_vfs_desc_qword s v d desc_slot_path_len 0;
       Some (d, s) }) = Some (d, s') \<and> desc_update v d (desc_row kind flags node offset) s s'"
proof -
  let ?r = "\<lambda>n k. if k < n then desc_row kind flags node offset k else df s v d k"
  have "desc_update v d (?r 0) s s" using assms(1) by (intro desc_update_refl) auto
  then obtain s1 where s1: "set_vfs_desc_qword s v d 0 kind = Some s1" "desc_update v d (?r 1) s s1"
    by (rule exE [OF desc_update_put [of v d "?r 0" s s 0 "?r 1" kind]]) (use assms(2) in \<open>auto simp: desc_row_def\<close>)
  obtain s2 where s2: "set_vfs_desc_qword s1 v d 1 flags = Some s2" "desc_update v d (?r 2) s s2"
    by (rule exE [OF desc_update_put [OF s1(2) assms(2), of 1 "?r 2" flags]]) (auto simp: desc_row_def)
  obtain s3 where s3: "set_vfs_desc_qword s2 v d 2 node = Some s3" "desc_update v d (?r 3) s s3"
    by (rule exE [OF desc_update_put [OF s2(2) assms(2), of 2 "?r 3" node]]) (auto simp: desc_row_def)
  obtain s4 where s4: "set_vfs_desc_qword s3 v d 3 offset = Some s4" "desc_update v d (?r 4) s s4"
    by (rule exE [OF desc_update_put [OF s3(2) assms(2), of 3 "?r 4" offset]]) (auto simp: desc_row_def)
  obtain s5 where s5: "set_vfs_desc_qword s4 v d 4 0 = Some s5" "desc_update v d (?r 5) s s5"
    by (rule exE [OF desc_update_put [OF s4(2) assms(2), of 4 "?r 5" 0]]) (auto simp: desc_row_def)
  obtain s6 where s6: "set_vfs_desc_qword s5 v d 5 0 = Some s6" "desc_update v d (desc_row kind flags node offset) s s6"
    by (rule exE [OF desc_update_put [OF s5(2) assms(2), of 5 "desc_row kind flags node offset" 0]]) (auto simp: desc_row_def)
  show ?thesis using s1 s2 s3 s4 s5 s6 by (simp add: vfs_const)
qed

text \<open>The first closed slot from \<open>d\<close> on.\<close>

definition first_closed :: "machine \<Rightarrow> int \<Rightarrow> int \<Rightarrow> bool" where
  "first_closed s v d \<longleftrightarrow> desc_id d \<and> df s v d 0 = 0 \<and> (\<forall>e. 1 \<le> e \<and> e < d \<longrightarrow> df s v e 0 \<noteq> 0)"

lemma alloc_descriptor:
  assumes "vfs_layout s v"
  shows "(\<forall>d. desc_id d \<longrightarrow> df s v d 0 \<noteq> 0) \<and> vfs_alloc_descriptor s v kind flags node offset = Some (0, s)
    \<or> (\<exists>d s'. vfs_alloc_descriptor s v kind flags node offset = Some (d, s') \<and> first_closed s v d
        \<and> desc_update v d (desc_row kind flags node offset) s s')"
proof -
  let ?body = "\<lambda>d (found, s). if found \<noteq> 0 then Some (found, s) else do {
       k \<leftarrow> vfs_desc_qword s v d desc_slot_kind;
       if k = desc_kind_closed then do {
         s \<leftarrow> set_vfs_desc_qword s v d desc_slot_kind kind;
         s \<leftarrow> set_vfs_desc_qword s v d desc_slot_flags flags;
         s \<leftarrow> set_vfs_desc_qword s v d desc_slot_node_id node;
         s \<leftarrow> set_vfs_desc_qword s v d desc_slot_offset offset;
         s \<leftarrow> set_vfs_desc_qword s v d desc_slot_path_ptr 0;
         s \<leftarrow> set_vfs_desc_qword s v d desc_slot_path_len 0;
         Some (d, s) }
       else Some (0, s) }"
  let ?P = "\<lambda>d (f, t). (f = 0 \<and> t = s \<and> (\<forall>e. 1 \<le> e \<and> e < d \<longrightarrow> df s v e 0 \<noteq> 0))
    \<or> (first_closed s v f \<and> desc_update v f (desc_row kind flags node offset) s t)"
  have "\<exists>r. for_range 1 33 ?body (0, s) = Some r \<and> ?P 33 r"
  proof (rule for_range_total [where P = ?P])
    fix d and r :: "int \<times> machine"
    assume d: "1 \<le> d" "d < 33" and P: "?P d r"
    obtain f t where r: "r = (f, t)" by (cases r)
    have id: "desc_id d" using d by (simp add: desc_id_def)
    show "\<exists>r'. ?body d r = Some r' \<and> ?P (d + 1) r'"
    proof (cases "f = 0")
      case False
      then show ?thesis using P r by auto
    next
      case True
      then have t: "t = s" "\<forall>e. 1 \<le> e \<and> e < d \<longrightarrow> df s v e 0 \<noteq> 0"
        using P r by (auto simp: first_closed_def desc_id_def)
      show ?thesis
      proof (cases "df s v d 0 = 0")
        case closed: True
        then have "first_closed s v d" using id t(2) by (simp add: first_closed_def)
        then show ?thesis using fill_desc [OF assms id, of kind flags node offset] True t(1) r assms id closed
          by (auto simp: vfs_const)
      next
        case opened: False
        have "\<forall>e. 1 \<le> e \<and> e < d + 1 \<longrightarrow> df s v e 0 \<noteq> 0"
          using t(2) opened by (auto dest: order_le_imp_less_or_eq)
        then show ?thesis using True t(1) r assms id opened by (simp add: vfs_const)
      qed
    qed
  qed auto
  then obtain f t where r: "for_range 1 33 ?body (0, s) = Some (f, t)" "?P 33 (f, t)" by auto
  have "vq s v 5 = 32" using assms by (simp add: vfs_layout_def)
  then have "vfs_alloc_descriptor s v kind flags node offset = Some (f, t)"
    using r(1) assms by (simp add: vfs_alloc_descriptor_def vfs_const)
  then show ?thesis using r(2) by (auto simp: desc_id_def)
qed

section \<open>Closing\<close>

lemma clear_desc_loop:
  assumes "vfs_layout s v" "desc_id d"
  shows "\<exists>s'. for_range 0 6 (\<lambda>slot s. set_vfs_desc_qword s v d slot 0) s = Some s' \<and> desc_update v d (\<lambda>_. 0) s s'"
proof -
  let ?f = "\<lambda>k m. if m < k then 0 else df s v d m"
  have "\<exists>s'. for_range 0 6 (\<lambda>slot s. set_vfs_desc_qword s v d slot 0) s = Some s' \<and> desc_update v d (?f 6) s s'"
  proof (rule for_range_total [where P = "\<lambda>k t. desc_update v d (?f k) s t"])
    fix k t assume k: "0 \<le> k" "k < 6" and t: "desc_update v d (?f k) s t"
    show "\<exists>s'. set_vfs_desc_qword t v d k 0 = Some s' \<and> desc_update v d (?f (k + 1)) s s'"
      by (rule desc_update_put [OF t assms(2) k]) auto
  qed (use assms(1) in \<open>auto intro: desc_update_refl\<close>)
  then show ?thesis by (auto simp: desc_update_def)
qed

lemma close_descriptor:
  assumes "vfs_layout s v" "desc_id d"
  shows "df s v d 0 = 0 \<Longrightarrow> vfs_close_descriptor s v d = Some (- 1, s)"
    and "df s v d 0 \<noteq> 0 \<Longrightarrow> \<exists>s'. vfs_close_descriptor s v d = Some (0, s') \<and> desc_update v d (\<lambda>_. 0) s s'"
  using assms clear_desc_loop [OF assms] by (auto simp: vfs_close_descriptor_def vfs_const desc_id_def)

section \<open>A table of open identifiers\<close>

locale descriptor_table =
  fixes inv :: "'s \<Rightarrow> bool" and opened :: "'s \<Rightarrow> int set" and ids :: "int set"
    and alloc :: "'s \<Rightarrow> (int \<times> 's) option" and close :: "'s \<Rightarrow> int \<Rightarrow> (int \<times> 's) option"
  assumes alloc_law: "inv s \<Longrightarrow> (opened s = ids \<and> alloc s = Some (0, s)) \<or>
      (\<exists>d s'. alloc s = Some (d, s') \<and> inv s' \<and> d \<in> ids - opened s \<and> opened s' = insert d (opened s))"
    and close_law: "inv s \<Longrightarrow> d \<in> opened s \<Longrightarrow> \<exists>s'. close s d = Some (0, s') \<and> inv s' \<and> opened s' = opened s - {d}"
    and closed_law: "inv s \<Longrightarrow> d \<in> ids - opened s \<Longrightarrow> close s d = Some (- 1, s)"
    and ids_ok: "finite ids" "0 \<notin> ids" "inv s \<Longrightarrow> opened s \<subseteq> ids"
begin

lemma alloc_when_room:
  assumes "inv s" "card (opened s) < card ids"
  shows "\<exists>d s'. alloc s = Some (d, s') \<and> d \<noteq> 0 \<and> inv s' \<and> d \<in> ids - opened s \<and> opened s' = insert d (opened s)
    \<and> card (opened s') = card (opened s) + 1"
proof -
  have fin: "finite (opened s)" using ids_ok assms(1) finite_subset by blast
  have "opened s \<noteq> ids" using assms(2) by auto
  then obtain d s' where "alloc s = Some (d, s')" "inv s'" "d \<in> ids - opened s" "opened s' = insert d (opened s)"
    using alloc_law [OF assms(1)] by blast
  then show ?thesis using ids_ok fin by auto
qed

text \<open>An identifier handed out can be closed, once, and everything is as before.\<close>

lemma alloc_close:
  assumes "inv s" "alloc s = Some (d, t)" "d \<noteq> 0"
  shows "\<exists>u. close t d = Some (0, u) \<and> opened u = opened s \<and> close u d = Some (- 1, u)"
proof -
  have t: "inv t" "d \<in> ids - opened s" "opened t = insert d (opened s)"
    using alloc_law [OF assms(1)] assms(2,3) by auto
  then obtain u where "close t d = Some (0, u)" "inv u" "opened u = opened t - {d}"
    using close_law [of t d] by auto
  then show ?thesis using t closed_law [of u d] by auto
qed

end

definition open_descs :: "machine \<Rightarrow> int \<Rightarrow> int set" where
  "open_descs s v = {d. desc_id d \<and> df s v d 0 \<noteq> 0}"

lemma open_descs_update:
  assumes "desc_update v d f s s'" "desc_id d"
  shows "open_descs s' v = (if f 0 = 0 then open_descs s v - {d} else insert d (open_descs s v))"
proof -
  have "df s' v i 0 = (if i = d then f 0 else df s v i 0)" if "desc_id i" for i
    using assms(1) that by (simp add: desc_update_def)
  then show ?thesis using assms(2) by (auto simp: open_descs_def split: if_splits)
qed

lemma descriptor_tableI:
  assumes "i64 kind \<noteq> 0"
  shows "descriptor_table (\<lambda>s. vfs_layout s v) (\<lambda>s. open_descs s v) {1..32}
    (\<lambda>s. vfs_alloc_descriptor s v kind flags node offset) (\<lambda>s d. vfs_close_descriptor s v d)"
proof
  fix s d
  assume lay: "vfs_layout s v"
  show "open_descs s v = {1..32} \<and> vfs_alloc_descriptor s v kind flags node offset = Some (0, s) \<or>
      (\<exists>d s'. vfs_alloc_descriptor s v kind flags node offset = Some (d, s') \<and> vfs_layout s' v
        \<and> d \<in> {1..32} - open_descs s v \<and> open_descs s' v = insert d (open_descs s v))"
    using alloc_descriptor [OF lay, of kind flags node offset]
  proof (elim disjE exE conjE)
    fix d s'
    assume r: "vfs_alloc_descriptor s v kind flags node offset = Some (d, s')" "first_closed s v d"
      "desc_update v d (desc_row kind flags node offset) s s'"
    have "open_descs s' v = insert d (open_descs s v)"
      using open_descs_update [OF r(3)] r(2) assms by (simp add: first_closed_def desc_row_def)
    then show ?thesis using r by (auto simp: first_closed_def desc_id_def open_descs_def desc_update_def)
  qed (auto simp: open_descs_def desc_id_def)
  show "\<exists>s'. vfs_close_descriptor s v d = Some (0, s') \<and> vfs_layout s' v \<and> open_descs s' v = open_descs s v - {d}"
    if "d \<in> open_descs s v"
    using close_descriptor(2) [OF lay, of d] that open_descs_update [of v d "\<lambda>_. 0" s]
    by (auto simp: open_descs_def desc_update_def)
  show "vfs_close_descriptor s v d = Some (- 1, s)" if "d \<in> {1..32} - open_descs s v"
    using close_descriptor(1) [OF lay, of d] that by (auto simp: open_descs_def desc_id_def)
  show "open_descs s v \<subseteq> {1..32}" by (auto simp: open_descs_def desc_id_def)
qed simp_all

interpretation console_in: descriptor_table "\<lambda>s. vfs_layout s v" "\<lambda>s. open_descs s v" "{1..32}"
  "\<lambda>s. vfs_alloc_console_in_descriptor s v" "\<lambda>s d. vfs_close_descriptor s v d"
  using descriptor_tableI [of 1 v 0 0 0]
  by (simp add: vfs_alloc_console_in_descriptor_def vfs_const i64_id in64_def)

interpretation console_out: descriptor_table "\<lambda>s. vfs_layout s v" "\<lambda>s. open_descs s v" "{1..32}"
  "\<lambda>s. vfs_alloc_console_out_descriptor s v" "\<lambda>s d. vfs_close_descriptor s v d"
  using descriptor_tableI [of 2 v 0 0 0]
  by (simp add: vfs_alloc_console_out_descriptor_def vfs_const i64_id in64_def)

interpretation file_handle: descriptor_table "\<lambda>s. vfs_layout s v" "\<lambda>s. open_descs s v" "{1..32}"
  "\<lambda>s. vfs_alloc_descriptor s v 3 flags node offset" "\<lambda>s d. vfs_close_descriptor s v d"
  using descriptor_tableI [of 3 v flags node offset] by (simp add: i64_id in64_def)

text \<open>
  C21: an allocation takes a closed descriptor exactly when fewer than 32 are open,
  never one that is open; closing it makes the set of open descriptors what it was, and closing it a
  second time is refused.  With all 32 open the allocation returns 0 and changes nothing.
\<close>

theorem vfs_descriptors_accounted:
  assumes "vfs_layout s v" "i64 kind \<noteq> 0"
  shows "if card (open_descs s v) < 32
    then \<exists>d t u. vfs_alloc_descriptor s v kind flags node offset = Some (d, t) \<and> d \<in> {1..32} - open_descs s v
      \<and> open_descs t v = insert d (open_descs s v)
      \<and> vfs_close_descriptor t v d = Some (0, u) \<and> open_descs u v = open_descs s v
      \<and> vfs_close_descriptor u v d = Some (- 1, u)
    else vfs_alloc_descriptor s v kind flags node offset = Some (0, s)"
proof (cases "card (open_descs s v) < 32")
  case True
  note law = descriptor_tableI [OF assms(2), of v flags node offset]
  have "card (open_descs s v) < card {1..32 :: int}" using True by simp
  then obtain d t where d: "vfs_alloc_descriptor s v kind flags node offset = Some (d, t)" "d \<noteq> 0"
      "d \<in> {1..32} - open_descs s v" "open_descs t v = insert d (open_descs s v)"
    using descriptor_table.alloc_when_room [OF law assms(1)] by blast
  then show ?thesis using True descriptor_table.alloc_close [OF law assms(1) d(1,2)] by auto
next
  case False
  have sub: "open_descs s v \<subseteq> {1..32}" by (auto simp: open_descs_def desc_id_def)
  then have "open_descs s v = {1..32}" using False card_seteq [OF _ sub] by simp
  then have "d \<in> open_descs s v" if "desc_id d" for d using that by (simp add: desc_id_def)
  then have "\<forall>d. desc_id d \<longrightarrow> df s v d 0 \<noteq> 0" by (simp add: open_descs_def)
  then show ?thesis using False alloc_descriptor [OF assms(1), of kind flags node offset] by (auto simp: first_closed_def)
qed

end
