(* ===== verification/SchedRun.thy ===== *)
theory SchedRun
  imports SchedExit Tasks VfsDesc
begin

text \<open>
  The scheduler's invariant over any sequence of its operations: choices, ticks, changes of the break,
  exits, new tasks and released slots, interleaved with anything the rest of the kernel does outside
  the scheduler's blocks.
\<close>

section \<open>What operations on one task entry keep\<close>

definition vfs_apart :: "machine \<Rightarrow> int \<Rightarrow> bool" where
  "vfs_apart s p \<longleftrightarrow> vfs_layout s (sq s p 14) \<and> vfs_area s (sq s p 14) \<inter> sched_area s p = {}"

definition keeps :: "int \<Rightarrow> (int \<times> int) set \<Rightarrow> machine \<Rightarrow> machine \<Rightarrow> bool" where
  "keeps p F s t \<longleftrightarrow> sched_layout t p \<and> vfs_apart t p \<and> (\<forall>k. 0 \<le> k \<and> k < 15 \<longrightarrow> sq t p k = sq s p k)
     \<and> (\<forall>u k. task_id u \<and> 0 \<le> k \<and> k < 25 \<and> (u, k) \<notin> F \<longrightarrow> tf t p u k = tf s p u k)
     \<and> (\<forall>i. rq t p i = rq s p i) \<and> sched_area t p = sched_area s p
     \<and> vfs_area t (sq s p 14) = vfs_area s (sq s p 14)"

lemma keeps_trans: "keeps p F s t \<Longrightarrow> keeps p F t u \<Longrightarrow> keeps p F s u"
  by (simp add: keeps_def)

lemma keeps_mono: "keeps p F s t \<Longrightarrow> F \<subseteq> G \<Longrightarrow> keeps p G s t"
  unfolding keeps_def by blast

lemma keeps_refl: "sched_layout s p \<Longrightarrow> vfs_apart s p \<Longrightarrow> keeps p F s s"
  by (simp add: keeps_def)

lemma vfs_apart_frame:
  assumes "vfs_apart s p" "writes_in (sched_area s p) s t" "sq t p 14 = sq s p 14" "sched_area t p = sched_area s p"
  shows "vfs_apart t p"
proof -
  have "\<forall>a \<in> vfs_area s (sq s p 14). mem t a = mem s a"
    using assms(1,2) by (auto simp: vfs_apart_def writes_in_def)
  then show ?thesis using vfs_frame [of s "sq s p 14" t] assms by (simp add: vfs_apart_def)
qed

lemma vfs_area_frame:
  assumes "vfs_apart s p" "writes_in (sched_area s p) s t"
  shows "vfs_area t (sq s p 14) = vfs_area s (sq s p 14)"
proof -
  have "\<forall>a \<in> vfs_area s (sq s p 14). mem t a = mem s a"
    using assms by (auto simp: vfs_apart_def writes_in_def)
  then show ?thesis using vfs_frame [of s "sq s p 14" t] assms(1) by (simp add: vfs_apart_def)
qed

lemma sview_keeps:
  assumes "sview p s (sq s p) f t" "vfs_apart s p" "\<And>u k. (u, k) \<notin> F \<Longrightarrow> f u k = tf s p u k"
  shows "keeps p F s t"
  using assms vfs_apart_frame [of s p t] vfs_area_frame [of s p t] by (auto simp: keeps_def sview_def)

lemma desc_keeps:
  assumes "desc_update (sq s p 14) d f s t" "sched_layout s p" "vfs_apart s p"
  shows "keeps p {} s t"
proof -
  let ?v = "sq s p 14"
  have "\<forall>a \<in> sched_area s p. mem t a = mem s a"
    using assms(1,3) by (auto simp: desc_update_def vfs_apart_def writes_in_def)
  note r = sched_frame [OF assms(2) this]
  have "vfs_apart t p" using assms(1,3) r(1) [of 14] r(5) by (simp add: vfs_apart_def desc_update_def)
  then show ?thesis using r assms(1) by (simp add: keeps_def task_id_def desc_update_def)
qed

lemma keeps_set:
  assumes "sched_layout s p" "vfs_apart s p" "task_id t" "0 \<le> k" "k < 25"
    and "set_scheduler_task_qword s (sq s p 8) t k x = Some s'"
  shows "keeps p {(t, k)} s s'"
proof -
  have "sview p s (sq s p) ((tf s p)(t := (tf s p t)(k := i64 x))) s'"
    using sview_task [OF sview_refl [OF assms(1)] assms(3-5), of x] assms(6) by simp
  then show ?thesis using assms(2) by (rule sview_keeps) auto
qed

section \<open>Descriptors of a task\<close>

abbreviation fd_slots :: "int \<Rightarrow> (int \<times> int) set" where
  "fd_slots t \<equiv> {t} \<times> {16..19}"

lemma set_fd_keeps:
  assumes "sched_layout s p" "vfs_apart s p" "task_id t" "scheduler_set_task_fd_object s p t fd d = Some s'"
  shows "keeps p (fd_slots t) s s'"
proof -
  define k where "k = task_fd_slot fd"
  have k: "\<not> k < 0" using assms(4) by (auto simp: scheduler_set_task_fd_object_def k_def panic_def Let_def)
  then have "16 \<le> k" "k \<le> 19" by (auto simp: k_def task_fd_slot_def sched_const split: if_splits)
  moreover have "set_scheduler_task_qword s (sq s p 8) t k d = Some s'"
    using assms(1,4) k by (simp add: scheduler_set_task_fd_object_def k_def [symmetric] sched_getters sched_const)
  ultimately show ?thesis using keeps_mono [OF keeps_set [OF assms(1-3), of k d s']] by auto
qed

lemma close_keeps:
  assumes "sched_layout s p" "vfs_apart s p" "vfs_close_descriptor s (sq s p 14) d = Some (r, s')"
  shows "keeps p {} s s'"
proof -
  let ?v = "sq s p 14"
  have lay: "vfs_layout s ?v" using assms(2) by (simp add: vfs_apart_def)
  consider "d \<le> 0" | "\<not> desc_id d" "0 < d" | "desc_id d" by (cases "desc_id d"; cases "d \<le> 0") auto
  then show ?thesis
  proof cases
    case 1
    then have "s' = s" using assms(3) by (simp add: vfs_close_descriptor_def)
    then show ?thesis using assms keeps_refl by blast
  next
    case 2
    then show ?thesis using assms(3) vfs_desc_range [OF lay] by (simp add: vfs_close_descriptor_def)
  next
    case 3
    note c = close_descriptor [OF lay 3]
    show ?thesis
    proof (cases "df s ?v d 0 = 0")
      case True
      then show ?thesis using c(1) assms keeps_refl by auto
    next
      case False
      then show ?thesis using c(2) assms desc_keeps by fastforce
    qed
  qed
qed

lemma release_fds_keeps:
  assumes "sched_layout s p" "vfs_apart s p" "task_id t" "scheduler_release_task_fds s p t = Some s'"
  shows "keeps p (fd_slots t) s s'"
proof -
  let ?v = "sq s p 14"
  let ?body = "\<lambda>fd s. do {
       desc_id \<leftarrow> scheduler_task_fd_object s p t fd;
       if desc_id \<noteq> 0 then do {
         (_, s) \<leftarrow> vfs_close_descriptor s ?v desc_id;
         scheduler_set_task_fd_object s p t fd 0 }
       else Some s }"
  have run: "for_range 0 4 ?body s = Some s'"
    using assms(1,4) by (simp add: scheduler_release_task_fds_def sched_getters sched_const)
  show ?thesis
  proof (rule for_range_inv [OF run, where P = "\<lambda>_. keeps p (fd_slots t) s"])
    show "keeps p (fd_slots t) s s" using assms by (intro keeps_refl)
    fix i a b assume a: "keeps p (fd_slots t) s a" and b: "?body i a = Some b"
    then have la: "sched_layout a p" "vfs_apart a p" "sq a p 14 = ?v" by (simp_all add: keeps_def)
    obtain d where d: "scheduler_task_fd_object a p t i = Some d" using b by (auto simp: bind_eq_Some_conv)
    show "keeps p (fd_slots t) s b"
    proof (cases "d = 0")
      case True
      then show ?thesis using a b d by simp
    next
      case False
      then obtain r c where c: "vfs_close_descriptor a (sq a p 14) d = Some (r, c)" "scheduler_set_task_fd_object c p t i 0 = Some b"
        using b d la(3) by (auto simp: bind_eq_Some_conv)
      have ac: "keeps p {} a c" using close_keeps [OF la(1,2) c(1)] .
      then have "sched_layout c p" "vfs_apart c p" by (simp_all add: keeps_def)
      then have "keeps p (fd_slots t) c b" using set_fd_keeps assms(3) c(2) by blast
      then show ?thesis using a keeps_mono [OF ac, of "fd_slots t"] keeps_trans by blast
    qed
  qed simp
qed

lemma alloc_keeps:
  assumes "sched_layout s p" "vfs_apart s p"
    and "vfs_alloc_descriptor s (sq s p 14) kind flags node offset = Some (d, s')"
  shows "keeps p {} s s'"
proof -
  have "vfs_layout s (sq s p 14)" using assms(2) by (simp add: vfs_apart_def)
  from alloc_descriptor [OF this, of kind flags node offset] show ?thesis
    using assms desc_keeps keeps_refl by fastforce
qed

lemma init_fds_keeps:
  assumes "sched_layout s p" "vfs_apart s p" "task_id t" "scheduler_init_task_fds s p t = Some s'"
  shows "keeps p (fd_slots t) s s'"
proof -
  let ?v = "sq s p 14"
  obtain d0 s0 d1 s1 d2 s2 where a: "vfs_alloc_console_in_descriptor s ?v = Some (d0, s0)"
      "vfs_alloc_console_out_descriptor s0 ?v = Some (d1, s1)" "vfs_alloc_console_out_descriptor s1 ?v = Some (d2, s2)"
    and set: "(do { s \<leftarrow> scheduler_set_task_fd_object s2 p t 0 d0; s \<leftarrow> scheduler_set_task_fd_object s p t 1 d1;
       s \<leftarrow> scheduler_set_task_fd_object s p t 2 d2; scheduler_set_task_fd_object s p t 3 0 }) = Some s'"
    using assms(1,4) by (auto simp: scheduler_init_task_fds_def sched_getters sched_const bind_eq_Some_conv panic_def split: if_splits)
  let ?F = "fd_slots t"
  have k0: "keeps p ?F s s0"
    using keeps_mono [OF alloc_keeps [OF assms(1,2)]] a(1) by (simp add: vfs_alloc_console_in_descriptor_def)
  have k1: "keeps p ?F s s1"
    using keeps_mono [OF alloc_keeps, of s0 p _ _ _ _ _ s1 ?F] a(2) k0 keeps_trans [OF k0]
    by (simp add: vfs_alloc_console_out_descriptor_def keeps_def)
  have k2: "keeps p ?F s s2"
    using keeps_mono [OF alloc_keeps, of s1 p _ _ _ _ _ s2 ?F] a(3) k1 keeps_trans [OF k1]
    by (simp add: vfs_alloc_console_out_descriptor_def keeps_def)
  have step: "keeps p ?F s b" if "keeps p ?F s a" "scheduler_set_task_fd_object a p t i x = Some b" for a b i x
    using set_fd_keeps [OF _ _ assms(3) that(2)] that(1) keeps_trans by (auto simp: keeps_def)
  obtain a b c where "scheduler_set_task_fd_object s2 p t 0 d0 = Some a" "scheduler_set_task_fd_object a p t 1 d1 = Some b"
      "scheduler_set_task_fd_object b p t 2 d2 = Some c" "scheduler_set_task_fd_object c p t 3 0 = Some s'"
    using set by (auto simp: bind_eq_Some_conv)
  then show ?thesis using step [OF step [OF step [OF step [OF k2]]]] by blast
qed

section \<open>Filling and clearing an entry\<close>

primrec set_fields :: "machine \<Rightarrow> int \<Rightarrow> int \<Rightarrow> (int \<times> int) list \<Rightarrow> machine option" where
  "set_fields s table t [] = Some s"
| "set_fields s table t (kx # kxs) = do { s \<leftarrow> set_scheduler_task_qword s table t (fst kx) (snd kx); set_fields s table t kxs }"

definition put_fields :: "(int \<times> int) list \<Rightarrow> (int \<Rightarrow> int) \<Rightarrow> int \<Rightarrow> int" where
  "put_fields kxs r = fold (\<lambda>(k, x) r. r(k := i64 x)) kxs r"

lemma put_fields_simps [simp]: "put_fields [] r = r" "put_fields ((k, x) # kxs) r = put_fields kxs (r(k := i64 x))"
  by (simp_all add: put_fields_def)

lemma set_fields_sview:
  assumes "sview p s g f a" "task_id t" "\<forall>kx \<in> set kxs. 0 \<le> fst kx \<and> fst kx < 25"
  shows "\<exists>b. set_fields a (sq a p 8) t kxs = Some b \<and> sview p s g (f(t := put_fields kxs (f t))) b"
  using assms
proof (induction kxs arbitrary: a f)
  case (Cons kx kxs)
  obtain k x where kx: "kx = (k, x)" by (cases kx)
  obtain b where b: "set_scheduler_task_qword a (sq a p 8) t k x = Some b" "sview p s g (f(t := (f t)(k := i64 x))) b"
    using sview_task [OF Cons.prems(1,2), of k x] Cons.prems(3) kx by auto
  have "sq b p 8 = sq a p 8" using sview_sq [OF b(2), of 8] sview_sq [OF Cons.prems(1), of 8] by simp
  then obtain c where "set_fields b (sq a p 8) t kxs = Some c"
      "sview p s g ((f(t := (f t)(k := i64 x)))(t := put_fields kxs ((f(t := (f t)(k := i64 x))) t))) c"
    using Cons.IH [OF b(2) Cons.prems(2)] Cons.prems(3) by (metis list.set_intros(2))
  then have "sview p s g (f(t := put_fields kxs ((f t)(k := i64 x)))) c" "set_fields a (sq a p 8) t (kx # kxs) = Some c"
    using b(1) kx by simp_all
  then show ?case unfolding kx put_fields_simps by blast
qed simp

lemma set_task_row:
  assumes "sched_layout s p" "task_id t"
  shows "\<exists>u f. sview p s (sq s p) f u \<and> (\<forall>x. x \<noteq> t \<longrightarrow> f x = tf s p x) \<and> f t 1 = i64 st \<and> f t 2 = 0 \<and> f t 7 = i64 ctx
    \<and> scheduler_set_task s p t st nm ctx stk mode root ub ul pa pc sp par hb hl hk irq = scheduler_init_task_fds u p t"
proof -
  let ?kxs = "[(0, t), (1, st), (2, 0), (3, 0), (4, nm), (5, 0), (6, 0), (7, ctx), (8, stk), (9, mode), (10, root),
    (11, ub), (12, ul), (13, pa), (14, pc), (15, sp), (20, par), (21, hb), (22, hl), (23, hk), (24, irq)]"
  obtain u where u: "set_fields s (sq s p 8) t ?kxs = Some u" "sview p s (sq s p) ((tf s p)(t := put_fields ?kxs (tf s p t))) u"
    using set_fields_sview [OF sview_refl [OF assms(1)] assms(2), of ?kxs] by auto
  have "scheduler_set_task s p t st nm ctx stk mode root ub ul pa pc sp par hb hl hk irq =
      (set_fields s (sq s p 8) t ?kxs \<bind> (\<lambda>s. scheduler_init_task_fds s p t))"
    using assms(1) by (simp add: scheduler_set_task_def sched_getters sched_const del: sched_write)
  then have "scheduler_set_task s p t st nm ctx stk mode root ub ul pa pc sp par hb hl hk irq = scheduler_init_task_fds u p t"
    using u(1) by (simp del: set_fields.simps)
  then show ?thesis using u(2) by (intro exI [of _ u] exI [of _ "(tf s p)(t := put_fields ?kxs (tf s p t))"]) (simp add: i64_id)
qed

lemma clear_task:
  assumes "sched_layout s p" "task_id t"
  shows "\<exists>u. scheduler_clear_task s (sq s p 8) t = Some u \<and> sview p s (sq s p) ((tf s p)(t := \<lambda>k. if k < 25 then 0 else tf s p t k)) u"
proof -
  let ?f = "\<lambda>n. (tf s p)(t := \<lambda>k. if 0 \<le> k \<and> k < n then 0 else tf s p t k)"
  have "\<exists>u. for_range 0 25 (\<lambda>slot s'. set_scheduler_task_qword s' (sq s p 8) t slot 0) s = Some u \<and> sview p s (sq s p) (?f 25) u"
  proof (rule for_range_total [where P = "\<lambda>n. sview p s (sq s p) (?f n)"])
    have "?f 0 = tf s p" by (auto simp: fun_eq_iff)
    then show "sview p s (sq s p) (?f 0) s" using sview_refl [OF assms(1)] by simp
    fix i a assume i: "0 \<le> i" "i < 25" and a: "sview p s (sq s p) (?f i) a"
    have e: "?f (i + 1) = (?f i)(t := (?f i t)(i := i64 0))" using i by (auto simp: fun_eq_iff i64_id)
    have "sq a p 8 = sq s p 8" using sview_sq [OF a, of 8] by simp
    then show "\<exists>b. set_scheduler_task_qword a (sq s p 8) t i 0 = Some b \<and> sview p s (sq s p) (?f (i + 1)) b"
      using sview_task [OF a assms(2) i, of 0] unfolding e by simp
  qed simp
  then obtain u where "for_range 0 25 (\<lambda>slot s'. set_scheduler_task_qword s' (sq s p 8) t slot 0) s = Some u"
    "sview p s (sq s p) (?f 25) u" by blast
  then show ?thesis by (auto simp: scheduler_clear_task_def sched_const sview_def)
qed

section \<open>The invariant\<close>

definition contexts_apart :: "machine \<Rightarrow> int \<Rightarrow> bool" where
  "contexts_apart s p \<longleftrightarrow> (\<forall>t. task_id t \<and> tf s p t 1 \<noteq> 0 \<longrightarrow>
     context_area s p t \<inter> (sched_area s p \<union> vfs_area s (sq s p 14)) = {})"

text \<open>
  Queue, counts, separation from the other blocks, and accounting: the idle task's run time is the idle
  time.
\<close>

definition sched_ok :: "machine \<Rightarrow> int \<Rightarrow> bool" where
  "sched_ok s p \<longleftrightarrow> sched_inv s p \<and> counted s p \<and> vfs_apart s p \<and> contexts_apart s p
     \<and> sq s p 6 = tf s p (sq s p 2) 2"

lemma sched_okD:
  assumes "sched_ok s p"
  shows "sched_inv s p" "counted s p" "vfs_apart s p" "contexts_apart s p" "sq s p 6 = tf s p (sq s p 2) 2"
    "sched_layout s p" "ring_ok s p" "task_id (sq s p 1)" "task_id (sq s p 2)" "length (ready s p) < 16"
  using assms sched_inv_layout waiting_props(5) by (auto simp: sched_ok_def sched_inv_def)

lemma contexts_apart_same:
  assumes "contexts_apart s p" "sched_area t p = sched_area s p" "vfs_area t (sq t p 14) = vfs_area s (sq s p 14)"
    and "\<And>u. task_id u \<Longrightarrow> tf t p u 1 \<noteq> 0 \<Longrightarrow> tf t p u 7 = tf s p u 7 \<and> tf s p u 1 \<noteq> 0"
  shows "contexts_apart t p"
  using assms unfolding contexts_apart_def context_area_def by metis

lemma sched_ok_view:
  assumes "sched_ok s p" "sview p s g f t" "\<And>k. k \<in> {0, 1, 2, 10, 11, 14} \<Longrightarrow> g k = sq s p k"
    and "\<And>u. f u 1 = tf s p u 1 \<and> f u 7 = tf s p u 7" "g 6 = f (sq s p 2) 2"
  shows "sched_ok t p"
proof -
  note o = sched_okD [OF assms(1)]
  have q: "sq t p k = sq s p k" if "k \<in> {0, 1, 2, 10, 11, 14}" for k using sview_sq [OF assms(2), of k] assms(3) [OF that] that by auto
  have f: "tf t p u 1 = tf s p u 1" "tf t p u 7 = tf s p u 7" if "task_id u" for u
    using sview_tf [OF assms(2) that] assms(4) by simp_all
  have w: "writes_in (sched_area s p) s t" "sched_area t p = sched_area s p" using assms(2) by (simp_all add: sview_def)
  have "sched_inv t p" using o(1) assms(2) by (rule sched_inv_view) (use assms(3,4) in auto)
  moreover have "counted t p" using o(2,8,9) q f by (auto simp: counted_def runnable_def)
  moreover have v: "vfs_apart t p" using vfs_apart_frame [OF o(3) w(1) _ w(2)] q by simp
  moreover have "contexts_apart t p"
    using contexts_apart_same [OF o(4) w(2)] vfs_area_frame [OF o(3) w(1)] q f by simp
  moreover have "sq t p 6 = tf t p (sq t p 2) 2"
    using sview_sq [OF assms(2), of 6] sview_tf [OF assms(2) o(9), of 2] assms(5) q by simp
  ultimately show ?thesis by (simp add: sched_ok_def)
qed

lemma ok_pick:
  assumes "sched_ok s p" "sq s p 11 < 2 ^ 62" "scheduler_pick_next_task s p = Some (n, t)"
  shows "sched_ok t p"
proof -
  note o = sched_okD [OF assms(1)]
  have r: "sched_inv t p" "picked p s n t" "n = sq s p 2 \<or> runnable s p n" "task_id n"
    using pick_inv [OF o(1) assms(2)] assms(3) by auto
  have q: "sq t p k = sq s p k" if "k \<in> {0, 2, 6, 14}" for k using r(2) that by (auto simp: picked_def)
  have f: "tf t p u k = tf s p u k" if "task_id u" "k \<in> {1, 2, 7}" for u k using r(2) that by (auto simp: picked_def)
  have w: "writes_in (sched_area s p) s t" "sched_area t p = sched_area s p" "sq t p 1 = n" using r(2) by (simp_all add: picked_def)
  have "counted t p" using o(2,9) q f w(3) r(3,4) by (auto simp: counted_def runnable_def)
  moreover have "vfs_apart t p" using vfs_apart_frame [OF o(3) w(1) _ w(2)] q by simp
  moreover have "contexts_apart t p"
    using contexts_apart_same [OF o(4) w(2)] vfs_area_frame [OF o(3) w(1)] q f by simp
  moreover have "sq t p 6 = tf t p (sq t p 2) 2" using o(5,9) q f by simp
  ultimately show ?thesis using r(1) by (simp add: sched_ok_def)
qed

lemma ok_tick:
  assumes "sched_ok s p" "in64 now" "scheduler_account_tick s p now = Some (d, t)"
  shows "sched_ok t p"
proof -
  note o = sched_okD [OF assms(1)]
  note a = account_tick [OF o(6,8) assms(2)]
  show ?thesis
  proof (cases "now \<le> sq s p 3")
    case True
    then show ?thesis using a(1) assms(1,3) by simp
  next
    case False
    let ?d = "i64 (now - sq s p 3)"
    have "sview p s (charge ?d (sq s p) now)
        ((tf s p)(sq s p 1 := (tf s p (sq s p 1))(2 := i64 (tf s p (sq s p 1) 2 + ?d)))) t"
      using a(2) False assms(3) by auto
    with assms(1) show ?thesis
      by (rule sched_ok_view) (use o(5) in \<open>auto simp: charge_def Let_def\<close>)
  qed
qed

lemma ok_brk:
  assumes "sched_ok s p" "task_id i" "in64 req" "scheduler_brk s p i req = Some (r, t)"
  shows "sched_ok t p"
proof -
  note o = sched_okD [OF assms(1)]
  have "t = s \<or> sview p s (sq s p) ((tf s p)(i := (tf s p i)(23 := req))) t"
    using brk [OF o(6) assms(2,3)] assms(4) by auto
  then show ?thesis
  proof
    assume "sview p s (sq s p) ((tf s p)(i := (tf s p i)(23 := req))) t"
    with assms(1) show ?thesis by (rule sched_ok_view) (use o(5) in auto)
  qed (use assms(1) in simp)
qed

lemma ok_exit:
  assumes "sched_ok s p" "sq s p 11 < 2 ^ 62" "scheduler_exit_current_task s p code = Some t"
  shows "sched_ok t p"
proof -
  note o = sched_okD [OF assms(1)]
  have ne: "sq s p 1 \<noteq> sq s p 2"
    using assms(3) o(6) by (auto simp: scheduler_exit_current_task_def sched_getters sched_const panic_def)
  have cur: "tf s p (sq s p 1) 1 \<noteq> 0" using o(2) by (simp add: counted_def runnable_def)
  then have apart: "context_area s p (sq s p 1) \<inter> (sched_area s p \<union> vfs_area s (sq s p 14)) = {}"
    using o(4,8) by (simp add: contexts_apart_def)
  then have "context_area s p (sq s p 1) \<inter> sched_area s p = {}" by blast
  note e = exit_task [OF o(1,2) ne assms(2) this, of code]
  have t: "sched_inv t p" "counted t p" "tf t p (sq s p 1) 1 = 3" "sched_area t p = sched_area s p"
      "\<forall>a. a \<notin> sched_area s p \<union> context_area s p (sq s p 1) \<longrightarrow> mem t a = mem s a"
    and q: "\<And>k. 0 \<le> k \<Longrightarrow> k < 15 \<Longrightarrow> k \<notin> {1, 7, 10, 11} \<Longrightarrow> sq t p k = sq s p k"
    and f: "\<And>u k. task_id u \<Longrightarrow> 0 \<le> k \<Longrightarrow> k < 25 \<Longrightarrow> k \<notin> {1, 3, 6, 20} \<Longrightarrow> tf t p u k = tf s p u k"
    and st: "\<And>u. task_id u \<Longrightarrow> tf t p u 1 = (if u = sq s p 1 then 3 else tf s p u 1)"
    using e assms(3) by auto
  have v: "vfs_layout s (sq s p 14)" using o(3) by (simp add: vfs_apart_def)
  have "\<forall>a \<in> vfs_area s (sq s p 14). mem t a = mem s a"
    using apart o(3) t(5) unfolding vfs_apart_def by blast
  note vf = vfs_frame [OF v this]
  have "vfs_apart t p" using o(3) vf q [of 14] t(4) by (simp add: vfs_apart_def)
  moreover have "contexts_apart t p"
  proof (rule contexts_apart_same [OF o(4) t(4)])
    show "vfs_area t (sq t p 14) = vfs_area s (sq s p 14)" using vf(5) q [of 14] by simp
    show "tf t p u 7 = tf s p u 7 \<and> tf s p u 1 \<noteq> 0" if "task_id u" "tf t p u 1 \<noteq> 0" for u
      using f [OF that(1), of 7] st [OF that(1)] that(2) cur by (auto split: if_splits)
  qed
  moreover have "sq t p 6 = tf t p (sq t p 2) 2" using o(5,9) q [of 6] q [of 2] f by simp
  ultimately show ?thesis using t by (simp add: sched_ok_def)
qed

section \<open>New tasks and released slots\<close>

lemma keeps_ok:
  assumes "keeps p ({i} \<times> UNIV) s t" "sched_ok s p" "i \<noteq> sq s p 2"
  shows "ready t p = ready s p" "ring_ok t p" "sched_layout t p" "vfs_apart t p"
    "\<And>k. 0 \<le> k \<Longrightarrow> k < 15 \<Longrightarrow> sq t p k = sq s p k"
    "\<And>u k. task_id u \<Longrightarrow> u \<noteq> i \<Longrightarrow> 0 \<le> k \<Longrightarrow> k < 25 \<Longrightarrow> tf t p u k = tf s p u k"
    "sched_area t p = sched_area s p" "sq t p 6 = tf t p (sq t p 2) 2"
    "vfs_area t (sq s p 14) = vfs_area s (sq s p 14)"
  using assms sched_okD [OF assms(2)] by (auto simp: keeps_def ready_def ring_ok_def)

lemma trim_count:
  assumes "sched_layout s p" "0 \<le> n" "n \<le> 8"
  shows "\<exists>m. scheduler_trim_count s p n = Some m \<and> 0 \<le> m \<and> m \<le> n \<and> (\<forall>u. m \<le> u \<and> u < n \<longrightarrow> tf s p u 1 = 0)"
  using assms(2,3)
proof (induction "nat n" arbitrary: n)
  case 0
  then show ?case by (auto simp: scheduler_trim_count.simps [of s p 0])
next
  case (Suc k)
  have n: "0 < n" "task_id (n - 1)" using Suc.hyps(2) Suc.prems by (auto simp: task_id_def)
  have st: "scheduler_task_state s p (n - 1) = Some (tf s p (n - 1) 1)" using assms(1) n(2) by (rule task_state_eq)
  show ?case
  proof (cases "tf s p (n - 1) 1 = 0")
    case True
    then obtain m where "scheduler_trim_count s p (n - 1) = Some m" "0 \<le> m" "m \<le> n - 1" "\<forall>u. m \<le> u \<and> u < n - 1 \<longrightarrow> tf s p u 1 = 0"
      using Suc.hyps(1) [of "n - 1"] Suc.hyps(2) Suc.prems by force
    moreover from this True have "\<forall>u. m \<le> u \<and> u < n \<longrightarrow> tf s p u 1 = 0" by (metis zle_diff1_eq order_le_imp_less_or_eq)
    ultimately show ?thesis using st n True by (auto simp: scheduler_trim_count.simps [of s p n] sched_const)
  next
    case False
    then show ?thesis using st n by (auto simp: scheduler_trim_count.simps [of s p n] sched_const)
  qed
qed

lemma set_task_keeps:
  assumes "sched_ok s p" "task_id i"
    and "scheduler_set_task s p i st nm ctx stk mode root ub ul pa pc sp par hb hl hk irq = Some t"
  shows "keeps p ({i} \<times> UNIV) s t" "tf t p i 1 = i64 st" "tf t p i 7 = i64 ctx"
proof -
  note o = sched_okD [OF assms(1)]
  obtain u f where u: "sview p s (sq s p) f u" "\<forall>x. x \<noteq> i \<longrightarrow> f x = tf s p x" "f i 1 = i64 st" "f i 7 = i64 ctx"
      "scheduler_init_task_fds u p i = Some t"
    using set_task_row [OF o(6) assms(2)] assms(3) by metis
  have k: "keeps p ({i} \<times> UNIV) s u" using u(1) o(3) by (rule sview_keeps) (use u(2) in auto)
  have d: "keeps p (fd_slots i) u t"
    using init_fds_keeps [OF _ _ assms(2) u(5)] k by (simp add: keeps_def)
  show "keeps p ({i} \<times> UNIV) s t" using keeps_trans [OF k keeps_mono [OF d]] by blast
  show "tf t p i 1 = i64 st" "tf t p i 7 = i64 ctx"
    using d assms(2) u(3,4) sview_tf [OF u(1) assms(2)] by (auto simp: keeps_def)
qed

lemma ok_admit:
  assumes "sched_ok s p" "sq s p 11 < 2 ^ 62" "task_id i" "tf s p i 1 = 0" "i \<le> sq s p 0"
    and "scheduler_set_task s p i task_state_runnable nm ctx stk mode root ub ul pa pc sp par hb hl hk irq = Some t"
    and "scheduler_publish_task t p i = Some u"
    and "in64 ctx" "{ctx..<ctx + 56} \<inter> (sched_area s p \<union> vfs_area s (sq s p 14)) = {}"
  shows "sched_ok u p"
proof -
  note o = sched_okD [OF assms(1)]
  have ne: "i \<noteq> sq s p 2" "i \<noteq> sq s p 1" using assms(4) o(2) by (auto simp: counted_def runnable_def)
  note st = set_task_keeps [OF assms(1,3,6)]
  note k = keeps_ok [OF st(1) assms(1) ne(1)]
  have ti: "tf t p i 1 = 1" "tf t p i 7 = ctx" using st(2,3) i64_id [OF assms(8)] by (simp_all add: sched_const i64_id in64_def)
  define c where "c = max (sq s p 0) (i + 1)"
  have c: "0 \<le> c" "c \<le> 8" "i64 c = c" "sq s p 0 \<le> c" "i < c" using o(2) assms(3) by (auto simp: c_def counted_def task_id_def intro!: i64_id in64I)
  have "\<exists>a. (if i \<ge> sq s p 0 then set_scheduler_state_qword t p sched_slot_task_count (i + 1) else Some t) = Some a
      \<and> sview p t ((sq t p)(0 := c)) (tf t p) a"
  proof (cases "i \<ge> sq s p 0")
    case True
    then have "c = i + 1" by (simp add: c_def)
    then show ?thesis using True sview_state [OF sview_refl [OF k(3)], of 0 "i + 1"] c(3) by (auto simp: sched_const)
  next
    case False
    then have "(sq t p)(0 := c) = sq t p" using k(5) [of 0] by (simp add: c_def fun_upd_idem)
    then show ?thesis using False sview_refl [OF k(3)] by simp
  qed
  then obtain a where a: "(if i \<ge> sq s p 0 then set_scheduler_state_qword t p sched_slot_task_count (i + 1) else Some t) = Some a"
    "sview p t ((sq t p)(0 := c)) (tf t p) a" by blast
  have enq: "scheduler_enqueue_task a p i = Some u"
    using assms(7) a(1) k(3,5) by (simp add: scheduler_publish_task_def sched_getters sched_const)
  have ra: "ready a p = ready s p" "ring_ok a p" using sview_ready [OF a(2)] sview_ring [OF a(2)] k by simp_all
  have qa: "sq a p j = ((sq s p)(0 := c)) j" if "0 \<le> j" "j < 15" for j using sview_sq [OF a(2) that] k(5) that by simp
  have fa: "tf a p x j = tf t p x j" if "task_id x" "0 \<le> j" "j < 25" for x j using sview_tf [OF a(2) that] .
  obtain u' where u': "scheduler_enqueue_task a p i = Some u'" "ring_ok u' p" "ready u' p = ready s p @ [i]" "same_tasks p a u'"
    using ring_enqueue [OF ra(2) assms(3)] o(10) assms(2) ra qa by fastforce
  then have u: "ring_ok u p" "ready u p = ready s p @ [i]" "same_tasks p a u" using enq by simp_all
  have q: "sq u p j = ((sq s p)(0 := c)) j" if "0 \<le> j" "j < 15" "j \<noteq> 10" "j \<noteq> 11" for j
    using u(3) qa that by (simp add: same_tasks_def)
  have f: "tf u p x j = tf t p x j" if "task_id x" "0 \<le> j" "j < 25" for x j using u(3) fa that by (simp add: same_tasks_def)
  have f': "tf u p x j = tf s p x j" if "task_id x" "x \<noteq> i" "0 \<le> j" "j < 25" for x j
    using f [OF that(1,3,4)] k(6) [OF that] by simp
  have run: "runnable u p x \<longleftrightarrow> x = i \<or> runnable s p x" if "task_id x" for x
    using f [OF that, of 1] f' [OF that, of 1] ti(1) assms(4) by (cases "x = i") (auto simp: runnable_def)
  have inv: "sched_inv u p"
  proof -
    have "i \<notin> set (ready s p)" using o(1) assms(4) ne by (auto simp: sched_inv_def runnable_def)
    then show ?thesis using o(1) u run ne assms(3) q [of 1] q [of 2] unfolding sched_inv_def by auto
  qed
  moreover have "counted u p"
  proof -
    have "x < c" if "task_id x" "tf u p x 1 \<noteq> 0" for x
      using o(2) c(4,5) f' [OF that(1), of 1] that by (cases "x = i") (auto simp: counted_def)
    then show ?thesis using o(2,8,9) c run q [of 0] q [of 1] q [of 2] by (simp add: counted_def)
  qed
  moreover have w: "writes_in (sched_area t p) t u"
    using a(2) u(3) writes_in_trans [of "sched_area t p" t a u] by (simp add: sview_def same_tasks_def)
  moreover have ar: "sched_area u p = sched_area t p" using a(2) u(3) by (simp add: sview_def same_tasks_def)
  moreover have v14: "sq u p 14 = sq t p 14" using q [of 14] k(5) [of 14] by simp
  moreover have "vfs_apart u p" using vfs_apart_frame [OF k(4) w v14 ar] .
  moreover have "contexts_apart u p"
    unfolding contexts_apart_def
  proof (intro allI impI, elim conjE)
    fix x assume x: "task_id x" "tf u p x 1 \<noteq> 0"
    have area: "sched_area u p \<union> vfs_area u (sq u p 14) = sched_area s p \<union> vfs_area s (sq s p 14)"
      using ar k(7) vfs_area_frame [OF k(4) w] v14 k(5) [of 14] k(9) by simp
    show "context_area u p x \<inter> (sched_area u p \<union> vfs_area u (sq u p 14)) = {}"
    proof (cases "x = i")
      case True
      then show ?thesis unfolding area context_area_def using f [OF x(1), of 7] ti(2) assms(9) by simp
    next
      case False
      then show ?thesis unfolding area using o(4) f' [OF x(1) False, of 7] f' [OF x(1) False, of 1] x
        by (simp add: contexts_apart_def context_area_def)
    qed
  qed
  moreover have "sq u p 6 = tf u p (sq u p 2) 2" using o(5,9) q [of 6] q [of 2] f' [OF o(9), of 2] ne by simp
  ultimately show ?thesis by (simp add: sched_ok_def)
qed

lemma ok_release:
  assumes "sched_ok s p" "task_id i" "tf s p i 1 = 3" "scheduler_release_task_slot s p i = Some u"
  shows "sched_ok u p"
proof -
  note o = sched_okD [OF assms(1)]
  have ne: "i \<noteq> sq s p 2" "i \<noteq> sq s p 1" using assms(3) o(2) by (auto simp: counted_def runnable_def)
  obtain a b m where a: "scheduler_release_task_fds s p i = Some a" and b: "scheduler_clear_task a (sq s p 8) i = Some b"
    and m: "(do { n \<leftarrow> scheduler_task_count b p; n \<leftarrow> scheduler_trim_count b p n; Some n }) = Some m"
      "set_scheduler_state_qword b p sched_slot_task_count m = Some u"
    using assms(4) o(6) by (auto simp: scheduler_release_task_slot_def bind_eq_Some_conv scheduler_task_table_ptr_def sched_const simp del: sched_write)
  have "fd_slots i \<subseteq> {i} \<times> UNIV" by auto
  note ka = keeps_mono [OF release_fds_keeps [OF o(6,3) assms(2) a] this]
  note k = keeps_ok [OF ka assms(1) ne(1)]
  have vb: "sview p a (sq a p) ((tf a p)(i := \<lambda>k. if k < 25 then 0 else tf a p i k)) b"
    using clear_task [OF k(3) assms(2)] b k(5) [of 8] by simp
  have qb: "sq b p j = sq s p j" if "0 \<le> j" "j < 15" for j using sview_sq [OF vb that] k(5) [OF that] by simp
  have fb: "tf b p x j = (if x = i then 0 else tf s p x j)" if "task_id x" "0 \<le> j" "j < 25" for x j
    using sview_tf [OF vb that] k(6) [OF that(1) _ that(2,3)] that by simp
  have m': "scheduler_trim_count b p (sq s p 0) = Some m"
    using m(1) sview_layout [OF vb] qb [of 0] by (simp add: sched_getters sched_const bind_eq_Some_conv)
  have mp: "0 \<le> m" "m \<le> sq s p 0" "\<forall>x. m \<le> x \<and> x < sq s p 0 \<longrightarrow> tf b p x 1 = 0"
    using trim_count [OF sview_layout [OF vb], of "sq s p 0"] o(2) m' by (auto simp: counted_def)
  have im: "i64 m = m" using mp o(2) by (auto simp: counted_def intro!: i64_id in64I)
  have vu: "sview p a ((sq a p)(0 := m)) ((tf a p)(i := \<lambda>k. if k < 25 then 0 else tf a p i k)) u"
    using sview_state [OF vb, of 0 m] m(2) im by (simp add: sched_const)
  have q: "sq u p j = ((sq s p)(0 := m)) j" if "0 \<le> j" "j < 15" for j using sview_sq [OF vu that] k(5) [OF that] by simp
  have f: "tf u p x j = (if x = i then 0 else tf s p x j)" if "task_id x" "0 \<le> j" "j < 25" for x j
    using sview_tf [OF vu that] k(6) [OF that(1) _ that(2,3)] that by simp
  have r: "ready u p = ready s p" "ring_ok u p" using sview_ready [OF vu] sview_ring [OF vu] k(1,2) by simp_all
  have run: "runnable u p x \<longleftrightarrow> runnable s p x" if "task_id x" for x
    using f [OF that, of 1] assms(3) by (simp add: runnable_def)
  have "sched_inv u p" using o(1) r run q [of 1] q [of 2] unfolding sched_inv_def by auto
  moreover have "counted u p"
  proof -
    have "x < m" if x: "task_id x" "tf u p x 1 \<noteq> 0" for x
    proof -
      have "tf b p x 1 = tf u p x 1" using fb [OF x(1), of 1] f [OF x(1), of 1] by simp
      moreover have "x < sq s p 0" using f [OF x(1), of 1] x o(2) by (auto simp: counted_def split: if_splits)
      ultimately show ?thesis using mp(3) x(2) by (cases "x < m") auto
    qed
    then show ?thesis using o(2,8,9) mp q [of 0] q [of 1] q [of 2] run by (simp add: counted_def)
  qed
  moreover have w: "writes_in (sched_area a p) a u" "sched_area u p = sched_area a p" using vu by (simp_all add: sview_def)
  moreover have v14: "sq u p 14 = sq a p 14" using q [of 14] k(5) [of 14] by simp
  moreover have "vfs_apart u p" using vfs_apart_frame [OF k(4) w(1) v14 w(2)] .
  moreover have "contexts_apart u p"
  proof (rule contexts_apart_same [OF o(4)])
    show "sched_area u p = sched_area s p" using w(2) k(7) by simp
    show "vfs_area u (sq u p 14) = vfs_area s (sq s p 14)" using vfs_area_frame [OF k(4) w(1)] v14 k(5) [of 14] k(9) by simp
    show "tf u p x 7 = tf s p x 7 \<and> tf s p x 1 \<noteq> 0" if "task_id x" "tf u p x 1 \<noteq> 0" for x
      using f [OF that(1), of 7] f [OF that(1), of 1] that(2) by (auto split: if_splits)
  qed
  moreover have "sq u p 6 = tf u p (sq u p 2) 2" using o(5,9) q [of 6] q [of 2] f [OF o(9), of 2] ne by simp
  ultimately show ?thesis by (simp add: sched_ok_def)
qed

lemma ok_foreign:
  assumes "sched_ok s p" "\<forall>a \<in> sched_area s p. mem t a = mem s a"
    and "vfs_layout t (sq s p 14)" "vfs_area t (sq s p 14) = vfs_area s (sq s p 14)"
  shows "sched_ok t p"
proof -
  note o = sched_okD [OF assms(1)]
  note r = sched_inv_frame [OF o(1) assms(2)]
  have "counted t p" using o(2,8,9) r(2) [of 0] r(2) [of 1] r(2) [of 2] r(3) [of _ 1] by (auto simp: counted_def runnable_def)
  moreover have "vfs_apart t p" using o(3) assms(3,4) r(2) [of 14] r(5) by (simp add: vfs_apart_def)
  moreover have "contexts_apart t p" using contexts_apart_same [OF o(4) r(5)] assms(4) r(2) [of 14] r(3) by simp
  moreover have "sq t p 6 = tf t p (sq t p 2) 2" using o(5,9) r(2) [of 6] r(2) [of 2] r(3) by simp
  ultimately show ?thesis using r(1) by (simp add: sched_ok_def)
qed

section \<open>Runs\<close>

text \<open>
  One step: a choice, a tick, a change of the break, an exit, a new task in a free slot, the release of
  an exited task's slot, or anything the rest of the kernel does outside the scheduler's blocks.  The
  tail counter is a 64-bit integer that only grows, so the steps that queue a task ask for fewer than
  \<open>2^62\<close> of them so far.
\<close>

inductive sched_step :: "int \<Rightarrow> machine \<Rightarrow> machine \<Rightarrow> bool" for p where
  pick: "scheduler_pick_next_task s p = Some (n, t) \<Longrightarrow> sq s p 11 < 2 ^ 62 \<Longrightarrow> sched_step p s t"
| tick: "scheduler_account_tick s p now = Some (d, t) \<Longrightarrow> in64 now \<Longrightarrow> sched_step p s t"
| brk: "scheduler_brk s p i req = Some (r, t) \<Longrightarrow> task_id i \<Longrightarrow> in64 req \<Longrightarrow> sched_step p s t"
| exit: "scheduler_exit_current_task s p code = Some t \<Longrightarrow> sq s p 11 < 2 ^ 62 \<Longrightarrow> sched_step p s t"
| admit: "scheduler_find_free_task_id s p = Some i \<Longrightarrow>
    scheduler_set_task s p i task_state_runnable nm ctx stk mode root ub ul pa pc sp par hb hl hk irq = Some t \<Longrightarrow>
    scheduler_publish_task t p i = Some u \<Longrightarrow> sq s p 11 < 2 ^ 62 \<Longrightarrow> in64 ctx \<Longrightarrow>
    {ctx..<ctx + 56} \<inter> (sched_area s p \<union> vfs_area s (sq s p 14)) = {} \<Longrightarrow> sched_step p s u"
| release: "scheduler_task_state s p i = Some task_state_exited \<Longrightarrow> scheduler_release_task_slot s p i = Some t \<Longrightarrow>
    task_id i \<Longrightarrow> sched_step p s t"
| foreign: "\<forall>a \<in> sched_area s p. mem t a = mem s a \<Longrightarrow> vfs_layout t (sq s p 14) \<Longrightarrow>
    vfs_area t (sq s p 14) = vfs_area s (sq s p 14) \<Longrightarrow> sched_step p s t"

lemma ok_step: "sched_step p s t \<Longrightarrow> sched_ok s p \<Longrightarrow> sched_ok t p"
proof (induction rule: sched_step.induct)
  case (admit s i nm ctx stk mode root ub ul pa pc sp par hb hl hk irq t u)
  note o = sched_okD [OF admit.prems]
  have "task_id i" "tf s p i 1 = 0" "i \<le> sq s p 0"
    using find_free [OF o(6,2)] admit.hyps(1) by auto
  then show ?case using ok_admit [OF admit.prems admit.hyps(4) _ _ _ admit.hyps(2,3,5,6)] by blast
next
  case (release s i t)
  then show ?case using ok_release task_state_eq [OF sched_okD(6)] by (auto simp: sched_const)
qed (auto intro: ok_pick ok_tick ok_brk ok_exit ok_foreign)

end
