(* ===== verification/SchedTick.thy ===== *)
theory SchedTick
  imports SchedRun
begin

text \<open>
  The tick at the end of a system call: charging the clock, the number of runnable tasks, the task a choice would take,
  and \<open>scheduler_timer_interrupt\<close>, which stays with the current task or gives way to the chosen one.
\<close>

section \<open>The choice\<close>

lemma runnable_count:
  assumes "sched_ok s p"
  shows "scheduler_runnable_count s p = Some (int (card {u. task_id u \<and> runnable s p u}))"
proof -
  note o = sched_okD [OF assms]
  have c: "0 \<le> sq s p 0" "sq s p 0 \<le> 8" using o(2) by (auto simp: counted_def)
  have none: "{u. 0 \<le> u \<and> u < 0 \<and> runnable s p u} = {}" by auto
  have "scheduler_runnable_count s p = for_range 0 (sq s p 0)
      (\<lambda>i n. do { st \<leftarrow> scheduler_task_qword s (sq s p 8) i 1; Some (if st = 1 then n + 1 else n) }) 0"
    using o(6) by (simp add: scheduler_runnable_count_def sched_getters sched_const)
  moreover have "\<exists>n. for_range 0 (sq s p 0) (\<lambda>i n. do { st \<leftarrow> scheduler_task_qword s (sq s p 8) i 1; Some (if st = 1 then n + 1 else n) }) 0
      = Some n \<and> n = int (card {u. 0 \<le> u \<and> u < sq s p 0 \<and> runnable s p u})"
  proof (rule for_range_total [where P = "\<lambda>i n. n = int (card {u. 0 \<le> u \<and> u < i \<and> runnable s p u})"])
    fix i n assume i: "0 \<le> i" "i < sq s p 0" "n = int (card {u. 0 \<le> u \<and> u < i \<and> runnable s p u})"
    have fin: "finite {u. 0 \<le> u \<and> u < i \<and> runnable s p u}" by (rule finite_subset [of _ "{0..<i}"]) auto
    have "{u. 0 \<le> u \<and> u < i + 1 \<and> runnable s p u} = (if runnable s p i then insert i else id) {u. 0 \<le> u \<and> u < i \<and> runnable s p u}"
      using i(1) by (cases "runnable s p i") (auto simp: set_eq_iff, metis order_le_less)
    then have "card {u. 0 \<le> u \<and> u < i + 1 \<and> runnable s p u} = card {u. 0 \<le> u \<and> u < i \<and> runnable s p u} + (if runnable s p i then 1 else 0)"
      using fin by auto
    then show "\<exists>m. (do { st \<leftarrow> scheduler_task_qword s (sq s p 8) i 1; Some (if st = 1 then n + 1 else n) }) = Some m
        \<and> m = int (card {u. 0 \<le> u \<and> u < i + 1 \<and> runnable s p u})"
      using i c o(6) by (simp add: runnable_def)
  qed (use c in simp, simp only: none card.empty of_nat_0)
  moreover have "{u. 0 \<le> u \<and> u < sq s p 0 \<and> runnable s p u} = {u. task_id u \<and> runnable s p u}"
    using o(2) c by (auto simp: counted_def task_id_def runnable_def)
  ultimately show ?thesis by simp
qed

text \<open>The task a choice made now would take.\<close>

definition next_task :: "machine \<Rightarrow> int \<Rightarrow> int" where
  "next_task s p = fst (first_ready (runnable s p) (sq s p 2) (waiting s p))"

lemma single_next:
  assumes "sched_ok s p" "card {u. task_id u \<and> runnable s p u} \<le> 1"
  shows "next_task s p = sq s p 1"
proof -
  note o = sched_okD [OF assms(1)]
  have fin: "finite {u. task_id u \<and> runnable s p u}" by (rule finite_subset [of _ "{0..<8}"]) (auto simp: task_id_def)
  have one: "u = v" if "task_id u" "runnable s p u" "task_id v" "runnable s p v" for u v
    using assms(2) fin that card_le_Suc0_iff_eq [OF fin] by auto
  have idle: "runnable s p (sq s p 2)" "runnable s p (sq s p 1)" using o(2) by (auto simp: counted_def)
  have "\<forall>t \<in> set (waiting s p). t = sq s p 2" using waiting_props(2) [OF o(1)] one [OF _ _ o(9) idle(1)] by blast
  then have "dropWhile (\<lambda>t. t = sq s p 2 \<or> \<not> runnable s p t) (waiting s p) = []" by (simp add: dropWhile_eq_Nil_conv)
  then show ?thesis unfolding next_task_def first_ready_def using one [OF o(9) idle(1) o(8) idle(2)] by (simp del: dropWhile_eq_Nil_conv)
qed

lemma first_ready_cong: "(\<And>t. t \<in> set q \<Longrightarrow> run t = run' t) \<Longrightarrow> first_ready run idle q = first_ready run' idle q"
  by (induction q) (auto simp: first_ready_simps)

lemma next_task_cong:
  assumes "sched_ok s p" "ready t p = ready s p" "sq t p 1 = sq s p 1" "sq t p 2 = sq s p 2"
    and "\<And>u. task_id u \<Longrightarrow> runnable t p u = runnable s p u"
  shows "next_task t p = next_task s p"
proof -
  note o = sched_okD [OF assms(1)]
  have "waiting t p = waiting s p" unfolding waiting_def assms(2-4) using assms(5) [OF o(8)] by (simp add: requeue_def)
  then show ?thesis using waiting_props(2) [OF o(1)] assms(4,5)
    unfolding next_task_def by (metis (no_types, lifting) first_ready_cong)
qed

section \<open>The clock\<close>

lemma i64_gap: "in64 a \<Longrightarrow> in64 b \<Longrightarrow> a < b \<Longrightarrow> i64 (b - a) \<noteq> 0"
  using i64_cases [of "b - a"] by (auto simp: in64_def)

text \<open>The clock part: the invariant and everything the choice reads is as before.\<close>

lemma tick_part:
  assumes "sched_ok s p" "in64 now"
  shows "\<exists>d t. scheduler_account_tick s p now = Some (d, t) \<and> (d = 0 \<longleftrightarrow> now \<le> sq s p 3) \<and> sched_ok t p
    \<and> writes_in (sched_area s p) s t \<and> sched_area t p = sched_area s p \<and> next_task t p = next_task s p
    \<and> (\<forall>k. k \<in> {0, 1, 2, 10, 11, 14} \<longrightarrow> sq t p k = sq s p k)
    \<and> (\<forall>u k. task_id u \<and> 0 \<le> k \<and> k < 25 \<and> k \<noteq> 2 \<longrightarrow> tf t p u k = tf s p u k)"
proof (cases "now \<le> sq s p 3")
  case True
  then show ?thesis using account_tick(1) [OF sched_okD(6,8) [OF assms(1)] assms(2)] assms(1) by auto
next
  case False
  note o = sched_okD [OF assms(1)]
  let ?d = "i64 (now - sq s p 3)"
  obtain t where t: "scheduler_account_tick s p now = Some (?d, t)" "sview p s (charge ?d (sq s p) now)
      ((tf s p)(sq s p 1 := (tf s p (sq s p 1))(2 := i64 (tf s p (sq s p 1) 2 + ?d)))) t"
    using account_tick(2) [OF o(6,8) assms(2)] False by auto
  have q: "sq t p k = sq s p k" if "k \<in> {0, 1, 2, 10, 11, 14}" for k
    using sview_sq [OF t(2), of k] that by (auto simp: charge_def Let_def)
  have f: "tf t p u k = tf s p u k" if "task_id u" "0 \<le> k" "k < 25" "k \<noteq> 2" for u k
    using sview_tf [OF t(2) that(1-3)] that(4) by auto
  have "ready t p = ready s p" using sview_ready [OF t(2)] by (simp add: charge_def Let_def)
  then have "next_task t p = next_task s p"
    by (rule next_task_cong [OF assms(1)]) (use q [of 1] q [of 2] f [of _ 1] in \<open>simp_all add: runnable_def\<close>)
  moreover have "?d \<noteq> 0" using i64_gap [OF _ assms(2), of "sq s p 3"] False memory.load_in64 [of s "p + 3 * 8"] by (simp add: sq_def)
  moreover have "writes_in (sched_area s p) s t" "sched_area t p = sched_area s p" using t(2) by (simp_all add: sview_def)
  ultimately show ?thesis using t(1) False ok_tick [OF assms t(1)] q f by (intro exI [of _ ?d] exI [of _ t]) simp
qed

section \<open>Staying and giving way\<close>

text \<open>
  The clock has been charged and nothing else has happened: the current task stays, only the scheduler's own blocks are
  written, and of the task table only the run times and switch counts; with no time gone by, nothing at all.
\<close>

definition clock_only :: "machine \<Rightarrow> int \<Rightarrow> machine \<Rightarrow> bool" where
  "clock_only s p v \<longleftrightarrow> sched_ok v p \<and> sq v p 1 = sq s p 1 \<and> writes_in (sched_area s p) s v
     \<and> (\<forall>u k. task_id u \<and> 0 \<le> k \<and> k < 25 \<and> k \<notin> {2, 3} \<longrightarrow> tf v p u k = tf s p u k)
     \<and> (current_kernel_ticks s \<le> sq s p 3 \<longrightarrow> v = s)"

text \<open>The current task has given way to task \<open>n\<close>, whose context and address space are loaded.\<close>

definition gave_way :: "machine \<Rightarrow> int \<Rightarrow> int \<Rightarrow> machine \<Rightarrow> bool" where
  "gave_way s p n v \<longleftrightarrow> sq v p 1 = n \<and> runnable s p n \<and> cr3 v = tf s p n 10
     \<and> regs v = map (\<lambda>k. load_qword v (tf s p n 7 + k * 8)) [0..6]
     \<and> (\<forall>a. a \<notin> sched_area s p \<union> context_area s p (sq s p 1) \<longrightarrow> mem v a = mem s a)"

text \<open>A choice that falls on another task, and the entry into its context.\<close>

lemma pick_and_enter:
  assumes "sched_ok u p" "sq u p 11 < 2 ^ 62" "scheduler_pick_next_task u p = Some (n, v)"
  shows "\<exists>t. scheduler_enter_context v p (sq u p 1) n = Some t \<and> gave_way u p n t"
proof -
  note ou = sched_okD [OF assms(1)]
  have ok: "sched_ok v p" by (rule ok_pick [OF assms])
  have pk: "picked p u n v" "task_id n" "runnable u p n"
    using pick_inv [OF ou(1) assms(2)] assms(3) ou(2) by (auto simp: counted_def)
  have vf: "tf v p i k = tf u p i k" if "task_id i" "0 \<le> k" "k < 25" "k \<noteq> 3" for i k
    using pk(1) that by (simp add: picked_def)
  have area: "sched_area v p = sched_area u p" "writes_in (sched_area u p) u v" "sq v p 1 = n"
    using pk(1) unfolding picked_def by blast+
  obtain t where t: "scheduler_enter_context v p (sq u p 1) n = Some t"
      "\<forall>x. x \<notin> context_area v p (sq u p 1) \<longrightarrow> mem t x = mem v x"
      "cr3 t = tf v p n 10" "regs t = map (\<lambda>k. load_qword t (tf v p n 7 + k * 8)) [0..6]"
    using enter_context [OF sched_okD(6) [OF ok] ou(8) pk(2)] by blast
  have ctx: "context_area v p (sq u p 1) = context_area u p (sq u p 1)" using vf [OF ou(8), of 7] by (simp add: context_area_def)
  have "context_area u p (sq u p 1) \<inter> sched_area u p = {}"
    using ou(2,4,8) by (auto simp: contexts_apart_def counted_def runnable_def)
  then have "mem t a = mem v a" if "a \<in> sched_area v p" for a using t(2) that unfolding ctx area(1) by blast
  then have "sq t p 1 = n" using sched_inv_frame(2) [OF sched_okD(1) [OF ok], of t 1] area(3) by simp
  moreover have "mem t a = mem u a" if "a \<notin> sched_area u p \<union> context_area u p (sq u p 1)" for a
    using t(2) that area(2) unfolding ctx by (simp add: writes_in_def)
  ultimately have "gave_way u p n t" using t(3,4) pk(3) vf [OF pk(2), of 7] vf [OF pk(2), of 10] by (simp add: gave_way_def)
  then show ?thesis using t(1) by blast
qed

lemma gave_way_before:
  assumes "gave_way u p n t" "task_id n" "sched_area u p = sched_area s p" "writes_in (sched_area s p) s u" "sq u p 1 = sq s p 1"
    and "task_id (sq s p 1)" "\<And>i k. task_id i \<Longrightarrow> k \<in> {1, 7, 10} \<Longrightarrow> tf u p i k = tf s p i k"
  shows "gave_way s p n t"
proof -
  have "context_area u p (sq u p 1) = context_area s p (sq s p 1)" using assms(5-7) by (simp add: context_area_def)
  then show ?thesis using assms by (simp add: gave_way_def runnable_def writes_in_def)
qed

lemma timer_interrupt:
  assumes "sched_ok s p" "sq s p 11 < 2 ^ 62" "in64 (current_kernel_ticks s)"
  shows "if sq s p 3 < current_kernel_ticks s \<and> next_task s p \<noteq> sq s p 1
    then \<exists>v. gave_way s p (next_task s p) v
      \<and> scheduler_timer_interrupt others s p 1 = do { w \<leftarrow> others v; c \<leftarrow> scheduler_current_task w p; Some (c, w) }
    else \<exists>v. clock_only s p v \<and> scheduler_timer_interrupt others s p 1 = Some (sq s p 1, v)"
proof -
  note o = sched_okD [OF assms(1)]
  obtain d u where u: "scheduler_account_tick s p (current_kernel_ticks s) = Some (d, u)" "d = 0 \<longleftrightarrow> current_kernel_ticks s \<le> sq s p 3"
      "sched_ok u p" "writes_in (sched_area s p) s u" "sched_area u p = sched_area s p" "next_task u p = next_task s p"
      "\<forall>k. k \<in> {0, 1, 2, 10, 11, 14} \<longrightarrow> sq u p k = sq s p k"
      "\<forall>i k. task_id i \<and> 0 \<le> k \<and> k < 25 \<and> k \<noteq> 2 \<longrightarrow> tf u p i k = tf s p i k"
    using tick_part [OF assms(1,3)] by blast
  note ou = sched_okD [OF u(3)]
  have uq: "sq u p 1 = sq s p 1" "sq u p 2 = sq s p 2" "sq u p 11 < 2 ^ 62" using u(7) assms(2) by simp_all
  have cur: "scheduler_current_task u p = Some (sq s p 1)" using ou(6) uq(1) by (simp add: sched_getters sched_const)
  have ids: "\<forall>t \<in> set (ready u p). task_id t" using ou(1) by (simp add: sched_inv_def)
  define n where "n = next_task s p"
  obtain v where v: "scheduler_pick_next_task u p = Some (n, v)" "picked p u n v"
    using pick_next [OF ou(7-9) ids ou(10) uq(3)] u(6) by (auto simp: n_def next_task_def waiting_def)
  have pk: "sched_area v p = sched_area u p" "writes_in (sched_area u p) u v" "sq v p 1 = n"
      "\<forall>i k. task_id i \<and> 0 \<le> k \<and> k < 25 \<longrightarrow> tf v p i k = (if i = n \<and> k = 3 then i64 (tf u p i k + 1) else tf u p i k)"
    using v(2) unfolding picked_def by blast+
  have w: "writes_in (sched_area s p) s v" using u(4,5) pk(2) by (auto intro: writes_in_trans)
  have vf: "tf v p i k = tf s p i k" if "task_id i" "0 \<le> k" "k < 25" "k \<notin> {2, 3}" for i k
    using pk(4) u(8) that by auto
  have stay: "clock_only s p u" if "current_kernel_ticks s \<le> sq s p 3 \<longrightarrow> u = s"
    using that u(3,4,8) uq(1) by (simp add: clock_only_def)
  have still: "u = s" if "current_kernel_ticks s \<le> sq s p 3"
    using account_tick(1) [OF o(6,8) assms(3) that] u(1) by simp
  let ?many = "1 < card {i. task_id i \<and> runnable u p i}"
  have run: "scheduler_timer_interrupt others s p 1 = (if sq s p 3 < current_kernel_ticks s \<and> ?many
      then scheduler_switch_to_task others v p (sq s p 1) n else Some (sq s p 1, u))"
    using u(1,2) cur v(1) runnable_count [OF u(3)]
    by (auto simp: scheduler_timer_interrupt_def Let_def scheduler_yield_current_task_def)
  show ?thesis
  proof (cases "sq s p 3 < current_kernel_ticks s \<and> ?many")
    case False
    then have "\<not> (sq s p 3 < current_kernel_ticks s \<and> next_task s p \<noteq> sq s p 1)"
      using single_next [OF u(3)] u(6) uq(1) by auto
    moreover have "scheduler_timer_interrupt others s p 1 = Some (sq s p 1, u)" using run False by (simp only: if_False)
    moreover have "clock_only s p u" using stay still by blast
    ultimately show ?thesis by (simp only: if_False) blast
  next
    case True
    then have r: "scheduler_timer_interrupt others s p 1 = scheduler_switch_to_task others v p (sq s p 1) n" using run by simp
    show ?thesis
    proof (cases "n = sq s p 1")
      case same: True
      have "clock_only s p v"
        using ok_pick [OF u(3) uq(3) v(1)] pk(3) w vf True same by (simp add: clock_only_def)
      moreover have "scheduler_timer_interrupt others s p 1 = Some (sq s p 1, v)"
        using r same by (simp add: scheduler_switch_to_task_def)
      ultimately show ?thesis using same by (auto simp: n_def)
    next
      case other: False
      obtain t where t: "scheduler_enter_context v p (sq s p 1) n = Some t" "gave_way u p n t"
        using pick_and_enter [OF u(3) uq(3) v(1)] uq(1) by auto
      have "task_id n" using pick_inv [OF ou(1) uq(3)] v(1) by auto
      then have "gave_way s p n t" by (rule gave_way_before [OF t(2) _ u(5,4) uq(1) o(8)]) (use u(8) in auto)
      moreover have "scheduler_timer_interrupt others s p 1 = do { w \<leftarrow> others t; c \<leftarrow> scheduler_current_task w p; Some (c, w) }"
        using r other t(1) by (simp add: scheduler_switch_to_task_def)
      ultimately show ?thesis using True other by (auto simp: n_def)
    qed
  qed
qed

end
