(* ===== verification/SchedProps.thy ===== *)
theory SchedProps
  imports SchedRun
begin

text \<open>
  The properties of the scheduler, each with a machine on which its hypotheses hold: a scheduler with
  the idle task, a current task and a queued task.
\<close>

section \<open>A sample scheduler\<close>

definition sample_sched :: machine where
  "sample_sched = poke [(0x111000, 3), (0x111008, 1), (0x111010, 0), (0x111018, 100), (0x111040, 0x112000),
     (0x111048, 0x113000), (0x111058, 1), (0x111070, 0x114000), (0x113000, 2),
     (0x112008, 1), (0x112038, 0x120000), (0x1120D0, 1), (0x112100, 0x120100), (0x112110, 1), (0x112198, 1), (0x1121C8, 0x120200),
     (0x112170, 0x20010000), (0x112178, 0x20020000), (0x112180, 0x20010000),
     (0x112230, 1), (0x114010, 0x115000), (0x114020, 0x116000), (0x114028, 32)] blank_machine"

lemma sample_sq:
  "sq sample_sched 0x111000 0 = 3" "sq sample_sched 0x111000 1 = 1" "sq sample_sched 0x111000 2 = 0"
  "sq sample_sched 0x111000 3 = 100" "sq sample_sched 0x111000 5 = 0" "sq sample_sched 0x111000 6 = 0"
  "sq sample_sched 0x111000 8 = 0x112000" "sq sample_sched 0x111000 9 = 0x113000" "sq sample_sched 0x111000 10 = 0"
  "sq sample_sched 0x111000 11 = 1" "sq sample_sched 0x111000 14 = 0x114000"
  by (simp_all add: sample_sched_def sq_def load_put_qword load_put_qword_other i64_id in64_def)


lemma sample_rq: "rq sample_sched 0x111000 0 = 2"
  by (simp add: rq_def sample_sq) (simp add: sample_sched_def load_put_qword load_put_qword_other i64_id in64_def)

lemma sample_tf:
  "tf sample_sched 0x111000 0 1 = 1" "tf sample_sched 0x111000 1 1 = 1" "tf sample_sched 0x111000 2 1 = 1"
  "tf sample_sched 0x111000 3 1 = 0" "tf sample_sched 0x111000 4 1 = 0" "tf sample_sched 0x111000 5 1 = 0"
  "tf sample_sched 0x111000 6 1 = 0" "tf sample_sched 0x111000 7 1 = 0" "tf sample_sched 0x111000 0 2 = 0"
  "tf sample_sched 0x111000 1 2 = 0" "tf sample_sched 0x111000 0 7 = 0x120000" "tf sample_sched 0x111000 1 7 = 0x120100"
  "tf sample_sched 0x111000 2 7 = 0x120200" "tf sample_sched 0x111000 1 9 = 1" "tf sample_sched 0x111000 1 21 = 0x20010000"
  "tf sample_sched 0x111000 1 22 = 0x20020000" "tf sample_sched 0x111000 1 23 = 0x20010000" "tf sample_sched 0x111000 2 20 = 1"
  unfolding tf_def sample_sq
  by (simp_all add: sample_sched_def load_put_qword load_put_qword_other i64_id in64_def)

lemma sample_vfs: "vfs_layout sample_sched 0x114000" "vq sample_sched 0x114000 2 = 0x115000" "vq sample_sched 0x114000 4 = 0x116000"
  by (simp_all add: vfs_layout_def vq_def sample_sched_def load_put_qword load_put_qword_other i64_id in64_def)

lemma task_id_cases: "task_id t \<longleftrightarrow> t \<in> {0, 1, 2, 3, 4, 5, 6, 7}"
  by (auto simp: task_id_def)

lemma sample_area:
  "sched_area sample_sched 0x111000 = {0x111000..<0x111078} \<union> {0x112000..<0x112640} \<union> {0x113000..<0x113080}"
  "vfs_area sample_sched 0x114000 = {0x114000..<0x114030} \<union> {0x115000..<0x115700} \<union> {0x116000..<0x116600}"
  by (simp_all add: sched_area_def vfs_area_def sample_sq sample_vfs)

lemma sample_ready: "ready sample_sched 0x111000 = [2]"
  by (simp add: ready_def sample_sq sample_rq)

lemma sample_ok: "sched_ok sample_sched 0x111000"
proof -
  have "sched_inv sample_sched 0x111000"
    unfolding sched_inv_def sample_ready
    by (auto simp: ring_ok_def sched_layout_def sample_sq sample_tf task_id_cases runnable_def)
  moreover have "counted sample_sched 0x111000"
    by (auto simp: counted_def sample_sq sample_tf task_id_cases runnable_def)
  moreover have "vfs_apart sample_sched 0x111000"
    unfolding vfs_apart_def sample_sq using sample_vfs(1) by (simp add: sample_area) auto
  moreover have "contexts_apart sample_sched 0x111000"
    unfolding contexts_apart_def sample_sq sample_area
    by (auto simp: context_area_def sample_tf task_id_cases)
  ultimately show ?thesis by (simp add: sched_ok_def sample_sq sample_tf)
qed

section \<open>Properties\<close>

text \<open>
  C14: after any sequence of choices, ticks, break changes, exits, task creations and
  slot releases, interleaved with anything done outside the scheduler's blocks, the invariant holds: every
  runnable task but the current one waits in the ready ring exactly once, the ring has room, the current
  and the idle task are runnable, no live task is beyond the task count, saved contexts are apart from
  the kernel tables, and the idle task's run time is the idle time.
\<close>

theorem scheduler_invariant_holds:
  assumes "(sched_step p)\<^sup>*\<^sup>* s t" "sched_ok s p"
  shows "sched_ok t p"
  using assms by (induction rule: rtranclp_induct) (auto intro: ok_step)

lemma sample_run: "\<exists>t u. (sched_step 0x111000)\<^sup>*\<^sup>* sample_sched u \<and> scheduler_account_tick sample_sched 0x111000 107 = Some (7, t)
  \<and> scheduler_exit_current_task t 0x111000 5 = Some u"
proof -
  note o = sched_okD [OF sample_ok]
  have n: "in64 107" by (simp add: in64_def)
  obtain t where t: "scheduler_account_tick sample_sched 0x111000 107 = Some (7, t)"
      "sview 0x111000 sample_sched (charge 7 (sq sample_sched 0x111000) 107) ((tf sample_sched 0x111000)
        (1 := (tf sample_sched 0x111000 1)(2 := i64 (tf sample_sched 0x111000 1 2 + 7)))) t"
    using account_tick(2) [OF o(6,8) n] by (auto simp: sample_sq i64_id in64_def)
  have okt: "sched_ok t 0x111000" using ok_tick [OF sample_ok n t(1)] .
  have q: "sq t 0x111000 1 = 1" "sq t 0x111000 2 = 0" "sq t 0x111000 11 = 1"
    using sview_sq [OF t(2)] by (simp_all add: charge_def Let_def sample_sq)
  note ot = sched_okD [OF okt]
  have "context_area t 0x111000 1 \<inter> (sched_area t 0x111000 \<union> vfs_area t (sq t 0x111000 14)) = {}"
    using ot(2,4,8) q by (auto simp: contexts_apart_def counted_def runnable_def)
  then have "context_area t 0x111000 (sq t 0x111000 1) \<inter> sched_area t 0x111000 = {}" using q by (simp add: Int_Un_distrib)
  then obtain u where u: "scheduler_exit_current_task t 0x111000 5 = Some u"
    using exit_task [OF ot(1,2), of 5] q by auto
  have "sched_step 0x111000 sample_sched t" "sched_step 0x111000 t u"
    using sched_step.tick [OF t(1) n] sched_step.exit [OF u] q by simp_all
  then show ?thesis using t(1) u by (intro exI [of _ t] exI [of _ u]) auto
qed

theorem scheduler_invariant_holds_witness:
  "\<exists>t u. scheduler_account_tick sample_sched 0x111000 107 = Some (7, t) \<and> scheduler_exit_current_task t 0x111000 5 = Some u
    \<and> sched_ok u 0x111000"
  using sample_run scheduler_invariant_holds [OF _ sample_ok] by blast

text \<open>
  C16: in every state of the invariant the choice of the next task returns, and on the
  list of waiting tasks it is: put the current task behind the others, take the first runnable one and
  leave the rest in the queue; the idle task is chosen only when no other task is runnable.
\<close>

theorem scheduler_pick_refines:
  assumes "sched_ok s p" "sq s p 11 < 2 ^ 62"
  shows "\<exists>t s'. scheduler_pick_next_task s p = Some (t, s')
    \<and> (t, ready s' p) = first_ready (runnable s p) (sq s p 2) (requeue (runnable s p) (sq s p 2) (sq s p 1) (ready s p))
    \<and> sq s' p 1 = t \<and> (t = sq s p 2 \<longleftrightarrow> (\<forall>u. task_id u \<and> runnable s p u \<longrightarrow> u = sq s p 2))"
proof -
  note o = sched_okD [OF assms(1)]
  have ids: "\<forall>t \<in> set (ready s p). task_id t" using o(1) by (simp add: sched_inv_def)
  obtain s' where s': "scheduler_pick_next_task s p = Some (fst (first_ready (runnable s p) (sq s p 2) (waiting s p)), s')"
      "ready s' p = snd (first_ready (runnable s p) (sq s p 2) (waiting s p))"
    using pick_next [OF o(7-9) ids o(10) assms(2)] unfolding waiting_def by blast
  define t where "t = fst (first_ready (runnable s p) (sq s p 2) (waiting s p))"
  have pick: "sq s' p 1 = t \<and> (t = sq s p 2 \<and> (\<forall>u \<in> set (waiting s p). u = sq s p 2)
      \<or> (\<exists>ys zs. waiting s p = ys @ t # zs \<and> t \<noteq> sq s p 2))"
    using pick_inv [OF o(1) assms(2)] s'(1) unfolding t_def [symmetric] picked_def by fastforce
  have r: "sq s' p 1 = t" "t = sq s p 2 \<and> (\<forall>u \<in> set (waiting s p). u = sq s p 2) \<or> t \<in> set (waiting s p) \<and> t \<noteq> sq s p 2"
    using pick by (auto simp: in_set_conv_decomp)
  have "t = sq s p 2 \<longleftrightarrow> (\<forall>u. task_id u \<and> runnable s p u \<longrightarrow> u = sq s p 2)"
    using r(2) waiting_props(2,4) [OF o(1)] by blast
  then show ?thesis using s' r(1) by (intro exI [of _ t] exI [of _ s']) (simp add: waiting_def t_def)
qed

theorem scheduler_pick_refines_witness:
  "\<exists>s'. scheduler_pick_next_task sample_sched 0x111000 = Some (2, s') \<and> ready s' 0x111000 = [1]"
  using scheduler_pick_refines [OF sample_ok]
  by (auto simp: sample_sq sample_ready first_ready_simps requeue_def runnable_def sample_tf)

text \<open>
  C17: from every state of the invariant, eight choices in a row all return and the tasks
  chosen include every runnable task other than the idle one.
\<close>

theorem scheduler_fair:
  assumes "sched_ok s p" "sq s p 11 + 8 \<le> 2 ^ 62" "task_id t" "runnable s p t" "t \<noteq> sq s p 2"
  shows "\<exists>ts s'. picks 8 s p = Some (ts, s') \<and> length ts = 8 \<and> t \<in> set ts"
proof -
  note o = sched_okD [OF assms(1)]
  note w = waiting_props [OF o(1)]
  obtain i where i: "i < length (waiting s p)" "waiting s p ! i = t"
    using w(4) [OF assms(3-5)] by (auto simp: in_set_conv_nth)
  then show ?thesis using picks_reach [OF o(1), of 8 i] picks_total [OF o(1), of 8] w(3) assms(2,5) by auto
qed

theorem scheduler_fair_witness:
  "\<exists>ts s'. picks 8 sample_sched 0x111000 = Some (ts, s') \<and> length ts = 8 \<and> 2 \<in> set ts"
  using scheduler_fair [OF sample_ok, of 2] by (simp add: sample_sq sample_tf runnable_def task_id_def)

text \<open>
  C20: a task that is not the idle task can always exit: it is marked exited with its
  code; every task in the table that had it as parent gets task 1 as parent, or the idle task when task 1 itself exits
  or the table has no task 1, every other parent entry stays, and so nobody has the exited task as parent; another task
  becomes current and its address space is loaded, and memory outside the scheduler's blocks and the saved context is
  untouched.  Whether task 1 is still alive is not looked at.
\<close>

theorem scheduler_exit_adopts:
  assumes "sched_ok s p" "sq s p 1 \<noteq> sq s p 2" "sq s p 11 < 2 ^ 62"
  shows "\<exists>t. scheduler_exit_current_task s p code = Some t \<and> tf t p (sq s p 1) 1 = task_state_exited
    \<and> tf t p (sq s p 1) 6 = i64 code
    \<and> (\<forall>u. task_id u \<longrightarrow> tf t p u 20 = (if tf s p u 1 \<noteq> task_state_empty \<and> tf s p u 20 = sq s p 1
        then (if sq s p 1 \<noteq> 1 \<and> sq s p 0 > 1 then 1 else sq s p 2) else tf s p u 20))
    \<and> (\<forall>u. task_id u \<and> tf t p u 1 \<noteq> task_state_empty \<longrightarrow> tf t p u 20 \<noteq> sq s p 1)
    \<and> sq t p 1 \<noteq> sq s p 1 \<and> runnable t p (sq t p 1) \<and> cr3 t = tf t p (sq t p 1) 10
    \<and> (\<forall>a. a \<notin> sched_area s p \<union> context_area s p (sq s p 1) \<longrightarrow> mem t a = mem s a)"
proof -
  note o = sched_okD [OF assms(1)]
  have live: "runnable s p (sq s p 1)" using o(2) by (simp add: counted_def)
  have "context_area s p (sq s p 1) \<inter> (sched_area s p \<union> vfs_area s (sq s p 14)) = {}"
    using o(2,4,8) by (auto simp: contexts_apart_def counted_def runnable_def)
  then have "context_area s p (sq s p 1) \<inter> sched_area s p = {}" by (simp add: Int_Un_distrib)
  from exit_task [OF o(1,2) assms(2,3) this, of code] obtain t
    where t: "scheduler_exit_current_task s p code = Some t" "counted t p" "sq t p 1 \<noteq> sq s p 1"
      "tf t p (sq s p 1) 1 = 3" "tf t p (sq s p 1) 6 = i64 code" "cr3 t = tf t p (sq t p 1) 10"
      "\<forall>u. task_id u \<longrightarrow> tf t p u 20 = (if tf s p u 1 \<noteq> 0 \<and> tf s p u 20 = sq s p 1 then adopter s p (sq s p 1) else tf s p u 20)"
      "\<forall>u. task_id u \<longrightarrow> tf t p u 1 = (if u = sq s p 1 then 3 else tf s p u 1)"
      "\<forall>a. a \<notin> sched_area s p \<union> context_area s p (sq s p 1) \<longrightarrow> mem t a = mem s a"
    by (elim exE conjE) (rule that)
  have "tf t p u 20 \<noteq> sq s p 1" if "task_id u" "tf t p u 1 \<noteq> 0" for u
    using t(7,8) that live assms(2) by (auto simp: adopter_def runnable_def split: if_splits)
  moreover have "runnable t p (sq t p 1)" using t(2) by (simp add: counted_def)
  ultimately show ?thesis using t(1,3-6) t(7) [unfolded adopter_def] t(9) unfolding sched_const by blast
qed

theorem scheduler_exit_adopts_witness:
  "\<exists>t. scheduler_exit_current_task sample_sched 0x111000 5 = Some t \<and> tf t 0x111000 1 1 = task_state_exited
    \<and> (\<forall>u. task_id u \<and> tf t 0x111000 u 1 \<noteq> 0 \<longrightarrow> tf t 0x111000 u 20 \<noteq> 1)"
  using scheduler_exit_adopts [OF sample_ok, of 5] by (auto simp: sample_sq sched_const)

text \<open>Several tasks in, several out.\<close>

primrec enqueue_all :: "machine \<Rightarrow> int \<Rightarrow> int list \<Rightarrow> machine option" where
  "enqueue_all s p [] = Some s"
| "enqueue_all s p (t # ts) = do { s \<leftarrow> scheduler_enqueue_task s p t; enqueue_all s p ts }"

primrec dequeue_all :: "machine \<Rightarrow> int \<Rightarrow> nat \<Rightarrow> (int list \<times> machine) option" where
  "dequeue_all s p 0 = Some ([], s)"
| "dequeue_all s p (Suc n) = do { (t, s) \<leftarrow> scheduler_dequeue_task s p; (ts, s) \<leftarrow> dequeue_all s p n; Some (t # ts, s) }"

lemma enqueue_all_eq: "enqueue_all s p ts = ring.enq_all p ts s"
  by (induction ts arbitrary: s) simp_all

lemma dequeue_all_eq: "dequeue_all s p n = ring.deq_all p n s"
  by (induction n arbitrary: s) (simp_all add: case_prod_beta)

text \<open>
  C31: the ready ring is a first-in first-out queue of sixteen places: whatever its
  counters, tasks queued behind the present contents come out after them in the order they were put in,
  and neither the task table nor any other memory changes on the way.
\<close>

theorem scheduler_queue_fifo:
  assumes "ring_ok s p" "\<forall>t \<in> set ts. task_id t" "length (ready s p) + length ts \<le> 16" "sq s p 11 + int (length ts) \<le> 2 ^ 62"
  shows "\<exists>t u. enqueue_all s p ts = Some t \<and> dequeue_all t p (length (ready s p) + length ts) = Some (ready s p @ ts, u)
    \<and> ready u p = [] \<and> same_tasks p s u"
  using ring.fifo [of s p ts] assms by (simp add: enqueue_all_eq dequeue_all_eq list_all_iff)

theorem scheduler_queue_fifo_witness:
  "\<exists>t u. enqueue_all sample_sched 0x111000 [5, 0, 7] = Some t \<and> dequeue_all t 0x111000 4 = Some ([2, 5, 0, 7], u)
    \<and> ready u 0x111000 = []"
proof -
  have "\<exists>t u. enqueue_all sample_sched 0x111000 [5, 0, 7] = Some t
    \<and> dequeue_all t 0x111000 (length (ready sample_sched 0x111000) + length [5, 0, 7 :: int]) = Some (ready sample_sched 0x111000 @ [5, 0, 7], u)
    \<and> ready u 0x111000 = [] \<and> same_tasks 0x111000 sample_sched u"
    by (rule scheduler_queue_fifo) (simp_all add: sched_okD [OF sample_ok] sample_ready sample_sq task_id_def)
  then show ?thesis by (simp add: sample_ready eval_nat_numeral del: enqueue_all.simps dequeue_all.simps) blast
qed

text \<open>
  C33: a request for a new program break never fails to return, answers with the break
  then in force or with -1, and keeps the break between the task's heap base and limit; it touches no
  other field of any task.  A user task gets every break inside its window, and a task that is not in user mode
  always gets -1.
\<close>

theorem scheduler_brk_in_bounds:
  assumes "sched_layout s p" "task_id t" "in64 req" "tf s p t 21 \<le> tf s p t 23" "tf s p t 23 \<le> tf s p t 22"
  shows "\<exists>r s'. scheduler_brk s p t req = Some (r, s') \<and> tf s' p t 21 \<le> tf s' p t 23 \<and> tf s' p t 23 \<le> tf s' p t 22
    \<and> (r = tf s' p t 23 \<or> r = - 1 \<and> s' = s)
    \<and> (\<forall>u k. task_id u \<and> 0 \<le> k \<and> k < 25 \<and> (u, k) \<noteq> (t, 23) \<longrightarrow> tf s' p u k = tf s p u k)
    \<and> (tf s p t 9 = task_mode_user \<and> tf s p t 21 \<le> req \<and> req \<le> tf s p t 22 \<and> req \<noteq> 0 \<longrightarrow> r = req)
    \<and> (tf s p t 9 \<noteq> task_mode_user \<longrightarrow> r = - 1 \<and> s' = s)"
  using SchedRows.brk [OF assms(1-3)] assms(2,4,5) by (auto simp: sched_const sview_def)

theorem scheduler_brk_in_bounds_witness:
  "\<exists>s'. scheduler_brk sample_sched 0x111000 1 0x20010040 = Some (0x20010040, s') \<and> tf s' 0x111000 1 23 = 0x20010040"
  using scheduler_brk_in_bounds [OF sched_okD(6) [OF sample_ok], of 1 "0x20010040"]
  by (auto simp: sample_tf task_id_def in64_def sched_const)

text \<open>
  C36: looking for a slot for a new task returns an empty slot of the table, never one in
  use, as long as one of the eight is empty, and halts with the table full otherwise.
\<close>

theorem scheduler_free_slot:
  assumes "sched_ok s p"
  shows "if \<exists>t. task_id t \<and> tf s p t 1 = task_state_empty
    then \<exists>t. scheduler_find_free_task_id s p = Some t \<and> task_id t \<and> tf s p t 1 = task_state_empty \<and> t \<le> sq s p 0
    else scheduler_find_free_task_id s p = None"
  using find_free [of s p] sched_okD [OF assms] by (auto simp: sched_const)

theorem scheduler_free_slot_witness:
  "\<exists>t. scheduler_find_free_task_id sample_sched 0x111000 = Some t \<and> tf sample_sched 0x111000 t 1 = task_state_empty"
proof -
  have "task_id 3 \<and> tf sample_sched 0x111000 3 1 = task_state_empty" by (simp add: task_id_def sample_tf sched_const)
  then show ?thesis using scheduler_free_slot [OF sample_ok] by (auto split: if_splits)
qed

text \<open>
  C35: accounting the clock charges exactly the elapsed ticks, once, to the total and
  to the task that is current, also as idle time when that is the idle task, and never goes back.
\<close>

theorem scheduler_tick_accounting:
  assumes "sched_ok s p" "0 \<le> sq s p 3" "now < 2 ^ 62"
    and "0 \<le> sq s p 5" "sq s p 5 < 2 ^ 62" "0 \<le> tf s p (sq s p 1) 2" "tf s p (sq s p 1) 2 < 2 ^ 62" "0 \<le> now"
  defines "delta \<equiv> max 0 (now - sq s p 3)"
  shows "\<exists>t. scheduler_account_tick s p now = Some (delta, t) \<and> sq t p 3 = max now (sq s p 3)
    \<and> sq t p 5 = sq s p 5 + delta
    \<and> (\<forall>u. task_id u \<longrightarrow> tf t p u 2 = tf s p u 2 + (if u = sq s p 1 then delta else 0))
    \<and> sq t p 6 = sq s p 6 + (if sq s p 1 = sq s p 2 then delta else 0)
    \<and> sq t p 1 = sq s p 1 \<and> ready t p = ready s p"
proof -
  note o = sched_okD [OF assms(1)]
  have n: "in64 now" using assms(3,8) by (intro in64I) auto
  show ?thesis
  proof (cases "now \<le> sq s p 3")
    case True
    then show ?thesis using account_tick(1) [OF o(6,8) n] by (simp add: delta_def)
  next
    case False
    then have d: "i64 (now - sq s p 3) = delta" "0 \<le> delta" "delta < 2 ^ 62"
      using assms(2,3) by (auto simp: delta_def intro!: i64_id in64I)
    have i: "i64 (sq s p 5 + delta) = sq s p 5 + delta" "i64 (tf s p (sq s p 1) 2 + delta) = tf s p (sq s p 1) 2 + delta"
      using d assms(4-7) by (auto intro!: i64_id in64I)
    obtain t where t: "scheduler_account_tick s p now = Some (delta, t)" "sview p s (charge delta (sq s p) now)
        ((tf s p)(sq s p 1 := (tf s p (sq s p 1))(2 := tf s p (sq s p 1) 2 + delta))) t"
      using account_tick(2) [OF o(6,8) n] False d(1) i(2) by auto
    have "ready t p = ready s p" using sview_ready [OF t(2)] by (simp add: charge_def Let_def)
    moreover have "sq t p 3 = max now (sq s p 3)" "sq t p 5 = sq s p 5 + delta" "sq t p 1 = sq s p 1"
      using sview_sq [OF t(2)] i(1) False by (simp_all add: charge_def Let_def)
    moreover have "sq t p 6 = sq s p 6 + (if sq s p 1 = sq s p 2 then delta else 0)"
      using sview_sq [OF t(2), of 6] i(2) o(5) by (auto simp: charge_def Let_def)
    ultimately show ?thesis using t(1) sview_tf [OF t(2)] by (intro exI [of _ t]) auto
  qed
qed

theorem scheduler_tick_accounting_witness:
  "\<exists>t. scheduler_account_tick sample_sched 0x111000 107 = Some (7, t) \<and> sq t 0x111000 5 = 7 \<and> tf t 0x111000 1 2 = 7"
  using scheduler_tick_accounting [OF sample_ok, of 107] by (auto simp: sample_sq sample_tf task_id_def)

section \<open>Waiting\<close>

definition child_of :: "machine \<Rightarrow> int \<Rightarrow> int \<Rightarrow> int \<Rightarrow> bool" where
  "child_of s p parent t \<longleftrightarrow> 0 \<le> t \<and> t < sq s p 0 \<and> tf s p t 1 \<noteq> 0 \<and> tf s p t 20 = parent"

lemma find_child:
  fixes s p parent ex
  assumes "sched_layout s p" "0 \<le> sq s p 0" "sq s p 0 \<le> 8"
  defines "ok t \<equiv> child_of s p parent t \<and> (ex = 0 \<or> tf s p t 1 = 3)"
  shows "(\<exists>t. scheduler_find_child s p parent ex = Some t \<and> ok t) \<or> (scheduler_find_child s p parent ex = Some (- 1) \<and> (\<forall>t. \<not> ok t))"
proof -
  let ?body = "\<lambda>task_id found. if found \<ge> 0 then Some found else do {
       st \<leftarrow> scheduler_task_state s p task_id;
       if st \<noteq> task_state_empty then do {
         parent' \<leftarrow> scheduler_task_parent_pid s p task_id;
         if parent' = parent \<and> (ex = 0 \<or> st = task_state_exited) then Some task_id
         else Some (- 1) }
       else Some (- 1) }"
  let ?P = "\<lambda>i r. ok r \<or> (r = - 1 \<and> (\<forall>j. ok j \<longrightarrow> i \<le> j))"
  have "\<exists>r. for_range 0 (sq s p 0) ?body (- 1) = Some r \<and> ?P (sq s p 0) r"
  proof (rule for_range_total [where P = ?P])
    fix i r assume i: "0 \<le> i" "i < sq s p 0" and P: "?P i r"
    have id: "task_id i" using i assms(3) by (simp add: task_id_def)
    have st: "scheduler_task_state s p i = Some (tf s p i 1)" "scheduler_task_parent_pid s p i = Some (tf s p i 20)"
      using task_state_eq [OF assms(1) id] assms(1) id by (simp_all add: scheduler_task_parent_pid_def scheduler_task_table_ptr_def sched_const task_id_def)
    have b: "?body i (- 1) = Some (if ok i then i else - 1)" using st i by (auto simp: ok_def child_of_def sched_const)
    show "\<exists>r'. ?body i r = Some r' \<and> ?P (i + 1) r'"
    proof (cases "ok r")
      case True
      then have "?body i r = Some r" by (simp add: ok_def child_of_def)
      then show ?thesis using True by blast
    next
      case False
      then have r: "r = - 1" "\<forall>j. ok j \<longrightarrow> i \<le> j" using P by auto
      have "i + 1 \<le> j" if "ok j" "\<not> ok i" for j
        using r(2) that by (cases "i = j") (auto dest: order_le_imp_less_or_eq)
      then show ?thesis using b r(1) by (cases "ok i") auto
    qed
  qed (use assms(2) in \<open>auto simp: ok_def child_of_def\<close>)
  then obtain r where r: "for_range 0 (sq s p 0) ?body (- 1) = Some r" "?P (sq s p 0) r" by blast
  have "scheduler_find_child s p parent ex = Some r"
    using r(1) assms(1) by (simp add: scheduler_find_child_def scheduler_task_count_def sched_const)
  moreover have "\<not> ok j" if "sq s p 0 \<le> j" for j using that by (simp add: ok_def child_of_def)
  ultimately show ?thesis using r(2) by blast
qed

text \<open>
  C34: waiting for oneself (even for a task that is its own parent, as the idle task is), for a
  task that does not exist or is not one's child, or for any child without having one, returns -1 at once and changes
  nothing.
\<close>

theorem scheduler_waitpid_refuses:
  assumes "sched_ok s p"
    and "t = sq s p 1 \<or> t \<noteq> - 1 \<and> \<not> child_of s p (sq s p 1) t \<or> t = - 1 \<and> (\<forall>u. \<not> child_of s p (sq s p 1) u)"
  shows "scheduler_waitpid others s p t = Some (- 1, s)"
proof -
  note o = sched_okD [OF assms(1)]
  have c: "0 \<le> sq s p 0" "sq s p 0 \<le> 8" using o(2) by (auto simp: counted_def)
  have cur: "scheduler_current_task s p = Some (sq s p 1)" "scheduler_task_count s p = Some (sq s p 0)"
    using o(6) by (simp_all add: scheduler_current_task_def scheduler_task_count_def sched_const)
  consider "t < - 1 \<or> sq s p 0 \<le> t \<or> t = sq s p 1" | "t = - 1" "t \<noteq> sq s p 1"
    | "0 \<le> t" "t < sq s p 0" "t \<noteq> sq s p 1" by linarith
  then show ?thesis
  proof cases
    case 1
    then show ?thesis using cur by (auto simp: scheduler_waitpid_def)
  next
    case 2
    have "scheduler_find_child s p (sq s p 1) 0 = Some (- 1)"
      using find_child [OF o(6) c, of "sq s p 1" 0] assms(2) 2 by auto
    then show ?thesis using cur 2 o(8) c by (simp add: scheduler_waitpid_def task_id_def)
  next
    case 3
    then have id: "task_id t" using c by (simp add: task_id_def)
    have "scheduler_task_state s p t = Some (tf s p t 1)" "scheduler_task_parent_pid s p t = Some (tf s p t 20)"
      using task_state_eq [OF o(6) id] o(6) id by (simp_all add: scheduler_task_parent_pid_def scheduler_task_table_ptr_def sched_const task_id_def)
    then show ?thesis using cur 3 assms(2) by (auto simp: scheduler_waitpid_def child_of_def sched_const)
  qed
qed

theorem scheduler_waitpid_refuses_witness:
  "scheduler_waitpid Some sample_sched 0x111000 0 = Some (- 1, sample_sched)
    \<and> scheduler_waitpid Some sample_sched 0x111000 1 = Some (- 1, sample_sched)
    \<and> scheduler_waitpid Some sample_sched 0x111000 7 = Some (- 1, sample_sched)"
proof -
  have "tf sample_sched 0x111000 0 20 = 0"
    unfolding tf_def sample_sq by (simp add: sample_sched_def load_put_qword load_put_qword_other i64_id in64_def)
  then show ?thesis
    using scheduler_waitpid_refuses [OF sample_ok, of _ Some]
    by (intro conjI) (simp_all add: child_of_def sample_sq)
qed

end
