(* ===== verification/KernelProps.thy ===== *)
theory KernelProps
  imports Kernel SchedTick SchedProps
begin

text \<open>
  The timer interrupt from its entry point in \<^verbatim>\<open>kernel.py\<close> down: accounting, the choice of the next task, the
  saved frame of the interrupted user task and the context that takes over.
\<close>

section \<open>Saving the interrupted task\<close>

lemma copy_frame:
  assumes "qword_ptr d" "qword_ptr f" "{f..<f + 160} \<inter> {d..<d + 160} = {}"
  shows "\<exists>t. scheduler_copy_interrupt_frame s d f = Some t \<and> writes_in {d..<d + 160} s t
    \<and> (\<forall>k. 0 \<le> k \<and> k < 20 \<longrightarrow> load_qword t (d + k * 8) = load_qword s (f + k * 8))"
  unfolding scheduler_copy_interrupt_frame_def interrupt_frame_qword_count_def
proof (rule for_range_total [where P = "\<lambda>i t. writes_in {d..<d + 160} s t
    \<and> (\<forall>k. 0 \<le> k \<and> k < i \<longrightarrow> load_qword t (d + k * 8) = load_qword s (f + k * 8))"])
  fix i :: int and t
  assume i: "0 \<le> i" "i < 20" "writes_in {d..<d + 160} s t \<and> (\<forall>k. 0 \<le> k \<and> k < i \<longrightarrow> load_qword t (d + k * 8) = load_qword s (f + k * 8))"
  have "{f + i * 8..<f + i * 8 + 8} \<inter> {d..<d + 160} = {}" using assms(3) i by auto
  then have v: "load_qword t (f + i * 8) = load_qword s (f + i * 8)" using i(3) writes_in_load by blast
  let ?t = "put_qword t (d + i * 8) (load_qword s (f + i * 8))"
  have "writes_in {d..<d + 160} s ?t" using i writes_in_trans [OF _ writes_in_put] by auto
  moreover have "load_qword ?t (d + k * 8) = load_qword s (f + k * 8)" if "0 \<le> k" "k < i + 1" for k
  proof (cases "k = i")
    case True
    then show ?thesis by (simp add: load_put_qword i64_id memory.load_in64)
  next
    case False
    then show ?thesis using i(3) that slot_gap [of k i d] by (simp add: load_put_qword_other)
  qed
  ultimately show "\<exists>s'. (do { v \<leftarrow> load_qword_region t f 20 i; store_qword_region t d 20 i v }) = Some s' \<and> writes_in {d..<d + 160} s s'
      \<and> (\<forall>k. 0 \<le> k \<and> k < i + 1 \<longrightarrow> load_qword s' (d + k * 8) = load_qword s (f + k * 8))"
    using assms(1,2) i v by (auto simp: region_simps)
qed simp_all

text \<open>The word at the top of the kernel stack of a task, through which its context returns.\<close>

abbreviation return_slot :: "machine \<Rightarrow> int \<Rightarrow> int \<Rightarrow> int" where
  "return_slot s p t \<equiv> task_kernel_rsp0_top (tf s p t 8) - 8"

lemma writes_in_trampoline:
  assumes "writes_in A s t"
  shows "interrupt_return_trampoline_addr t = interrupt_return_trampoline_addr s"
proof -
  have "symbol t = symbol (s\<lparr>mem := mem t\<rparr>)" using assms unfolding writes_in_def by metis
  then show ?thesis by (simp add: interrupt_return_trampoline_addr_def)
qed

lemma writes_in_regs:
  assumes "writes_in A s t"
  shows "regs t = regs s"
proof -
  have "regs t = regs (s\<lparr>mem := mem t\<rparr>)" using assms unfolding writes_in_def by metis
  then show ?thesis by simp
qed

lemma return_context:
  assumes "qword_ptr c" "qword_ptr w" "w = align_down (b + task_stack_size) 16 - 8" "{c..<c + 56} \<inter> {w..<w + 8} = {}" "in64 w" "in64 f"
  shows "\<exists>t. scheduler_configure_interrupt_return_context s c b f = Some t \<and> writes_in ({c..<c + 56} \<union> {w..<w + 8}) s t
    \<and> load_qword t c = w \<and> load_qword t (c + 24) = f \<and> load_qword t w = i64 (interrupt_return_trampoline_addr s)"
proof -
  define t where "t = poke [(w, interrupt_return_trampoline_addr s), (c, w), (c + 8, 0), (c + 16, 0), (c + 24, f), (c + 32, 0), (c + 40, 0), (c + 48, 0)] s"
  have "w + 8 \<le> c \<or> c + 56 \<le> w"
  proof (rule ccontr)
    assume "\<not> ?thesis"
    then have "max c w \<in> {c..<c + 56} \<inter> {w..<w + 8}" by auto
    then show False using assms(4) by blast
  qed
  then have "load_qword t c = w" "load_qword t (c + 24) = f" "load_qword t w = i64 (interrupt_return_trampoline_addr s)"
    using assms(5,6) by (auto simp: t_def load_put_qword load_put_qword_other i64_id)
  moreover have "scheduler_configure_interrupt_return_context s c b f = Some t"
    using assms(1,2) by (simp add: scheduler_configure_interrupt_return_context_def set_task_context_qword_def Let_def
        assms(3) [symmetric] region_simps sched_const(1-30) context_slot_limit_def t_def)
  moreover have "writes_in ({c..<c + 56} \<union> {w..<w + 8}) s t"
    unfolding t_def poke_simps fst_conv snd_conv by (intro writes_in_trans [OF _ writes_in_put] writes_in_refl) auto
  ultimately show ?thesis by blast
qed

text \<open>
  Where the frame of task \<open>c\<close> is saved: the buffer of the task, its context and the return slot.  The
  frame at \<open>frame\<close> may lie over the return slot (the processor pushed it there): it is copied first.
\<close>

definition save_area :: "machine \<Rightarrow> int \<Rightarrow> int \<Rightarrow> int set" where
  "save_area s p c = {tf s p c 24..<tf s p c 24 + 160} \<union> context_area s p c \<union> {return_slot s p c..<return_slot s p c + 8}"

definition irq_save_ok :: "machine \<Rightarrow> int \<Rightarrow> int \<Rightarrow> int \<Rightarrow> bool" where
  "irq_save_ok s p c frame \<longleftrightarrow> qword_ptr frame \<and> qword_ptr (tf s p c 24) \<and> qword_ptr (tf s p c 7) \<and> qword_ptr (return_slot s p c)
     \<and> in64 (return_slot s p c)
     \<and> {frame..<frame + 160} \<inter> ({tf s p c 24..<tf s p c 24 + 160} \<union> sched_area s p) = {}
     \<and> {tf s p c 24..<tf s p c 24 + 160} \<inter> (context_area s p c \<union> {return_slot s p c..<return_slot s p c + 8}) = {}
     \<and> context_area s p c \<inter> {return_slot s p c..<return_slot s p c + 8} = {}
     \<and> save_area s p c \<inter> (sched_area s p \<union> vfs_area s (sq s p 14)) = {}
     \<and> (\<forall>u. task_id u \<and> runnable s p u \<and> u \<noteq> c \<longrightarrow> context_area s p u \<inter> save_area s p c = {})"

lemma irq_save_ok_frame:
  assumes "irq_save_ok s p c frame" "sched_ok s p" "task_id c" "writes_in (sched_area s p) s t" "sched_area t p = sched_area s p"
    and "sq t p 14 = sq s p 14" "\<And>u k. task_id u \<Longrightarrow> k \<in> {1, 7, 8, 24} \<Longrightarrow> tf t p u k = tf s p u k"
  shows "irq_save_ok t p c frame" "save_area t p c = save_area s p c" "\<And>u. task_id u \<Longrightarrow> context_area t p u = context_area s p u"
proof -
  show c: "context_area t p u = context_area s p u" if "task_id u" for u using assms(7) [OF that] by (simp add: context_area_def)
  show a: "save_area t p c = save_area s p c" using assms(7) [OF assms(3)] c [OF assms(3)] by (simp add: save_area_def)
  have v: "vfs_area t (sq t p 14) = vfs_area s (sq s p 14)"
    using vfs_area_frame [OF sched_okD(3) [OF assms(2)] assms(4)] assms(6) by simp
  have "context_area t p u \<inter> save_area t p c = {}" if "task_id u" "runnable t p u" "u \<noteq> c" for u
    using assms(1) that c [OF that(1)] a assms(7) [OF that(1), of 1] unfolding irq_save_ok_def runnable_def by simp
  then show "irq_save_ok t p c frame"
    using assms(1) assms(7) [OF assms(3)] c [OF assms(3)] a assms(5) v unfolding irq_save_ok_def by simp
qed

lemma save_context:
  assumes "sched_layout s p" "task_id c" "irq_save_ok s p c frame"
  shows "\<exists>t. scheduler_save_user_irq_context s p c frame = Some t \<and> writes_in (save_area s p c) s t
    \<and> (\<forall>k. 0 \<le> k \<and> k < 20 \<longrightarrow> load_qword t (tf s p c 24 + k * 8) = load_qword s (frame + k * 8))
    \<and> load_qword t (tf s p c 7) = return_slot s p c \<and> load_qword t (tf s p c 7 + 24) = tf s p c 24
    \<and> load_qword t (return_slot s p c) = i64 (interrupt_return_trampoline_addr s)"
proof -
  let ?f = "tf s p c 24" and ?x = "tf s p c 7" and ?w = "return_slot s p c"
  note h = assms(3) [unfolded irq_save_ok_def context_area_def save_area_def]
  have ptr: "qword_ptr ?f" "qword_ptr frame" using h by simp_all
  have sep: "{?f..<?f + 160} \<inter> ({?x..<?x + 56} \<union> {?w..<?w + 8}) = {}" using h by (elim conjE)
  have apart: "{frame..<frame + 160} \<inter> {?f..<?f + 160} = {}" using h by blast
  obtain t where t: "scheduler_copy_interrupt_frame s ?f frame = Some t" "writes_in {?f..<?f + 160} s t"
      "\<And>k. 0 \<le> k \<Longrightarrow> k < 20 \<Longrightarrow> load_qword t (?f + k * 8) = load_qword s (frame + k * 8)"
    using copy_frame [OF ptr apart, of s] by blast
  have "in64 ?f" unfolding tf_def by (rule memory.load_in64)
  then obtain u where u: "scheduler_configure_interrupt_return_context t ?x (tf s p c 8) ?f = Some u"
      "writes_in ({?x..<?x + 56} \<union> {?w..<?w + 8}) t u" "load_qword u ?x = ?w" "load_qword u (?x + 24) = ?f"
      "load_qword u ?w = i64 (interrupt_return_trampoline_addr t)"
    using return_context [of ?x ?w "tf s p c 8" ?f t, OF _ _ _ _ _ \<open>in64 ?f\<close>] h unfolding task_kernel_rsp0_top_def by blast
  have "scheduler_save_user_irq_context s p c frame = Some u"
    using assms(1,2) t(1) u(1) h
    by (simp add: scheduler_save_user_irq_context_def sched_getters sched_const task_id_def qword_ptr_def)
  moreover have "writes_in (save_area s p c) s u"
    using t(2) u(2) unfolding save_area_def context_area_def
    by (intro writes_in_trans [of _ s t u]) (auto elim!: writes_in_mono)
  moreover have "load_qword u (?f + k * 8) = load_qword s (frame + k * 8)" if "0 \<le> k" "k < 20" for k
  proof -
    have "{?f + k * 8..<?f + k * 8 + 8} \<subseteq> {?f..<?f + 160}" using that by auto
    then have "{?f + k * 8..<?f + k * 8 + 8} \<inter> ({?x..<?x + 56} \<union> {?w..<?w + 8}) = {}" using sep by blast
    then show ?thesis using writes_in_load [OF u(2)] t(3) [OF that] by simp
  qed
  ultimately show ?thesis using u(3-5) writes_in_trampoline [OF t(2)] by auto
qed

lemma resume_context:
  assumes "sched_layout s p" "task_id n"
  shows "\<exists>t. scheduler_resume_task_context s p n = Some t \<and> mem t = mem s \<and> cr3 t = tf s p n 10
    \<and> tss_rsp0 t = task_kernel_rsp0_top (tf s p n 8) \<and> regs t = map (\<lambda>k. load_qword s (tf s p n 7 + k * 8)) [0..6]"
proof -
  define s1 where "s1 = load_cr3 (set_tss_rsp0 s (task_kernel_rsp0_top (tf s p n 8))) (tf s p n 10)"
  define t where "t = restore_task_context s1 (tf s p n 7)"
  have m: "mem s1 = mem s" by (simp add: s1_def load_cr3_def set_tss_rsp0_def)
  have l: "load_qword s1 a = load_qword s a" for a by (simp add: load_qword_def m)
  have t: "regs t = map (\<lambda>k. load_qword s (tf s p n 7 + k * 8)) [0..6]" "mem t = mem s" "cr3 t = tf s p n 10"
      "tss_rsp0 t = task_kernel_rsp0_top (tf s p n 8)"
    using l m by (simp_all add: t_def restore_task_context_def) (simp_all add: s1_def load_cr3_def set_tss_rsp0_def)
  define s0 where "s0 = set_tss_rsp0 s (task_kernel_rsp0_top (tf s p n 8))"
  have n: "0 \<le> n" "n < 8" using assms(2) by (auto simp: task_id_def)
  have field: "scheduler_state_qword v p 8 = Some (sq s p 8)" "0 \<le> k \<Longrightarrow> k < 25 \<Longrightarrow> scheduler_task_qword v (sq s p 8) n k = Some (tf s p n k)"
    if "mem v = mem s" for v k
  proof -
    have "\<forall>x \<in> sched_area s p. mem v x = mem s x" using that by simp
    note f = sched_frame [OF assms(1) this]
    show "scheduler_state_qword v p 8 = Some (sq s p 8)" using sched_read(1) [OF f(4), of 8] f(1) [of 8] by simp
    show "scheduler_task_qword v (sq s p 8) n k = Some (tf s p n k)" if "0 \<le> k" "k < 25"
      using sched_read(2) [OF f(4) n that] f(1) [of 8] f(2) [OF n that] by simp
  qed
  have "mem s0 = mem s" by (simp add: s0_def set_tss_rsp0_def)
  then have "scheduler_resume_task_context s p n = Some t"
    using field [of s0] field [of s1] m field [of s]
    by (simp add: scheduler_resume_task_context_def sched_getters sched_const s0_def [symmetric] Let_def)
       (simp add: s0_def t_def s1_def)
  then show ?thesis using t by blast
qed

section \<open>The interrupt\<close>

text \<open>What the rest of the interrupt does once the clock is charged and the user task \<open>c\<close> is to be preempted.\<close>

lemma preempt_part:
  assumes "sched_ok s p" "sq s p 11 < 2 ^ 62" "irq_save_ok s p (sq s p 1) frame" "next_task s p \<noteq> sq s p 1"
  defines "c \<equiv> sq s p 1" and "n \<equiv> next_task s p"
  shows "\<exists>t. (do {
      (m, s) \<leftarrow> scheduler_pick_next_task s p;
      if m = c then Some (c, s) else do {
        s \<leftarrow> scheduler_save_user_irq_context s p c frame;
        s \<leftarrow> scheduler_resume_task_context s p m;
        Some (m, s) } }) = Some (n, t) \<and> task_id n \<and> runnable s p n
    \<and> sched_ok t p \<and> sq t p 1 = n \<and> cr3 t = tf s p n 10 \<and> tss_rsp0 t = task_kernel_rsp0_top (tf s p n 8)
    \<and> regs t = map (\<lambda>k. load_qword s (tf s p n 7 + k * 8)) [0..6]
    \<and> (\<forall>k. 0 \<le> k \<and> k < 20 \<longrightarrow> load_qword t (tf s p c 24 + k * 8) = load_qword s (frame + k * 8))
    \<and> load_qword t (tf s p c 7) = return_slot s p c \<and> load_qword t (tf s p c 7 + 24) = tf s p c 24
    \<and> load_qword t (return_slot s p c) = i64 (interrupt_return_trampoline_addr s)"
proof -
  note o = sched_okD [OF assms(1)]
  have id: "task_id c" using o(8) by (simp add: c_def)
  have ids: "\<forall>t \<in> set (ready s p). task_id t" using o(1) by (simp add: sched_inv_def)
  obtain s1 where s1: "scheduler_pick_next_task s p = Some (n, s1)" "picked p s n s1"
    using pick_next [OF o(7-9) ids o(10) assms(2)] by (auto simp: n_def next_task_def waiting_def)
  have ok1: "sched_ok s1 p" using ok_pick [OF assms(1,2) s1(1)] .
  have n: "task_id n" "n = sq s p 2 \<or> runnable s p n" "n \<noteq> c" using pick_inv [OF o(1) assms(2)] s1(1) assms(4) by (auto simp: n_def c_def)
  have nrun: "runnable s p n" using n(2) o(2) by (auto simp: counted_def)
  have f1: "tf s1 p u k = tf s p u k" if "task_id u" "0 \<le> k" "k < 25" "k \<noteq> 3" for u k using s1(2) that by (simp add: picked_def)
  have q1: "sq s1 p 14 = sq s p 14" "sq s1 p 1 = n" "sched_area s1 p = sched_area s p" "writes_in (sched_area s p) s s1"
    using s1(2) by (simp_all add: picked_def)
  note h1 = irq_save_ok_frame [OF assms(3) [folded c_def] assms(1) id q1(4,3,1)]
  have h1: "irq_save_ok s1 p c frame" "save_area s1 p c = save_area s p c" "\<And>u. task_id u \<Longrightarrow> context_area s1 p u = context_area s p u"
    using f1 by (auto intro!: h1)
  obtain s2 where s2: "scheduler_save_user_irq_context s1 p c frame = Some s2" "writes_in (save_area s1 p c) s1 s2"
      "\<forall>k. 0 \<le> k \<and> k < 20 \<longrightarrow> load_qword s2 (tf s1 p c 24 + k * 8) = load_qword s1 (frame + k * 8)"
      "load_qword s2 (tf s1 p c 7) = return_slot s1 p c" "load_qword s2 (tf s1 p c 7 + 24) = tf s1 p c 24"
      "load_qword s2 (return_slot s1 p c) = i64 (interrupt_return_trampoline_addr s1)"
    using save_context [OF sched_okD(6) [OF ok1] id h1(1)] by blast
  have sep: "save_area s p c \<inter> (sched_area s p \<union> vfs_area s (sq s p 14)) = {}" using assms(3) by (simp add: irq_save_ok_def c_def)
  note o1 = sched_okD [OF ok1]
  have keep: "\<forall>a \<in> sched_area s1 p. mem s2 a = mem s1 a" "\<forall>a \<in> vfs_area s1 (sq s1 p 14). mem s2 a = mem s1 a"
    using s2(2) sep vfs_area_frame [OF o(3) q1(4)] q1(1,3) h1(2) by (auto simp: writes_in_def disjoint_iff)
  have v1: "vfs_layout s1 (sq s1 p 14)" using o1(3) by (simp add: vfs_apart_def)
  have fr: "sched_layout s2 p" "\<And>k. 0 \<le> k \<Longrightarrow> k < 25 \<Longrightarrow> tf s2 p n k = tf s1 p n k" "sq s2 p 1 = sq s1 p 1"
    using sched_frame [OF o1(6) keep(1)] n(1) by (simp_all add: task_id_def)
  obtain t where t: "scheduler_resume_task_context s2 p n = Some t" "mem t = mem s2" "cr3 t = tf s2 p n 10"
      "tss_rsp0 t = task_kernel_rsp0_top (tf s2 p n 8)" "regs t = map (\<lambda>k. load_qword s2 (tf s2 p n 7 + k * 8)) [0..6]"
    using resume_context [OF fr(1) n(1)] by blast
  have kt: "\<forall>a \<in> sched_area s1 p. mem t a = mem s1 a" "\<forall>a \<in> vfs_area s1 (sq s1 p 14). mem t a = mem s1 a" using keep t(2) by simp_all
  have "sched_ok t p" using ok_foreign [OF ok1 kt(1)] vfs_frame(4,5) [OF v1 kt(2)] by simp
  moreover have "sq t p 1 = n" using sched_frame(1) [OF o1(6) kt(1), of 1] q1(2) by simp
  moreover have "load_qword t a = load_qword s2 a" for a by (simp add: load_qword_def t(2))
  moreover have "load_qword s2 (tf s p n 7 + k * 8) = load_qword s (tf s p n 7 + k * 8)" if "0 \<le> k" "k \<le> 6" for k
  proof -
    have sub: "{tf s p n 7 + k * 8..<tf s p n 7 + k * 8 + 8} \<subseteq> context_area s p n" using that by (auto simp: context_area_def)
    have "context_area s p n \<inter> save_area s p c = {}" using assms(3) n nrun by (simp add: irq_save_ok_def c_def)
    moreover have "context_area s p n \<inter> sched_area s p = {}" using o(4) n(1) nrun by (auto simp: contexts_apart_def runnable_def)
    ultimately have "{tf s p n 7 + k * 8..<tf s p n 7 + k * 8 + 8} \<inter> save_area s1 p c = {}"
      "{tf s p n 7 + k * 8..<tf s p n 7 + k * 8 + 8} \<inter> sched_area s p = {}" unfolding h1(2) using sub by blast+
    then show ?thesis using writes_in_load [OF s2(2)] writes_in_load [OF q1(4)] by simp
  qed
  moreover have "load_qword s1 (frame + k * 8) = load_qword s (frame + k * 8)" if "0 \<le> k" "k < 20" for k
  proof -
    have "{frame + k * 8..<frame + k * 8 + 8} \<subseteq> {frame..<frame + 160}" using that by auto
    moreover have "{frame..<frame + 160} \<inter> sched_area s p = {}" using assms(3) unfolding irq_save_ok_def by blast
    ultimately show ?thesis using writes_in_load [OF q1(4)] by blast
  qed
  ultimately show ?thesis
    using s1(1) s2 t n(1,3) nrun f1 [OF id] f1 [OF n(1)] fr(2) writes_in_trampoline [OF q1(4)] by (intro exI [of _ t]) simp
qed


text \<open>The interrupt routine is: charge the clock, then stay, or make the choice of \<open>preempt_part\<close>.\<close>

lemma timer_irq_eq:
  assumes "sched_ok s p" "scheduler_account_tick s p (current_kernel_ticks s) = Some (d, u)"
    and "d = 0 \<longleftrightarrow> current_kernel_ticks s \<le> sq s p 3" "sched_ok u p" "sq u p 1 = c" "tf u p c 9 = tf s p c 9"
  shows "scheduler_timer_irq s p frame cs =
    (if (sq s p 3 < current_kernel_ticks s \<and> cs AND 3 = 3 \<and> tf s p c 9 = task_mode_user) \<and> 1 < card {i. task_id i \<and> runnable u p i}
     then do {
      (m, s) \<leftarrow> scheduler_pick_next_task u p;
      if m = c then Some (c, s) else do {
        s \<leftarrow> scheduler_save_user_irq_context s p c frame;
        s \<leftarrow> scheduler_resume_task_context s p m;
        Some (m, s) } }
     else Some (c, u))"
proof -
  note ou = sched_okD [OF assms(4)]
  have "scheduler_current_task u p = Some c" "scheduler_task_mode u p c = Some (tf s p c 9)"
    using ou(6,8) assms(5,6) by (simp_all add: sched_getters sched_const task_id_def)
  then show ?thesis using assms(2,3) runnable_count [OF assms(4)] by (auto simp: scheduler_timer_irq_def Let_def)
qed

text \<open>
  C15: The timer interrupt always returns and keeps the scheduler invariant.  It moves to
  another task exactly when time has passed, the interrupt came from user mode, the current task is a user task and
  the choice of the scheduler is another one.  Then the interrupted frame is in the buffer of the task word for word,
  its context returns through the interrupt trampoline to that buffer, and the registers, the address space and the
  kernel stack of the chosen task are loaded.  Otherwise registers, address space and stack stay as they are.
\<close>

theorem timer_interrupt_preempts:
  fixes p frame cs :: int
  assumes "sched_ok s p" "get_active_scheduler s = p" "sq s p 11 < 2 ^ 62" "in64 (current_kernel_ticks s)"
    and "tf s p (sq s p 1) 9 = task_mode_user \<Longrightarrow> irq_save_ok s p (sq s p 1) frame"
  defines "c \<equiv> sq s p 1"
  defines "n \<equiv> if sq s p 3 < current_kernel_ticks s \<and> cs AND 3 = 3 \<and> tf s p c 9 = task_mode_user then next_task s p else c"
  shows "\<exists>t. timer_irq_entry s frame cs = Some t \<and> sched_ok t p \<and> sq t p 1 = n
    \<and> (n = c \<longrightarrow> regs t = regs s \<and> cr3 t = cr3 s \<and> tss_rsp0 t = tss_rsp0 s)
    \<and> (n \<noteq> c \<longrightarrow> regs t = map (\<lambda>k. load_qword s (tf s p n 7 + k * 8)) [0..6] \<and> cr3 t = tf s p n 10
        \<and> tss_rsp0 t = task_kernel_rsp0_top (tf s p n 8)
        \<and> (\<forall>k. 0 \<le> k \<and> k < 20 \<longrightarrow> load_qword t (tf s p c 24 + k * 8) = load_qword s (frame + k * 8))
        \<and> load_qword t (tf s p c 7) = return_slot s p c \<and> load_qword t (tf s p c 7 + 24) = tf s p c 24
        \<and> load_qword t (return_slot s p c) = i64 (interrupt_return_trampoline_addr s))"
proof -
  note o = sched_okD [OF assms(1)]
  have id: "task_id c" using o(8) by (simp add: c_def)
  obtain d u where u: "scheduler_account_tick s p (current_kernel_ticks s) = Some (d, u)" "d = 0 \<longleftrightarrow> current_kernel_ticks s \<le> sq s p 3"
      "sched_ok u p" "writes_in (sched_area s p) s u" "sched_area u p = sched_area s p" "next_task u p = next_task s p"
      "\<forall>k. k \<in> {0, 1, 2, 10, 11, 14} \<longrightarrow> sq u p k = sq s p k"
      "\<forall>i k. task_id i \<and> 0 \<le> k \<and> k < 25 \<and> k \<noteq> 2 \<longrightarrow> tf u p i k = tf s p i k"
    using tick_part [OF assms(1,4)] by blast
  note ou = sched_okD [OF u(3)]
  have entry: "timer_irq_entry s frame cs = map_option snd (scheduler_timer_irq s p frame cs)"
    using o(6) assms(2) by (cases "scheduler_timer_irq s p frame cs") (auto simp: timer_irq_entry_def sched_layout_def)
  let ?go = "sq s p 3 < current_kernel_ticks s \<and> cs AND 3 = 3 \<and> tf s p c 9 = task_mode_user"
  let ?pick = "do {
      (m, s) \<leftarrow> scheduler_pick_next_task u p;
      if m = c then Some (c, s) else do {
        s \<leftarrow> scheduler_save_user_irq_context s p c frame;
        s \<leftarrow> scheduler_resume_task_context s p m;
        Some (m, s) } }"
  let ?many = "1 < card {i. task_id i \<and> runnable u p i}"
  have irq: "scheduler_timer_irq s p frame cs = (if ?go \<and> ?many then ?pick else Some (c, u))"
    by (rule timer_irq_eq [OF assms(1) u(1-3)]) (use u(7,8) id in \<open>simp_all add: c_def\<close>)
  have stay: ?thesis if "n = c" "scheduler_timer_irq s p frame cs = Some (c, t)" "sched_ok t p" "sq t p 1 = c" "writes_in (sched_area s p) s t" for t
    using that entry writes_in_regs [OF that(5)] writes_in_fields [OF that(5)] by (intro exI [of _ t]) simp
  have uc: "sq u p 1 = c" using u(7) by (simp add: c_def)
  have b: "sq u p 11 < 2 ^ 62" using u(7) assms(3) by simp
  show ?thesis
  proof (cases "?go \<and> ?many")
    case False
    then have "n = c" using single_next [OF u(3)] u(6) uc by (auto simp: n_def)
    moreover have "scheduler_timer_irq s p frame cs = Some (c, u)" using irq False by (simp only: if_False)
    ultimately show ?thesis using u(3,4) uc by (intro stay)
  next
    case True
    then have n: "n = next_task u p" using u(6) by (simp add: n_def)
    show ?thesis
    proof (cases "n = c")
      case same: True
      have ids: "\<forall>t \<in> set (ready u p). task_id t" using ou(1) by (simp add: sched_inv_def)
      obtain v where v: "scheduler_pick_next_task u p = Some (c, v)" "picked p u c v"
        using pick_next [OF ou(7-9) ids ou(10) b] same n by (auto simp: next_task_def waiting_def)
      then have "writes_in (sched_area s p) s v" "sq v p 1 = c" using u(4,5) by (auto simp: picked_def intro: writes_in_trans)
      moreover have "scheduler_timer_irq s p frame cs = Some (c, v)" using irq True v(1) by simp
      ultimately show ?thesis using same ok_pick [OF u(3) b v(1)] by (intro stay)
    next
      case False
      have ok: "irq_save_ok s p c frame" using True assms(5) by (simp add: c_def)
      have h: "irq_save_ok u p c frame" by (rule irq_save_ok_frame(1) [OF ok assms(1) id u(4,5)]) (use u(7,8) in auto)
      have ff: "tf u p i k = tf s p i k" if "task_id i" "k \<in> {7, 8, 10, 24}" for i k using u(8) that by auto
      obtain t where t: "?pick = Some (n, t)" "task_id n" "runnable u p n" "sched_ok t p" "sq t p 1 = n" "cr3 t = tf u p n 10"
          "tss_rsp0 t = task_kernel_rsp0_top (tf u p n 8)" "regs t = map (\<lambda>k. load_qword u (tf u p n 7 + k * 8)) [0..6]"
          "\<forall>k. 0 \<le> k \<and> k < 20 \<longrightarrow> load_qword t (tf u p c 24 + k * 8) = load_qword u (frame + k * 8)"
          "load_qword t (tf u p c 7) = return_slot u p c" "load_qword t (tf u p c 7 + 24) = tf u p c 24"
          "load_qword t (return_slot u p c) = i64 (interrupt_return_trampoline_addr u)"
        using preempt_part [OF u(3) b h [folded uc] False [unfolded n uc [symmetric]], folded n, unfolded uc] by blast
      have ld: "load_qword u (a + k * 8) = load_qword s (a + k * 8)"
        if "{a..<a + m * 8} \<inter> sched_area s p = {}" "0 \<le> k" "k < m" for a k m
      proof (rule writes_in_load [OF u(4)])
        have "{a + k * 8..<a + k * 8 + 8} \<subseteq> {a..<a + m * 8}" using that(2,3) by auto
        then show "{a + k * 8..<a + k * 8 + 8} \<inter> sched_area s p = {}" using that(1) by blast
      qed
      have "tf s p n 1 \<noteq> 0" using t(2,3) u(8) by (auto simp: runnable_def)
      then have "{tf s p n 7..<tf s p n 7 + 7 * 8} \<inter> sched_area s p = {}"
        using o(4) t(2) by (auto simp: contexts_apart_def context_area_def)
      moreover have "{frame..<frame + 20 * 8} \<inter> sched_area s p = {}" using ok by (auto simp: irq_save_ok_def)
      moreover have "timer_irq_entry s frame cs = Some t" using entry irq True t(1) by simp
      ultimately show ?thesis
        using False t(4-12) ff [OF id] ff [OF t(2)] ld [of "tf s p n 7" 7] ld [of frame 20] writes_in_trampoline [OF u(4)]
        by (intro exI [of _ t]) simp
    qed
  qed
qed


section \<open>A sample interrupt\<close>

definition sample_irq :: machine where
  "sample_irq = (put_qword (put_qword sample_sched 0x112188 0x130000) 0x112108 0x140000)\<lparr>timer_irq_count := 107, active_scheduler := 0x111000\<rparr>"

lemma sample_irq_ok:
  shows "sched_ok sample_irq 0x111000" and "0 \<le> k \<Longrightarrow> k < 15 \<Longrightarrow> sq sample_irq 0x111000 k = sq sample_sched 0x111000 k"
    and "task_id u \<Longrightarrow> 0 \<le> j \<Longrightarrow> j < 25 \<Longrightarrow> tf sample_irq 0x111000 u j =
     (if u = 1 \<and> j = 24 then 0x130000 else if u = 1 \<and> j = 8 then 0x140000 else tf sample_sched 0x111000 u j)"
    and "sched_area sample_irq 0x111000 = sched_area sample_sched 0x111000"
    and "vfs_area sample_irq 0x114000 = vfs_area sample_sched 0x114000"
    and "ready sample_irq 0x111000 = ready sample_sched 0x111000"
proof -
  note o = sched_okD [OF sample_ok]
  let ?s1 = "put_qword sample_sched 0x112188 0x130000"
  let ?s2 = "put_qword ?s1 0x112108 0x140000"
  have one: "task_id 1" by (simp add: task_id_def)
  have v1: "sview 0x111000 sample_sched (sq sample_sched 0x111000) ((tf sample_sched 0x111000)(1 := (tf sample_sched 0x111000 1)(24 := 0x130000))) ?s1"
    using sview_task [OF sview_refl [OF o(6)] one, of 24 "0x130000"] sched_write(2) [OF o(6), where t = 1 and k = 24 and v = "0x130000"]
    by (simp add: sample_sq i64_id in64_def)
  have q1: "sq ?s1 0x111000 8 = 0x112000" using sview_sq [OF v1, of 8] by (simp add: sample_sq)
  have v2: "sview 0x111000 sample_sched (sq sample_sched 0x111000)
      ((tf sample_sched 0x111000)(1 := (tf sample_sched 0x111000 1)(24 := 0x130000, 8 := 0x140000))) ?s2"
    using sview_task [OF v1 one, of 8 "0x140000"] sched_write(2) [OF sview_layout [OF v1], where t = 1 and k = 8 and v = "0x140000"]
    by (simp add: q1 i64_id in64_def)
  have ok2: "sched_ok ?s2 0x111000" using sample_ok v2 by (rule sched_ok_view) (use o(5) in \<open>auto simp: sample_sq\<close>)
  have m: "mem sample_irq = mem ?s2" by (simp add: sample_irq_def)
  note f = sched_frame [OF sched_okD(6) [OF ok2], of sample_irq]
  have q2: "sq ?s2 0x111000 14 = 0x114000" using sview_sq [OF v2, of 14] by (simp add: sample_sq)
  have l2: "vfs_layout ?s2 0x114000" using sched_okD(3) [OF ok2] q2 by (simp add: vfs_apart_def)
  note w = vfs_frame(4,5) [OF l2, of sample_irq]
  show "sched_ok sample_irq 0x111000" by (rule ok_foreign [OF ok2]) (use m w q2 in simp_all)
  show sq: "0 \<le> k \<Longrightarrow> k < 15 \<Longrightarrow> sq sample_irq 0x111000 k = sq sample_sched 0x111000 k" for k using f(1) m sview_sq [OF v2] by simp
  show "ready sample_irq 0x111000 = ready sample_sched 0x111000" using sq f(3) m v2 by (simp add: ready_def sview_def)
  show "task_id u \<Longrightarrow> 0 \<le> j \<Longrightarrow> j < 25 \<Longrightarrow> tf sample_irq 0x111000 u j =
     (if u = 1 \<and> j = 24 then 0x130000 else if u = 1 \<and> j = 8 then 0x140000 else tf sample_sched 0x111000 u j)"
    using f(2) [of u j] m sview_tf [OF v2, of u j] unfolding task_id_def by simp
  show "sched_area sample_irq 0x111000 = sched_area sample_sched 0x111000" using f(5) m v2 by (simp add: sview_def)
  have "vfs_area ?s2 0x114000 = vfs_area sample_sched 0x114000"
    using vfs_area_frame [OF o(3), of ?s2] v2 unfolding sview_def sample_sq by blast
  then show "vfs_area sample_irq 0x114000 = vfs_area sample_sched 0x114000" using w(2) m by simp
qed

lemma sample_irq_save: "irq_save_ok sample_irq 0x111000 1 0x150000"
proof -
  have f: "tf sample_irq 0x111000 1 24 = 0x130000" "tf sample_irq 0x111000 1 8 = 0x140000" "tf sample_irq 0x111000 1 7 = 0x120100"
      "tf sample_irq 0x111000 0 7 = 0x120000" "tf sample_irq 0x111000 2 7 = 0x120200"
      "\<And>u. task_id u \<Longrightarrow> tf sample_irq 0x111000 u 1 = tf sample_sched 0x111000 u 1"
    by (simp_all add: sample_irq_ok(3) task_id_def sample_tf)
  have w: "task_kernel_rsp0_top 0x140000 = 0x141000" by (simp add: task_kernel_rsp0_top_def align_down_def task_stack_size_def)
  have q: "sq sample_irq 0x111000 14 = 0x114000" by (simp add: sample_irq_ok(2) sample_sq)
  have run: "u \<in> {0, 1, 2}" if "task_id u" "runnable sample_irq 0x111000 u" for u
    using that f(6) [OF that(1)] by (auto simp: runnable_def task_id_cases sample_tf)
  have "context_area sample_irq 0x111000 u \<inter> save_area sample_irq 0x111000 1 = {}"
    if "task_id u" "runnable sample_irq 0x111000 u" "u \<noteq> 1" for u
    using run [OF that(1,2)] that(3) by (auto simp: context_area_def save_area_def f w)
  moreover have "save_area sample_irq 0x111000 1 \<inter> (sched_area sample_irq 0x111000 \<union> vfs_area sample_irq 0x114000) = {}"
    by (auto simp: save_area_def context_area_def f w sample_irq_ok(4,5) sample_area)
  moreover have "{0x150000..<0x150000 + 160} \<inter> sched_area sample_irq 0x111000 = {}"
    by (auto simp: sample_irq_ok(4) sample_area)
  ultimately show ?thesis
    unfolding irq_save_ok_def q by (simp add: f w qword_ptr_def in64_def context_area_def Int_Un_distrib)
qed

theorem timer_interrupt_preempts_witness:
  "\<exists>t. timer_irq_entry sample_irq 0x150000 0x23 = Some t \<and> sq t 0x111000 1 = 2 \<and> sched_ok t 0x111000
    \<and> load_qword t 0x130000 = load_qword sample_irq 0x150000 \<and> load_qword t 0x120118 = 0x130000"
proof -
  note q = sample_irq_ok(2) sample_sq
  have run: "task_id u \<Longrightarrow> runnable sample_irq 0x111000 u = runnable sample_sched 0x111000 u" for u
    by (simp add: runnable_def sample_irq_ok(3))
  have one: "task_id 1" by (simp add: task_id_def)
  have "next_task sample_irq 0x111000 = next_task sample_sched 0x111000"
    by (rule next_task_cong [OF sample_ok sample_irq_ok(6)]) (use q run in simp_all)
  then have chosen: "next_task sample_irq 0x111000 = 2"
    by (simp add: next_task_def waiting_def sample_sq sample_ready first_ready_simps requeue_def runnable_def sample_tf)
  have m: "current_kernel_ticks sample_irq = 107" "get_active_scheduler sample_irq = 0x111000"
    by (simp_all add: current_kernel_ticks_def timer_tick_count_def read_timer_irq_count_def get_active_scheduler_def sample_irq_def)
  have f: "tf sample_irq 0x111000 1 9 = task_mode_user" "tf sample_irq 0x111000 1 24 = 0x130000" "tf sample_irq 0x111000 1 7 = 0x120100"
    "sq sample_irq 0x111000 1 = 1" "sq sample_irq 0x111000 3 = 100" "sq sample_irq 0x111000 11 = 1"
    by (simp_all add: q sample_irq_ok(3) one sample_tf task_mode_user_def)
  from timer_interrupt_preempts [OF sample_irq_ok(1) m(2), of "0x150000" "0x23", unfolded f m chosen, OF _ _ sample_irq_save]
  show ?thesis by (force simp: in64_def)
qed

end
