(* ===== verification/VfsPath.thy ===== *)
theory VfsPath
  imports VfsView
begin

text \<open>
  Path normalisation compared with a specification on lists of components.  The loop over bytes is
  described exactly, including what it does wrong: going up from a depth of two or more leaves the
  slash in front of the removed component in the output.
\<close>

section \<open>Byte ranges\<close>

definition bytes_at :: "machine \<Rightarrow> int \<Rightarrow> nat \<Rightarrow> int list" where
  "bytes_at s a n = map (\<lambda>i. load_byte s (a + int i)) [0..<n]"

lemma length_bytes_at [simp]: "length (bytes_at s a n) = n"
  by (simp add: bytes_at_def)

lemma nth_bytes_at [simp]: "i < n \<Longrightarrow> bytes_at s a n ! i = load_byte s (a + int i)"
  by (simp add: bytes_at_def)

lemma bytes_at_add: "bytes_at s a (m + n) = bytes_at s a m @ bytes_at s (a + int m) n"
  by (rule nth_equalityI) (auto simp: nth_append)

lemma bytes_at_Suc: "bytes_at s a (Suc n) = bytes_at s a n @ [load_byte s (a + int n)]"
  by (simp add: bytes_at_def)

lemma take_bytes_at: "m \<le> n \<Longrightarrow> take m (bytes_at s a n) = bytes_at s a m"
  by (rule nth_equalityI) auto

lemma drop_bytes_at: "m \<le> n \<Longrightarrow> drop m (bytes_at s a n) = bytes_at s (a + int m) (n - m)"
  by (rule nth_equalityI) (auto simp: add.assoc)

lemma bytes_at_cong:
  assumes "writes_in A s s'" "{a..<a + int n} \<inter> A = {}"
  shows "bytes_at s' a n = bytes_at s a n"
proof (rule nth_equalityI)
  fix i assume "i < length (bytes_at s' a n)"
  then have i: "i < n" by simp
  then have "a + int i \<in> {a..<a + int n}" by simp
  then have "a + int i \<notin> A" using assms(2) by blast
  then show "bytes_at s' a n ! i = bytes_at s a n ! i"
    using i writes_in_load_byte [OF assms(1)] by simp
qed simp

lemma bytes_at_mem: "(\<And>a. q \<le> a \<Longrightarrow> a < q + int n \<Longrightarrow> mem t a = mem s a) \<Longrightarrow> bytes_at t q n = bytes_at s q n"
  by (rule nth_equalityI) (auto simp: load_byte_def)

lemma load_store_byte: "load_byte (store_byte s a v) b = (if b = a then v mod 256 else load_byte s b)"
  by (simp add: load_byte_def store_byte_def uint_word_of_int)

lemma load_byte_bounded: "load_byte s a mod 256 = load_byte s a"
  using uint_bounded [of "mem s a"] by (simp add: load_byte_def)

lemma copy_bytes_Suc:
  "copy_bytes s d r (int (Suc n)) = store_byte (copy_bytes s d r (int n)) (d + int n) (load_byte (copy_bytes s d r (int n)) (r + int n))"
proof -
  have "[0..int (Suc n) - 1] = [0..int n - 1] @ [int n]" using upto_rec2 [of 0 "int n"] by simp
  then show ?thesis by (simp add: copy_bytes_def)
qed

lemma copy_bytes_0 [simp]: "n \<le> 0 \<Longrightarrow> copy_bytes s d r n = s"
  by (simp add: copy_bytes_def)

lemma copy_bytes_writes: "writes_in {d..<d + int n} s (copy_bytes s d r (int n))"
proof (induction n)
  case 0
  then show ?case by simp
next
  case (Suc n)
  have "writes_in {d..<d + int (Suc n)} s (copy_bytes s d r (int n))" using Suc by (rule writes_in_mono) auto
  then show ?case unfolding copy_bytes_Suc by (rule writes_in_trans) (intro writes_in_byte, simp)
qed

lemma copy_bytes_at:
  assumes "{d..<d + int n} \<inter> {r..<r + int n} = {}"
  shows "bytes_at (copy_bytes s d r (int n)) d n = bytes_at s r n"
  using assms
proof (induction n)
  case 0
  then show ?case by (simp add: bytes_at_def)
next
  case (Suc n)
  let ?t = "copy_bytes s d r (int n)"
  have dis: "{d..<d + int n} \<inter> {r..<r + int n} = {}" and far: "r + int n \<notin> {d..<d + int n}"
    using Suc.prems by auto
  have "load_byte ?t (r + int n) = load_byte s (r + int n)"
    by (rule writes_in_load_byte [OF copy_bytes_writes far])
  moreover have "bytes_at (store_byte ?t (d + int n) x) d n = bytes_at ?t d n" for x
    by (rule nth_equalityI) (auto simp: load_store_byte)
  ultimately show ?case
    unfolding copy_bytes_Suc bytes_at_Suc using Suc.IH [OF dis] by (simp add: load_store_byte load_byte_bounded)
qed

section \<open>Components\<close>

fun split_slash :: "int list \<Rightarrow> int list list" where
  "split_slash [] = [[]]"
| "split_slash (c # cs) =
     (if c = 47 then [] # split_slash cs
      else case split_slash cs of x # xs \<Rightarrow> (c # x) # xs | [] \<Rightarrow> [[c]])"

definition components :: "int list \<Rightarrow> int list list" where
  "components bs = filter (\<lambda>c. c \<noteq> []) (split_slash bs)"

definition render :: "int list list \<Rightarrow> int list" where
  "render cs = (if cs = [] then [47] else concat (map (\<lambda>c. 47 # c) cs))"

text \<open>What \<^verbatim>\<open>..\<close> is meant to do, and what the loop does.\<close>

definition meant_pop :: "int list list \<Rightarrow> int list list" where
  "meant_pop cs = butlast cs"

definition code_pop :: "int list list \<Rightarrow> int list list" where
  "code_pop cs = (let rest = (if last cs = [] then butlast (butlast cs) else butlast cs)
                  in if rest = [] then [] else rest @ [[]])"

fun resolve :: "(int list list \<Rightarrow> int list list) \<Rightarrow> int list list \<Rightarrow> int list list \<Rightarrow> int list list" where
  "resolve pop acc [] = acc"
| "resolve pop acc (c # cs) =
     (if c = [46] then resolve pop acc cs
      else if c = [46, 46] then resolve pop (if acc = [] then [] else pop acc) cs
      else resolve pop (acc @ [c]) cs)"

lemma split_slash_ne: "split_slash bs \<noteq> []"
  by (cases bs) (auto split: list.split)

lemma split_slash_word: "\<forall>c \<in> set w. c \<noteq> 47 \<Longrightarrow>
  split_slash (w @ bs) = (w @ hd (split_slash bs)) # tl (split_slash bs)"
proof (induction w)
  case Nil
  then show ?case using split_slash_ne [of bs] by simp
next
  case (Cons c w)
  then show ?case by simp
qed

lemma components_skip: "components (dropWhile (\<lambda>b. b = 47) bs) = components bs"
  by (induction bs) (auto simp: components_def)

lemma components_word:
  assumes "bs \<noteq> []" "hd bs \<noteq> 47"
  shows "components bs = takeWhile (\<lambda>b. b \<noteq> 47) bs # components (dropWhile (\<lambda>b. b \<noteq> 47) bs)"
proof -
  let ?w = "takeWhile (\<lambda>b. b \<noteq> 47) bs" and ?r = "dropWhile (\<lambda>b. b \<noteq> 47) bs"
  have w: "?w \<noteq> []" using assms by (cases bs) auto
  have r: "hd (split_slash ?r) = []"
  proof (cases ?r)
    case (Cons x xs)
    then have "x = 47" using hd_dropWhile [of "\<lambda>b. b \<noteq> 47" bs] by auto
    then show ?thesis using Cons by simp
  next
    case Nil
    show ?thesis unfolding Nil by simp
  qed
  have "split_slash bs = ?w # tl (split_slash ?r)"
    using split_slash_word [of ?w ?r] r by (auto dest: set_takeWhileD)
  moreover have "components ?r = filter (\<lambda>c. c \<noteq> []) (tl (split_slash ?r))"
    using split_slash_ne [of ?r] r by (cases "split_slash ?r") (auto simp: components_def)
  ultimately show ?thesis using w by (simp add: components_def)
qed

lemma components_all_slash: "dropWhile (\<lambda>b. b = 47) bs = [] \<Longrightarrow> components bs = []"
proof -
  assume "dropWhile (\<lambda>b. b = 47) bs = []"
  with components_skip [of bs] have "components [] = components bs" by metis
  then show ?thesis by (simp add: components_def)
qed

lemma render_Nil [simp]: "render [] = [47]"
  by (simp add: render_def)

lemma render_snoc: "render (cs @ [c]) = (if cs = [] then [47] @ c else render cs @ 47 # c)"
  by (simp add: render_def)

text \<open>Output stacks the loop can hold: no component contains a slash, the first one is not empty.\<close>

definition stack_ok :: "int list list \<Rightarrow> bool" where
  "stack_ok cs \<longleftrightarrow> (\<forall>c \<in> set cs. 47 \<notin> set c) \<and> (cs \<noteq> [] \<longrightarrow> hd cs \<noteq> [])"

lemma render_length: "stack_ok cs \<Longrightarrow> length (render cs) = 1 \<longleftrightarrow> cs = []"
  by (cases cs) (auto simp: render_def stack_ok_def)

lemma render_pos: "1 \<le> length (render cs)"
  by (cases cs) (auto simp: render_def)

section \<open>The loops\<close>

lemma scan_eq:
  assumes "p \<noteq> 0" "k \<le> L"
  shows "vfs_scan s p (int L) slash (int k) =
    Some (int (k + length (takeWhile (\<lambda>b. (b = 47) = slash) (drop k (bytes_at s p L)))))"
  using assms(2)
proof (induction "L - k" arbitrary: k)
  case 0
  then show ?case by (simp add: vfs_scan.simps)
next
  case (Suc m)
  then have k: "k < L" by simp
  have "drop k (bytes_at s p L) = load_byte s (p + int k) # drop (Suc k) (bytes_at s p L)"
    using k by (simp add: Cons_nth_drop_Suc [symmetric])
  moreover have "vfs_scan s p (int L) slash (int k + 1) =
      Some (int (Suc k + length (takeWhile (\<lambda>b. (b = 47) = slash) (drop (Suc k) (bytes_at s p L)))))"
    using Suc.hyps(1) [of "Suc k"] Suc.hyps(2) k by (simp add: add.commute)
  ultimately show ?case using k assms(1) by (simp add: vfs_scan.simps [of s p _ _ "int k"] region_simps)
qed

lemma drop_back:
  assumes "\<And>i. a \<le> i \<Longrightarrow> i < a + b \<Longrightarrow> load_byte s (q + int i) \<noteq> 47"
    and "a = 1 \<or> 1 < a \<and> load_byte s (q + int a - 1) = 47"
  shows "vfs_drop_component s q (int (a + b)) = int a"
  using assms
proof (induction b)
  case 0
  then show ?case by (subst vfs_drop_component.simps) auto
next
  case (Suc b)
  have "load_byte s (q + int (a + b)) \<noteq> 47" using Suc.prems(1) [of "a + b"] by simp
  then have "load_byte s (q + int (a + Suc b) - 1) \<noteq> 47" by (simp add: algebra_simps)
  moreover have "1 < int (a + Suc b)" using Suc.prems(2) by auto
  ultimately have "vfs_drop_component s q (int (a + Suc b)) = vfs_drop_component s q (int (a + Suc b) - 1)"
    by (subst vfs_drop_component.simps) (simp only: if_True simp_thms)
  also have "int (a + Suc b) - 1 = int (a + b)" by simp
  finally show ?case using Suc.IH Suc.prems by simp
qed

lemma drop_back_list:
  assumes "bytes_at s q (length xs + length w) = xs @ w" "47 \<notin> set w"
    and "length xs = 1 \<or> 1 < length xs \<and> last xs = 47"
  shows "vfs_drop_component s q (int (length xs + length w)) = int (length xs)"
proof (rule drop_back)
  fix i assume i: "length xs \<le> i" "i < length xs + length w"
  have "load_byte s (q + int i) = (xs @ w) ! i" using i assms(1) nth_bytes_at [of i "length xs + length w" s q] by simp
  also have "\<dots> \<in> set w" using i by (simp add: nth_append)
  finally show "load_byte s (q + int i) \<noteq> 47" using assms(2) by auto
next
  have "load_byte s (q + int (length xs) - 1) = last xs" if "1 < length xs"
  proof -
    have "load_byte s (q + int (length xs - 1)) = (xs @ w) ! (length xs - 1)"
      using that assms(1) nth_bytes_at [of "length xs - 1" "length xs + length w" s q] by simp
    moreover have "xs \<noteq> []" using that by auto
    moreover from this have "q + int (length xs - 1) = q + int (length xs) - 1" by (simp add: of_nat_diff Suc_leI)
    ultimately show ?thesis by (simp add: nth_append last_conv_nth add_diff_eq)
  qed
  then show "length xs = 1 \<or> 1 < length xs \<and> load_byte s (q + int (length xs) - 1) = 47" using assms(3) by auto
qed

lemma code_pop_word: "c \<noteq> [] \<Longrightarrow> code_pop (a @ [c]) = (if a = [] then [] else a @ [[]])"
  by (simp add: code_pop_def Let_def)

lemma code_pop_empty: "code_pop (b @ [d, []]) = (if b = [] then [] else b @ [[]])"
  by (simp add: code_pop_def Let_def butlast_append)

lemma stack_ok_pop: "stack_ok (b @ c) \<Longrightarrow> stack_ok (if b = [] then [] else b @ [[]])"
  by (auto simp: stack_ok_def hd_append)

lemma render_nonempty: "stack_ok (b @ c) \<Longrightarrow> b \<noteq> [] \<Longrightarrow> 1 < length (render b)"
  by (cases b) (auto simp: render_def stack_ok_def)

lemma drop_component:
  assumes "stack_ok cs" "cs \<noteq> []" "bytes_at s q (length (render cs)) = render cs"
  defines "r \<equiv> render (code_pop cs)"
  shows "vfs_drop_component s q (int (length (render cs)) - 1) = int (length r)"
    and "bytes_at s q (length r) = r" "length r < length (render cs)" "stack_ok (code_pop cs)"
proof -
  have ex: "\<exists>xs w y. render cs = xs @ w @ [y] \<and> r = xs \<and> 47 \<notin> set w \<and> (length xs = 1 \<or> 1 < length xs \<and> last xs = 47)
    \<and> stack_ok (code_pop cs)"
  proof (cases cs rule: rev_cases)
    case (snoc a c)
    show ?thesis
    proof (cases "c = []")
      case False
      then obtain w y where c: "c = w @ [y]" by (cases c rule: rev_cases) auto
      define xs where "xs = (if a = [] then [47] else render a @ [47])"
      have "render cs = xs @ w @ [y]" "r = xs" using snoc c by (simp_all add: render_snoc xs_def r_def code_pop_word)
      moreover have "47 \<notin> set w" using assms(1) snoc c by (auto simp: stack_ok_def)
      moreover have "length xs = 1 \<or> 1 < length xs \<and> last xs = 47"
        using render_pos [of a] by (cases "a = []") (auto simp: xs_def)
      moreover have "stack_ok (code_pop cs)" using stack_ok_pop [of a "[c]"] assms(1) snoc False by (simp add: code_pop_word)
      ultimately show ?thesis by blast
    next
      case True
      then obtain b d where a: "a = b @ [d]" using assms(1) snoc by (cases a rule: rev_cases) (auto simp: stack_ok_def)
      define xs where "xs = (if b = [] then [47] else render b @ [47])"
      have "render cs = xs @ d @ [47]"
        using snoc a True by (cases "b = []") (auto simp: render_def xs_def)
      moreover have "r = xs" using snoc a True by (auto simp: xs_def r_def code_pop_empty render_def)
      moreover have "47 \<notin> set d" using assms(1) snoc a by (auto simp: stack_ok_def)
      moreover have "length xs = 1 \<or> 1 < length xs \<and> last xs = 47"
        using render_pos [of b] by (cases "b = []") (auto simp: xs_def)
      moreover have "stack_ok (code_pop cs)"
        using stack_ok_pop [of b "[d, []]"] assms(1) snoc a True by (simp add: code_pop_empty)
      ultimately show ?thesis by blast
    qed
  qed (use assms(2) in simp)
  then obtain xs w y where x: "render cs = xs @ w @ [y]" "r = xs" "47 \<notin> set w"
    "length xs = 1 \<or> 1 < length xs \<and> last xs = 47" and ok: "stack_ok (code_pop cs)" by blast
  show "stack_ok (code_pop cs)" by (rule ok)
  have "bytes_at s q (length xs + length w) = xs @ w"
    using assms(3) take_bytes_at [of "length xs + length w" "length (render cs)" s q] x(1) by simp
  then show "vfs_drop_component s q (int (length (render cs)) - 1) = int (length r)"
    using drop_back_list [of s q xs w] x by simp
  show "bytes_at s q (length r) = r"
    using assms(3) take_bytes_at [of "length r" "length (render cs)" s q] x by simp
  show "length r < length (render cs)" using x by simp
qed

lemma add_component:
  assumes "stack_ok cs" "bytes_at s q (length (render cs)) = render cs"
    and "{q..<q + int (length (render cs)) + 1 + int n} \<inter> {r..<r + int n} = {}"
    and "c = bytes_at s r n" "47 \<notin> set c" "c \<noteq> []" "r = p + st"
  shows "\<exists>t. vfs_add_component s p q (int (length (render cs))) st (int n) = (int (length (render (cs @ [c]))), t)
    \<and> bytes_at t q (length (render (cs @ [c]))) = render (cs @ [c]) \<and> stack_ok (cs @ [c])
    \<and> writes_in {q..<q + int (length (render (cs @ [c])))} s t"
proof -
  let ?n = "length (render cs)"
  have len: "length c = n" using assms(4) by simp
  have ok: "stack_ok (cs @ [c])" using assms(1,5,6) by (auto simp: stack_ok_def hd_append)
  define t where "t = (if cs = [] then s else store_byte s (q + int ?n) 47)"
  define m where "m = (if cs = [] then 1 else Suc ?n)"
  have big: "(int ?n > 1) = (cs \<noteq> [])" using render_length [OF assms(1)] render_pos [of cs] by auto
  have run: "vfs_add_component s p q (int ?n) st (int n) = (int (m + n), copy_bytes t (q + int m) r (int n))"
    using big assms(7) by (cases "cs = []") (simp_all add: vfs_add_component_def t_def m_def ac_simps)
  have head: "bytes_at t q m = (if cs = [] then [47] else render cs @ [47])"
  proof (cases "cs = []")
    case True
    then show ?thesis using assms(2) by (simp add: t_def m_def)
  next
    case False
    have "bytes_at (store_byte s (q + int ?n) 47) q ?n = bytes_at s q ?n"
      by (rule nth_equalityI) (auto simp: load_store_byte)
    then show ?thesis using False assms(2) by (simp add: t_def m_def bytes_at_Suc load_store_byte)
  qed
  have total: "length (render (cs @ [c])) = m + n" using len by (simp add: render_snoc m_def)
  have wt: "writes_in {q..<q + int (m + n)} s t"
    by (auto simp: t_def m_def)
  have wc: "writes_in {q..<q + int (m + n)} t (copy_bytes t (q + int m) r (int n))"
    by (rule writes_in_mono [OF copy_bytes_writes]) auto
  have m: "m \<le> ?n + 1" using render_pos [of cs] by (auto simp: m_def)
  have dis: "{q..<q + int (m + n)} \<inter> {r..<r + int n} = {}"
    by (rule interval_disjoint [OF assms(3)]) (use m in auto)
  have "bytes_at t r n = c"
    unfolding assms(4) by (rule bytes_at_cong [OF wt]) (use dis in blast)
  moreover have "{q + int m..<q + int m + int n} \<inter> {r..<r + int n} = {}"
    by (rule interval_disjoint [OF dis]) auto
  ultimately have tail: "bytes_at (copy_bytes t (q + int m) r (int n)) (q + int m) n = c"
    using copy_bytes_at by simp
  have "bytes_at (copy_bytes t (q + int m) r (int n)) q m = bytes_at t q m"
    by (rule bytes_at_cong [OF copy_bytes_writes]) auto
  then have "bytes_at (copy_bytes t (q + int m) r (int n)) q (m + n) = render (cs @ [c])"
    using head tail by (simp add: bytes_at_add render_snoc)
  then show ?thesis using run ok total writes_in_trans [OF wt wc] by auto
qed

text \<open>One round of the loop: the next component, or none.\<close>

lemma next_component:
  fixes s :: machine
  assumes "p \<noteq> 0" "k < L"
  defines "path \<equiv> bytes_at s p L"
  defines "st \<equiv> k + length (takeWhile (\<lambda>b. b = 47) (drop k path))"
  defines "w \<equiv> takeWhile (\<lambda>b. b \<noteq> 47) (drop st path)"
  shows "vfs_scan s p (int L) True (int k) = Some (int st)" "st \<le> L"
    and "st = L \<Longrightarrow> components (drop k path) = []"
    and "st < L \<Longrightarrow> vfs_scan s p (int L) False (int st) = Some (int (st + length w))"
    and "st < L \<Longrightarrow> components (drop k path) = w # components (drop (st + length w) path)"
    and "w = bytes_at s (p + int st) (length w)" "st + length w \<le> L"
    and "st < L \<Longrightarrow> w \<noteq> []" "st + length w < L \<Longrightarrow> path ! (st + length w) = 47"
    and "47 \<notin> set w" "path ! k = 47 \<Longrightarrow> k < st"
proof -
  have len: "length path = L" by (simp add: path_def)
  have drop: "drop st path = dropWhile (\<lambda>b. b = 47) (drop k path)"
    unfolding st_def by (simp add: dropWhile_eq_drop add.commute)
  show st: "st \<le> L"
    unfolding st_def using length_takeWhile_le [of "\<lambda>b. b = 47" "drop k path"] assms(2) len by simp
  show "vfs_scan s p (int L) True (int k) = Some (int st)"
    using scan_eq [of p k L s True] assms(1,2) by (simp add: st_def path_def)
  show "components (drop k path) = []" if "st = L"
    by (rule components_all_slash) (use drop that len in simp)
  show "vfs_scan s p (int L) False (int st) = Some (int (st + length w))" if "st < L"
    using scan_eq [of p st L s False] assms(1) st by (simp add: w_def path_def)
  have hd: "hd (drop st path) \<noteq> 47" if "st < L"
    using hd_dropWhile [of "\<lambda>b. b = 47" "drop k path"] that drop len by (metis drop_eq_Nil not_less)
  show "components (drop k path) = w # components (drop (st + length w) path)" if "st < L"
  proof -
    have "components (drop k path) = components (drop st path)" using components_skip [of "drop k path"] drop by simp
    also have "\<dots> = w # components (dropWhile (\<lambda>b. b \<noteq> 47) (drop st path))"
      unfolding w_def using that len hd by (intro components_word) auto
    also have "dropWhile (\<lambda>b. b \<noteq> 47) (drop st path) = drop (st + length w) path"
      unfolding w_def by (simp add: dropWhile_eq_drop add.commute)
    finally show ?thesis .
  qed
  show le: "st + length w \<le> L"
    using length_takeWhile_le [of "\<lambda>b. b \<noteq> 47" "drop st path"] st len by (simp add: w_def)
  have "w = take (length w) (drop st path)" unfolding w_def by (rule takeWhile_eq_take)
  also have "\<dots> = bytes_at s (p + int st) (length w)"
    unfolding path_def using st le by (simp add: drop_bytes_at take_bytes_at)
  finally show "w = bytes_at s (p + int st) (length w)" .
  show "w \<noteq> []" if "st < L"
    using hd [OF that] that len by (cases "drop st path") (auto simp: w_def)
  show "path ! (st + length w) = 47" if "st + length w < L"
    using nth_length_takeWhile [of "\<lambda>b. b \<noteq> 47" "drop st path"] that st len by (simp add: w_def)
  show "47 \<notin> set w" by (auto simp: w_def dest: set_takeWhileD)
  show "k < st" if "path ! k = 47"
    using that assms(2) len by (simp add: st_def Cons_nth_drop_Suc [symmetric])
qed

lemma normalize_loop:
  assumes "p \<noteq> 0" "{p..<p + int L} \<inter> {q..<q + int L + 2} = {}" "k \<le> L"
    and "stack_ok cs" "bytes_at s q (length (render cs)) = render cs" "length (render cs) \<le> max 1 k"
    and "cs = [] \<or> k = L \<or> bytes_at s p L ! k = 47" "1 \<le> k"
  shows "\<exists>out t. vfs_normalize_loop s p (int L) q (int k) (int (length (render cs))) = Some (int (length (render out)), t)
    \<and> out = resolve code_pop cs (components (drop k (bytes_at s p L)))
    \<and> bytes_at t q (length (render out)) = render out \<and> length (render out) \<le> L
    \<and> writes_in {q..<q + int L + 2} s t"
  using assms
proof (induction "L - k" arbitrary: k cs s rule: less_induct)
  case less
  let ?path = "bytes_at s p L" and ?n = "length (render cs)"
  note loop = vfs_normalize_loop.simps [of s p "int L" q "int k" "int ?n"]
  show ?case
  proof (cases "k < L")
    case False
    then show ?thesis using less.prems loop by (auto simp: components_def)
  next
    case k: True
    define st where "st = k + length (takeWhile (\<lambda>b. b = 47) (drop k ?path))"
    define w where "w = takeWhile (\<lambda>b. b \<noteq> 47) (drop st ?path)"
    note nc = next_component [OF less.prems(1) k, of s, folded st_def, folded w_def]
    show ?thesis
    proof (cases "st < L")
      case False
      then have "components (drop k ?path) = []" using nc(2,3) by simp
      then show ?thesis using False k nc(1,2) loop less.prems(5,6) by auto
    next
      case st: True
      let ?k = "st + length w"
      have comps: "components (drop k ?path) = w # components (drop ?k ?path)" using nc(5) st by simp
      have wne: "w \<noteq> []" using nc(8) st by simp
      have "k \<le> st" by (simp add: st_def)
      moreover have "0 < length w" using wne by simp
      ultimately have "k < ?k" by linarith
      then have measure: "L - ?k < L - k" using k by (rule diff_less_mono2)
      have kk: "?k \<le> L" "1 \<le> ?k" "k \<le> ?k" using nc(7) less.prems(8) by (auto simp: st_def)
      have sep: "cs = [] \<or> ?k = L \<or> ?path ! ?k = 47" using nc(9) kk(1) by (cases "?k = L") auto
      have bytes: "load_byte_region s p (int L) (int st + int i) = Some (w ! i)" if "i < length w" for i
      proof -
        have "w ! i = load_byte s (p + int st + int i)" using nc(6) nth_bytes_at [OF that] by metis
        then show ?thesis using that less.prems(1) nc(7) by (simp add: region_simps add.assoc)
      qed
      have b0: "load_byte_region s p (int L) (int st) = Some (w ! 0)" using bytes [of 0] wne by simp
      have b1: "load_byte_region s p (int L) (int st + 1) = Some (w ! 1)" if "length w = 2" using bytes [of 1] that by simp
      show ?thesis
      proof (cases "w = [46]")
        case dot: True
        have "vfs_normalize_loop s p (int L) q (int k) (int ?n) = vfs_normalize_loop s p (int L) q (int ?k) (int ?n)"
          using k st nc(1,4) b0 loop dot by simp
        moreover have "resolve code_pop cs (w # rest) = resolve code_pop cs rest" for rest using dot by simp
        ultimately show ?thesis unfolding comps
          using less.hyps [OF measure less.prems(1,2) kk(1) less.prems(4,5) _ sep kk(2)] less.prems(6) kk(3) by simp
      next
        case notdot: False
        show ?thesis
        proof (cases "w = [46, 46]")
          case dots: True
          let ?cs = "if cs = [] then [] else code_pop cs"
          have len: "length w = 2" using dots by simp
          have big: "(int ?n > 1) = (cs \<noteq> [])" using render_length [OF less.prems(4)] render_pos [of cs] by auto
          have pop: "(if int ?n > 1 then vfs_drop_component s q (int ?n - 1) else int ?n) = int (length (render ?cs))"
            "stack_ok ?cs" "bytes_at s q (length (render ?cs)) = render ?cs" "length (render ?cs) \<le> ?n"
            using drop_component [OF less.prems(4) _ less.prems(5)] less.prems(4,5) big by auto
          have "vfs_normalize_loop s p (int L) q (int k) (int ?n) =
              vfs_normalize_loop s p (int L) q (int ?k) (int (length (render ?cs)))"
            using k st nc(1,4) b0 b1 [OF len] loop dots pop(1) by simp
          moreover have "resolve code_pop cs (w # rest) = resolve code_pop ?cs rest" for rest using dots by simp
          moreover have "length (render ?cs) \<le> max 1 ?k" using pop(4) less.prems(6) kk(3) by simp
          moreover have "?cs = [] \<or> ?k = L \<or> ?path ! ?k = 47" using sep by auto
          ultimately show ?thesis unfolding comps
            using less.hyps [OF measure less.prems(1,2) kk(1) pop(2,3) _ _ kk(2)] by simp
        next
          case word: False
          have n: "?n \<le> k" using less.prems(6,8) by simp
          have area: "{q..<q + int ?n + 1 + int (length w)} \<inter> {p + int st..<p + int st + int (length w)} = {}"
          proof -
            have "{p + int st..<p + int st + int (length w)} \<subseteq> {p..<p + int L}" using nc(7) by auto
            moreover have "{q..<q + int ?n + 1 + int (length w)} \<subseteq> {q..<q + int L + 2}" using n nc(7) by (auto simp: st_def)
            ultimately show ?thesis using less.prems(2) by blast
          qed
          obtain t where t: "vfs_add_component s p q (int ?n) (int st) (int (length w)) = (int (length (render (cs @ [w]))), t)"
              "bytes_at t q (length (render (cs @ [w]))) = render (cs @ [w])" "stack_ok (cs @ [w])"
              "writes_in {q..<q + int (length (render (cs @ [w])))} s t"
            using add_component [OF less.prems(4,5) area nc(6,10) wne refl] by blast
          have new: "length (render (cs @ [w])) \<le> ?k"
          proof (cases "cs = []")
            case True
            then show ?thesis using less.prems(8) by (simp add: render_def st_def)
          next
            case False
            then have "k < st" using less.prems(7) k nc(11) by auto
            then show ?thesis using False n by (simp add: render_snoc)
          qed
          have wt: "writes_in {q..<q + int L + 2} s t" by (rule writes_in_mono [OF t(4)]) (use new kk(1) in auto)
          have path: "bytes_at t p L = ?path" by (rule bytes_at_cong [OF wt less.prems(2)])
          have nd: "\<not> (length w = 1 \<and> w ! 0 = 46)" "\<not> (length w = 2 \<and> w ! 0 = 46 \<and> w ! 1 = 46)"
            using notdot word by (auto simp: length_Suc_conv numeral_2_eq_2)
          have "vfs_normalize_loop s p (int L) q (int k) (int ?n) =
              vfs_normalize_loop t p (int L) q (int ?k) (int (length (render (cs @ [w]))))"
            using k st nc(1,4) b0 b1 loop nd t(1) by (auto split: if_splits)
          moreover have "resolve code_pop cs (w # rest) = resolve code_pop (cs @ [w]) rest" for rest
            using notdot word by simp
          moreover have "length (render (cs @ [w])) \<le> max 1 ?k" using new by simp
          moreover have "cs @ [w] = [] \<or> ?k = L \<or> bytes_at t p L ! ?k = 47" using nc(9) kk(1) path by (cases "?k = L") auto
          ultimately show ?thesis unfolding comps
            using less.hyps [OF measure less.prems(1,2) kk(1) t(3,2) _ _ kk(2)] writes_in_trans [OF wt]
            unfolding path by auto
        qed
      qed
    qed
  qed
qed

section \<open>The normal form\<close>

definition heap_room :: "machine \<Rightarrow> int \<Rightarrow> bool" where
  "heap_room s n \<longleftrightarrow> 0 < heap_ptr s \<and> 0 \<le> n \<and> heap_ptr s + round16 n \<le> heap_end s \<and> heap_end s < 2 ^ 62"

text \<open>An absolute path in memory, apart from the free part of the heap the output will be placed in.\<close>

definition path_at :: "machine \<Rightarrow> int \<Rightarrow> int list \<Rightarrow> bool" where
  "path_at s p path \<longleftrightarrow> p \<noteq> 0 \<and> path \<noteq> [] \<and> hd path = 47 \<and> bytes_at s p (length path) = path
     \<and> heap_room s (int (length path) + 2)
     \<and> {p..<p + int (length path)} \<inter> {heap_ptr s..<heap_ptr s + int (length path) + 2} = {}"

lemma normalize_exact:
  assumes "path_at s p path"
  defines "out \<equiv> render (resolve code_pop [] (components path))" and "q \<equiv> heap_ptr s"
  shows "\<exists>t. vfs_normalize_path s p (int (length path)) = Some ((q, int (length out)), t)
    \<and> bytes_at t q (length out) = out \<and> load_byte t (q + int (length out)) = 0 \<and> length out \<le> length path
    \<and> writes_in {q..<q + int (length path) + 2} (s\<lparr>heap_ptr := q + round16 (int (length path) + 2)\<rparr>) t"
proof -
  let ?L = "length path"
  have a: "p \<noteq> 0" "path \<noteq> []" "hd path = 47" "bytes_at s p ?L = path" "0 < q" "q + round16 (int ?L + 2) \<le> heap_end s"
    "heap_end s < 2 ^ 62" "{p..<p + int ?L} \<inter> {q..<q + int ?L + 2} = {}"
    using assms(1) by (auto simp: path_at_def heap_room_def q_def)
  have L: "0 < ?L" using a(2) by simp
  define s0 where "s0 = s\<lparr>heap_ptr := q + round16 (int ?L + 2)\<rparr>"
  define s1 where "s1 = store_byte s0 q 47"
  have len: "i64 (int ?L + 2) = int ?L + 2"
    using a(5-7) round16_bounds(1) [of "int ?L + 2"] by (intro i64_id in64I) auto
  have alloc: "alloc_bytes s (int ?L + 2) = Some (q, s0)"
    using alloc_bytes_eq [of s "int ?L + 2"] a(5-7) by (simp add: q_def s0_def)
  have w1: "writes_in {q..<q + int ?L + 2} s0 s1" unfolding s1_def by (intro writes_in_byte) auto
  have "bytes_at s0 p ?L = path" using a(4) by (simp add: bytes_at_def load_byte_def s0_def)
  then have p1: "bytes_at s1 p ?L = path" using bytes_at_cong [OF w1, of p ?L] a(8) by simp
  have b0: "load_byte_region s p (int ?L) 0 = Some 47"
    using a(1-4) L nth_bytes_at [of 0 ?L s p] by (simp add: region_simps hd_conv_nth)
  have "bytes_at s1 q (length (render [])) = render []" by (simp add: s1_def bytes_at_def load_store_byte)
  moreover have "stack_ok []" by (simp add: stack_ok_def)
  ultimately obtain t where t: "vfs_normalize_loop s1 p (int ?L) q 1 1 = Some (int (length (render (resolve code_pop [] (components (drop 1 path))))), t)"
      "bytes_at t q (length (render (resolve code_pop [] (components (drop 1 path))))) = render (resolve code_pop [] (components (drop 1 path)))"
      "length (render (resolve code_pop [] (components (drop 1 path)))) \<le> ?L" "writes_in {q..<q + int ?L + 2} s1 t"
    using normalize_loop [OF a(1,8), of 1 "[]" s1] L unfolding p1 by auto
  have comp: "components (drop 1 path) = components path"
    using a(2,3) by (cases path) (auto simp: components_def)
  have out: "render (resolve code_pop [] (components (drop 1 path))) = out" unfolding comp out_def ..
  note t = t [unfolded out]
  have pos: "1 \<le> length out" unfolding out_def by (rule render_pos)
  define u where "u = store_byte t (q + int (length out)) 0"
  have run: "vfs_normalize_path s p (int ?L) = Some ((q, int (length out)), u)"
    using a(1) L b0 len alloc t(1) pos unfolding vfs_normalize_path_def s1_def u_def by auto
  have "bytes_at u q (length out) = out"
    using t(2) by (intro nth_equalityI) (auto simp: u_def load_store_byte, metis nth_bytes_at)
  moreover have "writes_in {q..<q + int ?L + 2} s0 u"
    unfolding u_def by (rule writes_in_trans [OF writes_in_trans [OF w1 t(4)]]) (intro writes_in_byte, use t(3) in simp)
  ultimately show ?thesis using run t(3) by (auto simp: u_def load_store_byte s0_def)
qed

text \<open>Depths at which going up is right: at most one component.\<close>

fun shallow :: "nat \<Rightarrow> int list list \<Rightarrow> bool" where
  "shallow n [] = True"
| "shallow n (c # cs) =
     (if c = [46] then shallow n cs
      else if c = [46, 46] then n \<le> 1 \<and> shallow 0 cs
      else shallow (Suc n) cs)"

lemma resolve_shallow:
  assumes "shallow (length acc) cs" "\<forall>c \<in> set acc. c \<noteq> []" "\<forall>c \<in> set cs. c \<noteq> []"
  shows "resolve code_pop acc cs = resolve meant_pop acc cs"
  using assms
proof (induction cs arbitrary: acc)
  case (Cons c cs)
  have "code_pop acc = []" "meant_pop acc = []" if "length acc \<le> 1" "acc \<noteq> []"
    using that Cons.prems(2) by (auto simp: code_pop_def meant_pop_def Let_def length_Suc_conv le_Suc_eq)
  then show ?case using Cons.prems Cons.IH [of acc] Cons.IH [of "[]"] Cons.IH [of "acc @ [c]"] by auto
qed simp

lemma components_nonempty: "\<forall>c \<in> set (components bs). c \<noteq> []"
  by (simp add: components_def)

text \<open>Proper names: not empty, no slash, not one of the two special components.\<close>

definition names :: "int list list \<Rightarrow> bool" where
  "names cs \<longleftrightarrow> (\<forall>c \<in> set cs. c \<noteq> [] \<and> 47 \<notin> set c \<and> c \<noteq> [46] \<and> c \<noteq> [46, 46])"

lemma components_slash: "components (47 # bs) = components bs"
  by (simp add: components_def)

lemma components_name:
  assumes "c \<noteq> []" "47 \<notin> set c" "bs = [] \<or> hd bs = 47"
  shows "components (c @ bs) = c # components bs"
proof -
  have "hd (c @ bs) \<noteq> 47" using assms(1,2) by (cases c) auto
  moreover have "takeWhile (\<lambda>b. b \<noteq> 47) (c @ bs) = c" "dropWhile (\<lambda>b. b \<noteq> 47) (c @ bs) = bs"
  proof -
    have c: "\<And>x. x \<in> set c \<Longrightarrow> x \<noteq> 47" using assms(2) by auto
    have "takeWhile (\<lambda>b. b \<noteq> 47) bs = [] \<and> dropWhile (\<lambda>b. b \<noteq> 47) bs = bs" using assms(3) by (cases bs) auto
    then show "takeWhile (\<lambda>b. b \<noteq> 47) (c @ bs) = c" "dropWhile (\<lambda>b. b \<noteq> 47) (c @ bs) = bs"
      using takeWhile_append2 [of c "\<lambda>b. b \<noteq> 47" bs] dropWhile_append2 [of c "\<lambda>b. b \<noteq> 47" bs] c by simp_all
  qed
  ultimately show ?thesis using components_word [of "c @ bs"] assms(1) by simp
qed

lemma components_render:
  assumes "names cs" "bs = [] \<or> hd bs = 47"
  shows "components (concat (map (\<lambda>c. 47 # c) cs) @ bs) = cs @ components bs"
  using assms(1)
proof (induction cs)
  case (Cons c cs)
  let ?r = "concat (map (\<lambda>c. 47 # c) cs) @ bs"
  have "?r = [] \<or> hd ?r = 47" using assms(2) by (cases cs) auto
  then show ?case using Cons components_name [of c ?r] by (simp add: names_def components_slash)
qed simp

lemma resolve_names: "names cs \<Longrightarrow> resolve pop acc (cs @ ds) = resolve pop (acc @ cs) ds"
  by (induction cs arbitrary: acc) (auto simp: names_def)

text \<open>
  C19: for every absolute path in which \<^verbatim>\<open>..\<close> is never applied at a depth of two or
  more, \<open>vfs_normalize_path\<close> returns a fresh zero-terminated buffer holding the normal form: the
  components with empty ones and \<^verbatim>\<open>.\<close> removed and \<^verbatim>\<open>..\<close> resolved, and nothing but that buffer is written.
\<close>

theorem vfs_normalize_meets_spec:
  assumes "path_at s p path" "shallow 0 (components path)"
  shows "\<exists>t. vfs_normalize_path s p (int (length path)) =
      Some ((heap_ptr s, int (length (render (resolve meant_pop [] (components path))))), t)
    \<and> bytes_at t (heap_ptr s) (length (render (resolve meant_pop [] (components path)))) = render (resolve meant_pop [] (components path))
    \<and> load_byte t (heap_ptr s + int (length (render (resolve meant_pop [] (components path))))) = 0
    \<and> writes_in {heap_ptr s..<heap_ptr s + int (length path) + 2}
        (s\<lparr>heap_ptr := heap_ptr s + round16 (int (length path) + 2)\<rparr>) t"
  using normalize_exact [OF assms(1)] resolve_shallow [of "[]" "components path"] assms(2) components_nonempty by auto

text \<open>
  A path that is already in normal form is returned unchanged.
\<close>

theorem vfs_normalize_keeps_names:
  assumes "names cs" "path_at s p (render cs)"
  shows "\<exists>t. vfs_normalize_path s p (int (length (render cs))) = Some ((heap_ptr s, int (length (render cs))), t)
    \<and> bytes_at t (heap_ptr s) (length (render cs)) = render cs"
proof -
  have "components (render cs) = cs"
    using components_render [OF assms(1), of "[]"] by (cases "cs = []") (auto simp: render_def components_def)
  moreover have "resolve code_pop [] cs = cs" using resolve_names [OF assms(1), of code_pop "[]" "[]"] by simp
  ultimately show ?thesis using normalize_exact [OF assms(2)] by auto
qed

text \<open>
  C37: going up from a depth of two or more is wrong.  For any names
  \<open>cs\<close> and \<open>c\<close>, normalising \<open>/cs/c/..\<close> yields \<open>/cs/\<close> with a slash at the end instead of \<open>/cs\<close>, so a
  further component is appended after two slashes and no such path is found.
\<close>

theorem vfs_normalize_leaves_slash:
  assumes "names (cs @ [c])" "cs \<noteq> []" "path_at s p (render (cs @ [c]) @ [47, 46, 46])"
  shows "\<exists>t. vfs_normalize_path s p (int (length (render (cs @ [c]))) + 3) =
      Some ((heap_ptr s, int (length (render cs)) + 1), t)
    \<and> bytes_at t (heap_ptr s) (length (render cs) + 1) = render cs @ [47]"
proof -
  have "components (render (cs @ [c]) @ [47, 46, 46]) = (cs @ [c]) @ components [47, 46, 46]"
    using components_render [OF assms(1), of "[47, 46, 46]"] by (simp add: render_def)
  moreover have "components [47, 46, 46] = [[46, 46]]" by (simp add: components_def)
  ultimately have comp: "components (render (cs @ [c]) @ [47, 46, 46]) = (cs @ [c]) @ [[46, 46]]" by simp
  have "resolve code_pop [] ((cs @ [c]) @ [[46, 46]]) = code_pop (cs @ [c])"
    using resolve_names [OF assms(1), of code_pop "[]" "[[46, 46]]"] by simp
  also have "\<dots> = cs @ [[]]" using assms(1,2) by (simp add: code_pop_word names_def)
  finally have "render (resolve code_pop [] (components (render (cs @ [c]) @ [47, 46, 46]))) = render cs @ [47]"
    unfolding comp using assms(2) by (simp add: render_snoc)
  then show ?thesis using normalize_exact [OF assms(3)] by (auto simp: add.commute)
qed

text \<open>Sample paths in memory.\<close>

definition path_machine :: "int list \<Rightarrow> machine" where
  "path_machine bs = store_bytes blank_machine 0x200000 bs"

lemma bytes_store_bytes: "(\<forall>b \<in> set bs. 0 \<le> b \<and> b < 256) \<Longrightarrow> bytes_at (store_bytes s a bs) a (length bs) = bs
  \<and> writes_in {a..<a + int (length bs)} s (store_bytes s a bs)"
proof (induction bs arbitrary: s a)
  case (Cons b bs)
  let ?t = "store_byte s a b" let ?u = "store_bytes ?t (a + 1) bs"
  have IH: "bytes_at ?u (a + 1) (length bs) = bs" "writes_in {a + 1..<a + 1 + int (length bs)} ?t ?u"
    using Cons by simp_all
  have "load_byte ?u a = load_byte ?t a" by (rule writes_in_load_byte [OF IH(2)]) simp
  then have "load_byte ?u a = b" using Cons.prems by (simp add: load_store_byte)
  then have "bytes_at ?u a (1 + length bs) = b # bs" using IH(1) unfolding bytes_at_add by (simp add: bytes_at_def)
  moreover have "writes_in {a..<a + int (length (b # bs))} s ?t" by (intro writes_in_byte) simp
  then have "writes_in {a..<a + int (length (b # bs))} s ?u"
    by (rule writes_in_trans) (rule writes_in_mono [OF IH(2)], auto)
  ultimately show ?case by simp
qed (simp add: bytes_at_def)

lemma path_machine_at:
  assumes "\<forall>b \<in> set bs. 0 \<le> b \<and> b < 256" "bs \<noteq> []" "hd bs = 47" "length bs < 1024"
  shows "path_at (path_machine bs) 0x200000 bs" "heap_ptr (path_machine bs) = 0x110000"
proof -
  note b = bytes_store_bytes [OF assms(1), where s = blank_machine and a = "0x200000", folded path_machine_def]
  have h: "heap_ptr (path_machine bs) = 0x110000" "heap_end (path_machine bs) = 0x180000"
    using writes_in_fields [OF b [THEN conjunct2]] by (simp_all add: blank_machine_def)
  then show "heap_ptr (path_machine bs) = 0x110000" by simp
  have "round16 (int (length bs) + 2) \<le> 1041" using round16_bounds(2) [of "int (length bs) + 2"] assms(4) by simp
  then show "path_at (path_machine bs) 0x200000 bs"
    using b h assms by (auto simp: path_at_def heap_room_def)
qed

theorem vfs_normalize_meets_spec_witness:
  "\<exists>t. vfs_normalize_path (path_machine [47, 97, 47, 46, 46, 47, 47, 98, 47, 46]) 0x200000 10 = Some ((0x110000, 2), t)
    \<and> bytes_at t 0x110000 2 = [47, 98]"
proof -
  let ?p = "[47, 97, 47, 46, 46, 47, 47, 98, 47, 46] :: int list"
  have c: "components ?p = [[97], [46, 46], [98], [46]]" by (simp add: components_def)
  have at: "path_at (path_machine ?p) 0x200000 ?p" "heap_ptr (path_machine ?p) = 0x110000"
    by (rule path_machine_at; simp)+
  have "shallow 0 (components ?p)" by (simp add: c)
  moreover have "render (resolve meant_pop [] (components ?p)) = [47, 98]" by (simp add: c meant_pop_def render_def)
  ultimately show ?thesis using vfs_normalize_meets_spec [OF at(1)] at(2) by (auto simp: numeral_2_eq_2)
qed

theorem vfs_normalize_keeps_names_witness:
  "\<exists>t. vfs_normalize_path (path_machine [47, 98, 105, 110]) 0x200000 4 = Some ((0x110000, 4), t)
    \<and> bytes_at t 0x110000 4 = [47, 98, 105, 110]"
proof -
  have r: "render [[98, 105, 110]] = [47, 98, 105, 110]" by (simp add: render_def)
  have at: "path_at (path_machine [47, 98, 105, 110]) 0x200000 [47, 98, 105, 110]"
    "heap_ptr (path_machine [47, 98, 105, 110]) = 0x110000" by (rule path_machine_at; simp)+
  have "names [[98, 105, 110]]" by (simp add: names_def)
  from vfs_normalize_keeps_names [OF this, unfolded r, OF at(1)] show ?thesis using at(2) by (simp add: eval_nat_numeral)
qed

theorem vfs_normalize_leaves_slash_witness:
  "\<exists>t. vfs_normalize_path (path_machine [47, 97, 47, 98, 47, 46, 46]) 0x200000 7 = Some ((0x110000, 3), t)
    \<and> bytes_at t 0x110000 3 = [47, 97, 47]"
proof -
  have r: "render ([[97]] @ [[98]]) = [47, 97, 47, 98]" "render [[97]] = [47, 97]" by (simp_all add: render_def)
  have at: "path_at (path_machine [47, 97, 47, 98, 47, 46, 46]) 0x200000 ([47, 97, 47, 98] @ [47, 46, 46])"
    "heap_ptr (path_machine [47, 97, 47, 98, 47, 46, 46]) = 0x110000" using path_machine_at [of "[47, 97, 47, 98, 47, 46, 46]"] by simp_all
  have "names ([[97]] @ [[98]])" by (simp add: names_def)
  from vfs_normalize_leaves_slash [OF this _ at(1) [folded r(1)]] show ?thesis using at(2) unfolding r by (simp add: eval_nat_numeral)
qed

end
