(* ===== verification/VfsFile.thy ===== *)
theory VfsFile
  imports VfsPath VfsDesc
begin

text \<open>
  Reading and writing files.  The contents of a file are a list of bytes; a write through a descriptor
  splices bytes in at the descriptor's offset, growing the buffer when needed, and a read returns them.
\<close>

section \<open>Table updates\<close>

text \<open>From \<open>s\<close> to \<open>s'\<close> the tables changed in at most the row of node \<open>n\<close> and the row of descriptor \<open>d\<close>.\<close>

definition tables :: "machine \<Rightarrow> int \<Rightarrow> int \<Rightarrow> (int \<Rightarrow> int) \<Rightarrow> int \<Rightarrow> (int \<Rightarrow> int) \<Rightarrow> machine \<Rightarrow> bool" where
  "tables s v n fn d fd s' \<longleftrightarrow> vfs_layout s' v \<and> vfs_area s' v = vfs_area s v
     \<and> (\<forall>k. 0 \<le> k \<and> k < 6 \<longrightarrow> vq s' v k = vq s v k)
     \<and> (\<forall>i k. node_id i \<and> 0 \<le> k \<and> k < 7 \<longrightarrow> nf s' v i k = (if i = n then fn k else nf s v i k))
     \<and> (\<forall>i k. desc_id i \<and> 0 \<le> k \<and> k < 6 \<longrightarrow> df s' v i k = (if i = d then fd k else df s v i k))"

lemma tables_refl: "vfs_layout s v \<Longrightarrow> tables s v n (nf s v n) d (df s v d) s"
  by (simp add: tables_def)

lemma tables_node_put:
  assumes "tables s v n fn d fd t" "node_id n" "0 \<le> k" "k < 7"
  shows "\<exists>u. set_vfs_node_qword t v n k x = Some u \<and> tables s v n (fn(k := i64 x)) d fd u \<and> writes_in (vfs_area s v) t u"
proof -
  have lay: "vfs_layout t v" using assms(1) by (simp add: tables_def)
  define u where "u = put_qword t (vq t v 2 + n * 56 + k * 8) x"
  note r = put_node [OF lay assms(2-4), where x = x, folded u_def]
  have "tables s v n (fn(k := i64 x)) d fd u"
    using assms(1) r unfolding tables_def by (auto simp: desc_id_def)
  moreover have "writes_in (vfs_area s v) t u" using r(6) assms(1) by (simp add: tables_def)
  ultimately show ?thesis using vfs_write(2) [OF lay assms(2-4)] u_def by blast
qed

lemma tables_desc_put:
  assumes "tables s v n fn d fd t" "desc_id d" "0 \<le> k" "k < 6"
  shows "\<exists>u. set_vfs_desc_qword t v d k x = Some u \<and> tables s v n fn d (fd(k := i64 x)) u \<and> writes_in (vfs_area s v) t u"
proof -
  have lay: "vfs_layout t v" using assms(1) by (simp add: tables_def)
  define u where "u = put_qword t (vq t v 4 + (d - 1) * 48 + k * 8) x"
  note r = put_desc [OF lay assms(2-4), where x = x, folded u_def]
  have "tables s v n fn d (fd(k := i64 x)) u"
    using assms(1) r unfolding tables_def by auto
  moreover have "writes_in (vfs_area s v) t u" using r(6) assms(1) by (simp add: tables_def)
  ultimately show ?thesis using vfs_write(3) [OF lay assms(2-4)] u_def by blast
qed

lemma tables_frame:
  assumes "tables s v n fn d fd t" "\<forall>a \<in> vfs_area s v. mem u a = mem t a"
  shows "tables s v n fn d fd u"
proof -
  have lay: "vfs_layout t v" "vfs_area t v = vfs_area s v" using assms(1) by (simp_all add: tables_def)
  have "\<forall>a \<in> vfs_area t v. mem u a = mem t a" using assms(2) lay(2) by simp
  note r = vfs_frame [OF lay(1) this]
  show ?thesis using assms(1) r unfolding tables_def by auto
qed

lemma writes_in_outside: "writes_in A s t \<Longrightarrow> B \<inter> A = {} \<Longrightarrow> \<forall>a \<in> B. mem t a = mem s a"
  by (auto simp: writes_in_def)

lemma below_fresh: "A \<subseteq> {..<q} \<Longrightarrow> A \<inter> {q..<r} = {}" "A \<subseteq> {..<q} \<Longrightarrow> {q..<r} \<inter> A = {}" for q :: int
proof -
  assume "A \<subseteq> {..<q}"
  then have "a < q" if "a \<in> A" for a using that by blast
  then show "A \<inter> {q..<r} = {}" "{q..<r} \<inter> A = {}" by fastforce+
qed

section \<open>Files\<close>

definition file_data :: "machine \<Rightarrow> int \<Rightarrow> int \<Rightarrow> int list" where
  "file_data s v n = bytes_at s (nf s v n 2) (nat (nf s v n 3))"

definition file_buffer :: "machine \<Rightarrow> int \<Rightarrow> int \<Rightarrow> int set" where
  "file_buffer s v n = {nf s v n 2..<nf s v n 2 + nf s v n 6}"

text \<open>A file whose buffer, like the tables, is in the used part of the heap and apart from them.\<close>

definition file_ok :: "machine \<Rightarrow> int \<Rightarrow> int \<Rightarrow> bool" where
  "file_ok s v n \<longleftrightarrow> vfs_layout s v \<and> node_id n \<and> 0 \<le> nf s v n 3 \<and> nf s v n 3 \<le> nf s v n 6 \<and> nf s v n 6 < 2 ^ 62
     \<and> file_buffer s v n \<inter> vfs_area s v = {} \<and> file_buffer s v n \<subseteq> {..<heap_ptr s} \<and> vfs_area s v \<subseteq> {..<heap_ptr s}"

text \<open>An open descriptor of the file.\<close>

definition file_desc :: "machine \<Rightarrow> int \<Rightarrow> int \<Rightarrow> int \<Rightarrow> bool" where
  "file_desc s v d n \<longleftrightarrow> desc_id d \<and> df s v d 0 = 3 \<and> df s v d 2 = n"

definition new_capacity :: "int \<Rightarrow> int \<Rightarrow> int" where
  "new_capacity old needed = max (max 64 needed) (old * 2)"

lemma grow_node:
  assumes "file_ok s v n" "0 \<le> m" "m < 2 ^ 62" "heap_room s (new_capacity (nf s v n 6) m)"
  shows "\<exists>p t. vfs_grow_node_data s v n m = Some (p, t) \<and> nf t v n 2 = p \<and> m \<le> nf t v n 6 \<and> nf s v n 6 \<le> nf t v n 6
    \<and> file_ok t v n \<and> file_data t v n = file_data s v n \<and> nf t v n 3 = nf s v n 3
    \<and> tables s v n ((nf s v n)(2 := p, 6 := nf t v n 6)) d (df s v d) t
    \<and> (\<forall>a. a \<notin> vfs_area s v \<and> a \<notin> {heap_ptr s..<heap_ptr t} \<longrightarrow> mem t a = mem s a)
    \<and> (file_buffer t v n = file_buffer s v n \<or> file_buffer t v n \<subseteq> {heap_ptr s..<heap_ptr t}) \<and> heap_ptr s \<le> heap_ptr t
    \<and> heap_ptr t \<le> heap_ptr s + round16 (new_capacity (nf s v n 6) m)"
proof -
  have lay: "vfs_layout s v" and n: "node_id n" and len: "0 \<le> nf s v n 3" "nf s v n 3 \<le> nf s v n 6" "nf s v n 6 < 2 ^ 62"
    using assms(1) by (auto simp: file_ok_def)
  show ?thesis
  proof (cases "m \<le> nf s v n 6")
    case True
    have "vfs_grow_node_data s v n m = Some (nf s v n 2, s)"
      using True lay n by (simp add: vfs_grow_node_data_def vfs_const)
    moreover have "(nf s v n)(2 := nf s v n 2, 6 := nf s v n 6) = nf s v n" by auto
    moreover have "0 \<le> round16 (new_capacity (nf s v n 6) m)"
      using round16_bounds(1) [of "new_capacity (nf s v n 6) m"] assms(4) by (auto simp: heap_room_def)
    ultimately show ?thesis using True assms(1) tables_refl [OF lay, of n d] by auto
  next
    case False
    define c where "c = new_capacity (nf s v n 6) m"
    have c: "m \<le> c" "0 \<le> c" "nf s v n 6 \<le> c" "i64 (nf s v n 6 * 2) = nf s v n 6 * 2"
      using False assms(2,3) len by (auto simp: c_def new_capacity_def intro!: i64_id in64I)
    have cc: "(let k = (if m < 64 then 64 else m) in
        if nf s v n 6 \<noteq> 0 \<and> k < i64 (nf s v n 6 * 2) then i64 (nf s v n 6 * 2) else k) = c"
      using c(4) len by (auto simp: c_def new_capacity_def max_def Let_def)
    define q where "q = heap_ptr s"
    have hr: "0 < q" "q + round16 c \<le> heap_end s" "heap_end s < 2 ^ 62" and rc: "c \<le> round16 c"
      using assms(4) round16_bounds(1) [of c] by (auto simp: heap_room_def q_def c_def)
    have ic: "i64 c = c" "c < 2 ^ 62" using hr rc c(2) by (auto intro!: i64_id in64I)
    define s0 where "s0 = s\<lparr>heap_ptr := q + round16 c\<rparr>"
    have alloc: "alloc_bytes s c = Some (q, s0)"
      using alloc_bytes_eq [of s c] hr c(2) by (simp add: q_def s0_def)
    define L where "L = nat (nf s v n 3)"
    define s1 where "s1 = copy_bytes s0 q (nf s v n 2) (int L)"
    have w1: "writes_in {q..<q + int L} s0 s1" unfolding s1_def by (rule copy_bytes_writes)
    have area: "vfs_area s v \<subseteq> {..<q}" "file_buffer s v n \<subseteq> {..<q}" using assms(1) by (auto simp: file_ok_def q_def)
    have src: "{nf s v n 2..<nf s v n 2 + int L} \<subseteq> file_buffer s v n" using len by (auto simp: file_buffer_def L_def)
    have dis: "{q..<q + int L} \<inter> {nf s v n 2..<nf s v n 2 + int L} = {}" using below_fresh(2) [OF subset_trans [OF src area(2)]] .
    have "bytes_at s1 q L = bytes_at s0 (nf s v n 2) L" unfolding s1_def by (rule copy_bytes_at [OF dis])
    also have "\<dots> = file_data s v n" by (simp add: file_data_def L_def bytes_at_def load_byte_def s0_def)
    finally have data: "bytes_at s1 q L = file_data s v n" .
    have t0: "tables s v n (nf s v n) d (df s v d) s0"
      using tables_refl [OF lay, of n d] by (rule tables_frame) (simp add: s0_def)
    have t1: "tables s v n (nf s v n) d (df s v d) s1"
      by (rule tables_frame [OF t0 writes_in_outside [OF w1 below_fresh(1) [OF area(1)]]])
    obtain s2 where s2: "set_vfs_node_qword s1 v n 2 q = Some s2"
        "tables s v n ((nf s v n)(2 := i64 q)) d (df s v d) s2" "writes_in (vfs_area s v) s1 s2"
      using tables_node_put [OF t1 n, of 2 q] by auto
    obtain s3 where s3: "set_vfs_node_qword s2 v n 6 c = Some s3"
        "tables s v n ((nf s v n)(2 := i64 q, 6 := i64 c)) d (df s v d) s3" "writes_in (vfs_area s v) s2 s3"
      using tables_node_put [OF s2(2) n, of 6 c] by auto
    have iq: "i64 q = q" using hr rc c(2) by (intro i64_id in64I) auto
    have run: "vfs_grow_node_data s v n m = Some (q, s3)"
    proof -
      have "copy_bytes s0 q (nf s v n 2) (nf s v n 3) = s1" using len(1) by (simp add: s1_def L_def)
      then show ?thesis using False lay n alloc cc s2(1) s3(1)
        by (simp add: vfs_grow_node_data_def vfs_const Let_def)
    qed
    have f: "nf s3 v n 2 = q" "nf s3 v n 6 = c" "nf s3 v n 3 = nf s v n 3" "vfs_layout s3 v" "vfs_area s3 v = vfs_area s v"
      using s3(2) n iq ic by (auto simp: tables_def)
    have w3: "writes_in (vfs_area s v) s1 s3" using s2(3) s3(3) by (rule writes_in_trans)
    have hp: "heap_ptr s3 = q + round16 c" using writes_in_fields(3) [OF w3] writes_in_fields(3) [OF w1] by (simp add: s0_def)
    have "bytes_at s3 q L = bytes_at s1 q L"
      by (rule bytes_at_cong [OF w3 below_fresh(2) [OF area(1)]])
    then have fd: "file_data s3 v n = file_data s v n" using data f by (simp add: file_data_def L_def)
    have buf: "file_buffer s3 v n = {q..<q + c}" by (simp add: file_buffer_def f)
    have ok: "file_ok s3 v n"
      unfolding file_ok_def buf hp f
      using f(4) n len c ic rc area(1) by (auto simp: subset_iff)
    have frame: "\<forall>a. a \<notin> vfs_area s v \<and> a \<notin> {q..<heap_ptr s3} \<longrightarrow> mem s3 a = mem s a"
    proof (intro allI impI, elim conjE)
      fix a assume a: "a \<notin> vfs_area s v" "a \<notin> {q..<heap_ptr s3}"
      then have "a \<notin> {q..<q + int L}" using hp len rc c by (auto simp: L_def)
      then show "mem s3 a = mem s a" using w3 w1 a by (simp add: writes_in_def s0_def)
    qed
    have "(nf s v n)(2 := i64 q, 6 := i64 c) = (nf s v n)(2 := q, 6 := nf s3 v n 6)" using iq ic f by simp
    with s3(2) have tb: "tables s v n ((nf s v n)(2 := q, 6 := nf s3 v n 6)) d (df s v d) s3" by simp
    show ?thesis
      unfolding q_def [symmetric] c_def [symmetric]
      by (rule exI [of _ q], rule exI [of _ s3])
         (use run f ok fd tb frame buf hp rc c in auto)
  qed
qed

section \<open>Writing and reading\<close>

definition splice :: "nat \<Rightarrow> 'a list \<Rightarrow> 'a list \<Rightarrow> 'a list" where
  "splice k bs xs = take k xs @ bs @ drop (k + length bs) xs"

lemma copy_bytes_splice:
  assumes "k + n \<le> m" "{a + int k..<a + int k + int n} \<inter> {r..<r + int n} = {}"
  shows "bytes_at (copy_bytes s (a + int k) r (int n)) a m = take k (bytes_at s a m) @ bytes_at s r n @ drop (k + n) (bytes_at s a m)"
proof -
  let ?t = "copy_bytes s (a + int k) r (int n)"
  obtain j where m: "m = k + n + j" using assms(1) le_Suc_ex by blast
  have w: "writes_in {a + int k..<a + int k + int n} s ?t" by (rule copy_bytes_writes)
  have "bytes_at ?t a m = bytes_at ?t a k @ bytes_at ?t (a + int k) n @ bytes_at ?t (a + int k + int n) j"
    by (simp add: m bytes_at_add add.assoc)
  moreover have "bytes_at ?t a k = bytes_at s a k" by (rule bytes_at_cong [OF w]) auto
  moreover have "bytes_at ?t (a + int k) n = bytes_at s r n" by (rule copy_bytes_at [OF assms(2)])
  moreover have "bytes_at ?t (a + int k + int n) j = bytes_at s (a + int k + int n) j" by (rule bytes_at_cong [OF w]) auto
  ultimately show ?thesis by (simp add: m take_bytes_at drop_bytes_at add.assoc)
qed

text \<open>A source of bytes the kernel may copy from: apart from the tables, the file and the free heap it may use.\<close>

definition apart_from :: "machine \<Rightarrow> int \<Rightarrow> int \<Rightarrow> int \<Rightarrow> nat \<Rightarrow> nat \<Rightarrow> bool" where
  "apart_from s v n a len room \<longleftrightarrow> {a..<a + int len} \<inter> vfs_area s v = {} \<and> {a..<a + int len} \<inter> file_buffer s v n = {}
     \<and> {a..<a + int len} \<inter> {heap_ptr s..<heap_ptr s + int room} = {}"

text \<open>
  The write puts \<open>bs\<close> at offset \<open>k\<close>.  The offset may lie behind the end of the file when the file was truncated
  meanwhile: the bytes up to the offset are then what the buffer happens to hold.
\<close>

lemma splice_padded:
  assumes "M = max L (k + length bs)"
  shows "take k (bytes_at s p M) @ bs @ drop (k + length bs) (bytes_at s p M) = splice k bs (bytes_at s p L @ drop L (bytes_at s p k))"
proof (cases "k \<le> L")
  case True
  then have "take k (bytes_at s p M) = take k (bytes_at s p L)" using assms by (simp add: take_bytes_at)
  moreover have "drop (k + length bs) (bytes_at s p M) = drop (k + length bs) (bytes_at s p L)"
    using assms by (cases "L \<le> k + length bs") (auto simp: max_def)
  ultimately show ?thesis using True by (simp add: splice_def)
next
  case False
  then have "bytes_at s p L @ drop L (bytes_at s p k) = bytes_at s p k"
    using append_take_drop_id [of L "bytes_at s p k"] by (simp add: take_bytes_at)
  then show ?thesis using False assms by (simp add: splice_def take_bytes_at)
qed

lemma write_file:
  assumes "file_ok s v n" "file_desc s v d n" "odd (nf s v n 5)"
    and "df s v d 3 = int k" "int k + int len < 2 ^ 62"
    and "heap_room s (new_capacity (nf s v n 6) (int k + int len))"
    and "apart_from s v n src len (nat (round16 (new_capacity (nf s v n 6) (int k + int len))))"
  defines "bs \<equiv> bytes_at s src len"
  shows "\<exists>t. vfs_write_descriptor s v d src (int len) = Some (int len, t) \<and> file_ok t v n
    \<and> (\<exists>gap. length gap = k - length (file_data s v n) \<and> file_data t v n = splice k bs (file_data s v n @ gap))
    \<and> nf s v n 6 \<le> nf t v n 6 \<and> int k + int len \<le> nf t v n 6
    \<and> (\<exists>fn. tables s v n fn d ((df s v d)(3 := int k + int len)) t \<and> fn 4 = nf s v n 4) \<and> heap_ptr s \<le> heap_ptr t
    \<and> heap_ptr t \<le> heap_ptr s + round16 (new_capacity (nf s v n 6) (int k + int len))
    \<and> (file_buffer t v n = file_buffer s v n \<or> file_buffer t v n \<subseteq>
         {heap_ptr s..<heap_ptr s + int (nat (round16 (new_capacity (nf s v n 6) (int k + int len))))})
    \<and> (\<forall>a. a \<notin> vfs_area s v \<and> a \<notin> file_buffer s v n \<and> a \<notin> {heap_ptr s..<heap_ptr t} \<longrightarrow> mem t a = mem s a)"
proof -
  let ?m = "int k + int len"
  have lay: "vfs_layout s v" and n: "node_id n" using assms(1) by (auto simp: file_ok_def)
  have d: "desc_id d" "df s v d 0 = 3" "df s v d 2 = n" using assms(2) by (auto simp: file_desc_def)
  have fl: "nf s v n 5 AND 1 \<noteq> 0" using assms(3) by (simp add: and_one_eq odd_iff_mod_2_eq_one)
  have im: "i64 ?m = ?m" using assms(5) by (intro i64_id in64I) auto
  obtain p s1 where g: "vfs_grow_node_data s v n ?m = Some (p, s1)" "nf s1 v n 2 = p" "?m \<le> nf s1 v n 6"
      "file_ok s1 v n" "file_data s1 v n = file_data s v n" "nf s1 v n 3 = nf s v n 3"
      "tables s v n ((nf s v n)(2 := p, 6 := nf s1 v n 6)) d (df s v d) s1"
      "\<forall>a. a \<notin> vfs_area s v \<and> a \<notin> {heap_ptr s..<heap_ptr s1} \<longrightarrow> mem s1 a = mem s a"
      "file_buffer s1 v n = file_buffer s v n \<or> file_buffer s1 v n \<subseteq> {heap_ptr s..<heap_ptr s1}"
      "heap_ptr s \<le> heap_ptr s1" "heap_ptr s1 \<le> heap_ptr s + round16 (new_capacity (nf s v n 6) ?m)"
      "nf s v n 6 \<le> nf s1 v n 6"
    using grow_node [OF assms(1) _ assms(5,6), of d] by auto
  let ?src = "{src..<src + int len}"
  have heap: "{heap_ptr s..<heap_ptr s1} \<subseteq> {heap_ptr s..<heap_ptr s + int (nat (round16 (new_capacity (nf s v n 6) ?m)))}"
    using g(10,11) by auto
  have sdis: "?src \<inter> vfs_area s v = {}" "?src \<inter> {heap_ptr s..<heap_ptr s1} = {}" "?src \<inter> file_buffer s1 v n = {}"
    using assms(7) heap g(9) by (auto simp: apart_from_def)
  have "bytes_at s1 src len = bs"
    unfolding bs_def
  proof (rule nth_equalityI)
    fix i assume "i < length (bytes_at s1 src len)"
    then have i: "i < len" "src + int i \<in> ?src" by simp_all
    then have "mem s1 (src + int i) = mem s (src + int i)" using g(8) sdis by blast
    then show "bytes_at s1 src len ! i = bytes_at s src len ! i" using i(1) by (simp add: load_byte_def)
  qed simp
  note srcb = this
  define s2 where "s2 = copy_bytes s1 (p + int k) src (int len)"
  have w2: "writes_in {p + int k..<p + int k + int len} s1 s2" unfolding s2_def by (rule copy_bytes_writes)
  have into: "{p + int k..<p + int k + int len} \<subseteq> file_buffer s1 v n" using g(2,3) by (auto simp: file_buffer_def)
  have ar: "vfs_area s1 v = vfs_area s v" using g(7) by (simp add: tables_def)
  have bd: "file_buffer s1 v n \<inter> vfs_area s v = {}" using g(4) ar by (simp add: file_ok_def)
  have "vfs_area s v \<inter> {p + int k..<p + int k + int len} = {}" using bd into by blast
  note t2 = tables_frame [OF g(7) writes_in_outside [OF w2 this]]
  let ?L = "nf s v n 3"
  define M where "M = max ?L ?m"
  have M: "i64 M = M" "0 \<le> M" "M \<le> nf s1 v n 6" using g(3,4,6) im by (auto simp: M_def max_def file_ok_def intro!: i64_id in64I)
  have "\<exists>s3. (if ?m > ?L then set_vfs_node_qword s2 v n 3 ?m else Some s2) = Some s3
    \<and> tables s v n ((nf s v n)(2 := p, 6 := nf s1 v n 6, 3 := M)) d (df s v d) s3 \<and> writes_in (vfs_area s v) s2 s3"
  proof (cases "?m > ?L")
    case True
    then show ?thesis using tables_node_put [OF t2 n, of 3 ?m] im by (auto simp: M_def)
  next
    case False
    then have "M = ?L" by (simp add: M_def)
    then have "(nf s v n)(2 := p, 6 := nf s1 v n 6, 3 := M) = (nf s v n)(2 := p, 6 := nf s1 v n 6)" by auto
    then show ?thesis using False t2 by auto
  qed
  then obtain s3 where s3: "(if ?m > ?L then set_vfs_node_qword s2 v n 3 ?m else Some s2) = Some s3"
    "tables s v n ((nf s v n)(2 := p, 6 := nf s1 v n 6, 3 := M)) d (df s v d) s3" "writes_in (vfs_area s v) s2 s3" by blast
  obtain s4 where s4: "set_vfs_desc_qword s3 v d 3 ?m = Some s4"
    "tables s v n ((nf s v n)(2 := p, 6 := nf s1 v n 6, 3 := M)) d ((df s v d)(3 := ?m)) s4" "writes_in (vfs_area s v) s3 s4"
    using tables_desc_put [OF s3(2) d(1), of 3 ?m] im by auto
  have lay2: "vfs_layout s2 v" "nf s2 v n 3 = ?L" using t2 n by (auto simp: tables_def)
  have run: "vfs_write_descriptor s v d src (int len) = Some (int len, s4)"
    using lay n d fl assms(4) im g(1) lay2 s3(1) s4(1)
    by (simp add: vfs_write_descriptor_def vfs_const desc_id_def s2_def [symmetric] del: vfs_write split: if_splits)
  have f4: "nf s4 v n 2 = p" "nf s4 v n 6 = nf s1 v n 6" "nf s4 v n 3 = M" "vfs_layout s4 v" "vfs_area s4 v = vfs_area s v"
    using s4(2) n by (auto simp: tables_def)
  have w4: "writes_in (vfs_area s v) s2 s4" using s3(3) s4(3) by (rule writes_in_trans)
  have buf: "file_buffer s4 v n = file_buffer s1 v n" by (simp add: file_buffer_def f4 g(2))
  have hp: "heap_ptr s4 = heap_ptr s1" using writes_in_fields(3) [OF w4] writes_in_fields(3) [OF w2] by simp
  have ok: "file_ok s4 v n"
    using g(4) M n f4 ar unfolding file_ok_def buf hp by simp
  have L0: "0 \<le> ?L" using assms(1) by (simp add: file_ok_def)
  define gap where "gap = drop (nat ?L) (bytes_at s1 p k)"
  have "file_data s4 v n = splice k bs (file_data s v n @ gap)"
  proof -
    have sub: "{p..<p + int (nat M)} \<subseteq> file_buffer s1 v n" using M g(2) by (auto simp: file_buffer_def)
    have "bytes_at s4 p (nat M) = bytes_at s2 p (nat M)" by (rule bytes_at_cong [OF w4]) (use sub bd in blast)
    also have "\<dots> = take k (bytes_at s1 p (nat M)) @ bytes_at s1 src len @ drop (k + len) (bytes_at s1 p (nat M))"
      unfolding s2_def
    proof (rule copy_bytes_splice)
      show "k + len \<le> nat M" by (simp add: M_def le_nat_iff)
      show "{p + int k..<p + int k + int len} \<inter> ?src = {}" using into sdis(3) by blast
    qed
    also have "\<dots> = splice k bs (bytes_at s1 p (nat ?L) @ gap)"
    proof -
      have "nat M = max (nat ?L) (k + length bs)" using L0 by (auto simp: bs_def M_def nat_add_distrib max_def)
      moreover have "len = length bs" by (simp add: bs_def)
      ultimately show ?thesis unfolding gap_def srcb by (simp only: splice_padded)
    qed
    finally show ?thesis using f4 g(2,5,6) by (simp add: file_data_def)
  qed
  moreover have "length gap = k - length (file_data s v n)" by (simp add: gap_def file_data_def)
  moreover have "\<forall>a. a \<notin> vfs_area s v \<and> a \<notin> file_buffer s v n \<and> a \<notin> {heap_ptr s..<heap_ptr s4} \<longrightarrow> mem s4 a = mem s a"
  proof (intro allI impI, elim conjE)
    fix a assume a: "a \<notin> vfs_area s v" "a \<notin> file_buffer s v n" "a \<notin> {heap_ptr s..<heap_ptr s4}"
    have "a \<notin> file_buffer s1 v n" using g(9) a(2,3) hp by auto
    then have "a \<notin> {p + int k..<p + int k + int len}" using into by blast
    then have "mem s2 a = mem s1 a" using w2 by (simp add: writes_in_def)
    moreover have "mem s4 a = mem s2 a" using w4 a(1) by (simp add: writes_in_def)
    moreover have "mem s1 a = mem s a" using g(8) a(1,3) hp by simp
    ultimately show "mem s4 a = mem s a" by simp
  qed
  moreover have "file_buffer s4 v n = file_buffer s v n \<or> file_buffer s4 v n \<subseteq>
      {heap_ptr s..<heap_ptr s + int (nat (round16 (new_capacity (nf s v n 6) ?m)))}"
    using g(9) heap unfolding buf by blast
  moreover have "((nf s v n)(2 := p, 6 := nf s1 v n 6, 3 := M)) 4 = nf s v n 4" by simp
  ultimately show ?thesis using run ok s4(2) g(3,10-12) f4(2) hp by auto
qed

text \<open>Reading copies the bytes from the descriptor's offset on and moves the offset behind them.\<close>

lemma read_file:
  assumes "file_ok s v n" "file_desc s v d n" "df s v d 3 = int k" "k + m \<le> length (file_data s v n)"
    and "dst \<noteq> 0" "{dst..<dst + int m} \<inter> vfs_area s v = {}" "{dst..<dst + int m} \<inter> file_buffer s v n = {}"
  shows "\<exists>t. vfs_read_descriptor s v d dst (int m) = Some (int m, t) \<and> bytes_at t dst m = take m (drop k (file_data s v n))
    \<and> file_data t v n = file_data s v n \<and> file_ok t v n"
proof -
  have lay: "vfs_layout s v" and n: "node_id n" and len: "0 \<le> nf s v n 3" "nf s v n 3 \<le> nf s v n 6" "nf s v n 6 < 2 ^ 62"
    using assms(1) by (auto simp: file_ok_def)
  have d: "desc_id d" "df s v d 0 = 3" "df s v d 2 = n" using assms(2) by (auto simp: file_desc_def)
  define p where "p = nf s v n 2"
  have km: "int k + int m \<le> nf s v n 3" using assms(4) len(1) by (simp add: file_data_def le_nat_iff)
  then have rem: "i64 (nf s v n 3 - int k) = nf s v n 3 - int k" "i64 (int k + int m) = int k + int m"
    using len by (auto intro!: i64_id in64I)
  show ?thesis
  proof (cases "nf s v n 3 - int k \<le> 0")
    case True
    then have "m = 0" using km by simp
    then show ?thesis using True lay n d assms(1,3,5) rem
      by (simp add: vfs_read_descriptor_def vfs_const desc_id_def bytes_at_def)
  next
    case False
    define s1 where "s1 = copy_bytes s dst (p + int k) (int m)"
    have w1: "writes_in {dst..<dst + int m} s s1" unfolding s1_def by (rule copy_bytes_writes)
    have sub: "{p + int k..<p + int k + int m} \<subseteq> file_buffer s v n" using km len by (auto simp: file_buffer_def p_def)
    have b1: "bytes_at s1 dst m = bytes_at s (p + int k) m"
      unfolding s1_def by (rule copy_bytes_at) (use sub assms(7) in blast)
    have "vfs_area s v \<inter> {dst..<dst + int m} = {}" using assms(6) by blast
    note t1 = tables_frame [OF tables_refl [OF lay, of n d] writes_in_outside [OF w1 this]]
    obtain s2 where s2: "set_vfs_desc_qword s1 v d 3 (int k + int m) = Some s2"
        "tables s v n (nf s v n) d ((df s v d)(3 := i64 (int k + int m))) s2" "writes_in (vfs_area s v) s1 s2"
      using tables_desc_put [OF t1 d(1), of 3 "int k + int m"] by auto
    have run: "vfs_read_descriptor s v d dst (int m) = Some (int m, s2)"
      using False km lay n d assms(3,5) rem s2(1)
      by (simp add: vfs_read_descriptor_def vfs_const desc_id_def p_def [symmetric] s1_def [symmetric] del: vfs_write)
    have f2: "nf s2 v n k = nf s v n k" if "0 \<le> k" "k < 7" for k using s2(2) n that by (auto simp: tables_def)
    have t2: "vfs_layout s2 v" "vfs_area s2 v = vfs_area s v" using s2(2) by (auto simp: tables_def)
    have buf: "file_buffer s2 v n = file_buffer s v n" by (simp add: file_buffer_def f2)
    have ok: "file_ok s2 v n"
      using assms(1) t2 writes_in_fields(3) [OF w1] writes_in_fields(3) [OF s2(3)]
      unfolding file_ok_def buf t2(2) by (simp add: f2)
    have bd: "file_buffer s v n \<inter> vfs_area s v = {}" using assms(1) by (simp add: file_ok_def)
    have dat: "{p..<p + int (nat (nf s v n 3))} \<subseteq> file_buffer s v n" using len by (auto simp: file_buffer_def p_def)
    have "bytes_at s2 p (nat (nf s v n 3)) = bytes_at s1 p (nat (nf s v n 3))" by (rule bytes_at_cong [OF s2(3)]) (use dat bd in blast)
    also have "\<dots> = bytes_at s p (nat (nf s v n 3))" by (rule bytes_at_cong [OF w1]) (use dat assms(7) in blast)
    finally have "file_data s2 v n = file_data s v n" by (simp add: file_data_def f2 p_def)
    moreover have "bytes_at s2 dst m = bytes_at s1 dst m" by (rule bytes_at_cong [OF s2(3) assms(6)])
    moreover have "bytes_at s (p + int k) m = take m (drop k (file_data s v n))"
      using assms(4) by (simp add: file_data_def p_def take_bytes_at drop_bytes_at)
    ultimately show ?thesis using run ok b1 by auto
  qed
qed

text \<open>
  C18: bytes written to a writable file through one descriptor are the bytes another
  descriptor of the file, at the same offset, reads back; the write returns their number, it succeeds
  for every offset up to the end of the file, growing the buffer when needed, and leaves the rest of the
  file as it was.
\<close>

theorem vfs_write_read_roundtrip:
  assumes "file_ok s v n" "odd (nf s v n 5)" "file_desc s v d n" "file_desc s v e n" "d \<noteq> e"
    and "df s v d 3 = int k" "df s v e 3 = int k" "k \<le> length (file_data s v n)" "int k + int len < 2 ^ 62"
    and "heap_room s (new_capacity (nf s v n 6) (int k + int len))"
    and "apart_from s v n src len (nat (round16 (new_capacity (nf s v n 6) (int k + int len))))"
    and "apart_from s v n dst len (nat (round16 (new_capacity (nf s v n 6) (int k + int len))))" "dst \<noteq> 0"
  shows "\<exists>t u. vfs_write_descriptor s v d src (int len) = Some (int len, t)
    \<and> vfs_read_descriptor t v e dst (int len) = Some (int len, u)
    \<and> bytes_at u dst len = bytes_at s src len
    \<and> file_data u v n = splice k (bytes_at s src len) (file_data s v n)"
proof -
  obtain t fn where t: "vfs_write_descriptor s v d src (int len) = Some (int len, t)" "file_ok t v n"
      "\<exists>gap. length gap = k - length (file_data s v n) \<and> file_data t v n = splice k (bytes_at s src len) (file_data s v n @ gap)"
      "tables s v n fn d ((df s v d)(3 := int k + int len)) t"
      "file_buffer t v n = file_buffer s v n \<or> file_buffer t v n \<subseteq> {heap_ptr s..<heap_ptr s + int (nat (round16 (new_capacity (nf s v n 6) (int k + int len))))}"
    using write_file [OF assms(1,3,2,6,9-11)] by blast
  have data: "file_data t v n = splice k (bytes_at s src len) (file_data s v n)" using t(3) assms(8) by auto
  have e: "file_desc t v e n" "df t v e 3 = int k" "vfs_area t v = vfs_area s v"
    using assms(4,5,7) t(4) by (auto simp: file_desc_def tables_def)
  have "{dst..<dst + int len} \<inter> vfs_area t v = {}" "{dst..<dst + int len} \<inter> file_buffer t v n = {}"
    using assms(12) e(3) t(5) unfolding apart_from_def by blast+
  moreover have "take len (drop k (splice k (bytes_at s src len) (file_data s v n))) = bytes_at s src len"
    using assms(8) by (simp add: splice_def)
  moreover have "k + len \<le> length (splice k (bytes_at s src len) (file_data s v n))" using assms(8) by (simp add: splice_def)
  ultimately show ?thesis
    using read_file [OF t(2) e(1,2), of len dst] assms(13) t(1) unfolding data by auto
qed

definition sample_files :: machine where
  "sample_files = poke [(0x111010, 0x112000), (0x111020, 0x113000), (0x111028, 32),
     (0x112038 + 16, 0x114000), (0x112038 + 24, 3), (0x112038 + 40, 1), (0x112038 + 48, 4),
     (0x113000, 3), (0x113010, 1), (0x113018, 2), (0x113030, 3), (0x113040, 1), (0x113048, 2),
     (0x114000, 0x434241), (0x200000, 0x7A797877)]
     (blank_machine\<lparr>heap_ptr := 0x115000\<rparr>)"

lemma sample_files_fields:
  "vq sample_files 0x111000 2 = 0x112000" "vq sample_files 0x111000 4 = 0x113000" "vq sample_files 0x111000 5 = 32"
  "nf sample_files 0x111000 1 2 = 0x114000" "nf sample_files 0x111000 1 3 = 3" "nf sample_files 0x111000 1 5 = 1"
  "nf sample_files 0x111000 1 6 = 4" "df sample_files 0x111000 1 0 = 3" "df sample_files 0x111000 1 2 = 1"
  "df sample_files 0x111000 1 3 = 2" "df sample_files 0x111000 2 0 = 3" "df sample_files 0x111000 2 2 = 1"
  "df sample_files 0x111000 2 3 = 2" "heap_ptr sample_files = 0x115000" "heap_end sample_files = 0x180000"
  by (simp_all add: sample_files_def vq_def nf_def df_def load_put_qword load_put_qword_other i64_id in64_def blank_machine_def)

theorem vfs_write_read_roundtrip_witness:
  "\<exists>t u. vfs_write_descriptor sample_files 0x111000 1 0x200000 4 = Some (4, t)
    \<and> vfs_read_descriptor t 0x111000 2 0x300000 4 = Some (4, u)
    \<and> bytes_at u 0x300000 4 = bytes_at sample_files 0x200000 4"
proof -
  note f = sample_files_fields
  have ok: "file_ok sample_files 0x111000 1"
    by (auto simp: file_ok_def vfs_layout_def node_id_def file_buffer_def vfs_area_def f)
  have d: "file_desc sample_files 0x111000 1 1" "file_desc sample_files 0x111000 2 1"
    by (simp_all add: file_desc_def desc_id_def f)
  have c: "new_capacity 4 6 = 64" "round16 64 = 64" by (simp_all add: new_capacity_def round16_def)
  have room: "heap_room sample_files 64" by (simp add: heap_room_def f c)
  have ap: "apart_from sample_files 0x111000 1 a 4 64" if "a = 0x200000 \<or> a = 0x300000" for a
    using that by (auto simp: apart_from_def vfs_area_def file_buffer_def f)
  show ?thesis
    using vfs_write_read_roundtrip [OF ok _ d, where k = 2 and len = 4 and src = "0x200000" and dst = "0x300000"]
      room ap by (auto simp: f c file_data_def)
qed

theorem vfs_descriptors_accounted_witness:
  "if card (open_descs sample_files 0x111000) < 32
    then \<exists>d t u. vfs_alloc_descriptor sample_files 0x111000 3 0 1 0 = Some (d, t) \<and> d \<in> {1..32} - open_descs sample_files 0x111000
      \<and> open_descs t 0x111000 = insert d (open_descs sample_files 0x111000)
      \<and> vfs_close_descriptor t 0x111000 d = Some (0, u) \<and> open_descs u 0x111000 = open_descs sample_files 0x111000
      \<and> vfs_close_descriptor u 0x111000 d = Some (- 1, u)
    else vfs_alloc_descriptor sample_files 0x111000 3 0 1 0 = Some (0, sample_files)"
  by (rule vfs_descriptors_accounted) (simp_all add: vfs_layout_def sample_files_fields i64_id in64_def)

end
