(* ===== verification/VfsTyped.thy ===== *)
theory VfsTyped
  imports VfsFile
begin

text \<open>
  A typing of the file system's tables: every node is a file or a directory, every file has a buffer of its own
  that holds its contents, every open file descriptor refers to a file at an offset inside its buffer.  Opening with its
  creation and truncation, closing, reading, listing and writing keep it, together with anything done outside the
  tables, and in a typed state a write with room in the heap returns and changes one file only.
\<close>

definition is_file :: "machine \<Rightarrow> int \<Rightarrow> int \<Rightarrow> bool" where
  "is_file s v n \<longleftrightarrow> 0 \<le> n \<and> n < vq s v 3 \<and> nf s v n 4 = vfs_node_kind_file"

definition desc_typed :: "machine \<Rightarrow> int \<Rightarrow> (int \<Rightarrow> int) \<Rightarrow> bool" where
  "desc_typed s v f \<longleftrightarrow> f 0 \<in> {desc_kind_closed, desc_kind_console_in, desc_kind_console_out, desc_kind_initramfs_file, desc_kind_directory}
     \<and> (f 0 = desc_kind_initramfs_file \<longrightarrow> is_file s v (f 2) \<and> 0 \<le> f 3 \<and> f 3 \<le> nf s v (f 2) 6)"

definition vfs_typed :: "machine \<Rightarrow> int \<Rightarrow> bool" where
  "vfs_typed s v \<longleftrightarrow> vfs_layout s v \<and> vfs_area s v \<subseteq> {..<heap_ptr s} \<and> 0 \<le> vq s v 3 \<and> vq s v 3 \<le> 32
     \<and> (\<forall>n. 0 \<le> n \<and> n < vq s v 3 \<longrightarrow> nf s v n 4 \<in> {vfs_node_kind_file, vfs_node_kind_directory})
     \<and> (\<forall>n. is_file s v n \<longrightarrow> file_ok s v n)
     \<and> (\<forall>m n. is_file s v m \<and> is_file s v n \<and> m \<noteq> n \<longrightarrow> file_buffer s v m \<inter> file_buffer s v n = {})
     \<and> (\<forall>d. desc_id d \<longrightarrow> desc_typed s v (df s v d))"

lemma file_node_id: "vfs_typed s v \<Longrightarrow> is_file s v n \<Longrightarrow> node_id n"
  by (auto simp: vfs_typed_def is_file_def node_id_def)

text \<open>Two states with the same rows, up to descriptor \<open>d\<close>.\<close>

lemma typed_desc:
  assumes "vfs_typed s v" "tables s v n (nf s v n) d fd t" "heap_ptr s \<le> heap_ptr t" "desc_id d \<Longrightarrow> desc_typed s v fd"
  shows "vfs_typed t v"
proof -
  have lay: "vfs_layout s v" "vq s v 3 \<le> 32" using assms(1) by (simp_all add: vfs_typed_def)
  have t: "vfs_layout t v" "vfs_area t v = vfs_area s v" "vq t v 3 = vq s v 3"
    and nf: "\<And>i k. node_id i \<Longrightarrow> 0 \<le> k \<Longrightarrow> k < 7 \<Longrightarrow> nf t v i k = nf s v i k"
    and df: "\<And>i k. desc_id i \<Longrightarrow> 0 \<le> k \<Longrightarrow> k < 6 \<Longrightarrow> df t v i k = (if i = d then fd k else df s v i k)"
    using assms(2) by (auto simp: tables_def)
  have id: "node_id i" if "0 \<le> i" "i < vq s v 3" for i using that lay(2) by (simp add: node_id_def)
  have fl: "is_file t v i = is_file s v i" for i using t(3) id nf by (auto simp: is_file_def)
  have buf: "file_buffer t v i = file_buffer s v i" if "is_file s v i" for i
    using that id nf by (simp add: file_buffer_def is_file_def)
  have "file_ok t v i" if "is_file s v i" for i
  proof -
    have "file_ok s v i" using assms(1) that by (simp add: vfs_typed_def)
    then show ?thesis using that t(1,2) buf id nf assms(3) by (auto simp: file_ok_def is_file_def)
  qed
  moreover have "desc_typed t v (df t v i)" if "desc_id i" for i
  proof -
    have "desc_typed s v (if i = d then fd else df s v i)" using assms(1,4) that by (auto simp: vfs_typed_def)
    moreover have "df t v i 0 = (if i = d then fd else df s v i) 0" "df t v i 2 = (if i = d then fd else df s v i) 2"
      "df t v i 3 = (if i = d then fd else df s v i) 3" using df [OF that] by simp_all
    moreover have "nf t v j 6 = nf s v j 6" if "is_file s v j" for j using that id nf by (simp add: is_file_def)
    ultimately show ?thesis unfolding desc_typed_def fl by auto
  qed
  moreover have "vfs_area t v \<subseteq> {..<heap_ptr t}" using assms(1,3) t(2) by (auto simp: vfs_typed_def)
  moreover have "nf t v i 4 \<in> {vfs_node_kind_file, vfs_node_kind_directory}" if "0 \<le> i" "i < vq t v 3" for i
    using assms(1) that t(3) id nf by (simp add: vfs_typed_def)
  moreover have "file_buffer t v i \<inter> file_buffer t v j = {}" if "is_file t v i" "is_file t v j" "i \<noteq> j" for i j
    using assms(1) that buf fl by (simp add: vfs_typed_def)
  moreover have "0 \<le> vq t v 3" "vq t v 3 \<le> 32" using assms(1) t(3) by (simp_all add: vfs_typed_def)
  ultimately show ?thesis using t(1) fl unfolding vfs_typed_def by blast
qed

lemma typed_frame:
  assumes "vfs_typed s v" "\<forall>a \<in> vfs_area s v. mem t a = mem s a" "heap_ptr s \<le> heap_ptr t"
  shows "vfs_typed t v"
proof -
  have "vfs_layout s v" using assms(1) by (simp add: vfs_typed_def)
  from tables_frame [OF tables_refl [OF this, of 0 0] assms(2)] show ?thesis
    by (rule typed_desc [OF assms(1) _ assms(3)]) (simp add: desc_id_def)
qed

lemma desc_update_tables: "desc_update v d f s t \<Longrightarrow> tables s v 0 (nf s v 0) d f t"
  by (auto simp: desc_update_def tables_def)

lemma desc_update_heap: "desc_update v d f s t \<Longrightarrow> heap_ptr t = heap_ptr s"
  by (auto simp: desc_update_def dest: writes_in_fields)

lemma typed_alloc:
  assumes "vfs_typed s v" "vfs_alloc_descriptor s v kind flags n 0 = Some (d, t)"
    and "kind \<in> {desc_kind_console_in, desc_kind_console_out, desc_kind_directory} \<or> kind = desc_kind_initramfs_file \<and> is_file s v n"
  shows "vfs_typed t v"
proof -
  have lay: "vfs_layout s v" using assms(1) by (simp add: vfs_typed_def)
  consider "t = s" | "desc_update v d (desc_row kind flags n 0) s t"
    using alloc_descriptor [OF lay, of kind flags n 0] assms(2) by auto
  then show ?thesis
  proof cases
    case 2
    have "desc_typed s v (desc_row kind flags n 0)"
    proof (cases "kind = desc_kind_initramfs_file")
      case True
      then have f: "is_file s v n" using assms(3) by (auto simp: vfs_const)
      then have "i64 n = n" using file_node_id [OF assms(1) f] by (auto simp: node_id_def intro!: i64_id simp: in64_def)
      moreover have "0 \<le> nf s v n 6" using assms(1) f by (force simp: vfs_typed_def file_ok_def)
      ultimately show ?thesis using f True by (simp add: desc_typed_def desc_row_def vfs_const i64_id in64_def)
    qed (use assms(3) in \<open>auto simp: desc_typed_def desc_row_def vfs_const i64_id in64_def\<close>)
    then show ?thesis using typed_desc [OF assms(1) desc_update_tables [OF 2]] desc_update_heap [OF 2] by simp
  qed (use assms(1) in simp)
qed

lemma typed_close:
  assumes "vfs_typed s v" "vfs_close_descriptor s v d = Some (r, t)" "desc_id d"
  shows "vfs_typed t v"
proof -
  have lay: "vfs_layout s v" using assms(1) by (simp add: vfs_typed_def)
  consider "t = s" | "desc_update v d (\<lambda>_. 0) s t" using close_descriptor [OF lay assms(3)] assms(2) by (cases "df s v d 0 = 0") auto
  then show ?thesis
  proof cases
    case 2
    have "desc_typed s v (\<lambda>_. 0)" by (simp add: desc_typed_def vfs_const)
    then show ?thesis using typed_desc [OF assms(1) desc_update_tables [OF 2]] desc_update_heap [OF 2] by simp
  qed (use assms(1) in simp)
qed

section \<open>Reading\<close>

lemma read_typed:
  assumes "vfs_typed s v" "desc_id d" "df s v d 0 = desc_kind_initramfs_file" "dst \<noteq> 0"
    "{dst..<dst + int len} \<inter> vfs_area s v = {}"
  shows "\<exists>r t. vfs_read_descriptor s v d dst (int len) = Some (r, t) \<and> vfs_typed t v"
proof -
  define n k where "n = df s v d 2" and "k = df s v d 3"
  have lay: "vfs_layout s v" and dt: "desc_typed s v (df s v d)" using assms(1,2) by (simp_all add: vfs_typed_def)
  have f: "is_file s v n" "0 \<le> k" "k \<le> nf s v n 6" using dt assms(3) by (simp_all add: desc_typed_def n_def k_def)
  have n: "node_id n" using file_node_id [OF assms(1) f(1)] .
  have len: "0 \<le> nf s v n 3" "nf s v n 3 \<le> nf s v n 6" "nf s v n 6 < 2 ^ 62" using assms(1) f(1) by (auto simp: vfs_typed_def file_ok_def)
  have rem: "i64 (nf s v n 3 - k) = nf s v n 3 - k" using f(2,3) len by (intro i64_id) (simp add: in64_def)
  show ?thesis
  proof (cases "nf s v n 3 - k \<le> 0")
    case True
    then have "vfs_read_descriptor s v d dst (int len) = Some (0, s)"
      using assms(2-4) lay n rem by (simp add: vfs_read_descriptor_def vfs_const desc_id_def n_def k_def)
    then show ?thesis using assms(1) by blast
  next
    case False
    define m where "m = (if int len > nf s v n 3 - k then nf s v n 3 - k else int len)"
    have m: "0 \<le> m" "m \<le> int len" "k + m \<le> nf s v n 3" using False by (auto simp: m_def)
    define s1 where "s1 = copy_bytes s dst (nf s v n 2 + k) m"
    have w: "writes_in {dst..<dst + m} s s1" unfolding s1_def using copy_bytes_writes [of dst "nat m"] m(1) by simp
    have "vfs_area s v \<inter> {dst..<dst + m} = {}" using assms(5) m(2) by fastforce
    note t1 = tables_frame [OF tables_refl [OF lay, of n d] writes_in_outside [OF w this]]
    obtain t where t: "set_vfs_desc_qword s1 v d 3 (k + m) = Some t"
      "tables s v n (nf s v n) d ((df s v d)(3 := i64 (k + m))) t" "writes_in (vfs_area s v) s1 t"
      using tables_desc_put [OF t1 assms(2), of 3 "k + m"] by auto
    have "i64 (k + m) = k + m" using m f(2) len by (intro i64_id) (simp add: in64_def)
    then have "desc_typed s v ((df s v d)(3 := i64 (k + m)))" using dt m f(2) len(2) by (simp add: desc_typed_def n_def)
    then have "vfs_typed t v"
      using typed_desc [OF assms(1) t(2)] writes_in_fields(3) [OF w] writes_in_fields(3) [OF t(3)] by simp
    moreover have "vfs_read_descriptor s v d dst (int len) = Some (m, t)"
      using False assms(2-4) lay n rem t(1)
      by (simp add: vfs_read_descriptor_def vfs_const desc_id_def n_def [symmetric] k_def [symmetric] s1_def m_def Let_def del: vfs_write split: if_splits)
    ultimately show ?thesis by blast
  qed
qed


section \<open>Writing\<close>

text \<open>The conditions on a write of \<open>len\<close> bytes at \<open>src\<close> through a descriptor of a file: a writable file, room in the heap, and
  a source apart from the tables, the file and the fresh memory.\<close>

definition may_write :: "machine \<Rightarrow> int \<Rightarrow> int \<Rightarrow> int \<Rightarrow> nat \<Rightarrow> bool" where
  "may_write s v d src len \<longleftrightarrow> desc_id d \<and> df s v d 0 = desc_kind_initramfs_file \<and> odd (nf s v (df s v d 2) 5)
     \<and> df s v d 3 + int len < 2 ^ 62 \<and> heap_room s (new_capacity (nf s v (df s v d 2) 6) (df s v d 3 + int len))
     \<and> apart_from s v (df s v d 2) src len (nat (round16 (new_capacity (nf s v (df s v d 2) 6) (df s v d 3 + int len))))"

text \<open>A write grows or keeps the one file and leaves the rows and the buffers of the others alone.\<close>

lemma typed_written:
  assumes "vfs_typed s v" "is_file s v n" "tables s v n fn d fd t" "fn 4 = nf s v n 4" "file_ok t v n" "heap_ptr s \<le> heap_ptr t"
    and "nf s v n 6 \<le> nf t v n 6" "file_buffer t v n = file_buffer s v n \<or> file_buffer t v n \<subseteq> {heap_ptr s..<h}"
    and "desc_id d \<Longrightarrow> fd 0 = df s v d 0 \<and> fd 2 = n \<and> df s v d 2 = n \<and> 0 \<le> fd 3 \<and> fd 3 \<le> nf t v n 6"
  shows "vfs_typed t v"
proof -
  have lay: "0 \<le> vq s v 3" "vq s v 3 \<le> 32" "vfs_area s v \<subseteq> {..<heap_ptr t}"
    using assms(1,6) by (auto simp: vfs_typed_def)
  have t: "vfs_layout t v" "vfs_area t v = vfs_area s v" "vq t v 3 = vq s v 3"
    and nf: "\<And>i k. node_id i \<Longrightarrow> 0 \<le> k \<Longrightarrow> k < 7 \<Longrightarrow> nf t v i k = (if i = n then fn k else nf s v i k)"
    and df: "\<And>i k. desc_id i \<Longrightarrow> 0 \<le> k \<Longrightarrow> k < 6 \<Longrightarrow> df t v i k = (if i = d then fd k else df s v i k)"
    using assms(3) by (auto simp: tables_def)
  have id: "node_id i" if "0 \<le> i" "i < vq s v 3" for i using that lay by (simp add: node_id_def)
  have kind: "nf t v i 4 = nf s v i 4" if "0 \<le> i" "i < vq s v 3" for i using nf [OF id [OF that], of 4] assms(4) by auto
  have fl: "is_file t v i = is_file s v i" for i using t(3) kind by (auto simp: is_file_def)
  have same: "nf t v i k = nf s v i k" if "is_file s v i" "i \<noteq> n" "0 \<le> k" "k < 7" for i k
    using that nf [OF id] by (simp add: is_file_def)
  have buf: "file_buffer t v i = file_buffer s v i" if "is_file s v i" "i \<noteq> n" for i using same [OF that] by (simp add: file_buffer_def)
  have ok: "file_ok s v i" if "is_file s v i" for i using assms(1) that by (simp add: vfs_typed_def)
  have oks: "file_ok t v i" if "is_file s v i" for i
  proof (cases "i = n")
    case False
    then show ?thesis using ok [OF that] t(1,2) buf [OF that] same [OF that] assms(6) by (auto simp: file_ok_def)
  qed (use assms(5) in simp)
  have apart: "file_buffer t v i \<inter> file_buffer t v n = {}" if "is_file s v i" "i \<noteq> n" for i
  proof -
    have "file_buffer s v i \<inter> file_buffer s v n = {}" using assms(1,2) that by (simp add: vfs_typed_def)
    moreover have "file_buffer s v i \<inter> {heap_ptr s..<h} = {}" using ok [OF that(1)] by (intro below_fresh) (simp add: file_ok_def)
    ultimately show ?thesis unfolding buf [OF that] using assms(8) by blast
  qed
  have disj: "file_buffer t v i \<inter> file_buffer t v j = {}" if ij: "is_file s v i" "is_file s v j" "i \<noteq> j" for i j
  proof -
    consider "i = n" "j \<noteq> n" | "j = n" "i \<noteq> n" | "i \<noteq> n" "j \<noteq> n" using ij(3) by blast
    then show ?thesis
    proof cases
      case 3
      then show ?thesis using ij assms(1) buf by (simp add: vfs_typed_def)
    qed (use ij apart in blast)+
  qed
  have "desc_typed t v (df t v i)" if "desc_id i" for i
  proof (cases "i = d")
    case True
    then have r: "df t v i 0 = df s v d 0" "df t v i 2 = n" "df t v i 3 = fd 3" "0 \<le> fd 3" "fd 3 \<le> nf t v n 6"
      using df [OF that] assms(9) that by auto
    have "desc_typed s v (df s v d)" using assms(1) that True by (simp add: vfs_typed_def)
    then show ?thesis using r assms(2) fl unfolding desc_typed_def by simp
  next
    case False
    then have r: "df t v i 0 = df s v i 0" "df t v i 2 = df s v i 2" "df t v i 3 = df s v i 3" using df [OF that] by simp_all
    have "nf s v j 6 \<le> nf t v j 6" if "is_file s v j" for j using same [OF that, of 6] assms(7) by (cases "j = n") auto
    moreover have "desc_typed s v (df s v i)" using assms(1) that by (simp add: vfs_typed_def)
    ultimately show ?thesis using r fl unfolding desc_typed_def by (metis order_trans)
  qed
  moreover have "nf t v i 4 \<in> {vfs_node_kind_file, vfs_node_kind_directory}" if "0 \<le> i" "i < vq s v 3" for i
    using kind that assms(1) by (simp add: vfs_typed_def)
  ultimately show ?thesis using t lay oks disj unfolding vfs_typed_def fl t(3) by blast
qed

lemma write_typed:
  assumes "vfs_typed s v" "may_write s v d src len"
  defines "n \<equiv> df s v d 2"
  shows "\<exists>t. vfs_write_descriptor s v d src (int len) = Some (int len, t) \<and> vfs_typed t v
    \<and> (\<exists>gap. length gap = nat (df s v d 3) - length (file_data s v n)
         \<and> file_data t v n = splice (nat (df s v d 3)) (bytes_at s src len) (file_data s v n @ gap))
    \<and> (\<forall>m. is_file s v m \<and> m \<noteq> n \<longrightarrow> file_data t v m = file_data s v m)"
proof -
  have w: "desc_id d" "df s v d 0 = desc_kind_initramfs_file" "odd (nf s v n 5)" using assms(2) by (auto simp: may_write_def n_def)
  have f: "is_file s v n" "0 \<le> df s v d 3"
    using assms(1) w(1,2) by (auto simp: vfs_typed_def desc_typed_def n_def)
  define k where "k = nat (df s v d 3)"
  have k: "df s v d 3 = int k" using f(2) by (simp add: k_def)
  have ok: "file_ok s v n" using assms(1) f(1) by (simp add: vfs_typed_def)
  have fd: "file_desc s v d n" using w by (simp add: file_desc_def n_def vfs_const)
  obtain t fn where t: "vfs_write_descriptor s v d src (int len) = Some (int len, t)" "file_ok t v n"
    "\<exists>gap. length gap = k - length (file_data s v n) \<and> file_data t v n = splice k (bytes_at s src len) (file_data s v n @ gap)"
    "tables s v n fn d ((df s v d)(3 := int k + int len)) t" "fn 4 = nf s v n 4"
    "heap_ptr s \<le> heap_ptr t" "file_buffer t v n = file_buffer s v n
      \<or> file_buffer t v n \<subseteq> {heap_ptr s..<heap_ptr s + int (nat (round16 (new_capacity (nf s v n 6) (int k + int len))))}"
    "\<forall>a. a \<notin> vfs_area s v \<and> a \<notin> file_buffer s v n \<and> a \<notin> {heap_ptr s..<heap_ptr t} \<longrightarrow> mem t a = mem s a"
    "nf s v n 6 \<le> nf t v n 6" "int k + int len \<le> nf t v n 6"
    using write_file [OF ok fd w(3) k, of len src] assms(2) unfolding may_write_def n_def [symmetric] k by blast
  have "vfs_typed t v"
    by (rule typed_written [OF assms(1) f(1) t(4,5,2,6,9,7)]) (use t(10) in \<open>simp add: n_def\<close>)
  moreover have "file_data t v m = file_data s v m" if m: "is_file s v m" "m \<noteq> n" for m
  proof -
    have "nf t v m 2 = nf s v m 2" "nf t v m 3 = nf s v m 3"
      using t(4) file_node_id [OF assms(1) m(1)] m(2) by (auto simp: tables_def)
    moreover have okm: "file_ok s v m" using assms(1) m(1) by (simp add: vfs_typed_def)
    have "file_buffer s v m \<inter> file_buffer s v n = {}" using assms(1) f(1) m by (simp add: vfs_typed_def)
    moreover have "file_buffer s v m \<inter> {heap_ptr s..<heap_ptr t} = {}" using okm by (intro below_fresh) (simp add: file_ok_def)
    moreover have "file_buffer s v m \<inter> vfs_area s v = {}" using okm by (simp add: file_ok_def)
    ultimately have "mem t a = mem s a" if "a \<in> file_buffer s v m" for a using that t(8) by blast
    moreover have "a \<in> file_buffer s v m" if "nf s v m 2 \<le> a" "a < nf s v m 2 + int (nat (nf s v m 3))" for a
      using okm that by (auto simp: file_ok_def file_buffer_def)
    ultimately have "bytes_at t (nf s v m 2) (nat (nf s v m 3)) = bytes_at s (nf s v m 2) (nat (nf s v m 3))"
      by (intro bytes_at_mem) blast
    then show ?thesis using \<open>nf t v m 2 = nf s v m 2\<close> \<open>nf t v m 3 = nf s v m 3\<close> by (simp add: file_data_def)
  qed
  ultimately show ?thesis using t(1,3) k_def by blast
qed

end
