(* ===== verification/VfsOpen.thy ===== *)
theory VfsOpen
  imports VfsTyped
begin

text \<open>
  Opening a path keeps the tables typed on every branch: a directory, a file of the image, a file that is truncated, a
  file that is created in a writable directory.  The runs of all file system operations are put together here.
\<close>

section \<open>Fresh memory\<close>

lemma typed_fresh:
  assumes "vfs_typed s v" "\<forall>a < heap_ptr s. mem t a = mem s a" "heap_ptr s \<le> heap_ptr t"
  shows "vfs_typed t v"
  using assms by (intro typed_frame [OF assms(1) _ assms(3)]) (auto simp: vfs_typed_def)

lemma alloc_bytes_Some:
  assumes "alloc_bytes s sz = Some (a, t)" "0 < heap_ptr s" "heap_ptr s \<le> heap_end s" "heap_end s < 2 ^ 62" "0 \<le> sz" "sz < 2 ^ 62"
  shows "a = heap_ptr s" "t = s\<lparr>heap_ptr := heap_ptr s + round16 sz\<rparr>" "heap_ptr s + round16 sz \<le> heap_end s"
proof -
  have "(sz + 15) AND NOT 15 = round16 sz" using and_not_mask [of "sz + 15" 4] by (simp add: round16_def)
  moreover have "(heap_ptr s + round16 sz) mod 2 ^ 64 = heap_ptr s + round16 sz"
    using assms(2-6) round16_bounds [of sz] by (intro mod_pos_pos_trivial) auto
  ultimately show "a = heap_ptr s" "t = s\<lparr>heap_ptr := heap_ptr s + round16 sz\<rparr>" "heap_ptr s + round16 sz \<le> heap_end s"
    using assms(1,2) by (auto simp: alloc_bytes_def seq_alloc_atomic_def Let_def panic_def split: if_splits)
qed

lemma last_slash_range: "vfs_last_slash s q l i = Some j \<Longrightarrow> 0 \<le> i \<Longrightarrow> 0 \<le> j \<and> j \<le> i"
proof (induction s q l i rule: vfs_last_slash.induct)
  case (1 s q l i)
  then show ?case by (force simp: vfs_last_slash.simps [of s q l i] bind_eq_Some_conv split: if_splits)
qed

lemma parent_fresh:
  assumes "vfs_path_parent s q l = Some ((r, m), t)" "0 < heap_ptr s" "heap_ptr s \<le> heap_end s" "heap_end s < 2 ^ 62" "l < 2 ^ 62"
  shows "\<forall>a < heap_ptr s. mem t a = mem s a" "heap_ptr s \<le> heap_ptr t"
proof -
  have "(\<forall>a < heap_ptr s. mem t a = mem s a) \<and> heap_ptr s \<le> heap_ptr t"
  proof (cases "l \<le> 1")
    case True
    then show ?thesis using assms(1) by (simp add: vfs_path_parent_def)
  next
    case False
    obtain j where j: "vfs_last_slash s q l (l - 1) = Some j" using assms(1) False by (auto simp: vfs_path_parent_def bind_eq_Some_conv)
    have jr: "0 \<le> j" "j \<le> l - 1" using last_slash_range [OF j] False by auto
    show ?thesis
    proof (cases "j = 0")
      case True
      then obtain u where u: "alloc_bytes s 2 = Some (r, u)" "t = store_byte (store_byte u r 47) (r + 1) 0"
        using assms(1) False j by (auto simp: vfs_path_parent_def bind_eq_Some_conv)
      then show ?thesis using alloc_bytes_Some [OF u(1) assms(2-4)] round16_bounds(1) [of 2] by (auto simp: store_byte_def)
    next
      case pos: False
      then obtain u w where u: "alloc_bytes s (j + 1) = Some (r, u)"
          "for_range 0 j (\<lambda>i s. do { b \<leftarrow> load_byte_region s q l i; Some (store_byte s (r + i) b) }) u = Some w"
          "t = store_byte w (r + j) 0"
        using assms(1) False j by (auto simp: vfs_path_parent_def bind_eq_Some_conv Let_def)
      note a = alloc_bytes_Some [OF u(1) assms(2-4)]
      have a': "r = heap_ptr s" "u = s\<lparr>heap_ptr := heap_ptr s + round16 (j + 1)\<rparr>" using a(1,2) jr assms(5) by auto
      have "(\<forall>a < heap_ptr s. mem w a = mem s a) \<and> heap_ptr w = heap_ptr u"
        using u(2)
      proof (rule for_range_inv [where P = "\<lambda>_ w. (\<forall>a < heap_ptr s. mem w a = mem s a) \<and> heap_ptr w = heap_ptr u"])
        fix i x x' assume "0 \<le> i" "(\<forall>a < heap_ptr s. mem x a = mem s a) \<and> heap_ptr x = heap_ptr u"
          "(do { b \<leftarrow> load_byte_region x q l i; Some (store_byte x (r + i) b) }) = Some x'"
        then show "(\<forall>a < heap_ptr s. mem x' a = mem s a) \<and> heap_ptr x' = heap_ptr u"
          using a'(1) by (auto simp: bind_eq_Some_conv store_byte_def)
      qed (use a'(2) jr in auto)
      then show ?thesis using a' u(3) jr round16_bounds(1) [of "j + 1"] by (auto simp: store_byte_def)
    qed
  qed
  then show "\<forall>a < heap_ptr s. mem t a = mem s a" "heap_ptr s \<le> heap_ptr t" by auto
qed

section \<open>Directories and truncation\<close>

lemma typed_desc_slot:
  assumes "vfs_typed s v" "desc_id d" "k \<in> {1, 4, 5}" "set_vfs_desc_qword s v d k x = Some t"
  shows "vfs_typed t v"
proof -
  have lay: "vfs_layout s v" and dt: "desc_typed s v (df s v d)" using assms(1,2) by (auto simp: vfs_typed_def)
  obtain u where u: "set_vfs_desc_qword s v d k x = Some u" "tables s v 0 (nf s v 0) d ((df s v d)(k := i64 x)) u"
      "writes_in (vfs_area s v) s u"
    using tables_desc_put [OF tables_refl [OF lay, of 0 d] assms(2), of k x] assms(3) by auto
  have "desc_typed s v ((df s v d)(k := i64 x))" using dt assms(3) by (auto simp: desc_typed_def)
  moreover have "heap_ptr s \<le> heap_ptr u" using writes_in_fields(3) [OF u(3)] by simp
  ultimately show ?thesis using typed_desc [OF assms(1) u(2)] u(1) assms(4) by simp
qed

lemma typed_directory:
  assumes "vfs_typed s v" "vfs_alloc_directory_descriptor s v q l 0 = Some (d, t)"
  shows "vfs_typed t v"
proof -
  have lay: "vfs_layout s v" using assms(1) by (simp add: vfs_typed_def)
  obtain e u where u: "vfs_alloc_descriptor s v desc_kind_directory 0 0 0 = Some (e, u)"
    using assms(2) by (auto simp: vfs_alloc_directory_descriptor_def bind_eq_Some_conv)
  have ty: "vfs_typed u v" by (rule typed_alloc [OF assms(1) u]) simp
  show ?thesis
  proof (cases "e = 0")
    case True
    then show ?thesis using assms(2) u ty by (simp add: vfs_alloc_directory_descriptor_def)
  next
    case False
    then have id: "desc_id e" using alloc_descriptor [OF lay, of desc_kind_directory 0 0 0] u by (auto simp: first_closed_def)
    obtain w where w: "set_vfs_desc_qword u v e 4 q = Some w" "set_vfs_desc_qword w v e 5 l = Some t"
      using assms(2) u False by (auto simp: vfs_alloc_directory_descriptor_def bind_eq_Some_conv vfs_const)
    have "vfs_typed w v" by (rule typed_desc_slot [OF ty id _ w(1)]) simp
    then show ?thesis by (rule typed_desc_slot [OF _ id _ w(2)]) simp
  qed
qed

lemma typed_truncate:
  assumes "vfs_typed s v" "is_file s v n" "set_vfs_node_qword s v n 3 0 = Some t"
  shows "vfs_typed t v" "is_file t v n"
proof -
  have lay: "vfs_layout s v" and ok: "file_ok s v n" using assms(1,2) by (auto simp: vfs_typed_def)
  have n: "node_id n" by (rule file_node_id [OF assms(1,2)])
  obtain u where u: "set_vfs_node_qword s v n 3 0 = Some u" "tables s v n ((nf s v n)(3 := 0)) 0 (df s v 0) u"
      "writes_in (vfs_area s v) s u"
    using tables_node_put [OF tables_refl [OF lay, of n 0] n, of 3 0] by auto
  have tu: "t = u" using u(1) assms(3) by simp
  have f: "nf t v n k = (if k = 3 then 0 else nf s v n k)" if "0 \<le> k" "k < 7" for k
    using u(2) n that by (simp add: tables_def tu)
  have hp: "heap_ptr t = heap_ptr s" using writes_in_fields(3) [OF u(3)] tu by simp
  have ar: "vfs_layout t v" "vfs_area t v = vfs_area s v" "vq t v 3 = vq s v 3" using u(2) tu by (auto simp: tables_def)
  have buf: "file_buffer t v n = file_buffer s v n" by (simp add: file_buffer_def f)
  have "file_ok t v n" using ok f hp ar buf by (simp add: file_ok_def)
  then show "vfs_typed t v"
    using typed_written [OF assms(1,2) u(2)] tu buf hp f by (simp add: desc_id_def)
  show "is_file t v n" using assms(2) ar(3) f by (simp add: is_file_def)
qed

section \<open>Creating a file\<close>

lemma lookup_range:
  assumes "vfs_lookup_path s v q l = Some r" "vfs_layout s v" "0 \<le> vq s v 3"
  shows "r < 0 \<or> 0 \<le> r \<and> r < vq s v 3"
proof -
  have "for_range 0 (vq s v 3) (\<lambda>node_id found. if found \<ge> 0 then Some found else do {
       name_ptr \<leftarrow> vfs_node_qword s v node_id node_slot_name_ptr;
       name_len \<leftarrow> vfs_node_qword s v node_id node_slot_name_len;
       eq \<leftarrow> vfs_path_equals s name_ptr name_len q l;
       Some (if eq then node_id else - 1) }) (- 1) = Some r"
    using assms(1,2) by (simp add: vfs_lookup_path_def vfs_const)
  then show ?thesis
    by (rule for_range_inv [where P = "\<lambda>i r. r < 0 \<or> 0 \<le> r \<and> r < i"])
      (use assms(3) in \<open>auto simp: bind_eq_Some_conv split: if_splits\<close>)
qed

text \<open>The seven slots of a node.\<close>

definition node_row :: "int \<Rightarrow> int \<Rightarrow> int \<Rightarrow> int \<Rightarrow> int \<Rightarrow> int \<Rightarrow> int \<Rightarrow> int \<Rightarrow> int" where
  "node_row name_ptr name_len data_ptr data_len kind flags capacity k =
     (if k = 0 then name_ptr else if k = 1 then name_len else if k = 2 then data_ptr else if k = 3 then data_len
      else if k = 4 then kind else if k = 5 then flags else capacity)"

lemma fill_node:
  assumes "vfs_layout s v" "node_id n" "in64 a" "in64 b" "in64 c" "in64 d" "in64 e" "in64 f" "in64 g"
  shows "\<exists>t u. vfs_set_node_name_data s v n a b c d = Some t \<and> vfs_set_node_meta t v n e f g = Some u
    \<and> tables s v n (node_row a b c d e f g) 0 (df s v 0) u \<and> writes_in (vfs_area s v) s u"
proof -
  note put = tables_node_put [OF _ assms(2)]
  obtain s1 where s1: "set_vfs_node_qword s v n 0 a = Some s1" "tables s v n ((nf s v n)(0 := i64 a)) 0 (df s v 0) s1" "writes_in (vfs_area s v) s s1"
    using put [OF tables_refl [OF assms(1)], of 0] by force
  obtain s2 where s2: "set_vfs_node_qword s1 v n 1 b = Some s2" "tables s v n ((nf s v n)(0 := i64 a, 1 := i64 b)) 0 (df s v 0) s2" "writes_in (vfs_area s v) s1 s2"
    using put [OF s1(2), of 1] by force
  obtain s3 where s3: "set_vfs_node_qword s2 v n 2 c = Some s3" "tables s v n ((nf s v n)(0 := i64 a, 1 := i64 b, 2 := i64 c)) 0 (df s v 0) s3" "writes_in (vfs_area s v) s2 s3"
    using put [OF s2(2), of 2] by force
  obtain s4 where s4: "set_vfs_node_qword s3 v n 3 d = Some s4" "tables s v n ((nf s v n)(0 := i64 a, 1 := i64 b, 2 := i64 c, 3 := i64 d)) 0 (df s v 0) s4" "writes_in (vfs_area s v) s3 s4"
    using put [OF s3(2), of 3] by force
  obtain s5 where s5: "set_vfs_node_qword s4 v n 4 e = Some s5" "tables s v n ((nf s v n)(0 := i64 a, 1 := i64 b, 2 := i64 c, 3 := i64 d, 4 := i64 e)) 0 (df s v 0) s5" "writes_in (vfs_area s v) s4 s5"
    using put [OF s4(2), of 4] by force
  obtain s6 where s6: "set_vfs_node_qword s5 v n 5 f = Some s6" "tables s v n ((nf s v n)(0 := i64 a, 1 := i64 b, 2 := i64 c, 3 := i64 d, 4 := i64 e, 5 := i64 f)) 0 (df s v 0) s6" "writes_in (vfs_area s v) s5 s6"
    using put [OF s5(2), of 5] by force
  obtain s7 where s7: "set_vfs_node_qword s6 v n 6 g = Some s7" "tables s v n ((nf s v n)(0 := i64 a, 1 := i64 b, 2 := i64 c, 3 := i64 d, 4 := i64 e, 5 := i64 f, 6 := i64 g)) 0 (df s v 0) s7" "writes_in (vfs_area s v) s6 s7"
    using put [OF s6(2), of 6] by force
  have "tables s v n (node_row a b c d e f g) 0 (df s v 0) s7"
    using s7(2) assms(3-9) unfolding tables_def by (auto simp: node_row_def i64_id)
  moreover have "writes_in (vfs_area s v) s s7"
    using s1(3) s2(3) s3(3) s4(3) s5(3) s6(3) s7(3) by (blast intro: writes_in_trans)
  ultimately show ?thesis
    using s1(1) s2(1) s3(1) s4(1) s5(1) s6(1) s7(1) by (simp add: vfs_set_node_name_data_def vfs_set_node_meta_def vfs_const)
qed

text \<open>A fresh row for an empty file behind the nodes in use.\<close>

lemma typed_extended:
  assumes "vfs_typed s v" "vq s v 3 < 32" "vfs_layout t v" "vfs_area t v = vfs_area s v" "vq t v 3 = vq s v 3 + 1"
    and "heap_ptr t = heap_ptr s"
    and nf: "\<And>i k. node_id i \<Longrightarrow> 0 \<le> k \<Longrightarrow> k < 7 \<Longrightarrow>
      nf t v i k = (if i = vq s v 3 then node_row a b 0 0 vfs_node_kind_file f 0 k else nf s v i k)"
    and df: "\<And>d k. desc_id d \<Longrightarrow> 0 \<le> k \<Longrightarrow> k < 6 \<Longrightarrow> df t v d k = df s v d k"
  shows "vfs_typed t v" "is_file t v (vq s v 3)"
proof -
  let ?c = "vq s v 3"
  have c: "0 \<le> ?c" "node_id ?c" and ar: "vfs_area s v \<subseteq> {..<heap_ptr s}" using assms(1,2) by (auto simp: vfs_typed_def node_id_def)
  have id: "node_id i" if "0 \<le> i" "i < vq t v 3" for i using that assms(2,5) by (simp add: node_id_def)
  show new: "is_file t v ?c" using c nf [OF c(2), of 4] assms(5) by (simp add: is_file_def node_row_def)
  have fl: "is_file t v i \<longleftrightarrow> i = ?c \<or> is_file s v i" for i
    using new id nf [of i 4] assms(5) by (cases "i = ?c") (auto simp: is_file_def)
  have old: "nf t v i k = nf s v i k" if "is_file s v i" "0 \<le> k" "k < 7" for i k
    using nf [OF file_node_id [OF assms(1) that(1)] that(2,3)] that(1) by (simp add: is_file_def)
  have buf: "file_buffer t v i = file_buffer s v i" if "is_file s v i" for i using old [OF that] by (simp add: file_buffer_def)
  have cb: "file_buffer t v ?c = {}" using nf [OF c(2)] by (simp add: file_buffer_def node_row_def)
  have "file_ok t v ?c" using nf [OF c(2)] c(2) assms(3,4,6) ar cb by (simp add: file_ok_def node_row_def)
  moreover have "file_ok t v i" if "is_file s v i" for i
  proof -
    have "file_ok s v i" using assms(1) that by (simp add: vfs_typed_def)
    then show ?thesis using that old buf assms(3,4,6) by (simp add: file_ok_def)
  qed
  ultimately have "file_ok t v i" if "is_file t v i" for i using that fl [of i] by auto
  moreover have "nf t v i 4 \<in> {vfs_node_kind_file, vfs_node_kind_directory}" if "0 \<le> i" "i < vq t v 3" for i
    using nf [OF id [OF that], of 4] assms(1,5) that by (cases "i = ?c") (auto simp: node_row_def vfs_typed_def)
  moreover have "file_buffer t v i \<inter> file_buffer t v j = {}" if ij: "is_file t v i" "is_file t v j" "i \<noteq> j" for i j
  proof -
    consider "i = ?c \<or> j = ?c" | "is_file s v i" "is_file s v j" using ij fl by blast
    then show ?thesis by cases (use cb in blast, use assms(1) ij buf in \<open>simp add: vfs_typed_def\<close>)
  qed
  moreover have "desc_typed t v (df t v d)" if "desc_id d" for d
  proof -
    have "desc_typed s v (df s v d)" using assms(1) that by (simp add: vfs_typed_def)
    then show ?thesis using df [OF that] fl old unfolding desc_typed_def by auto
  qed
  ultimately show "vfs_typed t v" using assms(2-6) c(1) ar unfolding vfs_typed_def by auto
qed

lemma typed_create:
  assumes "vfs_typed s v" "vfs_create_tmpfs_file s v q l = Some (n, t)"
    and "0 < heap_ptr s" "heap_ptr s \<le> heap_end s" "heap_end s < 2 ^ 62" "in64 q" "0 \<le> l" "l < 2 ^ 62"
  shows "vfs_typed t v \<and> (0 \<le> n \<longrightarrow> is_file t v n)"
proof -
  obtain r m s1 where s1: "vfs_path_parent s q l = Some ((r, m), s1)"
    using assms(2) by (auto simp: vfs_create_tmpfs_file_def bind_eq_Some_conv)
  have ty: "vfs_typed s1 v" by (rule typed_fresh [OF assms(1) parent_fresh [OF s1 assms(3-5,8)]])
  consider "n = - 1" "t = s1" | x y where "vfs_reserve_node s1 v = Some (n, x)"
      "vfs_set_node_name_data x v n q l 0 0 = Some y" "vfs_set_node_meta y v n vfs_node_kind_file node_flag_writable 0 = Some t"
    using assms(2) s1 unfolding vfs_create_tmpfs_file_def by (auto simp: bind_eq_Some_conv split: if_splits)
  then show ?thesis
  proof cases
    case 2
    have lay: "vfs_layout s1 v" "0 \<le> vq s1 v 3" using ty by (simp_all add: vfs_typed_def)
    define c where "c = vq s1 v 3"
    have x: "n = c" "c < 32" "x = put_qword s1 (v + 24) (c + 1)"
      using 2(1) lay by (auto simp: vfs_reserve_node_def vfs_const c_def panic_def bind_eq_Some_conv split: if_splits)
    note p = put_vq [OF lay(1), where k = 3 and x = "c + 1", simplified, folded x(3)]
    have id: "node_id c" using lay(2) x(2) by (simp add: node_id_def c_def)
    have "in64 l" "in64 0" "in64 vfs_node_kind_file" "in64 node_flag_writable" using assms(7,8) by (simp_all add: in64_def vfs_const)
    then have w: "tables x v c (node_row q l 0 0 vfs_node_kind_file node_flag_writable 0) 0 (df x v 0) t"
        "writes_in (vfs_area x v) x t"
      using fill_node [OF p(4) id assms(6), of l 0 0 vfs_node_kind_file node_flag_writable 0] 2(2,3) x(1) by auto
    have "heap_ptr t = heap_ptr s1" using writes_in_fields(3) [OF w(2)] by (simp add: x(3))
    moreover have "vfs_layout t v" "vfs_area t v = vfs_area s1 v" "vq t v 3 = c + 1"
      using w(1) p(1,5) x(2) lay(2) by (auto simp: tables_def i64_id in64_def c_def)
    moreover have "nf t v i k = (if i = c then node_row q l 0 0 vfs_node_kind_file node_flag_writable 0 k else nf s1 v i k)"
      if "node_id i" "0 \<le> k" "k < 7" for i k using w(1) p(2) that by (auto simp: tables_def node_id_def)
    moreover have "df t v d k = df s1 v d k" if "desc_id d" "0 \<le> k" "k < 6" for d k
      using w(1) p(3) that by (auto simp: tables_def desc_id_def)
    ultimately show ?thesis
      using typed_extended [OF ty, of t q l node_flag_writable] x(1,2) unfolding c_def by blast
  qed (use ty in simp)
qed

section \<open>Opening\<close>

text \<open>What an open does once the path is normalised.\<close>

lemma typed_open_found:
  assumes "vfs_typed s v" "0 \<le> n" "n < vq s v 3"
    and "(do {
        kind \<leftarrow> vfs_node_qword s v n node_slot_kind;
        if kind = vfs_node_kind_directory then vfs_alloc_directory_descriptor s v q l 0
        else do {
          s \<leftarrow> (if flags AND 2 \<noteq> 0 then do {
              node_flags \<leftarrow> vfs_node_qword s v n node_slot_flags;
              if node_flags AND node_flag_writable \<noteq> 0 then set_vfs_node_qword s v n node_slot_data_len 0 else Some s }
            else Some s);
          vfs_alloc_descriptor s v desc_kind_initramfs_file flags n 0 } }) = Some (d, t)"
  shows "vfs_typed t v"
proof (cases "nf s v n 4 = vfs_node_kind_directory")
  case True
  have "node_id n" "vfs_layout s v" using assms(1-3) by (auto simp: vfs_typed_def node_id_def)
  then show ?thesis using assms(4) True typed_directory [OF assms(1)] by (simp add: vfs_const)
next
  case False
  have lay: "node_id n" "vfs_layout s v" using assms(1-3) by (auto simp: vfs_typed_def node_id_def)
  have f: "is_file s v n" using assms(1-3) False by (auto simp: vfs_typed_def is_file_def)
  obtain u where u: "u = s \<or> set_vfs_node_qword s v n 3 0 = Some u"
      "vfs_alloc_descriptor u v desc_kind_initramfs_file flags n 0 = Some (d, t)"
    using assms(4) False lay by (auto simp: vfs_const bind_eq_Some_conv split: if_splits)
  have "vfs_typed u v" "is_file u v n" using u(1) assms(1) f typed_truncate by blast+
  then show ?thesis using typed_alloc [OF _ u(2)] by blast
qed

lemma typed_open_missing:
  assumes "vfs_typed s v" "n < 0" "0 < heap_ptr s" "heap_ptr s \<le> heap_end s" "heap_end s < 2 ^ 62" "in64 q" "0 \<le> l" "l < 2 ^ 62"
    and "(do {
        (n, s) \<leftarrow> (if flags AND 1 \<noteq> 0 then vfs_create_tmpfs_file s v q l else Some (n, s));
        if n \<ge> 0 then vfs_alloc_descriptor s v desc_kind_initramfs_file flags n 0
        else do {
          exists \<leftarrow> vfs_directory_exists s v q l;
          if exists then vfs_alloc_directory_descriptor s v q l 0 else Some (0, s) } }) = Some (d, t)"
  shows "vfs_typed t v"
proof -
  obtain m u where u: "(if flags AND 1 \<noteq> 0 then vfs_create_tmpfs_file s v q l else Some (n, s)) = Some (m, u)"
      "(if m \<ge> 0 then vfs_alloc_descriptor u v desc_kind_initramfs_file flags m 0
        else do {
          exists \<leftarrow> vfs_directory_exists u v q l;
          if exists then vfs_alloc_directory_descriptor u v q l 0 else Some (0, u) }) = Some (d, t)"
    using assms(9) by (auto simp only: bind_eq_Some_conv case_prod_beta prod.collapse) (metis prod.collapse)
  have m: "vfs_typed u v" "0 \<le> m \<Longrightarrow> is_file u v m"
    using u(1) assms(1,2) typed_create [OF assms(1) _ assms(3-8), of m u] by (auto split: if_splits)
  show ?thesis
  proof (cases "0 \<le> m")
    case True
    then show ?thesis using u(2) typed_alloc [OF m(1)] m(2) by simp
  next
    case False
    then show ?thesis using u(2) m(1) typed_directory [OF m(1)] by (auto simp: bind_eq_Some_conv split: if_splits)
  qed
qed

lemma typed_open:
  assumes "vfs_typed s v" "path_at s p path" "vfs_open_path s v p (int (length path)) flags = Some (d, t)"
  shows "vfs_typed t v"
proof -
  let ?L = "length path"
  have b: "0 < heap_ptr s" "heap_ptr s + round16 (int ?L + 2) \<le> heap_end s" "heap_end s < 2 ^ 62" "p \<noteq> 0" "path \<noteq> []"
    using assms(2) by (auto simp: path_at_def heap_room_def)
  obtain q l u where u: "vfs_normalize_path s p (int ?L) = Some ((q, int l), u)" "q = heap_ptr s" "l \<le> ?L"
      "writes_in {q..<q + int ?L + 2} (s\<lparr>heap_ptr := q + round16 (int ?L + 2)\<rparr>) u"
    using normalize_exact [OF assms(2)] by blast
  have h: "heap_ptr u = q + round16 (int ?L + 2)" "heap_end u = heap_end s" using writes_in_fields(2,3) [OF u(4)] by simp_all
  have rl: "int ?L + 2 \<le> round16 (int ?L + 2)" by (rule round16_bounds)
  have "\<forall>a < heap_ptr s. mem u a = mem s a" using u(2,4) by (auto simp: writes_in_def)
  then have ty: "vfs_typed u v" by (rule typed_fresh [OF assms(1)]) (use h(1) u(2) rl in simp)
  have lay: "vfs_layout u v" "0 \<le> vq u v 3" using ty by (simp_all add: vfs_typed_def)
  have q: "in64 q" "int l < 2 ^ 62" using b(1-3) u(2,3) rl by (auto simp: in64_def)
  have hu: "0 < heap_ptr u" "heap_ptr u \<le> heap_end u" "heap_end u < 2 ^ 62" using h b(1-3) u(2) rl by auto
  show ?thesis
  proof (cases "flags AND NOT 3 = 0 \<and> 0 < l")
    case False
    then show ?thesis using assms(1,3) ty b(4,5) by (auto simp: vfs_open_path_def u(1) split: if_splits)
  next
    case True
    have "q \<noteq> 0" using b(1) u(2) by simp
    define found where "found n = do {
       kind \<leftarrow> vfs_node_qword u v n node_slot_kind;
       if kind = vfs_node_kind_directory then vfs_alloc_directory_descriptor u v q (int l) 0
       else do {
         s \<leftarrow> (if flags AND 2 \<noteq> 0 then do {
             node_flags \<leftarrow> vfs_node_qword u v n node_slot_flags;
             if node_flags AND node_flag_writable \<noteq> 0 then set_vfs_node_qword u v n node_slot_data_len 0 else Some u }
           else Some u);
         vfs_alloc_descriptor s v desc_kind_initramfs_file flags n 0 } }" for n
    define missing where "missing n = do {
       (n, s) \<leftarrow> (if flags AND 1 \<noteq> 0 then vfs_create_tmpfs_file u v q (int l) else Some (n, u));
       if n \<ge> 0 then vfs_alloc_descriptor s v desc_kind_initramfs_file flags n 0
       else do {
         exists \<leftarrow> vfs_directory_exists s v q (int l);
         if exists then vfs_alloc_directory_descriptor s v q (int l) 0 else Some (0, s) } }" for n
    have "vfs_open_path s v p (int ?L) flags = do {
       root \<leftarrow> (if int l = 1 then do { b \<leftarrow> load_byte_region u q (int l) 0; Some (b = 47) } else Some False);
       if root then vfs_alloc_directory_descriptor u v q (int l) 0
       else do { n \<leftarrow> vfs_lookup_path u v q (int l); if n < 0 then missing n else found n } }"
      using True b(4,5) \<open>q \<noteq> 0\<close> unfolding found_def missing_def by (simp add: vfs_open_path_def u(1))
    with assms(3) consider "vfs_alloc_directory_descriptor u v q (int l) 0 = Some (d, t)"
      | n where "vfs_lookup_path u v q (int l) = Some n" "n < 0" "missing n = Some (d, t)"
      | n where "vfs_lookup_path u v q (int l) = Some n" "0 \<le> n" "found n = Some (d, t)"
      by (auto simp: bind_eq_Some_conv split: if_splits)
    then show ?thesis
    proof cases
      case 1
      then show ?thesis by (rule typed_directory [OF ty])
    next
      case (2 n)
      then show ?thesis using typed_open_missing [OF ty _ hu q(1) _ q(2)] unfolding missing_def by simp
    next
      case (3 n)
      then have "n < vq u v 3" using lookup_range [OF _ lay] by force
      then show ?thesis using 3(2,3) typed_open_found [OF ty] unfolding found_def by blast
    qed
  qed
qed

section \<open>Listing\<close>

lemma typed_readdir:
  assumes "vfs_typed s v" "desc_id d" "{dst..<dst + len} \<inter> vfs_area s v = {}" "vfs_readdir_descriptor s v d dst len = Some (r, t)"
  shows "vfs_typed t v"
proof (cases "t = s")
  case False
  have lay: "vfs_layout s v" using assms(1) by (simp add: vfs_typed_def)
  obtain c m i where dir: "df s v d 0 = desc_kind_directory" "m \<le> len"
      "set_vfs_desc_qword (copy_bytes s dst c m) v d 3 i = Some t"
    using assms(2,4) False lay unfolding vfs_readdir_descriptor_def
    by (auto simp: vfs_const bind_eq_Some_conv Let_def simp del: vfs_write split: if_splits; meson less_imp_le)
  define u where "u = copy_bytes s dst c m"
  have w: "writes_in {dst..<dst + m} s u"
    using copy_bytes_writes [of dst "nat m" s c] by (cases "0 \<le> m") (simp_all add: u_def)
  have "vfs_area s v \<inter> {dst..<dst + m} = {}" using assms(3) dir(2) by fastforce
  note t1 = tables_frame [OF tables_refl [OF lay, of 0 d] writes_in_outside [OF w this]]
  obtain x where x: "set_vfs_desc_qword u v d 3 i = Some x" "tables s v 0 (nf s v 0) d ((df s v d)(3 := i64 i)) x"
      "writes_in (vfs_area s v) u x"
    using tables_desc_put [OF t1 assms(2), of 3 i] by auto
  have "desc_typed s v ((df s v d)(3 := i64 i))" using dir(1) by (simp add: desc_typed_def vfs_const)
  moreover have "heap_ptr s \<le> heap_ptr x" using writes_in_fields(3) [OF w] writes_in_fields(3) [OF x(3)] by simp
  ultimately have "vfs_typed x v" using typed_desc [OF assms(1) x(2)] by simp
  then show ?thesis using x(1) dir(3) by (simp add: u_def)
qed (use assms(1) in simp)

section \<open>Runs\<close>

text \<open>The operations of the file system, interleaved with anything that leaves the tables alone and does not give heap
  memory back.  Paths lie outside the free part of the heap, target buffers outside the tables.\<close>

inductive vfs_step :: "int \<Rightarrow> machine \<Rightarrow> machine \<Rightarrow> bool" for v where
  open_path: "path_at s p path \<Longrightarrow> vfs_open_path s v p (int (length path)) flags = Some (d, t) \<Longrightarrow> vfs_step v s t"
| open_console: "kind \<in> {desc_kind_console_in, desc_kind_console_out} \<Longrightarrow>
    vfs_alloc_descriptor s v kind flags n 0 = Some (d, t) \<Longrightarrow> vfs_step v s t"
| closing: "desc_id d \<Longrightarrow> vfs_close_descriptor s v d = Some (r, t) \<Longrightarrow> vfs_step v s t"
| reading: "desc_id d \<Longrightarrow> df s v d 0 = desc_kind_initramfs_file \<Longrightarrow> dst \<noteq> 0 \<Longrightarrow> {dst..<dst + int len} \<inter> vfs_area s v = {} \<Longrightarrow>
    vfs_read_descriptor s v d dst (int len) = Some (r, t) \<Longrightarrow> vfs_step v s t"
| listing: "desc_id d \<Longrightarrow> {dst..<dst + len} \<inter> vfs_area s v = {} \<Longrightarrow> vfs_readdir_descriptor s v d dst len = Some (r, t) \<Longrightarrow> vfs_step v s t"
| writing: "may_write s v d src len \<Longrightarrow> vfs_write_descriptor s v d src (int len) = Some (r, t) \<Longrightarrow> vfs_step v s t"
| outside: "\<forall>a \<in> vfs_area s v. mem t a = mem s a \<Longrightarrow> heap_ptr s \<le> heap_ptr t \<Longrightarrow> vfs_step v s t"

lemma typed_step: "vfs_step v s t \<Longrightarrow> vfs_typed s v \<Longrightarrow> vfs_typed t v"
proof (induction rule: vfs_step.induct)
  case (open_path s p path flags d t)
  then show ?case using typed_open by blast
next
  case (open_console kind s flags n d t)
  then show ?case using typed_alloc by blast
next
  case (closing d s r t)
  then show ?case using typed_close by blast
next
  case (reading d s dst len r t)
  then show ?case using read_typed [of s v d dst len] by auto
next
  case (listing d dst len s r t)
  then show ?case using typed_readdir by blast
next
  case (writing s d src len r t)
  then show ?case using write_typed [of s v d src len] by auto
next
  case (outside s t)
  then show ?case using typed_frame by blast
qed

lemma typed_run: "(vfs_step v)\<^sup>*\<^sup>* s t \<Longrightarrow> vfs_typed s v \<Longrightarrow> vfs_typed t v"
  by (induction rule: rtranclp_induct) (auto intro: typed_step)

text \<open>C28: Opening paths (with creation and truncation), closing, reading, listing and writing through
  descriptors, interleaved with anything outside the tables, keep the tables typed: every open file descriptor refers
  to a file at an offset inside its buffer, every file's contents lie in its buffer, and the buffers are disjoint.  In
  every state reached, a write to a writable file for which the heap has room returns the full length, puts the bytes
  at the descriptor's offset, keeps the other bytes of the file and leaves the contents of every other file as they
  were.  Where another open has truncated the file below the offset, the bytes between its end and the offset
  (\<open>gap\<close>) are not determined; otherwise there are none.\<close>

theorem vfs_stays_typed:
  assumes "vfs_typed s v" "(vfs_step v)\<^sup>*\<^sup>* s t"
  shows "vfs_typed t v \<and> (\<forall>d src len. may_write t v d src len \<longrightarrow>
    (\<exists>u gap. vfs_write_descriptor t v d src (int len) = Some (int len, u)
       \<and> length gap = nat (df t v d 3) - length (file_data t v (df t v d 2))
       \<and> file_data u v (df t v d 2) = splice (nat (df t v d 3)) (bytes_at t src len) (file_data t v (df t v d 2) @ gap)
       \<and> (\<forall>m. is_file t v m \<and> m \<noteq> df t v d 2 \<longrightarrow> file_data u v m = file_data t v m)))"
proof (intro conjI allI impI)
  show ty: "vfs_typed t v" by (rule typed_run [OF assms(2,1)])
  fix d src len assume "may_write t v d src len"
  from write_typed [OF ty this] show "\<exists>u gap. vfs_write_descriptor t v d src (int len) = Some (int len, u)
       \<and> length gap = nat (df t v d 3) - length (file_data t v (df t v d 2))
       \<and> file_data u v (df t v d 2) = splice (nat (df t v d 3)) (bytes_at t src len) (file_data t v (df t v d 2) @ gap)
       \<and> (\<forall>m. is_file t v m \<and> m \<noteq> df t v d 2 \<longrightarrow> file_data u v m = file_data t v m)" by blast
qed

definition sample_typed :: machine where
  "sample_typed = poke [(0x111018, 2), (0x112020, 2), (0x112058, 1)] sample_files"

lemma sample_typed_fields:
  "vq sample_typed 0x111000 2 = 0x112000" "vq sample_typed 0x111000 3 = 2" "vq sample_typed 0x111000 4 = 0x113000" "vq sample_typed 0x111000 5 = 32"
  "nf sample_typed 0x111000 0 4 = 2" "nf sample_typed 0x111000 1 4 = 1"
  "nf sample_typed 0x111000 1 2 = 0x114000" "nf sample_typed 0x111000 1 3 = 3" "nf sample_typed 0x111000 1 5 = 1" "nf sample_typed 0x111000 1 6 = 4"
  "heap_ptr sample_typed = 0x115000" "heap_end sample_typed = 0x180000"
proof -
  show q: "vq sample_typed 0x111000 2 = 0x112000" "vq sample_typed 0x111000 3 = 2" "vq sample_typed 0x111000 4 = 0x113000" "vq sample_typed 0x111000 5 = 32"
    by (simp_all add: sample_typed_def sample_files_def vq_def load_put_qword load_put_qword_other i64_id in64_def)
  show "nf sample_typed 0x111000 0 4 = 2" "nf sample_typed 0x111000 1 4 = 1"
    "nf sample_typed 0x111000 1 2 = 0x114000" "nf sample_typed 0x111000 1 3 = 3" "nf sample_typed 0x111000 1 5 = 1" "nf sample_typed 0x111000 1 6 = 4"
    unfolding nf_def q by (simp_all add: sample_typed_def sample_files_def load_put_qword load_put_qword_other i64_id in64_def)
  show "heap_ptr sample_typed = 0x115000" "heap_end sample_typed = 0x180000" by (simp_all add: sample_typed_def sample_files_fields)
qed

lemma sample_typed_desc: "desc_id d \<Longrightarrow> df sample_typed 0x111000 d 0 = (if d = 1 \<or> d = 2 then 3 else 0)"
  "df sample_typed 0x111000 1 2 = 1" "df sample_typed 0x111000 2 2 = 1" "df sample_typed 0x111000 1 3 = 2" "df sample_typed 0x111000 2 3 = 2"
proof -
  have load: "load_qword (blank_machine\<lparr>heap_ptr := x\<rparr>) a = 0" for x a using load_qword_blank [of a] by (simp add: load_qword_def)
  show "df sample_typed 0x111000 d 0 = (if d = 1 \<or> d = 2 then 3 else 0)" if d: "desc_id d" for d
  proof -
    consider "d = 1" | "d = 2" | "3 \<le> d" using d unfolding desc_id_def by linarith
    then show ?thesis unfolding df_def sample_typed_fields
      by cases (use d in \<open>simp_all add: sample_typed_def sample_files_def load_put_qword load_put_qword_other i64_id in64_def load desc_id_def\<close>)
  qed
  show "df sample_typed 0x111000 1 2 = 1" "df sample_typed 0x111000 2 2 = 1" "df sample_typed 0x111000 1 3 = 2" "df sample_typed 0x111000 2 3 = 2"
    unfolding df_def sample_typed_fields
    by (simp_all add: sample_typed_def sample_files_def load_put_qword load_put_qword_other i64_id in64_def)
qed

lemma sample_is_typed: "vfs_typed sample_typed 0x111000"
proof -
  note f = sample_typed_fields
  have two: "n = 0 \<or> n = 1" if "0 \<le> n" "n < 2" for n :: int using that by auto
  have fl: "is_file sample_typed 0x111000 n \<longleftrightarrow> n = 1" for n using two [of n] by (auto simp: is_file_def f vfs_const)
  have lay: "vfs_layout sample_typed 0x111000" by (simp add: vfs_layout_def f)
  have "file_ok sample_typed 0x111000 1"
    using lay by (auto simp: file_ok_def node_id_def file_buffer_def vfs_area_def f)
  moreover have "desc_typed sample_typed 0x111000 (df sample_typed 0x111000 d)" if "desc_id d" for d
    using sample_typed_desc(1) [OF that] sample_typed_desc(2-5) unfolding desc_typed_def fl by (auto simp: f vfs_const)
  moreover have "nf sample_typed 0x111000 n 4 \<in> {vfs_node_kind_file, vfs_node_kind_directory}" if "0 \<le> n" "n < 2" for n
    using two [OF that] by (auto simp: f vfs_const)
  moreover have "vfs_area sample_typed 0x111000 \<subseteq> {..<heap_ptr sample_typed}" by (auto simp: vfs_area_def f)
  ultimately show ?thesis using lay unfolding vfs_typed_def fl by (auto simp: f(2))
qed

theorem vfs_stays_typed_witness:
  "\<exists>t u. vfs_close_descriptor sample_typed 0x111000 2 = Some (0, t) \<and> vfs_typed t 0x111000
    \<and> vfs_write_descriptor t 0x111000 1 0x200000 4 = Some (4, u)"
proof -
  note f = sample_typed_fields
  have lay: "vfs_layout sample_typed 0x111000" using sample_is_typed by (simp add: vfs_typed_def)
  have id: "desc_id 2" "desc_id 1" by (simp_all add: desc_id_def)
  obtain t where t: "vfs_close_descriptor sample_typed 0x111000 2 = Some (0, t)" "desc_update 0x111000 2 (\<lambda>_. 0) sample_typed t"
    using close_descriptor(2) [OF lay id(1)] sample_typed_desc(1) [OF id(1)] by auto
  have run: "(vfs_step 0x111000)\<^sup>*\<^sup>* sample_typed t" using vfs_step.closing [OF id(1) t(1)] by blast
  have d: "df t 0x111000 1 k = df sample_typed 0x111000 1 k" if "0 \<le> k" "k < 6" for k using t(2) id that by (simp add: desc_update_def)
  have n: "nf t 0x111000 1 k = nf sample_typed 0x111000 1 k" if "0 \<le> k" "k < 7" for k
    using t(2) that by (simp add: desc_update_def node_id_def)
  have "heap_ptr t = 0x115000" "heap_end t = 0x180000" "vfs_area t 0x111000 = vfs_area sample_typed 0x111000"
    using t(2) writes_in_fields(2,3) [of _ sample_typed t] by (auto simp: desc_update_def f)
  moreover have "new_capacity 4 6 = 64" "round16 64 = 64" by (simp_all add: new_capacity_def round16_def)
  ultimately have "may_write t 0x111000 1 0x200000 4"
    using sample_typed_desc(1) [OF id(2)] sample_typed_desc(2,4)
    by (auto simp: may_write_def d n id f vfs_const heap_room_def apart_from_def vfs_area_def file_buffer_def)
  then show ?thesis using vfs_stays_typed [OF sample_is_typed run] t(1) by force
qed

end
