(* ===== verification/Initramfs.thy ===== *)
theory Initramfs
  imports VfsPath "HOL-Library.List_Lexorder" "HOL-Library.Multiset"
begin

text \<open>
  The initial file system image.  \<^verbatim>\<open>scripts/build-initramfs.py\<close> packs a directory into one file at build time
  and \<^verbatim>\<open>init_vfs\<close> unpacks it at start-up.  A header of four quadwords is followed by one entry of four
  quadwords per file and by the names and contents at multiples of 64.

  Walking the directory and reading its files is the operating system's: \<open>collect_files\<close> is given what the
  walk delivers.  \<^verbatim>\<open>struct.pack\<close> raises on a number that does not fit, which is \<^term>\<open>None\<close>.
\<close>

type_synonym byte_string = "8 word list"
type_synonym file_entry = "byte_string \<times> byte_string"

section \<open>The builder\<close>

definition MAGIC :: int where "MAGIC = 0x31534652494F4350"
definition VERSION :: int where "VERSION = 1"

definition image_align_up :: "int \<Rightarrow> int \<Rightarrow> int" where
  "image_align_up v align = (v + align - 1) AND NOT (align - 1)"

definition collect_files :: "file_entry list \<Rightarrow> file_entry list" where
  "collect_files walked = sort_key fst (map (\<lambda>(rel, contents). (47 # rel, contents)) walked)"

primrec le_bytes :: "nat \<Rightarrow> int \<Rightarrow> byte_string" where
  "le_bytes 0 v = []"
| "le_bytes (Suc n) v = word_of_int v # le_bytes n (v div 256)"

definition pack_QQQQ :: "int \<Rightarrow> int \<Rightarrow> int \<Rightarrow> int \<Rightarrow> byte_string option" where
  "pack_QQQQ a b c d =
     (if \<forall>v \<in> set [a, b, c, d]. 0 \<le> v \<and> v < 2 ^ 64 then Some (le_bytes 8 a @ le_bytes 8 b @ le_bytes 8 c @ le_bytes 8 d)
      else None)"

text \<open>The step made for a name and again for its contents: pad to a multiple of 64 and append.\<close>

definition place :: "byte_string \<Rightarrow> int \<Rightarrow> byte_string \<Rightarrow> byte_string \<times> int \<times> int" where
  "place blob data_cursor payload =
     (let aligned_cursor = image_align_up data_cursor 64;
          blob = (if aligned_cursor > int (length blob) then blob @ replicate (nat (aligned_cursor - int (length blob))) 0 else blob)
      in (blob @ payload, aligned_cursor, aligned_cursor + int (length payload)))"

fun place_entries :: "file_entry list \<Rightarrow> byte_string \<Rightarrow> int \<Rightarrow> byte_string list \<Rightarrow> (byte_string \<times> byte_string list) option" where
  "place_entries [] blob data_cursor entry_bytes = Some (blob, entry_bytes)"
| "place_entries ((name, contents) # entries) blob data_cursor entry_bytes = do {
     let (blob, name_off, data_cursor) = place blob data_cursor name;
     let (blob, data_off, data_cursor) = place blob data_cursor contents;
     packed \<leftarrow> pack_QQQQ name_off (int (length name)) data_off (int (length contents));
     place_entries entries blob data_cursor (entry_bytes @ [packed]) }"

fun patch_entries :: "nat \<Rightarrow> byte_string list \<Rightarrow> byte_string \<Rightarrow> byte_string" where
  "patch_entries i [] blob = blob"
| "patch_entries i (packed # rest) blob =
     (let start = 32 + i * 32 in patch_entries (i + 1) rest (take start blob @ packed @ drop (start + 32) blob))"

definition build_image :: "file_entry list \<Rightarrow> byte_string option" where
  "build_image entries = do {
     let table_size = length entries * 32;
     header \<leftarrow> pack_QQQQ MAGIC VERSION (int (length entries)) 0;
     (blob, entry_bytes) \<leftarrow> place_entries entries (header @ replicate table_size 0) (32 + int table_size) [];
     Some (patch_entries 0 entry_bytes blob) }"

text \<open>
  The script: the exit status with the file written, if any.  \<^verbatim>\<open>walk\<close> gives the files under a directory, with
  paths relative to it.  \<^verbatim>\<open>os.makedirs\<close> raises on the empty name, the directory part of an output name
  without a slash.
\<close>

definition main :: "(string \<Rightarrow> file_entry list) \<Rightarrow> string list \<Rightarrow> (int \<times> (string \<times> byte_string) option) option" where
  "main walk argv =
     (if length argv \<noteq> 3 then Some (1, None)
      else do {
        image \<leftarrow> build_image (collect_files (walk (argv ! 1)));
        if CHR ''/'' \<notin> set (argv ! 2) then None else Some (0, Some (argv ! 2, image)) })"

lemma collect_files_sorted: "sorted (map fst (collect_files ws))"
  and mset_collect_files: "mset (collect_files ws) = mset (map (\<lambda>(rel, contents). (47 # rel, contents)) ws)"
  by (simp_all add: collect_files_def)

section \<open>Reading an image\<close>

fun le_value :: "byte_string \<Rightarrow> int" where
  "le_value [] = 0"
| "le_value (b # bs) = uint b + 256 * le_value bs"

definition part :: "nat \<Rightarrow> nat \<Rightarrow> 'a list \<Rightarrow> 'a list" where
  "part off n xs = take n (drop off xs)"

definition image_q :: "byte_string \<Rightarrow> nat \<Rightarrow> int" where
  "image_q img off = le_value (part off 8 img)"

lemma length_le_bytes [simp]: "length (le_bytes n v) = n"
  by (induction n arbitrary: v) simp_all

lemma le_value_bytes: "le_value (le_bytes n v) = v mod 256 ^ n"
proof (induction n arbitrary: v)
  case (Suc n)
  have "uint (word_of_int v :: 8 word) = v mod 256" by (simp add: uint_word_of_int)
  moreover have "v mod (256 * 256 ^ n) = 256 * (v div 256 mod 256 ^ n) + v mod 256"
    by (rule zmod_zmult2_eq) simp
  ultimately show ?case by (simp add: Suc.IH)
qed simp

lemma le_value_8: "0 \<le> v \<Longrightarrow> v < 2 ^ 64 \<Longrightarrow> le_value (le_bytes 8 v) = v"
  by (simp add: le_value_bytes)

lemma part_append_left: "off + n \<le> length xs \<Longrightarrow> part off n (xs @ ys) = part off n xs"
  by (simp add: part_def)

lemma part_mid: "part (length xs) (length ys) (xs @ ys @ zs) = ys"
  by (simp add: part_def)

lemma part_part: "a + m \<le> n \<Longrightarrow> part a m (part off n xs) = part (off + a) m xs"
  by (simp add: part_def drop_take min_absorb1 add.commute)

lemma part_splice:
  assumes "length p = 32" "start + 32 \<le> length xs"
  defines "ys \<equiv> take start xs @ p @ drop (start + 32) xs"
  shows "length ys = length xs" "part start 32 ys = p"
    and "off + n \<le> start \<or> start + 32 \<le> off \<Longrightarrow> part off n ys = part off n xs"
  using assms(1,2) by (auto simp: ys_def part_def drop_take min_absorb2 min_absorb1)

lemma patch_entries_spec:
  assumes "\<forall>p \<in> set ps. length p = 32" "32 + (i + length ps) * 32 \<le> length blob"
  shows "length (patch_entries i ps blob) = length blob
    \<and> (\<forall>off n. off + n \<le> 32 + i * 32 \<or> 32 + (i + length ps) * 32 \<le> off \<longrightarrow>
        part off n (patch_entries i ps blob) = part off n blob)
    \<and> (\<forall>j < length ps. part (32 + (i + j) * 32) 32 (patch_entries i ps blob) = ps ! j)"
  using assms
proof (induction ps arbitrary: i blob)
  case (Cons p ps)
  define b where "b = take (32 + i * 32) blob @ p @ drop (32 + i * 32 + 32) blob"
  have r: "length p = 32" "32 + i * 32 + 32 \<le> length blob" using Cons.prems by auto
  note sp = part_splice [OF r, folded b_def]
  have run: "patch_entries i (p # ps) blob = patch_entries (i + 1) ps b" by (simp add: b_def)
  have "\<forall>p \<in> set ps. length p = 32" "32 + (i + 1 + length ps) * 32 \<le> length b" using Cons.prems sp(1) by auto
  note ih = Cons.IH [OF this]
  have same: "part off n (patch_entries (i + 1) ps b) = part off n b"
    if "off + n \<le> 32 + (i + 1) * 32 \<or> 32 + (i + 1 + length ps) * 32 \<le> off" for off n
    using ih that by blast
  have "part off n (patch_entries (i + 1) ps b) = part off n blob"
    if "off + n \<le> 32 + i * 32 \<or> 32 + (i + length (p # ps)) * 32 \<le> off" for off n
  proof -
    have "part off n b = part off n blob" using that by (intro sp(3)) auto
    then show ?thesis using same [of off n] that by auto
  qed
  moreover have "part (32 + (i + j) * 32) 32 (patch_entries (i + 1) ps b) = (p # ps) ! j" if "j < length (p # ps)" for j
  proof (cases j)
    case 0
    then show ?thesis using same [of "32 + i * 32" 32] sp(2) by simp
  next
    case (Suc k)
    moreover have "part (32 + (i + 1 + k) * 32) 32 (patch_entries (i + 1) ps b) = ps ! k" using ih that Suc by simp
    ultimately show ?thesis by simp
  qed
  ultimately show ?case unfolding run using ih sp(1) by simp
qed simp

section \<open>What the builder writes\<close>

definition padded :: "file_entry list \<Rightarrow> nat" where
  "padded es = sum_list (map (\<lambda>(name, contents). length name + length contents + 128) es)"

lemma place_eq:
  "\<exists>pad. place blob (int (length blob)) payload =
       (blob @ pad @ payload, int (length blob + length pad), int (length blob + length pad + length payload))
     \<and> (length blob + length pad) mod 64 = 0 \<and> length pad < 64"
proof -
  define n where "n = int (length blob)"
  have al: "image_align_up n 64 = n + 63 - (n + 63) mod 64"
    using and_not_mask [of "n + 63" 6] by (simp add: image_align_up_def mask_eq_exp_minus_1 algebra_simps)
  define k where "k = nat (image_align_up n 64 - n)"
  have k: "image_align_up n 64 = n + int k" "k < 64" unfolding k_def al by auto
  have "n + int k = n + 63 - (n + 63) mod 64" using al k(1) by simp
  then have "64 dvd n + int k" by (simp only: dvd_minus_mod)
  then have "(length blob + k) mod 64 = 0" by (simp add: n_def flip: of_nat_add int_dvd_int_iff [of 64, simplified])
  then show ?thesis
    using k by (intro exI [of _ "replicate k 0"]) (auto simp: place_def Let_def n_def [symmetric])
qed

definition entry_at :: "byte_string \<Rightarrow> nat \<Rightarrow> file_entry \<Rightarrow> byte_string \<Rightarrow> bool" where
  "entry_at blob low e packed \<longleftrightarrow> (\<exists>no dt. packed = le_bytes 8 (int no) @ le_bytes 8 (int (length (fst e)))
       @ le_bytes 8 (int dt) @ le_bytes 8 (int (length (snd e)))
     \<and> low \<le> no \<and> no mod 64 = 0 \<and> no + length (fst e) \<le> dt \<and> dt mod 64 = 0 \<and> dt + length (snd e) \<le> length blob
     \<and> part no (length (fst e)) blob = fst e \<and> part dt (length (snd e)) blob = snd e)"

lemma entry_at_length: "entry_at blob low e p \<Longrightarrow> length p = 32"
  by (auto simp: entry_at_def)

lemma entry_at_mono:
  assumes "entry_at blob low e p" "low' \<le> low"
  shows "entry_at (blob @ rest) low' e p"
proof -
  obtain no d where r: "p = le_bytes 8 (int no) @ le_bytes 8 (int (length (fst e)))
       @ le_bytes 8 (int d) @ le_bytes 8 (int (length (snd e)))" "low \<le> no" "no mod 64 = 0" "no + length (fst e) \<le> d"
     "d mod 64 = 0" "d + length (snd e) \<le> length blob" "part no (length (fst e)) blob = fst e" "part d (length (snd e)) blob = snd e"
    using assms(1) unfolding entry_at_def by (elim exE conjE) (rule that)
  have "part no (length (fst e)) (blob @ rest) = fst e" "part d (length (snd e)) (blob @ rest) = snd e"
    "low' \<le> no" "d + length (snd e) \<le> length (blob @ rest)"
    using r(2,4,6-8) assms(2) by (simp_all add: part_append_left)
  with r(1,3-5) show ?thesis unfolding entry_at_def by (intro exI conjI)
qed

lemma place_entries_ok:
  assumes "int (length blob + padded es) < 2 ^ 64"
  shows "\<exists>rest qs. place_entries es blob (int (length blob)) ps = Some (blob @ rest, ps @ qs)
    \<and> length rest \<le> padded es \<and> list_all2 (entry_at (blob @ rest) (length blob)) es qs"
  using assms
proof (induction es arbitrary: blob ps)
  case Nil
  then show ?case by simp
next
  case (Cons e es)
  obtain name contents where e: "e = (name, contents)" by force
  obtain p1 where p1: "place blob (int (length blob)) name =
      (blob @ p1 @ name, int (length blob + length p1), int (length blob + length p1 + length name))"
    "(length blob + length p1) mod 64 = 0" "length p1 < 64" using place_eq [of blob name] by (elim exE conjE) (rule that)
  define b1 where "b1 = blob @ p1 @ name"
  obtain p2 where p2: "place b1 (int (length b1)) contents =
      (b1 @ p2 @ contents, int (length b1 + length p2), int (length b1 + length p2 + length contents))"
    "(length b1 + length p2) mod 64 = 0" "length p2 < 64" using place_eq [of b1 contents] by (elim exE conjE) (rule that)
  define b2 where "b2 = b1 @ p2 @ contents"
  have len: "length b1 = length blob + length p1 + length name" "length b2 = length b1 + length p2 + length contents"
    by (simp_all add: b1_def b2_def)
  define q where "q = le_bytes 8 (int (length blob + length p1)) @ le_bytes 8 (int (length name))
      @ le_bytes 8 (int (length b1 + length p2)) @ le_bytes 8 (int (length contents))"
  have pad: "padded (e # es) = length name + length contents + 128 + padded es" by (simp add: padded_def e)
  have bound: "int (length b2 + padded es) < 2 ^ 64" using Cons.prems pad len p1(3) p2(3) by linarith
  then have pk: "pack_QQQQ (int (length blob + length p1)) (int (length name)) (int (length b1 + length p2)) (int (length contents)) = Some q"
    using len by (auto simp: pack_QQQQ_def q_def)
  obtain rest qs where r: "place_entries es b2 (int (length b2)) (ps @ [q]) = Some (b2 @ rest, (ps @ [q]) @ qs)"
    "length rest \<le> padded es" "list_all2 (entry_at (b2 @ rest) (length b2)) es qs"
    using Cons.IH [OF bound] by blast
  have run: "place_entries (e # es) blob (int (length blob)) ps = Some (b2 @ rest, ps @ q # qs)"
    using p1(1) p2(1) pk r(1) len by (simp add: e b1_def [symmetric] b2_def [symmetric])
  have "part (length blob + length p1) (length name) b2 = name"
    using part_mid [of "blob @ p1" name "p2 @ contents"] by (simp add: b2_def b1_def)
  moreover have "part (length b1 + length p2) (length contents) b2 = contents"
    using part_mid [of "b1 @ p2" contents "[]"] by (simp add: b2_def)
  ultimately have "entry_at b2 (length blob) e q"
    unfolding entry_at_def e q_def using p1(2) p2(2) len
    by (intro exI [of _ "length blob + length p1"] exI [of _ "length b1 + length p2"]) simp
  then have "entry_at (b2 @ rest) (length blob) e q" by (rule entry_at_mono) simp
  moreover have "list_all2 (entry_at (b2 @ rest) (length blob)) es qs"
    using r(3) by (rule list_all2_mono) (use entry_at_mono [where rest = "[]"] len in force)
  ultimately show ?case
    using run r(2) pad len p1(3) p2(3) by (intro exI [of _ "p1 @ name @ p2 @ contents @ rest"] exI [of _ "q # qs"]) (auto simp: b2_def b1_def)
qed


lemma image_q_part: "off + 8 \<le> base + n \<Longrightarrow> base \<le> off \<Longrightarrow> image_q img off = image_q (part base n img) (off - base)"
  by (simp add: image_q_def part_part)

lemma entry_fields:
  assumes "part base 32 img = le_bytes 8 a @ le_bytes 8 b @ le_bytes 8 c @ le_bytes 8 d"
    and "\<forall>v \<in> {a, b, c, d}. 0 \<le> v \<and> v < 2 ^ 64"
  shows "image_q img base = a" "image_q img (base + 8) = b" "image_q img (base + 16) = c" "image_q img (base + 24) = d"
  using assms(2) image_q_part [of base base 32 img] image_q_part [of "base + 8" base 32 img]
    image_q_part [of "base + 16" base 32 img] image_q_part [of "base + 24" base 32 img]
  by (simp_all add: assms(1)) (simp_all add: image_q_def part_def le_value_8)

text \<open>What an image says about its \<open>i\<close>-th file.\<close>

definition lists_file :: "byte_string \<Rightarrow> nat \<Rightarrow> nat \<Rightarrow> file_entry \<Rightarrow> bool" where
  "lists_file img files i e \<longleftrightarrow>
     (let no = nat (image_q img (32 + i * 32)); dt = nat (image_q img (32 + i * 32 + 16)) in
      0 \<le> image_q img (32 + i * 32) \<and> 0 \<le> image_q img (32 + i * 32 + 16)
      \<and> image_q img (32 + i * 32 + 8) = int (length (fst e)) \<and> image_q img (32 + i * 32 + 24) = int (length (snd e))
      \<and> 32 + files * 32 \<le> no \<and> no mod 64 = 0 \<and> no + length (fst e) \<le> dt \<and> dt mod 64 = 0 \<and> dt + length (snd e) \<le> length img
      \<and> part no (length (fst e)) img = fst e \<and> part dt (length (snd e)) img = snd e)"

lemma build_image_spec:
  assumes "32 + int (length es * 32 + padded es) < 2 ^ 64"
  shows "\<exists>img. build_image es = Some img \<and> image_q img 0 = MAGIC \<and> image_q img 8 = VERSION
    \<and> image_q img 16 = int (length es) \<and> int (length img) \<le> 32 + int (length es * 32 + padded es)
    \<and> 32 + length es * 32 \<le> length img \<and> (\<forall>i < length es. lists_file img (length es) i (es ! i))"
proof -
  let ?n = "length es"
  define hd where "hd = le_bytes 8 MAGIC @ le_bytes 8 VERSION @ le_bytes 8 (int ?n) @ le_bytes 8 0"
  have pk: "pack_QQQQ MAGIC VERSION (int ?n) 0 = Some hd" "\<forall>v \<in> {MAGIC, VERSION, int ?n, 0}. 0 \<le> v \<and> v < 2 ^ 64"
    using assms by (simp_all add: pack_QQQQ_def hd_def MAGIC_def VERSION_def)
  define b where "b = hd @ replicate (?n * 32) (0 :: 8 word)"
  have lb: "length b = 32 + ?n * 32" by (simp add: b_def hd_def)
  have "int (length b + padded es) < 2 ^ 64" using assms lb by simp
  from place_entries_ok [OF this, of "[]"] obtain rest qs where r:
    "place_entries es b (int (length b)) [] = Some (b @ rest, qs)" "length rest \<le> padded es"
    "list_all2 (entry_at (b @ rest) (length b)) es qs" by auto
  define img where "img = patch_entries 0 qs (b @ rest)"
  have nq: "length qs = ?n" using r(3) by (simp add: list_all2_lengthD)
  have q32: "\<forall>p \<in> set qs. length p = 32"
    using r(3) by (metis entry_at_length in_set_conv_nth list_all2_conv_all_nth)
  note ps = patch_entries_spec [OF q32, of 0 "b @ rest", folded img_def]
  have len: "length img = length (b @ rest)" and out: "\<And>off n. off + n \<le> 32 \<or> 32 + ?n * 32 \<le> off \<Longrightarrow> part off n img = part off n (b @ rest)"
    and inn: "\<And>j. j < ?n \<Longrightarrow> part (32 + j * 32) 32 img = qs ! j"
    using ps lb nq by auto
  have "part 0 32 img = hd" using out [of 0 32] lb by (simp add: part_append_left) (simp add: b_def part_def hd_def)
  note h = entry_fields [OF this [unfolded hd_def] pk(2)]
  have "lists_file img ?n i (es ! i)" if i: "i < ?n" for i
  proof -
    have "entry_at (b @ rest) (length b) (es ! i) (qs ! i)" using r(3) i by (simp add: list_all2_conv_all_nth)
    then obtain no d where q: "qs ! i = le_bytes 8 (int no) @ le_bytes 8 (int (length (fst (es ! i))))
       @ le_bytes 8 (int d) @ le_bytes 8 (int (length (snd (es ! i))))" "length b \<le> no" "no mod 64 = 0"
       "no + length (fst (es ! i)) \<le> d" "d mod 64 = 0" "d + length (snd (es ! i)) \<le> length (b @ rest)"
       "part no (length (fst (es ! i))) (b @ rest) = fst (es ! i)" "part d (length (snd (es ! i))) (b @ rest) = snd (es ! i)"
      unfolding entry_at_def by (elim exE conjE) (rule that)
    have "int (length (b @ rest)) < 2 ^ 64" using assms lb r(2) by simp
    then have "\<forall>v \<in> {int no, int (length (fst (es ! i))), int d, int (length (snd (es ! i)))}. 0 \<le> v \<and> v < 2 ^ 64"
      using q(2,4,6) by auto
    note f = entry_fields [OF inn [OF i, unfolded q(1)] this]
    show ?thesis unfolding lists_file_def Let_def f
      using q(2-8) lb len out [of no] out [of d] by simp
  qed
  moreover have "build_image es = Some img" using pk(1) r(1) lb by (simp add: build_image_def b_def img_def)
  ultimately show ?thesis using h r(2) lb len by (intro exI [of _ img]) simp
qed

text \<open>C23: For every list of files whose image stays below two to the 64 the builder returns an
  image with the magic number, the version and the number of files in its header, and whose entries lead
  back to the names and the contents of the files, in order, at multiples of 64 past the table, inside the
  image and without overlap of a name and its contents.\<close>

theorem build_image_roundtrip:
  assumes "32 + int (length es * 32 + padded es) < 2 ^ 64"
  shows "\<exists>img. build_image es = Some img \<and> image_q img 0 = MAGIC \<and> image_q img 8 = VERSION
    \<and> image_q img 16 = int (length es) \<and> (\<forall>i < length es. lists_file img (length es) i (es ! i))"
  using build_image_spec [OF assms] by blast

theorem build_image_roundtrip_witness:
  "\<exists>img. build_image [([47, 97], [1, 2, 3])] = Some img \<and> image_q img 16 = 1 \<and> lists_file img 1 0 ([47, 97], [1, 2, 3])"
  using build_image_roundtrip [of "[([47, 97], [1, 2, 3])]"] by (auto simp: padded_def)

end
