(* ===== verification/VfsMount.thy ===== *)
theory VfsMount
  imports VfsOpen Initramfs
begin

text \<open>
  Start-up of the file system on an image made by the builder: \<^const>\<open>init_vfs\<close> returns, its nodes are the files
  of the image in their order with the directory \<^verbatim>\<open>/tmp\<close> after them, and every descriptor is closed.
\<close>

section \<open>The image in memory\<close>

definition image_in :: "machine \<Rightarrow> int \<Rightarrow> byte_string \<Rightarrow> bool" where
  "image_in s p img \<longleftrightarrow> (\<forall>i < length img. mem s (p + int i) = img ! i)"

lemma image_byte: "image_in s p img \<Longrightarrow> off + i < length img \<Longrightarrow> mem s (p + int off + int i) = img ! (off + i)"
  unfolding image_in_def by (drule spec [of _ "off + i"]) (simp add: add.assoc)

lemma image_part:
  assumes "image_in s p img" "off + n \<le> length img"
  shows "bytes_at s (p + int off) n = map uint (part off n img)"
proof (rule nth_equalityI)
  fix i assume "i < length (bytes_at s (p + int off) n)"
  then have "i < n" by simp
  then show "bytes_at s (p + int off) n ! i = map uint (part off n img) ! i"
    using assms(2) image_byte [OF assms(1), of off i] by (simp add: part_def load_byte_def)
qed (use assms(2) in \<open>simp add: part_def\<close>)

lemma le_load_value:
  "(\<And>i. i < length bs \<Longrightarrow> m (a + int i) = bs ! i) \<Longrightarrow> le_load (length bs) m a = le_value bs"
proof (induction bs arbitrary: a)
  case (Cons b bs)
  have "m a = b" using Cons.prems [of 0] by simp
  moreover have "le_load (length bs) m (a + 1) = le_value bs"
  proof (rule Cons.IH)
    fix i assume "i < length bs"
    then show "m (a + 1 + int i) = bs ! i" using Cons.prems [of "Suc i"] by (simp add: ac_simps)
  qed
  ultimately show ?case by simp
qed simp

lemma image_qword:
  assumes "image_in s p img" "off + 8 \<le> length img" "0 \<le> image_q img off" "image_q img off < 2 ^ 63"
  shows "load_qword s (p + int off) = image_q img off"
proof -
  have len: "length (part off 8 img) = 8" using assms(2) by (simp add: part_def)
  have "le_load (length (part off 8 img)) (mem s) (p + int off) = le_value (part off 8 img)"
  proof (rule le_load_value)
    fix i assume "i < length (part off 8 img)"
    then show "mem s (p + int off + int i) = part off 8 img ! i"
      using assms(2) len image_byte [OF assms(1), of off i] by (simp add: part_def)
  qed
  then have "le_load 8 (mem s) (p + int off) = image_q img off" unfolding len by (simp add: image_q_def)
  then show ?thesis using assms(3,4) by (simp add: load_qword_def i64_id in64_def)
qed

lemma image_frame:
  assumes "image_in s p img" "\<And>a. p \<le> a \<Longrightarrow> a < p + int (length img) \<Longrightarrow> mem t a = mem s a"
  shows "image_in t p img"
  using assms by (simp add: image_in_def)

lemma copy_slice:
  assumes "image_in s p img" "off + n \<le> length img" "p + int (length img) \<le> heap_ptr s \<or> heap_end s \<le> p"
    and "0 < heap_ptr s" "heap_end s < 2 ^ 62" "heap_ptr s + round16 (int n + (if nul then 1 else 0)) \<le> heap_end s"
  shows "\<exists>t. vfs_copy_initramfs_slice s p (int off) (int n) nul = Some (heap_ptr s, t)
    \<and> heap_ptr t = heap_ptr s + round16 (int n + (if nul then 1 else 0)) \<and> heap_end t = heap_end s
    \<and> bytes_at t (heap_ptr s) n = map uint (part off n img)
    \<and> (\<forall>a. a < heap_ptr s \<or> heap_ptr t \<le> a \<longrightarrow> mem t a = mem s a)"
proof -
  let ?k = "int n + (if nul then 1 else 0)" and ?h = "heap_ptr s"
  have up: "?k \<le> round16 ?k" by (rule round16_bounds)
  have un: "int n \<le> round16 ?k" using up by (simp split: if_splits)
  have n64: "i64 (int n + 1) = int n + 1" if nul
    using that up assms(4-6) by (intro i64_id) (simp add: in64_def)
  define s1 where "s1 = s\<lparr>heap_ptr := ?h + round16 ?k\<rparr>"
  define s2 where "s2 = copy_bytes s1 ?h (p + int off) (int n)"
  define t where "t = (if nul then store_byte s2 (?h + int n) 0 else s2)"
  have al: "alloc_bytes s ?k = Some (?h, s1)" unfolding s1_def using assms by (intro alloc_bytes_eq) auto
  have run: "vfs_copy_initramfs_slice s p (int off) (int n) nul = Some (?h, t)"
    using al n64 by (simp add: vfs_copy_initramfs_slice_def t_def s2_def split: if_splits)
  have wc: "writes_in {?h..<?h + int n} s1 s2" unfolding s2_def by (rule copy_bytes_writes)
  have "writes_in {?h..<?h + ?k} s1 s2" using wc by (rule writes_in_mono) auto
  moreover have "writes_in {?h..<?h + ?k} s2 (store_byte s2 (?h + int n) 0)" if nul using that by (intro writes_in_byte) simp
  ultimately have w: "writes_in {?h..<?h + ?k} s1 t" unfolding t_def by (cases nul) (simp_all add: writes_in_trans [of _ s1 s2])
  have im: "image_in s1 p img" using assms(1) by (simp add: s1_def image_in_def)
  have "{?h..<?h + int n} \<inter> {p + int off..<p + int off + int n} = {}" using assms(2,3,6) un by auto
  then have "bytes_at s2 ?h n = map uint (part off n img)"
    unfolding s2_def by (simp add: copy_bytes_at image_part [OF im assms(2)])
  moreover have "bytes_at t ?h n = bytes_at s2 ?h n"
    by (rule bytes_at_mem) (auto simp: t_def store_byte_def)
  moreover have "mem t a = mem s a" if "a < ?h \<or> ?h + round16 ?k \<le> a" for a
    using w that up by (auto simp: writes_in_def s1_def)
  moreover have "heap_ptr t = ?h + round16 ?k" "heap_end t = heap_end s"
    using writes_in_fields(2,3) [OF w] by (simp_all add: s1_def)
  ultimately show ?thesis using run by auto
qed

section \<open>Nodes and descriptors\<close>

lemma clear_descriptor:
  assumes "vfs_layout s v" "desc_id d"
  shows "\<exists>t. vfs_clear_descriptor s v d = Some t \<and> writes_in (vfs_area s v) s t
    \<and> (\<exists>fd. tables s v n (nf s v n) d fd t \<and> (\<forall>k. 0 \<le> k \<and> k < 6 \<longrightarrow> fd k = 0))"
proof -
  have "\<exists>t. for_range 0 6 (\<lambda>slot s. set_vfs_desc_qword s v d slot 0) s = Some t \<and> (writes_in (vfs_area s v) s t
    \<and> (\<exists>fd. tables s v n (nf s v n) d fd t \<and> (\<forall>k. 0 \<le> k \<and> k < 6 \<longrightarrow> fd k = 0)))"
  proof (rule for_range_total)
    show "writes_in (vfs_area s v) s s \<and> (\<exists>fd. tables s v n (nf s v n) d fd s \<and> (\<forall>k. 0 \<le> k \<and> k < 0 \<longrightarrow> fd k = 0))"
      using tables_refl [OF assms(1)] by force
    fix i t assume i: "0 \<le> i" "i < (6 :: int)"
      and "writes_in (vfs_area s v) s t \<and> (\<exists>fd. tables s v n (nf s v n) d fd t \<and> (\<forall>k. 0 \<le> k \<and> k < i \<longrightarrow> fd k = 0))"
    then obtain fd where fd: "writes_in (vfs_area s v) s t" "tables s v n (nf s v n) d fd t" "\<forall>k. 0 \<le> k \<and> k < i \<longrightarrow> fd k = 0"
      by blast
    obtain u where u: "set_vfs_desc_qword t v d i 0 = Some u" "tables s v n (nf s v n) d (fd(i := i64 0)) u"
      "writes_in (vfs_area s v) t u" using tables_desc_put [OF fd(2) assms(2) i] by blast
    have "\<forall>k. 0 \<le> k \<and> k < i + 1 \<longrightarrow> (fd(i := i64 0)) k = 0" using fd(3) by auto
    then show "\<exists>u. set_vfs_desc_qword t v d i 0 = Some u \<and> writes_in (vfs_area s v) s u
        \<and> (\<exists>fd. tables s v n (nf s v n) d fd u \<and> (\<forall>k. 0 \<le> k \<and> k < i + 1 \<longrightarrow> fd k = 0))"
      using u writes_in_trans [OF fd(1) u(3)] by blast
  qed simp
  then show ?thesis by (simp add: vfs_clear_descriptor_def vfs_const)
qed

lemma clear_descriptors:
  assumes "vfs_layout s v"
  shows "\<exists>t. vfs_clear_descriptors s v = Some t \<and> vfs_layout t v \<and> writes_in (vfs_area s v) s t
    \<and> (\<forall>k. 0 \<le> k \<and> k < 6 \<longrightarrow> vq t v k = vq s v k) \<and> (\<forall>d k. desc_id d \<and> 0 \<le> k \<and> k < 6 \<longrightarrow> df t v d k = 0)"
proof -
  let ?P = "\<lambda>i t. vfs_layout t v \<and> vfs_area t v = vfs_area s v \<and> writes_in (vfs_area s v) s t
    \<and> (\<forall>k. 0 \<le> k \<and> k < 6 \<longrightarrow> vq t v k = vq s v k) \<and> (\<forall>d k. 1 \<le> d \<and> d < i \<and> 0 \<le> k \<and> k < 6 \<longrightarrow> df t v d k = 0)"
  have "\<exists>t. for_range 1 33 (\<lambda>d s. vfs_clear_descriptor s v d) s = Some t \<and> ?P 33 t"
  proof (rule for_range_total [where P = ?P])
    fix i t assume i: "1 \<le> i" "i < (33 :: int)" and P: "?P i t"
    have d: "desc_id i" using i by (simp add: desc_id_def)
    obtain u fd where u: "vfs_clear_descriptor t v i = Some u" "writes_in (vfs_area t v) t u"
      "tables t v 0 (nf t v 0) i fd u" "\<forall>k. 0 \<le> k \<and> k < 6 \<longrightarrow> fd k = 0"
      using clear_descriptor [OF _ d, of t v 0] P by blast
    have "df u v j k = 0" if "1 \<le> j" "j < i + 1" "0 \<le> k" "k < 6" for j k
      using that P u(3,4) i unfolding tables_def desc_id_def by (cases "j = i") auto
    moreover have "writes_in (vfs_area s v) s u" using P u(2) writes_in_trans by metis
    ultimately show "\<exists>u. vfs_clear_descriptor t v i = Some u \<and> ?P (i + 1) u"
      using u(1,3) P unfolding tables_def by auto
  qed (use assms in auto)
  moreover have "vq s v 5 = 32" using assms by (simp add: vfs_layout_def)
  ultimately show ?thesis using assms by (auto simp: vfs_clear_descriptors_def vfs_const desc_id_def)
qed

section \<open>Mounting one file\<close>

definition used :: "file_entry list \<Rightarrow> int" where
  "used es = sum_list (map (\<lambda>(name, contents). round16 (int (length name) + 1) + round16 (int (length contents))) es)"

text \<open>Node \<open>i\<close> is the read-only file \<open>e\<close>, its name and contents in the heap from \<open>H\<close> on.\<close>

definition mounted :: "machine \<Rightarrow> int \<Rightarrow> int \<Rightarrow> int \<Rightarrow> file_entry \<Rightarrow> bool" where
  "mounted s v H i e \<longleftrightarrow> nf s v i 1 = int (length (fst e)) \<and> bytes_at s (nf s v i 0) (length (fst e)) = map uint (fst e)
     \<and> nf s v i 3 = int (length (snd e)) \<and> bytes_at s (nf s v i 2) (length (snd e)) = map uint (snd e)
     \<and> nf s v i 4 = vfs_node_kind_file \<and> nf s v i 5 = 0 \<and> nf s v i 6 = int (length (snd e))
     \<and> H \<le> nf s v i 0 \<and> nf s v i 0 + int (length (fst e)) \<le> heap_ptr s
     \<and> H \<le> nf s v i 2 \<and> nf s v i 2 + int (length (snd e)) \<le> heap_ptr s"

lemma mounted_frame:
  assumes "mounted s v H i e" "\<And>k. 0 \<le> k \<Longrightarrow> k < 7 \<Longrightarrow> nf t v i k = nf s v i k"
    and "\<And>a. H \<le> a \<Longrightarrow> a < heap_ptr s \<Longrightarrow> mem t a = mem s a" "heap_ptr s \<le> heap_ptr t"
  shows "mounted t v H i e"
proof -
  have nf: "nf t v i 0 = nf s v i 0" "nf t v i 1 = nf s v i 1" "nf t v i 2 = nf s v i 2" "nf t v i 3 = nf s v i 3"
    "nf t v i 4 = nf s v i 4" "nf t v i 5 = nf s v i 5" "nf t v i 6 = nf s v i 6" by (simp_all add: assms(2))
  have "bytes_at t q n = bytes_at s q n" if "H \<le> q" "q + int n \<le> heap_ptr s" for q n
    using that by (intro bytes_at_mem assms(3)) auto
  then show ?thesis using assms(1,4) unfolding mounted_def nf by auto
qed

lemma mounted_low: "mounted s v H' i e \<Longrightarrow> H \<le> H' \<Longrightarrow> mounted s v H i e"
  by (simp add: mounted_def)

text \<open>The buffers of the first \<open>m\<close> nodes follow one another.\<close>

definition in_order :: "machine \<Rightarrow> int \<Rightarrow> nat \<Rightarrow> bool" where
  "in_order s v m \<longleftrightarrow> (\<forall>j k. j < k \<and> k < m \<longrightarrow> nf s v (int j) 2 + nf s v (int j) 6 \<le> nf s v (int k) 2)"

lemma mount_entry:
  assumes lay: "vfs_layout s v" "vfs_area s v \<subseteq> {v..<H}" "H \<le> heap_ptr s" "node_id (int i)"
    and img: "image_in s p img" "lists_file img files i e" "i < files" "32 + files * 32 \<le> length img"
      "int (length img) < 2 ^ 62" "0 < p" "p mod 8 = 0" "p + int (length img) \<le> v \<or> heap_end s \<le> p"
    and heap: "0 < v" "v \<le> H" "heap_ptr s + used [e] \<le> heap_end s" "heap_end s < 2 ^ 62"
  shows "\<exists>t. init_vfs_entry v p (int (length img)) (int i) s = Some t \<and> heap_ptr t = heap_ptr s + used [e]
    \<and> heap_end t = heap_end s \<and> mounted t v (heap_ptr s) (int i) e \<and> (\<exists>fn. tables s v (int i) fn 0 (df s v 0) t)
    \<and> (\<forall>a. a \<notin> vfs_area s v \<and> (a < heap_ptr s \<or> heap_ptr t \<le> a) \<longrightarrow> mem t a = mem s a)"
proof -
  obtain name contents where e: "e = (name, contents)" by force
  define off where "off = 32 + i * 32"
  have off: "off + 32 \<le> length img" using img(3,4) by (simp add: off_def)
  obtain no dt where q: "image_q img off = int no" "image_q img (off + 8) = int (length name)"
    "image_q img (off + 16) = int dt" "image_q img (off + 24) = int (length contents)"
    "no + length name \<le> dt" "dt + length contents \<le> length img" "part no (length name) img = name"
    "part dt (length contents) img = contents"
    using img(2) unfolding lists_file_def Let_def off_def [symmetric] e
    by (auto intro: that [of "nat (image_q img off)" "nat (image_q img (off + 16))"])
  have ptr: "qword_ptr (p + 32 + int i * 32 + k)" if "k \<in> {0, 8, 16, 24}" for k
  proof -
    have "(p + 32 + int i * 32 + k) mod 8 = 0" using that img(7) by auto
    then show ?thesis using that img(6) by (auto simp: qword_ptr_def)
  qed
  have raw: "vfs_raw_qword s (p + 32 + int i * 32 + int k) = Some (image_q img (off + k))" if "k \<in> {0, 8, 16, 24}" for k
  proof -
    have "image_q img (off + k) < 2 ^ 63 \<and> 0 \<le> image_q img (off + k)" using that q(1-6) img(5) by auto
    moreover have "off + k + 8 \<le> length img" using that off by auto
    ultimately have "load_qword s (p + int (off + k)) = image_q img (off + k)" using image_qword [OF img(1)] by blast
    moreover have eq: "p + 32 + int i * 32 + int k = p + int (off + k)" by (simp add: off_def)
    moreover have "qword_ptr (p + int (off + k))" using ptr [of "int k"] that unfolding eq by auto
    ultimately show ?thesis unfolding vfs_raw_qword_def region_simps eq by simp
  qed
  have raws: "vfs_raw_qword s (p + 32 + int i * 32) = Some (int no)" "vfs_raw_qword s (p + 32 + int i * 32 + 8) = Some (int (length name))"
    "vfs_raw_qword s (p + 32 + int i * 32 + 16) = Some (int dt)" "vfs_raw_qword s (p + 32 + int i * 32 + 24) = Some (int (length contents))"
    using raw [of 0] raw [of 8] raw [of 16] raw [of 24] q(1-4) by simp_all
  have ranges: "i64 (int no + int (length name)) = int no + int (length name)" "i64 (int dt + int (length contents)) = int dt + int (length contents)"
    using q(5,6) img(5) by (auto intro!: i64_id simp: in64_def)
  define r1 r2 where "r1 = round16 (int (length name) + 1)" and "r2 = round16 (int (length contents))"
  have us: "used [e] = r1 + r2" by (simp add: used_def e r1_def r2_def)
  have r: "int (length name) + 1 \<le> r1" "int (length contents) \<le> r2" unfolding r1_def r2_def by (rule round16_bounds)+
  let ?h = "heap_ptr s"
  obtain s1 where s1: "vfs_copy_initramfs_slice s p (int no) (int (length name)) True = Some (?h, s1)"
    "heap_ptr s1 = ?h + r1" "heap_end s1 = heap_end s" "bytes_at s1 ?h (length name) = map uint name"
    "\<forall>a. a < ?h \<or> ?h + r1 \<le> a \<longrightarrow> mem s1 a = mem s a"
    using copy_slice [OF img(1), of no "length name" True] q(5-7) img(8) lay(3) heap us r by (auto simp: r1_def)
  have im1: "image_in s1 p img" using img(1)
    by (rule image_frame) (use s1(5) img(8) lay(3) heap us r in auto)
  obtain s2 where s2: "vfs_copy_initramfs_slice s1 p (int dt) (int (length contents)) False = Some (?h + r1, s2)"
    "heap_ptr s2 = ?h + used [e]" "heap_end s2 = heap_end s" "bytes_at s2 (?h + r1) (length contents) = map uint contents"
    "\<forall>a. a < ?h + r1 \<or> heap_ptr s2 \<le> a \<longrightarrow> mem s2 a = mem s1 a"
    using copy_slice [OF im1, of dt "length contents" False] q(6,8) img(8) lay(3) heap us r s1(2,3) by (auto simp: r2_def)
  have m2: "mem s2 a = mem s a" if "a < ?h \<or> heap_ptr s2 \<le> a" for a
    using that s1(5) s2(2,5) us r by auto
  have area: "\<forall>a \<in> vfs_area s v. mem s2 a = mem s a" using lay(2,3) m2 by force
  note f2 = vfs_frame [OF lay(1) area]
  have b64: "in64 ?h" "in64 (int (length name))" "in64 (?h + r1)" "in64 (int (length contents))" "in64 vfs_node_kind_file" "in64 0"
    using heap us r lay(3) q(5,6) img(5) by (simp_all add: in64_def vfs_const)
  obtain s3 t where t: "vfs_set_node_name_data s2 v (int i) ?h (int (length name)) (?h + r1) (int (length contents)) = Some s3"
    "vfs_set_node_meta s3 v (int i) vfs_node_kind_file 0 (int (length contents)) = Some t"
    "tables s2 v (int i) (node_row ?h (int (length name)) (?h + r1) (int (length contents)) vfs_node_kind_file 0 (int (length contents))) 0 (df s2 v 0) t"
    "writes_in (vfs_area s2 v) s2 t"
    using fill_node [OF f2(4) lay(4) b64(1-6) b64(4)] by blast
  have run: "init_vfs_entry v p (int (length img)) (int i) s = Some t"
    using raws ranges q(5,6) s1(1) s2(1) t(1,2) by (simp add: init_vfs_entry_def)
  have hp: "heap_ptr t = ?h + used [e]" "heap_end t = heap_end s" using writes_in_fields(2,3) [OF t(4)] s2(2,3) by auto
  have keep: "mem t a = mem s2 a" if "H \<le> a" for a
    using that t(4) lay(2) unfolding f2(5) writes_in_def by force
  have nf: "nf t v (int i) k = node_row ?h (int (length name)) (?h + r1) (int (length contents)) vfs_node_kind_file 0 (int (length contents)) k"
    if "0 \<le> k" "k < 7" for k using t(3) lay(4) that by (simp add: tables_def)
  have "bytes_at t ?h (length name) = bytes_at s2 ?h (length name)" "bytes_at t (?h + r1) (length contents) = bytes_at s2 (?h + r1) (length contents)"
    using lay(3) r by (auto intro!: bytes_at_mem keep)
  moreover have "bytes_at s2 ?h (length name) = bytes_at s1 ?h (length name)"
    using r by (intro bytes_at_mem) (simp add: s2(5))
  ultimately have "mounted t v ?h (int i) e"
    using s1(4) s2(4) hp us r lay(3) by (simp add: mounted_def nf e node_row_def)
  moreover have "tables s v (int i) (node_row ?h (int (length name)) (?h + r1) (int (length contents)) vfs_node_kind_file 0 (int (length contents))) 0 (df s v 0) t"
    using t(3) f2 unfolding tables_def by (auto simp: desc_id_def)
  moreover have "mem t a = mem s a" if "a \<notin> vfs_area s v" "a < ?h \<or> heap_ptr t \<le> a" for a
    using that t(4) m2 hp s2(2) unfolding f2(5) writes_in_def by auto
  ultimately show ?thesis using run hp by blast
qed


section \<open>Start-up\<close>

lemma used_take_Suc: "i < length es \<Longrightarrow> used (take (Suc i) es) = used (take i es) + used [es ! i]"
  by (simp add: used_def take_Suc_conv_app_nth)

lemma used_nonneg: "0 \<le> used es"
proof (induction es)
  case (Cons e es)
  have "0 \<le> round16 (int n + 1)" "0 \<le> round16 (int n)" for n
    using round16_bounds(1) [of "int n + 1"] round16_bounds(1) [of "int n"] by linarith+
  then show ?case using Cons by (cases e) (simp add: used_def)
qed (simp add: used_def)

lemma used_append: "used (xs @ ys) = used xs + used ys"
  by (simp add: used_def)

lemma used_take_le: "used (take i es) + used (drop i es) = used es"
  by (simp flip: used_append)

lemma mount_entries:
  assumes lay: "vfs_layout s v" "vfs_area s v \<subseteq> {v..<H}" "heap_ptr s = H" "0 < v" "v \<le> H" "length es \<le> 32"
    and img: "image_in s p img" "\<forall>i < length es. lists_file img (length es) i (es ! i)" "32 + length es * 32 \<le> length img"
      "int (length img) < 2 ^ 62" "0 < p" "p mod 8 = 0" "p + int (length img) \<le> v \<or> heap_end s \<le> p"
    and heap: "H + used es \<le> heap_end s" "heap_end s < 2 ^ 62"
    and closed: "\<forall>d k. desc_id d \<and> 0 \<le> k \<and> k < 6 \<longrightarrow> df s v d k = 0"
  shows "\<exists>t. for_range 0 (int (length es)) (init_vfs_entry v p (int (length img))) s = Some t
    \<and> vfs_layout t v \<and> vfs_area t v = vfs_area s v \<and> heap_ptr t = H + used es \<and> heap_end t = heap_end s
    \<and> (\<forall>k. 0 \<le> k \<and> k < 6 \<longrightarrow> vq t v k = vq s v k) \<and> (\<forall>d k. desc_id d \<and> 0 \<le> k \<and> k < 6 \<longrightarrow> df t v d k = 0)
    \<and> (\<forall>j < length es. mounted t v H (int j) (es ! j)) \<and> in_order t v (length es)"
proof -
  let ?P = "\<lambda>i t. vfs_layout t v \<and> vfs_area t v = vfs_area s v \<and> heap_ptr t = H + used (take (nat i) es)
    \<and> heap_end t = heap_end s \<and> image_in t p img \<and> (\<forall>k. 0 \<le> k \<and> k < 6 \<longrightarrow> vq t v k = vq s v k)
    \<and> (\<forall>d k. desc_id d \<and> 0 \<le> k \<and> k < 6 \<longrightarrow> df t v d k = 0) \<and> (\<forall>j < nat i. mounted t v H (int j) (es ! j)) \<and> in_order t v (nat i)"
  have "\<exists>t. for_range 0 (int (length es)) (init_vfs_entry v p (int (length img))) s = Some t \<and> ?P (int (length es)) t"
  proof (rule for_range_total [where P = ?P])
    show "?P 0 s" using lay(1,3) img(1) closed by (simp add: used_def in_order_def)
    fix i t assume i: "0 \<le> i" "i < int (length es)" and P: "?P i t"
    define n where "n = nat i"
    have n: "i = int n" "n < length es" using i by (auto simp: n_def)
    have le: "H \<le> heap_ptr t" "heap_ptr t + used [es ! n] \<le> heap_end t"
      using P used_nonneg [of "take n es"] used_take_le [of "Suc n" es] used_nonneg [of "drop (Suc n) es"] used_take_Suc [OF n(2)] heap
      by (auto simp: n_def [symmetric])
    obtain u fn where u: "init_vfs_entry v p (int (length img)) i t = Some u" "heap_ptr u = heap_ptr t + used [es ! n]"
      "heap_end u = heap_end t" "mounted u v (heap_ptr t) i (es ! n)" "tables t v i fn 0 (df t v 0) u"
      "\<forall>a. a \<notin> vfs_area t v \<and> (a < heap_ptr t \<or> heap_ptr u \<le> a) \<longrightarrow> mem u a = mem t a"
      using mount_entry [of t v H n p img "length es" "es ! n"] P le lay img heap n by (auto simp: node_id_def)
    have out: "mem u a = mem t a" if "a < v \<or> H \<le> a" "a < heap_ptr t \<or> heap_ptr u \<le> a" for a
      using u(6) that lay(2) P by auto
    have "image_in u p img" using P
      by (intro image_frame [of t p img u] out) (use img(7) le u(2) P used_nonneg [of "[es ! n]"] lay(5) in auto)
    moreover have "mounted u v H (int j) (es ! j)" if "j < nat (i + 1)" for j
    proof (cases "j = n")
      case False
      then have j: "j < n" using that n(1) by auto
      show ?thesis
      proof (rule mounted_frame)
        show "mounted t v H (int j) (es ! j)" using P j by (simp add: n_def)
        show "nf u v (int j) k = nf t v (int j) k" if "0 \<le> k" "k < 7" for k
          using u(5) that j n lay(6) unfolding tables_def by (auto simp: node_id_def)
        show "mem u a = mem t a" if "H \<le> a" "a < heap_ptr t" for a using that by (intro out) auto
        show "heap_ptr t \<le> heap_ptr u" using u(2) used_nonneg [of "[es ! n]"] by simp
      qed
    qed (use mounted_low [OF u(4) le(1)] n in simp)
    moreover have "in_order u v (nat (i + 1))"
      unfolding in_order_def
    proof (intro allI impI, elim conjE)
      fix j k assume jk: "j < k" "k < nat (i + 1)"
      then have j: "j < n" "j < length es" "k \<le> n" using n by auto
      have row: "nf u v (int m) c = nf t v (int m) c" if "m < n" "0 \<le> c" "c < 7" for m c
        using u(5) that n lay(6) unfolding tables_def by (auto simp: node_id_def)
      have mj: "mounted t v H (int j) (es ! j)" using P j(1) by (simp add: n_def)
      show "nf u v (int j) 2 + nf u v (int j) 6 \<le> nf u v (int k) 2"
      proof (cases "k = n")
        case True
        have "heap_ptr t \<le> nf u v (int k) 2" using u(4) n True by (simp add: mounted_def)
        then show ?thesis using mj row [OF j(1)] by (simp add: mounted_def)
      next
        case False
        then show ?thesis using P jk j row [OF j(1)] row [of k] unfolding in_order_def by (simp add: n_def)
      qed
    qed
    moreover have "heap_ptr u = H + used (take (nat (i + 1)) es)"
      using u(2) P n used_take_Suc [OF n(2)] by (simp add: nat_add_distrib)
    moreover have "df u v d k = 0" if "desc_id d" "0 \<le> k" "k < 6" for d k
      using u(5) P that unfolding tables_def by (auto simp: desc_id_def)
    ultimately show "\<exists>u. init_vfs_entry v p (int (length img)) i t = Some u \<and> ?P (i + 1) u"
      using u(1,3,5) P unfolding tables_def by auto
  qed simp
  then show ?thesis by auto
qed


text \<open>The three blocks and the state slots.\<close>

lemma init_tables:
  assumes "0 < heap_ptr s" "heap_ptr s mod 16 = 0" "heap_ptr s + 3376 \<le> heap_end s" "heap_end s < 2 ^ 62" "in64 p" "in64 n"
  defines "v \<equiv> heap_ptr s"
  shows "\<exists>t. init_vfs_tables s p n = Some (v, t)
    \<and> vfs_layout t v \<and> vfs_area t v \<subseteq> {v..<v + 3376} \<and> heap_ptr t = v + 3376 \<and> heap_end t = heap_end s
    \<and> vq t v 0 = p \<and> vq t v 1 = n \<and> vq t v 3 = 0
    \<and> (\<forall>d k. desc_id d \<and> 0 \<le> k \<and> k < 6 \<longrightarrow> df t v d k = 0)
    \<and> (\<forall>a. a < v \<or> v + 3376 \<le> a \<longrightarrow> mem t a = mem s a)"
proof -
  have r16: "round16 48 = 48" "round16 1792 = 1792" "round16 1536 = 1536" by (simp_all add: round16_def)
  have v: "0 < v" "v mod 8 = 0" "qword_ptr v" using assms(1,2) by (auto simp: v_def qword_ptr_def)
  define s3 where "s3 = s\<lparr>heap_ptr := v + 3376\<rparr>"
  have al: "alloc_bytes s 48 = Some (v, s\<lparr>heap_ptr := v + 48\<rparr>)"
    "alloc_bytes (s\<lparr>heap_ptr := v + 48\<rparr>) 1792 = Some (v + 48, s\<lparr>heap_ptr := v + 1840\<rparr>)"
    "alloc_bytes (s\<lparr>heap_ptr := v + 1840\<rparr>) 1536 = Some (v + 1840, s3)"
    using assms(1-4) by (simp_all add: alloc_bytes_eq r16 v_def s3_def)
  define s4 where "s4 = put_qword (put_qword (put_qword (put_qword (put_qword (put_qword s3 v p) (v + 8) n) (v + 16) (v + 48)) (v + 24) 0) (v + 32) (v + 1840)) (v + 40) 32"
  have q: "vq s4 v 0 = p" "vq s4 v 1 = n" "vq s4 v 2 = v + 48" "vq s4 v 3 = 0" "vq s4 v 4 = v + 1840" "vq s4 v 5 = 32"
    using assms(3-6) v by (simp_all add: s4_def vq_def load_put_qword load_put_qword_other i64_id in64_def v_def)
  have lay: "vfs_layout s4 v" using v q by (auto simp: vfs_layout_def)
  have area: "vfs_area s4 v \<subseteq> {v..<v + 3376}" using q by (auto simp: vfs_area_def)
  obtain t where t: "vfs_clear_descriptors s4 v = Some t" "vfs_layout t v" "writes_in (vfs_area s4 v) s4 t"
    "\<forall>k. 0 \<le> k \<and> k < 6 \<longrightarrow> vq t v k = vq s4 v k" "\<forall>d k. desc_id d \<and> 0 \<le> k \<and> k < 6 \<longrightarrow> df t v d k = 0"
    using clear_descriptors [OF lay] by blast
  have "writes_in {v..<v + 3376} s3 s4" unfolding s4_def by (intro writes_in_trans [OF _ writes_in_put] writes_in_put) auto
  then have w: "writes_in {v..<v + 3376} s3 t" using writes_in_trans writes_in_mono [OF t(3) area] by blast
  have "mem t a = mem s a" if "a < v \<or> v + 3376 \<le> a" for a using w that by (auto simp: writes_in_def s3_def)
  moreover have "vfs_area t v = vfs_area s4 v" using t(4) by (simp add: vfs_area_def)
  moreover have "heap_ptr t = v + 3376" "heap_end t = heap_end s" using writes_in_fields(2,3) [OF w] by (simp_all add: s3_def)
  moreover have "vq t v 0 = p" "vq t v 1 = n" "vq t v 3 = 0" using t(4) q by simp_all
  ultimately show ?thesis
    using al t(1,2,5) v area by (intro exI [of _ t]) (simp add: init_vfs_tables_def vfs_const set_vfs_state_qword_def region_simps s4_def)
qed

text \<open>The directory \<^verbatim>\<open>/tmp\<close>, in the first free node.\<close>

lemma tmp_node:
  assumes "vfs_layout s v" "vfs_area s v \<subseteq> {v..<H}" "H \<le> heap_ptr s" "0 < v" "v \<le> H" "vq s v 3 = int n" "n < 32"
    and "heap_ptr s + 16 \<le> heap_end s" "heap_end s < 2 ^ 62"
  shows "\<exists>t. init_vfs_tmp s v = Some t
    \<and> vfs_layout t v \<and> vfs_area t v = vfs_area s v \<and> heap_ptr t = heap_ptr s + 16 \<and> vq t v 3 = int n + 1
    \<and> (\<forall>i k. node_id i \<and> 0 \<le> k \<and> k < 7 \<longrightarrow>
        nf t v i k = (if i = int n then node_row (heap_ptr s) 4 0 0 vfs_node_kind_directory node_flag_writable 0 k else nf s v i k))
    \<and> (\<forall>d k. desc_id d \<and> 0 \<le> k \<and> k < 6 \<longrightarrow> df t v d k = df s v d k)
    \<and> bytes_at t (heap_ptr s) 4 = [47, 116, 109, 112] \<and> (\<forall>a. H \<le> a \<and> a < heap_ptr s \<longrightarrow> mem t a = mem s a)"
proof -
  let ?h = "heap_ptr s"
  define s1 where "s1 = s\<lparr>heap_ptr := ?h + 16\<rparr>"
  define s2 where "s2 = store_bytes s1 ?h [47, 116, 109, 112, 0]"
  have al: "alloc_bytes s 5 = Some (?h, s1)"
    using assms by (subst alloc_bytes_eq) (auto simp: s1_def round16_def)
  have m2: "mem s2 a = mem s a" if "a < ?h \<or> ?h + 5 \<le> a" for a using that by (auto simp: s2_def s1_def store_byte_def)
  have h2: "heap_ptr s2 = ?h + 16" by (simp add: s2_def s1_def store_byte_def)
  have b2: "bytes_at s2 ?h 4 = [47, 116, 109, 112]"
    by (simp add: bytes_at_def s2_def load_store_byte eval_nat_numeral)
  have "\<forall>a \<in> vfs_area s v. mem s2 a = mem s a" using assms(2,3) m2 by force
  note f2 = vfs_frame [OF assms(1) this]
  define s3 where "s3 = put_qword s2 (v + 24) (int n + 1)"
  note p3 = put_vq [OF f2(4), where k = 3 and x = "int n + 1", simplified, folded s3_def]
  have n: "node_id (int n)" "in64 (int n + 1)" using assms(7) by (simp_all add: node_id_def in64_def)
  have res: "vfs_reserve_node s2 v = Some (int n, s3)"
    using f2(1,4) assms(6,7) by (simp add: vfs_reserve_node_def vfs_const s3_def)
  have b64: "in64 ?h" "in64 4" "in64 0" "in64 vfs_node_kind_directory" "in64 node_flag_writable"
    using assms by (simp_all add: in64_def vfs_const)
  obtain s4 t where t: "vfs_set_node_name_data s3 v (int n) ?h 4 0 0 = Some s4"
    "vfs_set_node_meta s4 v (int n) vfs_node_kind_directory node_flag_writable 0 = Some t"
    "tables s3 v (int n) (node_row ?h 4 0 0 vfs_node_kind_directory node_flag_writable 0) 0 (df s3 v 0) t"
    "writes_in (vfs_area s3 v) s3 t"
    using fill_node [OF p3(4) n(1) b64(1,2,3,3,4,5,3)] by blast
  have ar: "vfs_area s3 v = vfs_area s v" using p3(5) f2(5) by simp
  have w: "writes_in (vfs_area s v) s2 t" using p3(6) t(4) writes_in_trans [of "vfs_area s v" s2 s3 t] ar f2(5) by simp
  have keep: "mem t a = mem s2 a" if "H \<le> a" for a using that w assms(2) unfolding writes_in_def by force
  have "bytes_at t ?h 4 = bytes_at s2 ?h 4" using assms(3) by (intro bytes_at_mem keep) auto
  moreover have "heap_ptr t = ?h + 16" using writes_in_fields(3) [OF w] h2 by simp
  moreover have "vq t v 3 = int n + 1" using t(3) p3(1) n(2) by (simp add: tables_def i64_id)
  moreover have "nf t v i k = (if i = int n then node_row ?h 4 0 0 vfs_node_kind_directory node_flag_writable 0 k else nf s v i k)"
    if "node_id i" "0 \<le> k" "k < 7" for i k
    using t(3) p3(2) f2(2) that unfolding tables_def by (auto simp: node_id_def)
  moreover have "df t v d k = df s v d k" if "desc_id d" "0 \<le> k" "k < 6" for d k
    using t(3) p3(3) f2(3) that unfolding tables_def by (auto simp: desc_id_def)
  moreover have "mem t a = mem s a" if "H \<le> a" "a < ?h" for a using keep [OF that(1)] m2 that(2) by simp
  ultimately show ?thesis
    using al res t(1-3) b2 ar by (intro exI [of _ t]) (simp add: init_vfs_tmp_def s2_def [symmetric] tables_def del: store_bytes.simps)
qed


definition node_name :: "machine \<Rightarrow> int \<Rightarrow> int \<Rightarrow> int list" where
  "node_name s v n = bytes_at s (nf s v n 0) (nat (nf s v n 1))"

lemma mounted_file:
  assumes "mounted t v H (int i) e" "vfs_layout t v" "node_id (int i)" "vfs_area t v \<subseteq> {v..<H}" "H \<le> heap_ptr t"
    "int (length (snd e)) < 2 ^ 62"
  shows "node_name t v (int i) = map uint (fst e)" "file_ok t v (int i)" "file_data t v (int i) = map uint (snd e)"
proof -
  show "node_name t v (int i) = map uint (fst e)" "file_data t v (int i) = map uint (snd e)"
    using assms(1) by (simp_all add: node_name_def file_data_def mounted_def)
  have b: "file_buffer t v (int i) \<subseteq> {H..<heap_ptr t}" using assms(1) by (auto simp: file_buffer_def mounted_def)
  have "file_buffer t v (int i) \<inter> vfs_area t v = {}" using b assms(4) by fastforce
  moreover have "file_buffer t v (int i) \<subseteq> {..<heap_ptr t}" using b by auto
  moreover have "vfs_area t v \<subseteq> {..<heap_ptr t}" using assms(4,5) by auto
  ultimately show "file_ok t v (int i)"
    using assms(1,2,3,6) by (simp add: file_ok_def mounted_def)
qed

lemma member_padded: "e \<in> set es \<Longrightarrow> length (snd e) \<le> padded es"
  by (induction es) (auto simp: padded_def)

lemma init_vfs_run:
  assumes img: "build_image es = Some img" "length es < 32" "32 + int (length es * 32 + padded es) < 2 ^ 62"
    and mem: "image_in s p img" "0 < p" "p < 2 ^ 62" "p mod 8 = 0" "p + int (length img) \<le> heap_ptr s \<or> heap_end s \<le> p"
    and boot: "qword_ptr b" "load_qword s (b + 21 * 8) = p" "load_qword s (b + 22 * 8) = int (length img)"
    and heap: "0 < heap_ptr s" "heap_ptr s mod 16 = 0" "heap_ptr s + 3392 + used es \<le> heap_end s" "heap_end s < 2 ^ 62"
  shows "\<exists>v t H. init_vfs s b = Some (v, t) \<and> vfs_layout t v \<and> vq t v 3 = int (length es) + 1 \<and> open_descs t v = {}
    \<and> (\<forall>i < length es. mounted t v H (int i) (es ! i)) \<and> in_order t v (length es) \<and> vfs_area t v \<subseteq> {v..<H} \<and> H \<le> heap_ptr t
    \<and> node_name t v (int (length es)) = map of_char ''/tmp'' \<and> nf t v (int (length es)) 4 = vfs_node_kind_directory
    \<and> nf t v (int (length es)) 5 = node_flag_writable"
proof -
  let ?n = "length es" and ?L = "int (length img)"
  define v H where "v = heap_ptr s" and "H = v + 3376"
  have "32 + int (?n * 32 + padded es) < 2 ^ 64" using img(3) by simp
  from build_image_spec [OF this] img(1,3) have sp: "image_q img 0 = MAGIC" "image_q img 8 = VERSION" "image_q img 16 = int ?n"
    "?L < 2 ^ 62" "32 + ?n * 32 \<le> length img" "\<forall>i < ?n. lists_file img ?n i (es ! i)" by auto
  have u0: "0 \<le> used es" by (rule used_nonneg)
  have b64: "in64 p" "in64 ?L" "in64 (int ?n)" using mem(2,3) sp(4) img(2) by (simp_all add: in64_def)
  have room: "heap_ptr s + 3376 \<le> heap_end s" using heap(3) u0 by linarith
  obtain s1 where s1: "init_vfs_tables s p ?L = Some (v, s1)"
    "vfs_layout s1 v" "vfs_area s1 v \<subseteq> {v..<H}" "heap_ptr s1 = H" "heap_end s1 = heap_end s"
    "\<forall>d k. desc_id d \<and> 0 \<le> k \<and> k < 6 \<longrightarrow> df s1 v d k = 0" "\<forall>a. a < v \<or> H \<le> a \<longrightarrow> mem s1 a = mem s a"
    using init_tables [OF heap(1,2) room heap(4) b64(1,2)] unfolding v_def [symmetric] H_def by blast
  have im1: "image_in s1 p img" using mem(1) by (rule image_frame) (use s1(7) mem(5) heap(3) u0 in \<open>auto simp: v_def H_def\<close>)
  have v: "0 < v" "v \<le> H" and fit: "H + used es \<le> heap_end s1" "heap_end s1 < 2 ^ 62" "p + ?L \<le> v \<or> heap_end s1 \<le> p"
    using heap mem(5) s1(5) by (auto simp: v_def H_def)
  obtain s2 where s2: "for_range 0 (int ?n) (init_vfs_entry v p ?L) s1 = Some s2" "vfs_layout s2 v" "vfs_area s2 v = vfs_area s1 v"
    "heap_ptr s2 = H + used es" "heap_end s2 = heap_end s1" "\<forall>d k. desc_id d \<and> 0 \<le> k \<and> k < 6 \<longrightarrow> df s2 v d k = 0"
    "\<forall>j < ?n. mounted s2 v H (int j) (es ! j)" "in_order s2 v ?n"
    using mount_entries [OF s1(2-4) v _ im1 sp(6,5,4) mem(2,4) fit(3) fit(1,2) s1(6)] img(2) by auto
  define s3 where "s3 = put_qword s2 (v + 24) (int ?n)"
  note p3 = put_vq [OF s2(2), where k = 3 and x = "int ?n", simplified, folded s3_def]
  have c3: "set_vfs_state_qword s2 v 3 (int ?n) = Some s3" using s2(2) by (simp add: s3_def)
  have h3: "heap_ptr s3 = H + used es" "heap_end s3 = heap_end s" using s2(4,5) s1(5) by (simp_all add: s3_def)
  have a3: "vfs_area s3 v \<subseteq> {v..<H}" using p3(5) s2(3) s1(3) by simp
  obtain t where t: "init_vfs_tmp s3 v = Some t" "vfs_layout t v" "vfs_area t v = vfs_area s3 v" "heap_ptr t = H + used es + 16"
    "vq t v 3 = int ?n + 1"
    "\<forall>i k. node_id i \<and> 0 \<le> k \<and> k < 7 \<longrightarrow>
        nf t v i k = (if i = int ?n then node_row (heap_ptr s3) 4 0 0 vfs_node_kind_directory node_flag_writable 0 k else nf s3 v i k)"
    "\<forall>d k. desc_id d \<and> 0 \<le> k \<and> k < 6 \<longrightarrow> df t v d k = df s3 v d k"
    "bytes_at t (heap_ptr s3) 4 = [47, 116, 109, 112]" "\<forall>a. H \<le> a \<and> a < heap_ptr s3 \<longrightarrow> mem t a = mem s3 a"
    using tmp_node [OF p3(4) a3 _ v _ img(2)] p3(1) b64(3) u0 h3 heap(3,4) by (auto simp: i64_id v_def H_def)
  have raw: "vfs_raw_qword s1 (p + int k) = Some (image_q img k)" if "k \<in> {0, 8, 16}" for k
  proof -
    have "load_qword s1 (p + int k) = image_q img k"
      using that sp(1-3,5) img(2) by (intro image_qword [OF im1]) (auto simp: MAGIC_def VERSION_def)
    moreover have "qword_ptr (p + int k)" using that mem(2,4) by (auto simp: qword_ptr_def)
    ultimately show ?thesis by (simp add: vfs_raw_qword_def region_simps)
  qed
  have "init_vfs s b = Some (v, t)"
    using boot s1(1) raw [of 0] raw [of 8] raw [of 16] sp(1-3,5) mem(2) img(2) s2(1) c3 t(1)
    by (auto simp: init_vfs_def boot_info_qword_def region_simps vfs_const MAGIC_def VERSION_def initramfs_magic_def initramfs_version_def)
  moreover have nf: "nf t v (int i) k = nf s2 v (int i) k" if "i < ?n" "0 \<le> k" "k < 7" for i k
    using t(6) p3(2) that img(2) by (auto simp: node_id_def)
  then have "in_order t v ?n" using s2(8) by (simp add: in_order_def)
  moreover have "\<forall>i < ?n. mounted t v H (int i) (es ! i)"
  proof (intro allI impI)
    fix i assume i: "i < ?n"
    show "mounted t v H (int i) (es ! i)"
    proof (rule mounted_frame)
      show "mounted s2 v H (int i) (es ! i)" using s2(7) i by blast
      show "mem t a = mem s2 a" if "H \<le> a" "a < heap_ptr s2" for a
        using t(9) that h3(1) s2(4) p3(6) a3 p3(5) unfolding writes_in_def by force
    qed (use nf i t(4) s2(4) in auto)
  qed
  moreover have "node_id (int ?n)" using img(2) by (simp add: node_id_def)
  then have "node_name t v (int ?n) = map of_char ''/tmp''" "nf t v (int ?n) 4 = vfs_node_kind_directory" "nf t v (int ?n) 5 = node_flag_writable"
    using t(6,8) by (simp_all add: node_name_def node_row_def)
  moreover have "vfs_area t v \<subseteq> {v..<H}" "H \<le> heap_ptr t" using t(3,4) a3 u0 by auto
  moreover have "open_descs t v = {}" using t(7) p3(3) s2(6) by (auto simp: open_descs_def desc_id_def)
  ultimately show ?thesis using t(2,5) by blast
qed

text \<open>The state start-up leaves is typed.\<close>

lemma mounted_typed:
  assumes "vfs_layout t v" "vq t v 3 = int (length es) + 1" "open_descs t v = {}" "length es < 32"
    and "\<forall>i < length es. mounted t v H (int i) (es ! i)" "in_order t v (length es)" "nf t v (int (length es)) 4 = vfs_node_kind_directory"
    and "\<forall>i < length es. file_ok t v (int i)" "vfs_area t v \<subseteq> {..<heap_ptr t}"
  shows "vfs_typed t v"
proof -
  have node: "\<exists>i \<le> length es. n = int i" if "0 \<le> n" "n < vq t v 3" for n
    using that assms(2) by (intro exI [of _ "nat n"]) auto
  have fl: "\<exists>i < length es. n = int i" if "is_file t v n" for n
    using that node [of n] assms(7) by (auto simp: is_file_def vfs_const le_less)
  have "nf t v n 4 \<in> {vfs_node_kind_file, vfs_node_kind_directory}" if "0 \<le> n" "n < vq t v 3" for n
    using node [OF that] assms(5,7) by (auto simp: le_less mounted_def)
  moreover have "file_buffer t v m \<inter> file_buffer t v n = {}" if mn: "is_file t v m" "is_file t v n" "m \<noteq> n" for m n
  proof -
    obtain i j where ij: "i < length es" "m = int i" "j < length es" "n = int j" using fl [OF mn(1)] fl [OF mn(2)] by blast
    have "i < j \<or> j < i" using ij mn(3) by auto
    then show ?thesis using ij assms(6) unfolding in_order_def file_buffer_def by force
  qed
  moreover have "desc_typed t v (df t v d)" if "desc_id d" for d
    using that assms(3) by (auto simp: open_descs_def desc_typed_def vfs_const)
  moreover have "file_ok t v n" if "is_file t v n" for n using fl [OF that] assms(8) by blast
  ultimately show ?thesis using assms(1,2,4,9) by (auto simp: vfs_typed_def)
qed

text \<open>C22: When the boot information points to an image made by the builder from fewer than 32
  files, the image lies outside the free part of the early heap and the heap has room, start-up of the file
  system returns.  Node \<open>i\<close> is then the \<open>i\<close>-th file: a read-only file with its name and its contents, in a
  buffer apart from the tables; the next node is the writable directory \<^verbatim>\<open>/tmp\<close>, there are no others, no
  descriptor is open, and the tables are typed.\<close>

theorem init_vfs_mounts_image:
  assumes img: "build_image es = Some img" "length es < 32" "32 + int (length es * 32 + padded es) < 2 ^ 62"
    and mem: "image_in s p img" "0 < p" "p < 2 ^ 62" "p mod 8 = 0" "p + int (length img) \<le> heap_ptr s \<or> heap_end s \<le> p"
    and boot: "qword_ptr b" "load_qword s (b + 21 * 8) = p" "load_qword s (b + 22 * 8) = int (length img)"
    and heap: "0 < heap_ptr s" "heap_ptr s mod 16 = 0" "heap_ptr s + 3392 + used es \<le> heap_end s" "heap_end s < 2 ^ 62"
  shows "\<exists>v t. init_vfs s b = Some (v, t) \<and> vfs_typed t v \<and> vq t v 3 = int (length es) + 1 \<and> open_descs t v = {}
    \<and> (\<forall>i < length es. node_name t v (int i) = map uint (fst (es ! i)) \<and> file_ok t v (int i)
        \<and> file_data t v (int i) = map uint (snd (es ! i)) \<and> nf t v (int i) 4 = vfs_node_kind_file \<and> nf t v (int i) 5 = 0)
    \<and> node_name t v (int (length es)) = map of_char ''/tmp'' \<and> nf t v (int (length es)) 4 = vfs_node_kind_directory
    \<and> nf t v (int (length es)) 5 = node_flag_writable"
proof -
  obtain v t H where t: "init_vfs s b = Some (v, t)" "vfs_layout t v" "vq t v 3 = int (length es) + 1" "open_descs t v = {}"
    "\<forall>i < length es. mounted t v H (int i) (es ! i)" "in_order t v (length es)" "vfs_area t v \<subseteq> {v..<H}" "H \<le> heap_ptr t"
    "node_name t v (int (length es)) = map of_char ''/tmp''" "nf t v (int (length es)) 4 = vfs_node_kind_directory"
    "nf t v (int (length es)) 5 = node_flag_writable"
    using init_vfs_run [OF assms] by (elim exE conjE) (rule that)
  have files: "node_name t v (int i) = map uint (fst (es ! i)) \<and> file_ok t v (int i)
      \<and> file_data t v (int i) = map uint (snd (es ! i)) \<and> nf t v (int i) 4 = vfs_node_kind_file \<and> nf t v (int i) 5 = 0"
    if i: "i < length es" for i
  proof -
    have m: "mounted t v H (int i) (es ! i)" using t(5) i by blast
    have "int (length (snd (es ! i))) < 2 ^ 62" using member_padded [OF nth_mem [OF i]] img(3) by simp
    moreover have "node_id (int i)" using i img(2) by (simp add: node_id_def)
    ultimately show ?thesis using mounted_file [OF m t(2) _ t(7,8)] m by (simp add: mounted_def)
  qed
  moreover have "vfs_area t v \<subseteq> {..<heap_ptr t}" using t(7,8) by auto
  ultimately have "vfs_typed t v" using mounted_typed [OF t(2-4) img(2) t(5,6,10)] by blast
  then show ?thesis using t(1,3,4,9-11) files by blast
qed

theorem init_vfs_mounts_image_witness:
  "\<exists>img s v t. build_image [([47, 97], [1, 2, 3])] = Some img \<and> image_in s 0x200000 img \<and> init_vfs s 0x1000 = Some (v, t)
    \<and> node_name t v 0 = [47, 97] \<and> file_data t v 0 = [1, 2, 3] \<and> node_name t v 1 = map of_char ''/tmp''"
proof -
  let ?es = "[([47, 97], [1, 2, 3])] :: file_entry list"
  have pad: "padded ?es = 133" "used ?es = 32" by (simp_all add: padded_def used_def round16_def)
  then obtain img where img: "build_image ?es = Some img" "int (length img) < 2 ^ 20"
    using build_image_spec [of ?es] by auto
  define s where "s = put_qword (put_qword (blank_machine\<lparr>mem := \<lambda>a. if 0x200000 \<le> a \<and> a < 0x200000 + int (length img)
     then img ! nat (a - 0x200000) else 0\<rparr>) 0x10A8 0x200000) 0x10B0 (int (length img))"
  have "image_in s 0x200000 img" by (simp add: image_in_def s_def put_qword_def le_store_frame)
  moreover have "load_qword s 0x10A8 = 0x200000" "load_qword s 0x10B0 = int (length img)"
    using img(2) by (simp_all add: s_def load_put_qword load_put_qword_other i64_id in64_def)
  moreover have "heap_ptr s = 0x110000" "heap_end s = 0x180000" by (simp_all add: s_def blank_machine_def)
  ultimately show ?thesis
    using init_vfs_mounts_image [OF img(1), where s = s and p = "0x200000" and b = "0x1000"] img(1) pad
    by (fastforce simp: qword_ptr_def)
qed

end
