(* ===== verification/DeviceProps.thy ===== *)
theory DeviceProps
  imports Devices
begin

text \<open>
  Properties of the console, the clock and the interrupt table.
\<close>

section \<open>The clock\<close>

text \<open>
  What the clock relies on of the interrupt that ends a wait: the timer counter stays or goes up by one,
  and it does go up after some number of interrupts.
\<close>

definition timer_ticks_on :: "(machine \<Rightarrow> machine) \<Rightarrow> bool" where
  "timer_ticks_on irq \<longleftrightarrow>
     (\<forall>s. current_kernel_ticks (irq s) = current_kernel_ticks s \<or> current_kernel_ticks (irq s) = current_kernel_ticks s + 1)
     \<and> (\<forall>s. \<exists>n. current_kernel_ticks ((irq ^^ n) s) \<noteq> current_kernel_ticks s)"

lemma wait_edge:
  assumes "\<forall>s. current_kernel_ticks (irq s) = current_kernel_ticks s \<or> current_kernel_ticks (irq s) = current_kernel_ticks s + 1"
    and "current_kernel_ticks ((irq ^^ n) s) \<noteq> current_kernel_ticks s"
  shows "\<exists>m. wait_edge_loop irq s (current_kernel_ticks s) (current_kernel_ticks s)
      = Some (current_kernel_ticks s + 1, (irq ^^ m) s) \<and> current_kernel_ticks ((irq ^^ m) s) = current_kernel_ticks s + 1"
  using assms(2)
proof (induction n arbitrary: s)
  case (Suc n)
  let ?c = "current_kernel_ticks s"
  have unfold: "wait_edge_loop irq s ?c ?c = wait_edge_loop irq (irq s) ?c (current_kernel_ticks (irq s))"
    by (subst wait_edge_loop.simps) simp
  show ?case
  proof (cases "current_kernel_ticks (irq s) = ?c")
    case True
    have "current_kernel_ticks ((irq ^^ n) (irq s)) \<noteq> current_kernel_ticks (irq s)"
      using Suc.prems True by (simp add: funpow_swap1)
    from Suc.IH [OF this] obtain m where m: "wait_edge_loop irq (irq s) ?c ?c = Some (?c + 1, (irq ^^ m) (irq s))"
        "current_kernel_ticks ((irq ^^ m) (irq s)) = ?c + 1" unfolding True by blast
    show ?thesis using m unfold True by (intro exI [of _ "Suc m"]) (simp add: funpow_swap1)
  next
    case False
    then have "current_kernel_ticks (irq s) = ?c + 1" using assms(1) by auto
    moreover from this have "wait_edge_loop irq (irq s) ?c (?c + 1) = Some (?c + 1, irq s)"
      by (subst wait_edge_loop.simps) simp
    ultimately show ?thesis using unfold by (intro exI [of _ 1]) simp
  qed
qed simp

lemma wait_ticks:
  assumes "timer_ticks_on irq" "current_kernel_ticks s + int d = target"
  shows "\<exists>m. wait_ticks_loop irq s target (current_kernel_ticks s) = Some (target, (irq ^^ m) s)
    \<and> current_kernel_ticks ((irq ^^ m) s) = target"
  using assms(2)
proof (induction d arbitrary: s)
  case 0
  then show ?case by (intro exI [of _ 0]) (subst wait_ticks_loop.simps, simp)
next
  case (Suc d)
  obtain n where "current_kernel_ticks ((irq ^^ n) s) \<noteq> current_kernel_ticks s"
    using assms(1) unfolding timer_ticks_on_def by blast
  then obtain m where m: "wait_for_tick_edge irq s = Some (current_kernel_ticks s + 1, (irq ^^ m) s)"
      "current_kernel_ticks ((irq ^^ m) s) = current_kernel_ticks s + 1"
    using wait_edge [of irq n s] assms(1) by (auto simp: timer_ticks_on_def wait_for_tick_edge_def Let_def)
  obtain k where k: "wait_ticks_loop irq ((irq ^^ m) s) target (current_kernel_ticks s + 1) = Some (target, (irq ^^ k) ((irq ^^ m) s))"
      "current_kernel_ticks ((irq ^^ k) ((irq ^^ m) s)) = target"
    using Suc.IH [of "(irq ^^ m) s"] Suc.prems m(2) by auto
  have "wait_ticks_loop irq s target (current_kernel_ticks s) = Some (target, (irq ^^ k) ((irq ^^ m) s))"
    using m(1) k(1) Suc.prems by (subst wait_ticks_loop.simps) simp
  then show ?case using k(2) by (intro exI [of _ "k + m"]) (simp add: funpow_add)
qed

text \<open>
  C32: when interrupts keep arriving and the timer advances its counter by one each
  time it fires, waiting for a positive number of ticks ends, after exactly that number.
\<close>

theorem wait_for_kernel_ticks_returns:
  assumes "timer_ticks_on irq" "0 < delta" "0 \<le> current_kernel_ticks s" "current_kernel_ticks s + delta < 2 ^ 63"
  shows "\<exists>n. wait_for_kernel_ticks irq s delta = Some (current_kernel_ticks s + delta, (irq ^^ n) s)
    \<and> current_kernel_ticks ((irq ^^ n) s) = current_kernel_ticks s + delta"
proof -
  have "i64 (current_kernel_ticks s + delta) = current_kernel_ticks s + delta" using assms(2-4) by (intro i64_id in64I) auto
  moreover have "current_kernel_ticks s + int (nat delta) = current_kernel_ticks s + delta" using assms(2) by simp
  ultimately show ?thesis
    using wait_ticks [OF assms(1), of s "nat delta" "current_kernel_ticks s + delta"] assms(2)
    by (simp add: wait_for_kernel_ticks_def Let_def)
qed

definition timer_irq :: "machine \<Rightarrow> machine" where
  "timer_irq s = s\<lparr>timer_irq_count := timer_irq_count s + 1\<rparr>"

theorem wait_for_kernel_ticks_returns_witness:
  "\<exists>n. wait_for_kernel_ticks timer_irq blank_machine 5 = Some (5, (timer_irq ^^ n) blank_machine)"
proof -
  have t: "current_kernel_ticks (timer_irq s) = current_kernel_ticks s + 1" for s
    by (simp add: timer_irq_def current_kernel_ticks_def timer_tick_count_def read_timer_irq_count_def)
  have "timer_ticks_on timer_irq"
    unfolding timer_ticks_on_def using t by (auto intro: exI [of _ 1])
  moreover have "current_kernel_ticks blank_machine = 0"
    by (simp add: current_kernel_ticks_def timer_tick_count_def read_timer_irq_count_def blank_machine_def)
  ultimately show ?thesis using wait_for_kernel_ticks_returns [of timer_irq 5 blank_machine] by auto
qed

section \<open>Numbers on the console\<close>

text \<open>
  C40: the decimal printer appends a minus sign for a negative number, then the digits of its
  magnitude without leading zeros and nothing else, and the hexadecimal printer appends \<^verbatim>\<open>0x\<close> and sixteen digits: read
  back, they give the number, modulo \<open>2^64\<close> for the hexadecimal one.  The one number left out is the smallest 64-bit
  integer, which has no positive counterpart.
\<close>

theorem console_numbers_roundtrip:
  assumes "- (2 ^ 63) < v"
  shows "\<exists>ds hs. serial_out (console_write_u64 s v) = serial_out s @ (if v < 0 then [45] else []) @ ds \<and> read_digits 10 ds = \<bar>v\<bar>
    \<and> ds \<noteq> [] \<and> (v \<noteq> 0 \<longrightarrow> digit_value (hd ds) \<noteq> 0)
    \<and> serial_out (console_write_hex s v) = serial_out s @ [48, 120] @ hs \<and> length hs = 16 \<and> read_digits 16 hs = v mod 2 ^ 64"
proof -
  let ?t = "console_put_byte (console_put_byte s 48) 120"
  have t: "serial_out ?t = serial_out s @ [48, 120]"
    by (simp add: console_put_byte_def serial_write_byte_def)
  obtain hs where "serial_out (console_hex_loop ?t v (4 * int 16 - 4)) = serial_out ?t @ hs" "length hs = 16" "read_digits 16 hs = v mod 16 ^ 16"
    using console_hex_loop_digits by blast
  then have "serial_out (console_write_hex s v) = serial_out s @ [48, 120] @ hs \<and> length hs = 16 \<and> read_digits 16 hs = v mod 2 ^ 64"
    using t by (simp add: console_write_hex_def)
  then show ?thesis using console_write_u64_signed [OF assms, of s] by blast
qed

theorem console_numbers_roundtrip_witness:
  "\<exists>ds. serial_out (console_write_u64 blank_machine (- 1234567890123)) = serial_out blank_machine @ [45] @ ds
    \<and> read_digits 10 ds = 1234567890123"
  using console_numbers_roundtrip [of "- 1234567890123" blank_machine] by auto

section \<open>The interrupt table\<close>

text \<open>A gate as the processor reads it: handler, selector, stack index, type.\<close>

definition read_gate :: "machine \<Rightarrow> int \<Rightarrow> int \<times> int \<times> int \<times> int" where
  "read_gate s i = (let a = symbol s ''idt_table'' + i * 16 in
     (le_load 2 (mem s) a + le_load 2 (mem s) (a + 6) * 2 ^ 16 + le_load 4 (mem s) (a + 8) * 2 ^ 32,
      le_load 2 (mem s) (a + 2), le_load 1 (mem s) (a + 4), le_load 1 (mem s) (a + 5)))"

lemma le_load_other: "a + int n \<le> b \<or> b + int k \<le> a \<Longrightarrow> le_load k (le_store n m a v) b = le_load k m b"
  by (intro le_load_cong) (auto simp: le_store_frame)

lemma split_handler: "h mod 65536 + h mod 2 ^ 64 div 65536 mod 65536 * 65536 + h mod 2 ^ 64 div 4294967296 mod 4294967296 * 4294967296
    = h mod 2 ^ 64" for h :: int
proof -
  define g where "g = h mod 2 ^ 64"
  have "h mod 65536 = g mod 65536" by (simp add: g_def mod_mod_cancel)
  moreover have "0 \<le> g" "g < 2 ^ 64" by (simp_all add: g_def)
  then have "g div 4294967296 mod 4294967296 = g div 4294967296" by (intro mod_pos_pos_trivial) (simp_all add: pos_imp_zdiv_nonneg_iff)
  moreover have "g = g div 4294967296 * 4294967296 + g mod 4294967296" by simp
  moreover have "g mod 4294967296 = g div 65536 mod 65536 * 65536 + g mod 65536" using zmod_zmult2_eq [of 65536 g 65536] by simp
  ultimately show ?thesis unfolding g_def [symmetric] by linarith
qed

lemma gate_symbol [simp]: "symbol (write_idt_gate s type i h ist) = symbol s"
  by (simp add: write_idt_gate_def Let_def)

lemma gate_bytes:
  fixes m and a v1 v2 v3 v4 v5 v6 v7 :: int
  defines "m' \<equiv> le_store 4 (le_store 4 (le_store 2 (le_store 1 (le_store 1 (le_store 2 (le_store 2 m a v1)
    (a + 2) v2) (a + 4) v3) (a + 5) v4) (a + 6) v5) (a + 8) v6) (a + 12) v7"
  shows "le_load 2 m' a = v1 mod 256 ^ 2" "le_load 2 m' (a + 2) = v2 mod 256 ^ 2" "le_load 1 m' (a + 4) = v3 mod 256 ^ 1"
    "le_load 1 m' (a + 5) = v4 mod 256 ^ 1" "le_load 2 m' (a + 6) = v5 mod 256 ^ 2" "le_load 4 m' (a + 8) = v6 mod 256 ^ 4"
  unfolding m'_def by (simp_all add: le_load_other le_load_store del: le_load.simps le_store.simps One_nat_def)

lemma gate_written:
  assumes "0 \<le> ist" "ist < 256" "0 \<le> type" "type < 256"
  shows "read_gate (write_idt_gate s type i h ist) i = (h mod 2 ^ 64, 8, ist, type)"
proof -
  let ?a = "symbol s ''idt_table'' + i * 16"
  have m: "mem (write_idt_gate s type i h ist) = le_store 4 (le_store 4 (le_store 2 (le_store 1 (le_store 1 (le_store 2
      (le_store 2 (mem s) ?a h) (?a + 2) 8) (?a + 4) ist) (?a + 5) type) (?a + 6) (h mod 2 ^ 64 div 2 ^ 16))
      (?a + 8) (h mod 2 ^ 64 div 2 ^ 32)) (?a + 12) 0"
    by (simp only: write_idt_gate_def Let_def machine.select_convs machine.update_convs) simp
  show ?thesis using split_handler [of h] assms unfolding read_gate_def Let_def gate_symbol m gate_bytes by simp
qed

lemma gate_kept:
  assumes "i \<noteq> j"
  shows "read_gate (write_idt_gate s type i h ist) j = read_gate s j"
proof -
  define a where "a = symbol s ''idt_table'' + i * 16"
  define b where "b = symbol s ''idt_table'' + j * 16"
  have ab: "a + 16 \<le> b \<or> b + 16 \<le> a" using assms by (auto simp: a_def b_def)
  have f: "mem (write_idt_gate s type i h ist) c = mem s c" if "c < a \<or> a + 16 \<le> c" for c
    using that unfolding write_idt_gate_def Let_def a_def [symmetric]
    by (auto simp: le_store_frame simp del: le_store.simps One_nat_def)
  have "le_load n (mem (write_idt_gate s type i h ist)) (b + k) = le_load n (mem s) (b + k)"
    if "0 \<le> k" "k + int n \<le> 16" for k n
    by (rule le_load_cong, rule f) (use that ab in linarith)
  from this [of 0 2] this [of 2 2] this [of 4 1] this [of 5 1] this [of 6 2] this [of 8 4]
  show ?thesis unfolding read_gate_def Let_def gate_symbol b_def by (simp del: le_load.simps One_nat_def)
qed

definition idt_gates :: "(int \<times> string \<times> int \<times> int) list" where
  "idt_gates = [(0, ''isr0'', 0, 0x8E), (8, ''isr8'', 1, 0x8E), (13, ''isr13'', 0, 0x8E), (14, ''isr14'', 0, 0x8E),
     (32, ''isr32'', 2, 0x8E), (128, ''isr128'', 0, 0xEE)]"

lemma idtr_kept:
  assumes "symbol s ''idtr'' + 10 \<le> symbol s ''idt_table'' \<or> symbol s ''idt_table'' + 4096 \<le> symbol s ''idtr''"
    and "0 \<le> i" "i < 256"
  shows "read_gate (set_idtr_asm s limit base) i = read_gate s i"
proof -
  have sym: "symbol (set_idtr_asm s limit base) = symbol s" by (simp add: set_idtr_asm_def)
  define b where "b = symbol s ''idt_table'' + i * 16"
  have b: "symbol s ''idtr'' + 10 \<le> b \<or> b + 16 \<le> symbol s ''idtr''" using assms by (auto simp: b_def)
  have f: "mem (set_idtr_asm s limit base) c = mem s c" if "c < symbol s ''idtr'' \<or> symbol s ''idtr'' + 10 \<le> c" for c
    using that unfolding set_idtr_asm_def by (auto simp: le_store_frame)
  have "le_load n (mem (set_idtr_asm s limit base)) (b + k) = le_load n (mem s) (b + k)"
    if "0 \<le> k" "k + int n \<le> 16" for k n
    by (rule le_load_cong, rule f) (use that b in linarith)
  from this [of 0 2] this [of 2 2] this [of 4 1] this [of 5 1] this [of 6 2] this [of 8 4]
  show ?thesis unfolding read_gate_def Let_def sym b_def by (simp del: le_load.simps One_nat_def)
qed

lemma idtr_written:
  "le_load 2 (mem (set_idtr_asm s limit base)) (symbol s ''idtr'') = limit mod 2 ^ 16"
  "le_load 8 (mem (set_idtr_asm s limit base)) (symbol s ''idtr'' + 2) = base mod 2 ^ 64"
  by (simp_all add: set_idtr_asm_def le_load_other le_load_store)

text \<open>
  C39: after the set-up of the interrupt table the processor finds, in each of the six
  gates the kernel uses, the address of its handler, the kernel code selector, the interrupt stack and
  the privilege the kernel means it to have (only the system call gate is open to user code), and its table
  register is loaded with the base of the table and the limit of its 256 gates.
\<close>

theorem init_idt_installs_handlers:
  assumes "symbol s ''idtr'' + 10 \<le> symbol s ''idt_table'' \<or> symbol s ''idt_table'' + 4096 \<le> symbol s ''idtr''"
  shows "list_all (\<lambda>(i, name, ist, type). read_gate (init_idt s) i = (symbol s name mod 2 ^ 64, 0x08, ist, type)) idt_gates
    \<and> idt_register (init_idt s) = (256 * 16 - 1, symbol s ''idt_table'' mod 2 ^ 64)"
proof -
  define t where "t = set_idt_gate_user (set_idt_gate (set_idt_gate (set_idt_gate (set_idt_gate (set_idt_gate s
    0 (symbol s ''isr0'') 0) 8 (symbol s ''isr8'') 1) 13 (symbol s ''isr13'') 0) 14 (symbol s ''isr14'') 0)
    32 (symbol s ''isr32'') 2) 128 (symbol s ''isr128'') 0"
  define u where "u = set_idtr_asm t (256 * 16 - 1) (symbol s ''idt_table'')"
  have sym: "symbol t = symbol s" by (simp add: t_def set_idt_gate_def set_idt_gate_user_def)
  have u: "init_idt s = load_idt_local u"
    by (simp add: init_idt_def Let_def t_def u_def set_idt_gate_def set_idt_gate_user_def)
  have "read_gate (load_idt_local u) i = read_gate u i" for i by (simp add: load_idt_local_def read_gate_def)
  then have kept: "read_gate (init_idt s) i = read_gate t i" if "0 \<le> i" "i < 256" for i
    unfolding u using idtr_kept [of t i] assms that sym by (simp add: u_def)
  have "list_all (\<lambda>(i, name, ist, type). read_gate t i = (symbol s name mod 2 ^ 64, 0x08, ist, type)) idt_gates"
    by (simp add: idt_gates_def t_def set_idt_gate_def set_idt_gate_user_def gate_kept gate_written)
  then have "list_all (\<lambda>(i, name, ist, type). read_gate (init_idt s) i = (symbol s name mod 2 ^ 64, 0x08, ist, type)) idt_gates"
    by (simp add: idt_gates_def kept)
  moreover have "symbol u = symbol t" by (simp add: u_def set_idtr_asm_def)
  then have "idt_register (init_idt s) = (256 * 16 - 1, symbol s ''idt_table'' mod 2 ^ 64)"
    unfolding u load_idt_local_def using idtr_written [of t "256 * 16 - 1" "symbol s ''idt_table''"] by (simp add: u_def)
  ultimately show ?thesis ..
qed

theorem init_idt_installs_handlers_witness:
  "list_all (\<lambda>(i, name, ist, type). read_gate (init_idt (blank_machine\<lparr>symbol := (\<lambda>n. if n = ''idtr'' then 0x2000 else 0x100000)\<rparr>)) i
    = (0x100000, 0x08, ist, type)) idt_gates
    \<and> idt_register (init_idt (blank_machine\<lparr>symbol := (\<lambda>n. if n = ''idtr'' then 0x2000 else 0x100000)\<rparr>)) = (4095, 0x100000)"
  using init_idt_installs_handlers [of "blank_machine\<lparr>symbol := (\<lambda>n. if n = ''idtr'' then 0x2000 else 0x100000)\<rparr>"]
  by (simp add: idt_gates_def)

end
