(* ===== verification/SyscallProps.thy ===== *)
theory SyscallProps
  imports Syscall SchedTick SchedProps VfsMount
begin

text \<open>
  System calls: which user buffers are accepted, what a refused buffer does, the copy of user strings, the
  choice of a descriptor number, and unknown calls.
\<close>

section \<open>User buffers\<close>

text \<open>The test in terms of the task's fields: base 11, limit 12, and the heap's base 21, limit 22 and break 23.\<close>

definition user_buffer :: "machine \<Rightarrow> int \<Rightarrow> int \<Rightarrow> int \<Rightarrow> int \<Rightarrow> bool" where
  "user_buffer s p t ptr len \<longleftrightarrow>
     tf s p t 11 \<noteq> 0 \<and> tf s p t 11 < tf s p t 12 \<and> 0 \<le> len \<and> (ptr = 0 \<longrightarrow> len = 0) \<and> tf s p t 11 \<le> ptr
     \<and> ptr \<le> i64 (ptr + len) \<and> i64 (ptr + len) \<le> tf s p t 12
     \<and> (i64 (ptr + len) \<le> tf s p t 21 \<or> tf s p t 22 \<le> ptr \<or> tf s p t 21 \<le> ptr \<and> i64 (ptr + len) \<le> tf s p t 23)"

lemma validate_user_buffer:
  assumes "sched_layout s p" "task_id t"
  shows "syscall_validate_user_buffer s p t ptr len = Some (user_buffer s p t ptr len)"
  using assms by (auto simp: syscall_validate_user_buffer_def sched_getters sched_const task_id_def user_buffer_def Let_def)

lemma in64_tf: "in64 (tf s p t k)"
  by (simp add: tf_def memory.load_in64)

lemma buffer_end:
  assumes "in64 ptr" "in64 len" "0 \<le> len"
  shows "ptr \<le> i64 (ptr + len) \<longleftrightarrow> ptr + len < 2 ^ 63" "ptr + len < 2 ^ 63 \<Longrightarrow> i64 (ptr + len) = ptr + len"
  using assms i64_cases [of "ptr + len"] by (auto simp: in64_def)

lemma user_buffer_no_wrap:
  assumes "in64 ptr" "in64 len"
  shows "user_buffer s p t ptr len \<longleftrightarrow>
     tf s p t 11 \<noteq> 0 \<and> tf s p t 11 < tf s p t 12 \<and> 0 \<le> len \<and> (ptr = 0 \<longrightarrow> len = 0) \<and> tf s p t 11 \<le> ptr \<and> ptr + len \<le> tf s p t 12
     \<and> (ptr + len \<le> tf s p t 21 \<or> tf s p t 22 \<le> ptr \<or> tf s p t 21 \<le> ptr \<and> ptr + len \<le> tf s p t 23)"
proof -
  have "tf s p t 12 < 2 ^ 63" using in64_tf [of s p t 12] by (simp add: in64_def)
  then show ?thesis using buffer_end [OF assms] unfolding user_buffer_def by (cases "0 \<le> len"; cases "ptr + len < 2 ^ 63") auto
qed

text \<open>The bytes of a buffer, and the three parts of a task's window it may use: the image below the heap, the
  heap up to the break, and what lies above the heap.\<close>

abbreviation image_part_of where "image_part_of s p t \<equiv> {tf s p t 11..<min (tf s p t 12) (tf s p t 21)}"
abbreviation heap_part_of where "heap_part_of s p t \<equiv> {max (tf s p t 11) (tf s p t 21)..<min (tf s p t 12) (tf s p t 23)}"
abbreviation stack_part_of where "stack_part_of s p t \<equiv> {max (tf s p t 11) (tf s p t 22)..<tf s p t 12}"

text \<open>C24: The test of a user buffer always returns.  A buffer of positive length is accepted exactly
  when all its bytes are in one of the three parts of the task's window, so in particular never past the
  break inside the heap and never outside the window, whatever the pointer and the length: no sum wraps.\<close>

theorem user_buffer_meets_spec:
  assumes "sched_layout s p" "task_id t" "0 < tf s p t 11" "in64 ptr" "in64 len" "0 < len"
  shows "\<exists>ok. syscall_validate_user_buffer s p t ptr len = Some ok
    \<and> (ok \<longleftrightarrow> {ptr..<ptr + len} \<subseteq> image_part_of s p t \<or> {ptr..<ptr + len} \<subseteq> heap_part_of s p t
         \<or> {ptr..<ptr + len} \<subseteq> stack_part_of s p t)"
proof -
  have sub: "{ptr..<ptr + len} \<subseteq> {a..<b} \<longleftrightarrow> a \<le> ptr \<and> ptr + len \<le> b" for a b using assms(6) by auto
  show ?thesis
    unfolding validate_user_buffer [OF assms(1,2)] user_buffer_no_wrap [OF assms(4,5)] sub using assms(3,6) by auto
qed

definition sample_user :: machine where
  "sample_user = poke [(0x112120, 0x20000000), (0x112128, 0x20040000)] (sample_sched\<lparr>active_scheduler := 0x111000\<rparr>)"


lemma load_active [simp]: "load_qword (s\<lparr>active_scheduler := x\<rparr>) a = load_qword s a"
  by (simp add: load_qword_def)

lemma sample_user_fields:
  "sq sample_user 0x111000 8 = 0x112000" "sq sample_user 0x111000 9 = 0x113000" "sq sample_user 0x111000 1 = 1"
  "tf sample_user 0x111000 1 11 = 0x20000000" "tf sample_user 0x111000 1 12 = 0x20040000" "tf sample_user 0x111000 1 9 = 1"
  "tf sample_user 0x111000 1 21 = 0x20010000" "tf sample_user 0x111000 1 22 = 0x20020000" "tf sample_user 0x111000 1 23 = 0x20010000"
  "\<And>k. k \<in> {16, 17, 18, 19} \<Longrightarrow> tf sample_user 0x111000 1 k = 0"
proof -
  show sq: "sq sample_user 0x111000 8 = 0x112000" "sq sample_user 0x111000 9 = 0x113000" "sq sample_user 0x111000 1 = 1"
    by (simp_all add: sample_user_def sample_sched_def sq_def load_put_qword load_put_qword_other i64_id in64_def)
  show "tf sample_user 0x111000 1 11 = 0x20000000" "tf sample_user 0x111000 1 12 = 0x20040000" "tf sample_user 0x111000 1 9 = 1"
    "tf sample_user 0x111000 1 21 = 0x20010000" "tf sample_user 0x111000 1 22 = 0x20020000" "tf sample_user 0x111000 1 23 = 0x20010000"
    "\<And>k. k \<in> {16, 17, 18, 19} \<Longrightarrow> tf sample_user 0x111000 1 k = 0"
    unfolding tf_def sq by (auto simp: sample_user_def sample_sched_def load_put_qword load_put_qword_other i64_id in64_def)
qed

lemma sample_user_layout: "sched_layout sample_user 0x111000"
  by (simp add: sched_layout_def sample_user_fields)

theorem user_buffer_meets_spec_witness:
  "\<exists>ok. syscall_validate_user_buffer sample_user 0x111000 1 0x2000FFFF 2 = Some ok \<and> \<not> ok"
  using user_buffer_meets_spec [OF sample_user_layout, of 1 "0x2000FFFF" 2]
  by (auto simp: task_id_def sample_user_fields in64_def)

section \<open>Refused buffers\<close>

lemma user_call:
  assumes "active_scheduler s = p" "p \<noteq> 0" "sched_layout s p" "task_id (sq s p 1)" "tf s p (sq s p 1) 9 = 1"
  shows "active_scheduler_state s = Some p" "scheduler_current_task s p = Some (sq s p 1)"
    "scheduler_task_mode s p (sq s p 1) = Some task_mode_user"
  using assms by (auto simp: active_scheduler_state_def get_active_scheduler_def sched_getters sched_const task_id_def)

text \<open>
  The answer -1 to a user task.  The call itself has done nothing; the tick that ends it either only charges the clock,
  or, when time has gone by and the scheduler's choice is another task, gives way to that task, and the answer comes with
  whatever the tasks that then run (\<open>others\<close>) leave behind.
\<close>

definition refused :: "(machine \<Rightarrow> machine option) \<Rightarrow> machine \<Rightarrow> int \<Rightarrow> (int option \<times> machine) option \<Rightarrow> bool" where
  "refused others s p r \<longleftrightarrow>
     (if sq s p 3 < current_kernel_ticks s \<and> next_task s p \<noteq> sq s p 1
      then \<exists>v. gave_way s p (next_task s p) v
        \<and> r = do { w \<leftarrow> others v; _ \<leftarrow> scheduler_current_task w p; Some (Some (- 1), w) }
      else \<exists>v. clock_only s p v \<and> r = Some (Some (- 1), v))"

lemma refused_tick:
  assumes "sched_ok s p" "sq s p 11 < 2 ^ 62" "in64 (current_kernel_ticks s)"
  shows "refused others s p (ticked others p 1 (Some (- 1, s)))"
  using timer_interrupt [OF assms, of others] unfolding refused_def
  by (auto simp: ticked_def syscall_return_with_tick_def Option.bind_assoc split: if_splits)

lemmas refuse_simps = by_mode_def exec_answer_def
  syscall_write_user_buffer_def syscall_read_user_buffer_def syscall_readdir_user_buffer_def syscall_fstat_user_buffer_def
  syscall_open_user_path_def syscall_spawn_exec_user_path_def syscall_exec_user_path_def with_user_program_def

lemma refusing_calls:
  assumes "active_scheduler s = p" "p \<noteq> 0" "sched_layout s p" "task_id (sq s p 1)" "tf s p (sq s p 1) 9 = 1"
    and "syscall_validate_user_buffer s p (sq s p 1) ptr len = Some False"
  shows "syscall_dispatch others s syscall_write_number fd ptr len a3 a4 a5 = ticked others p 1 (Some (- 1, s))"
    "syscall_dispatch others s syscall_read_number fd ptr len a3 a4 a5 = ticked others p 1 (Some (- 1, s))"
    "syscall_dispatch others s syscall_readdir_number fd ptr len a3 a4 a5 = ticked others p 1 (Some (- 1, s))"
    "len = 16 \<Longrightarrow> syscall_dispatch others s syscall_fstat_number fd ptr a2 a3 a4 a5 = ticked others p 1 (Some (- 1, s))"
    "syscall_dispatch others s syscall_open_number ptr len a2 a3 a4 a5 = ticked others p 1 (Some (- 1, s))"
    "syscall_dispatch others s syscall_spawn_exec_number ptr len a2 a3 a4 a5 = ticked others p 1 (Some (- 1, s))"
    "syscall_dispatch others s syscall_exec_number ptr len a2 a3 a4 a5 = Some (Some (- 1), s)"
  using user_call [OF assms(1-5)] assms(6) by (simp_all add: syscall_dispatch_def syscall_const refuse_simps)

text \<open>C26: A user task that passes a buffer the test refuses gets -1 from write, read, readdir, fstat,
  open, spawn and exec.  The calls do nothing else: exec returns at once in the same state; the others end with the
  tick every call ends with.  When no time has gone by the state is the same; when the scheduler's choice is still the
  task, only the clock is charged, inside the scheduler's blocks; otherwise the task gives way to the chosen one,
  whose context and address space are loaded, and gets its -1 when it is switched back to.\<close>

theorem bad_buffer_refused:
  assumes "sched_ok s p" "active_scheduler s = p" "sq s p 11 < 2 ^ 62" "in64 (current_kernel_ticks s)"
    and "tf s p (sq s p 1) 9 = task_mode_user" "syscall_validate_user_buffer s p (sq s p 1) ptr len = Some False"
  shows "refused others s p (syscall_dispatch others s syscall_write_number fd ptr len a3 a4 a5)
    \<and> refused others s p (syscall_dispatch others s syscall_read_number fd ptr len a3 a4 a5)
    \<and> refused others s p (syscall_dispatch others s syscall_readdir_number fd ptr len a3 a4 a5)
    \<and> (len = 16 \<longrightarrow> refused others s p (syscall_dispatch others s syscall_fstat_number fd ptr a2 a3 a4 a5))
    \<and> refused others s p (syscall_dispatch others s syscall_open_number ptr len a2 a3 a4 a5)
    \<and> refused others s p (syscall_dispatch others s syscall_spawn_exec_number ptr len a2 a3 a4 a5)
    \<and> syscall_dispatch others s syscall_exec_number ptr len a2 a3 a4 a5 = Some (Some (- 1), s)"
proof -
  note o = sched_okD [OF assms(1)]
  have "p \<noteq> 0" "tf s p (sq s p 1) 9 = 1" using o(6) assms(5) by (auto simp: sched_layout_def sched_const)
  note c = refusing_calls [OF assms(2) this(1) o(6,8) this(2) assms(6)]
  show ?thesis
    using c(7) refused_tick [OF assms(1,3,4), of others] by (intro conjI impI) (simp_all only: c(1-6))
qed

lemma sample_user_active: "active_scheduler sample_user = 0x111000"
  by (simp add: sample_user_def)

lemma sample_user_ok: "sched_ok sample_user 0x111000"
proof -
  note o = sched_okD [OF sample_ok]
  let ?s1 = "put_qword sample_sched 0x112120 0x20000000"
  let ?s2 = "put_qword ?s1 0x112128 0x20040000"
  have one: "task_id 1" by (simp add: task_id_def)
  have v1: "sview 0x111000 sample_sched (sq sample_sched 0x111000) ((tf sample_sched 0x111000)(1 := (tf sample_sched 0x111000 1)(11 := 0x20000000))) ?s1"
    using sview_task [OF sview_refl [OF o(6)] one, of 11 "0x20000000"] sched_write(2) [OF o(6), where t = 1 and k = 11 and v = "0x20000000"]
    by (simp add: sample_sq i64_id in64_def)
  have q1: "sq ?s1 0x111000 8 = 0x112000" using sview_sq [OF v1, of 8] by (simp add: sample_sq)
  have v2: "sview 0x111000 sample_sched (sq sample_sched 0x111000)
      ((tf sample_sched 0x111000)(1 := (tf sample_sched 0x111000 1)(11 := 0x20000000, 12 := 0x20040000))) ?s2"
    using sview_task [OF v1 one, of 12 "0x20040000"] sched_write(2) [OF sview_layout [OF v1], where t = 1 and k = 12 and v = "0x20040000"]
    by (simp add: q1 i64_id in64_def)
  have ok2: "sched_ok ?s2 0x111000" using sample_ok v2 by (rule sched_ok_view) (use o(5) in \<open>auto simp: sample_sq\<close>)
  have m: "mem sample_user = mem ?s2" by (simp add: sample_user_def put_qword_def)
  have q2: "sq ?s2 0x111000 14 = 0x114000" using sview_sq [OF v2, of 14] by (simp add: sample_sq)
  have "vfs_layout ?s2 0x114000" using sched_okD(3) [OF ok2] q2 by (simp add: vfs_apart_def)
  note w = vfs_frame(4,5) [OF this, of sample_user]
  show ?thesis by (rule ok_foreign [OF ok2]) (use m w q2 in simp_all)
qed

theorem bad_buffer_refused_witness:
  "syscall_dispatch Some sample_user syscall_exec_number 0x2000FFFF 2 0 0 0 0 = Some (Some (- 1), sample_user)
    \<and> syscall_dispatch Some sample_user syscall_write_number 0 0x2000FFFF 2 0 0 0 = Some (Some (- 1), sample_user)"
proof -
  have "syscall_validate_user_buffer sample_user 0x111000 1 0x2000FFFF 2 = Some False"
    using validate_user_buffer [OF sample_user_layout, of 1 "0x2000FFFF" 2] user_buffer_no_wrap [of "0x2000FFFF" 2 sample_user "0x111000" 1]
    by (simp add: task_id_def sample_user_fields in64_def)
  moreover have "current_kernel_ticks sample_user = 0"
    by (simp add: current_kernel_ticks_def timer_tick_count_def read_timer_irq_count_def sample_user_def sample_sched_def
        blank_machine_def put_qword_def)
  moreover have "sq sample_user 0x111000 3 = 100" "sq sample_user 0x111000 11 = 1"
    by (simp_all add: sample_user_def sample_sched_def sq_def load_put_qword load_put_qword_other i64_id in64_def)
  ultimately show ?thesis
    using bad_buffer_refused [OF sample_user_ok sample_user_active, of "0x2000FFFF" 2 Some]
    by (simp add: sample_user_fields sched_const refused_def clock_only_def in64_def)
qed

section \<open>Unknown calls\<close>

text \<open>C38: A call whose number is none of the sixteen known ones halts the kernel in every state; the
  task that made it may be a user task.\<close>

theorem unknown_syscall_halts:
  assumes "number < 1 \<or> 16 < number"
  shows "syscall_dispatch others s number a0 a1 a2 a3 a4 a5 = None"
  using assms by (auto simp: syscall_dispatch_def syscall_const bind_eq_None_conv)

theorem unknown_syscall_halts_witness:
  "scheduler_task_mode sample_user 0x111000 1 = Some task_mode_user \<and> syscall_dispatch Some sample_user 17 0 0 0 0 0 0 = None"
  using user_call(3) [OF sample_user_active _ sample_user_layout] unknown_syscall_halts [of 17 Some sample_user]
  by (simp add: sample_user_fields task_id_def)

section \<open>Descriptor numbers\<close>

definition free_fds :: "machine \<Rightarrow> int \<Rightarrow> int \<Rightarrow> int set" where
  "free_fds s p t = {fd \<in> {0, 1, 2, 3}. tf s p t (16 + fd) = 0}"

lemma fd_object:
  assumes "sched_layout s p" "task_id t" "0 \<le> fd" "fd \<le> 3"
  shows "scheduler_task_fd_object s p t fd = Some (tf s p t (16 + fd))"
    and "\<exists>u. scheduler_set_task_fd_object s p t fd d = Some u
      \<and> sview p s (sq s p) ((tf s p)(t := (tf s p t)(16 + fd := i64 d))) u"
proof -
  have slot: "task_fd_slot fd = 16 + fd" using assms(3,4) by (auto simp: task_fd_slot_def sched_const)
  show "scheduler_task_fd_object s p t fd = Some (tf s p t (16 + fd))"
    using assms slot by (simp add: scheduler_task_fd_object_def sched_getters sched_const task_id_def)
  show "\<exists>u. scheduler_set_task_fd_object s p t fd d = Some u
      \<and> sview p s (sq s p) ((tf s p)(t := (tf s p t)(16 + fd := i64 d))) u"
    using sview_task [OF sview_refl [OF assms(1)] assms(2), of "16 + fd" d] assms slot
    by (auto simp: scheduler_set_task_fd_object_def sched_getters sched_const simp del: sched_write)
qed

text \<open>Only the slot of descriptor number \<open>f\<close> of task \<open>t\<close> has changed, to \<open>d\<close>.\<close>

definition fd_taken :: "machine \<Rightarrow> int \<Rightarrow> int \<Rightarrow> int \<Rightarrow> int \<Rightarrow> machine \<Rightarrow> bool" where
  "fd_taken s p t f d u \<longleftrightarrow> sview p s (sq s p) ((tf s p)(t := (tf s p t)(16 + f := i64 d))) u"

lemma alloc_fd_from:
  assumes "sched_layout s p" "task_id t" "fd \<le> 3"
  shows "if \<exists>f \<in> free_fds s p t. f \<le> fd
    then \<exists>f u. alloc_task_fd_from s p t d fd = Some (f, u) \<and> f \<in> free_fds s p t \<and> f \<le> fd \<and> (\<forall>g \<in> free_fds s p t. g \<le> fd \<longrightarrow> g \<le> f)
      \<and> fd_taken s p t f d u
    else alloc_task_fd_from s p t d fd = Some (- 1, s)"
  using assms
proof (induction s p t d fd rule: alloc_task_fd_from.induct)
  case (1 s p t d fd)
  consider "fd < 0" | "0 \<le> fd" "tf s p t (16 + fd) = 0" | "0 \<le> fd" "tf s p t (16 + fd) \<noteq> 0" by linarith
  then show ?case
  proof cases
    case 1
    then show ?thesis by (auto simp: alloc_task_fd_from.simps [of s p t d fd] free_fds_def)
  next
    case 2
    then have "fd \<in> free_fds s p t" using "1.prems"(3) by (auto simp: free_fds_def)
    moreover obtain u where u: "scheduler_set_task_fd_object s p t fd d = Some u"
      "fd_taken s p t fd d u" using fd_object(2) [OF "1.prems"(1,2) 2(1) "1.prems"(3)] unfolding fd_taken_def by blast
    moreover have "alloc_task_fd_from s p t d fd = Some (fd, u)"
      using 2 u(1) fd_object(1) [OF "1.prems"(1,2) 2(1) "1.prems"(3)] by (simp add: alloc_task_fd_from.simps [of s p t d fd])
    ultimately have "fd \<in> free_fds s p t \<and> (\<exists>f u. alloc_task_fd_from s p t d fd = Some (f, u) \<and> f \<in> free_fds s p t \<and> f \<le> fd
      \<and> (\<forall>g \<in> free_fds s p t. g \<le> fd \<longrightarrow> g \<le> f) \<and> fd_taken s p t f d u)" by blast
    moreover from this have "\<exists>f \<in> free_fds s p t. f \<le> fd" by blast
    ultimately show ?thesis by (simp only: if_True)
  next
    case 3
    have o: "scheduler_task_fd_object s p t fd = Some (tf s p t (16 + fd))" using fd_object(1) [OF "1.prems"(1,2) 3(1) "1.prems"(3)] .
    have run: "alloc_task_fd_from s p t d fd = alloc_task_fd_from s p t d (fd - 1)"
      using 3 o by (simp add: alloc_task_fd_from.simps [of s p t d fd])
    have below: "g \<le> fd \<longleftrightarrow> g \<le> fd - 1" if "g \<in> free_fds s p t" for g using that 3(2) by (cases "g = fd") (auto simp: free_fds_def)
    have "fd - 1 \<le> 3" using "1.prems"(3) by simp
    from "1.IH" [OF _ o 3(2) "1.prems"(1,2) this] 3(1) show ?thesis unfolding run using below by (auto split: if_splits)
  qed
qed

text \<open>C27: A new descriptor of a task gets the highest free number among 3, 2, 1, 0, and nothing else in
  the task table changes; the call gives -1 and changes nothing exactly when all four are taken.\<close>

theorem task_fd_is_highest_free:
  assumes "sched_layout s p" "task_id t"
  shows "if free_fds s p t = {} then syscall_alloc_task_fd s p t d = Some (- 1, s)
    else \<exists>u. syscall_alloc_task_fd s p t d = Some (Max (free_fds s p t), u)
      \<and> fd_taken s p t (Max (free_fds s p t)) d u"
proof (cases "free_fds s p t = {}")
  case True
  then show ?thesis using alloc_fd_from [OF assms, of 3 d] by (simp add: syscall_alloc_task_fd_def)
next
  case False
  have le: "g \<le> 3" if "g \<in> free_fds s p t" for g using that by (auto simp: free_fds_def)
  then obtain f u where f: "syscall_alloc_task_fd s p t d = Some (f, u)" "f \<in> free_fds s p t" "\<forall>g \<in> free_fds s p t. g \<le> f"
    "fd_taken s p t f d u"
    using alloc_fd_from [OF assms, of 3 d] False by (auto simp: syscall_alloc_task_fd_def split: if_splits)
  have "finite (free_fds s p t)" by (simp add: free_fds_def)
  then have "Max (free_fds s p t) = f" using f(2,3) by (simp add: Max_eqI)
  then show ?thesis using f False by auto
qed

theorem task_fd_is_highest_free_witness:
  "\<exists>u. syscall_alloc_task_fd sample_user 0x111000 1 7 = Some (3, u) \<and> tf u 0x111000 1 19 = 7"
proof -
  have all: "free_fds sample_user 0x111000 1 = {0, 1, 2, 3}" by (auto simp: free_fds_def sample_user_fields)
  have "Max {0, 1, 2, 3 :: int} = 3" by simp
  then show ?thesis
    using task_fd_is_highest_free [OF sample_user_layout, of 1 7] unfolding all
    by (auto simp: task_id_def fd_taken_def sview_def i64_id in64_def)
qed


section \<open>Copying strings\<close>

text \<open>A string of \<open>n\<close> bytes at \<open>ptr\<close> that a user task may pass: ended by a zero within 64 bytes, all inside its memory.\<close>

definition user_string :: "machine \<Rightarrow> int \<Rightarrow> int \<Rightarrow> int \<Rightarrow> nat \<Rightarrow> bool" where
  "user_string s p t ptr n \<longleftrightarrow> n < 64 \<and> (\<forall>i < n. load_byte s (ptr + int i) \<noteq> 0) \<and> load_byte s (ptr + int n) = 0
     \<and> user_buffer s p t ptr (int n + 1)"

lemma user_buffer_shorter:
  assumes "user_buffer s p t ptr m" "in64 ptr" "in64 m" "0 < k" "k \<le> m"
  shows "user_buffer s p t ptr k"
proof -
  have "in64 k" using assms(3-5) by (simp add: in64_def)
  then show ?thesis using assms user_buffer_no_wrap [OF assms(2)] by auto
qed

lemma copy_string_bytes:
  assumes "ptr \<noteq> 0" "n < 64" "0 < heap_ptr s" "heap_ptr s + 64 \<le> heap_end s" "heap_end s < 2 ^ 62"
    and "{ptr..<ptr + 64} \<inter> {heap_ptr s..<heap_ptr s + 64} = {}"
  shows "\<exists>u. copy_cstring s ptr (int n + 1) (int n) = Some ((heap_ptr s, int n), u)
    \<and> bytes_at u (heap_ptr s) n = bytes_at s ptr n \<and> load_byte u (heap_ptr s + int n) = 0
    \<and> (\<forall>a. a < heap_ptr s \<or> heap_ptr s + 64 \<le> a \<longrightarrow> mem u a = mem s a)"
proof -
  let ?h = "heap_ptr s"
  define s1 where "s1 = s\<lparr>heap_ptr := ?h + round16 (int n + 1)\<rparr>"
  have "round16 (int n + 1) \<le> 64" using assms(2) by (simp add: round16_def) presburger
  then have al: "alloc_bytes s (int n + 1) = Some (?h, s1)" unfolding s1_def using assms(3-5) by (intro alloc_bytes_eq) auto
  let ?P = "\<lambda>i u. writes_in {?h..<?h + i} s1 u \<and> (\<forall>j. 0 \<le> j \<and> j < i \<longrightarrow> load_byte u (?h + j) = load_byte s (ptr + j))"
  have "\<exists>u. for_range 0 (int n) (\<lambda>copied s. do {
       b \<leftarrow> load_byte_region s ptr (int n + 1) copied;
       Some (store_byte s (?h + copied) b) }) s1 = Some u \<and> ?P (int n) u"
  proof (rule for_range_total [where P = ?P])
    fix i u assume i: "0 \<le> i" "i < int n" and P: "?P i u"
    have "ptr + i \<in> {ptr..<ptr + 64}" using i assms(2) by simp
    then have "ptr + i \<notin> {?h..<?h + 64}" using assms(6) by blast
    then have "load_byte u (ptr + i) = load_byte s1 (ptr + i)"
      using i assms(2) by (intro writes_in_load_byte [OF conjunct1 [OF P]]) auto
    then have b: "load_byte u (ptr + i) = load_byte s (ptr + i)" by (simp add: s1_def load_byte_def)
    have "writes_in {?h..<?h + (i + 1)} s1 (store_byte u (?h + i) (load_byte u (ptr + i)))"
      using writes_in_mono [OF conjunct1 [OF P], of "{?h..<?h + (i + 1)}"] i by (intro writes_in_trans [OF _ writes_in_byte]) auto
    moreover have "load_byte (store_byte u (?h + i) (load_byte u (ptr + i))) (?h + j) = load_byte s (ptr + j)"
      if "0 \<le> j" "j < i + 1" for j using that P b load_byte_bounded [of s "ptr + i"] by (auto simp: load_store_byte)
    ultimately show "\<exists>v. (do { b \<leftarrow> load_byte_region u ptr (int n + 1) i; Some (store_byte u (?h + i) b) }) = Some v \<and> ?P (i + 1) v"
      using i assms(1) by (simp add: region_simps)
  qed simp_all
  then obtain u where u: "for_range 0 (int n) (\<lambda>copied s. do {
       b \<leftarrow> load_byte_region s ptr (int n + 1) copied; Some (store_byte s (?h + copied) b) }) s1 = Some u" "?P (int n) u" by blast
  let ?v = "store_byte u (?h + int n) 0"
  have "bytes_at ?v ?h n = bytes_at s ptr n" using u(2) by (intro nth_equalityI) (auto simp: load_store_byte)
  moreover have "mem ?v a = mem s a" if "a < ?h \<or> ?h + 64 \<le> a" for a
    using u(2) that assms(2) by (auto simp: writes_in_def store_byte_def s1_def)
  ultimately show ?thesis using al u(1) by (simp add: copy_cstring_def load_store_byte)
qed

lemma copy_user_step:
  assumes "sched_layout s p" "task_id t" "ptr \<noteq> 0" "k < 64"
  shows "copy_user_cstring_from s p t ptr (int k) =
    (if \<not> user_buffer s p t ptr (int k + 1) then Some ((0, 0), s)
     else if load_byte s (ptr + int k) = 0 then copy_cstring s ptr (int k + 1) (int k)
     else copy_user_cstring_from s p t ptr (int (Suc k)))"
proof -
  have "int (Suc k) = int k + 1" by simp
  then show ?thesis using assms(3,4) unfolding copy_user_cstring_from.simps [of s p t ptr "int k"] validate_user_buffer [OF assms(1,2)]
    by (simp add: syscall_const region_simps add.commute)
qed

lemma copy_user_from_found:
  assumes "sched_layout s p" "task_id t" "in64 ptr" "ptr \<noteq> 0" "user_string s p t ptr n" "k \<le> n"
  shows "copy_user_cstring_from s p t ptr (int k) = copy_cstring s ptr (int n + 1) (int n)"
  using assms(6)
proof (induction "n - k" arbitrary: k)
  case 0
  then have "k = n" by simp
  then show ?case using assms(5) copy_user_step [OF assms(1,2,4), of k] by (simp add: user_string_def)
next
  case (Suc m)
  then have k: "k < n" "k < 64" "load_byte s (ptr + int k) \<noteq> 0" using assms(5) by (auto simp: user_string_def)
  have ub: "user_buffer s p t ptr (int n + 1)" "n < 64" using assms(5) unfolding user_string_def by blast+
  have "in64 (int n + 1)" using ub(2) by (simp add: in64_def)
  then have "user_buffer s p t ptr (int k + 1)" by (rule user_buffer_shorter [OF ub(1) assms(3)]) (use k(1) in simp_all)
  moreover have "copy_user_cstring_from s p t ptr (int (Suc k)) = copy_cstring s ptr (int n + 1) (int n)"
    using Suc k(1) by (intro Suc.hyps(1)) auto
  ultimately show ?case using copy_user_step [OF assms(1,2,4) k(2)] k(3) by (simp only: if_True if_False simp_thms)
qed

lemma copy_user_from_missing:
  assumes "sched_layout s p" "task_id t" "ptr \<noteq> 0" "\<nexists>n. user_string s p t ptr n" "\<forall>i < k. load_byte s (ptr + int i) \<noteq> 0"
  shows "copy_user_cstring_from s p t ptr (int k) = Some ((0, 0), s)"
  using assms(5)
proof (induction "64 - k" arbitrary: k)
  case 0
  then show ?case by (simp add: copy_user_cstring_from.simps [of s p t ptr "int k"] syscall_const)
next
  case (Suc m)
  then have k: "k < 64" by simp
  show ?case
  proof (cases "user_buffer s p t ptr (int k + 1)")
    case True
    then have b: "load_byte s (ptr + int k) \<noteq> 0" using assms(4) Suc.prems k by (auto simp: user_string_def)
    then have "copy_user_cstring_from s p t ptr (int (Suc k)) = Some ((0, 0), s)"
      using Suc by (intro Suc.hyps(1)) (auto simp: less_Suc_eq)
    then show ?thesis using copy_user_step [OF assms(1-3) k] True b by (simp only: if_True if_False simp_thms)
  qed (use copy_user_step [OF assms(1-3) k] in simp)
qed

text \<open>C25: A string a user task passes is copied to fresh kernel memory with its length and a closing zero,
  and nothing else changes, exactly when it ends within 64 bytes inside the task's memory; otherwise the
  copy gives the null pointer, and nothing at all changes.  The copy always returns and never reads past the
  string.\<close>

theorem user_string_copied:
  assumes "sched_layout s p" "task_id t" "in64 ptr" "ptr \<noteq> 0"
    and "0 < heap_ptr s" "heap_ptr s + 64 \<le> heap_end s" "heap_end s < 2 ^ 62"
    and "{ptr..<ptr + 64} \<inter> {heap_ptr s..<heap_ptr s + 64} = {}"
  shows "(\<forall>n. user_string s p t ptr n \<longrightarrow> (\<exists>u. syscall_copy_user_cstring s p t ptr = Some ((heap_ptr s, int n), u)
        \<and> bytes_at u (heap_ptr s) n = bytes_at s ptr n \<and> load_byte u (heap_ptr s + int n) = 0
        \<and> (\<forall>a. a < heap_ptr s \<or> heap_ptr s + 64 \<le> a \<longrightarrow> mem u a = mem s a)))
    \<and> ((\<nexists>n. user_string s p t ptr n) \<longrightarrow> syscall_copy_user_cstring s p t ptr = Some ((0, 0), s))"
proof (intro conjI allI impI)
  fix n assume n: "user_string s p t ptr n"
  then have "n < 64" by (simp add: user_string_def)
  from copy_string_bytes [OF assms(4) this assms(5-8)] copy_user_from_found [OF assms(1-4) n, of 0] assms(4)
  show "\<exists>u. syscall_copy_user_cstring s p t ptr = Some ((heap_ptr s, int n), u)
        \<and> bytes_at u (heap_ptr s) n = bytes_at s ptr n \<and> load_byte u (heap_ptr s + int n) = 0
        \<and> (\<forall>a. a < heap_ptr s \<or> heap_ptr s + 64 \<le> a \<longrightarrow> mem u a = mem s a)"
    by (simp add: syscall_copy_user_cstring_def)
next
  assume "\<nexists>n. user_string s p t ptr n"
  then show "syscall_copy_user_cstring s p t ptr = Some ((0, 0), s)"
    using copy_user_from_missing [OF assms(1,2,4), of 0] assms(4) by (simp add: syscall_copy_user_cstring_def)
qed

theorem user_string_copied_witness:
  "\<exists>u. syscall_copy_user_cstring (store_bytes sample_user 0x20000100 [0x68, 0x69, 0]) 0x111000 1 0x20000100 = Some ((0x110000, 2), u)
    \<and> bytes_at u 0x110000 2 = [0x68, 0x69]"
proof -
  define s where "s = store_bytes sample_user 0x20000100 [0x68, 0x69, 0]"
  have b: "load_byte s 0x20000100 = 0x68" "load_byte s 0x20000101 = 0x69" "load_byte s 0x20000102 = 0"
    by (simp_all add: s_def load_store_byte)
  have w: "writes_in {0x20000100..<0x20000103} sample_user s"
    unfolding s_def store_bytes.simps by (intro writes_in_trans [OF writes_in_trans [OF writes_in_byte writes_in_byte] writes_in_byte]) auto
  have ld: "load_qword s a = load_qword sample_user a" if "a + 8 \<le> 0x20000100" for a
    using that by (intro writes_in_load [OF w]) auto
  have q: "sq s 0x111000 8 = 0x112000" "sq s 0x111000 9 = 0x113000"
    using sample_user_fields(1,2) by (simp_all add: sq_def ld)
  have f: "tf s 0x111000 1 k = tf sample_user 0x111000 1 k" if "k < 25" for k
    unfolding tf_def q sample_user_fields using that by (simp add: ld)
  have "user_string s 0x111000 1 0x20000100 2"
    unfolding user_string_def using b by (auto simp: less_2_cases_iff user_buffer_no_wrap in64_def f sample_user_fields)
  moreover have "sched_layout s 0x111000" by (simp add: sched_layout_def q)
  moreover have "heap_ptr s = 0x110000" "heap_end s = 0x180000"
    using writes_in_fields(2,3) [OF w] by (simp_all add: sample_user_def sample_sched_def blank_machine_def)
  moreover have "[0..<2] = [0, 1 :: nat]" by (simp add: upt_rec)
  then have "bytes_at s 0x20000100 2 = [0x68, 0x69]" using b by (simp add: bytes_at_def)
  ultimately show ?thesis
    using user_string_copied [of s "0x111000" 1 "0x20000100"] unfolding s_def [symmetric] by (auto simp: task_id_def in64_def)
qed

end
