(* ===== verification/ShellProps.thy ===== *)
theory ShellProps
  imports Shell VfsPath
begin

text \<open>
  The shell: what a path argument resolves to, and the bounds of the line being edited.
\<close>

section \<open>Paths\<close>

text \<open>What a path means in a working directory.\<close>

definition resolved :: "int list \<Rightarrow> int list \<Rightarrow> int list" where
  "resolved cwd path = (if hd path = 47 then path else if cwd = [47] then 47 # path else cwd @ 47 # path)"

lemma copy_terminated:
  assumes "{d..<d + int n + 1} \<inter> {r..<r + int n} = {}"
  shows "bytes_at (shell_copy_buffer s d r (int n)) d (Suc n) = bytes_at s r n @ [0]"
    and "writes_in {d..<d + int n + 1} s (shell_copy_buffer s d r (int n))"
proof -
  have "{d..<d + int n} \<inter> {r..<r + int n} = {}" using assms by auto
  note c = copy_bytes_at [OF this, of s]
  have "bytes_at (store_byte u (d + int n) 0) d n = bytes_at u d n" for u
    by (rule bytes_at_mem) (simp add: store_byte_def)
  then show "bytes_at (shell_copy_buffer s d r (int n)) d (Suc n) = bytes_at s r n @ [0]"
    by (simp add: shell_copy_buffer_def bytes_at_Suc c load_store_byte)
  have "writes_in {d..<d + int n + 1} s (copy_bytes s d r (int n))"
    using copy_bytes_writes [of d n s r] by (rule writes_in_mono) auto
  then show "writes_in {d..<d + int n + 1} s (shell_copy_buffer s d r (int n))"
    unfolding shell_copy_buffer_def by (rule writes_in_trans) (intro writes_in_byte, simp)
qed

text \<open>Appending the path after a prefix of \<open>k\<close> bytes.\<close>

lemma append_path:
  assumes "bytes_at t d k = pre" "writes_in {d..<d + int k + int n + 1} s t" "{d..<d + int k + int n + 1} \<inter> {r..<r + int n} = {}"
  defines "u \<equiv> shell_copy_buffer t (d + int k) r (int n)"
  shows "bytes_at u d (k + Suc n) = pre @ bytes_at s r n @ [0]" "writes_in {d..<d + int k + int n + 1} s u"
proof -
  have dis: "{d + int k..<d + int k + int n + 1} \<inter> {r..<r + int n} = {}" using assms(3) by (auto simp: disjoint_iff)
  note c = copy_terminated [OF dis, of t, folded u_def]
  have "bytes_at u d k = bytes_at t d k" by (rule bytes_at_cong [OF c(2)]) auto
  moreover have "bytes_at t r n = bytes_at s r n" using assms(3) by (intro bytes_at_cong [OF assms(2)]) blast
  ultimately show "bytes_at u d (k + Suc n) = pre @ bytes_at s r n @ [0]" using assms(1) by (simp only: bytes_at_add c(1))
  have "writes_in {d..<d + int k + int n + 1} t u" using c(2) by (rule writes_in_mono) auto
  with assms(2) show "writes_in {d..<d + int k + int n + 1} s u" by (rule writes_in_trans)
qed

text \<open>C29: A path argument is resolved against the working directory: an absolute path is itself, a
  relative one follows the directory and a slash, with one slash only under the root.  The result is in the path
  buffer with a closing zero, its length is returned, and nothing else is written.  Nothing bounds it by the
  capacity of the buffer, 128: a directory and a relative path of 64 bytes each already go past it.\<close>

theorem shell_path_resolves:
  fixes s :: machine
  assumes "0 < n" "0 < m" "{d..<d + int m + int n + 2} \<inter> ({r..<r + int n} \<union> {c..<c + int m}) = {}"
  shows "\<exists>u res. res = resolved (bytes_at s c m) (bytes_at s r n) \<and> shell_resolve_path s c (int m) r (int n) d = (int (length res), u)
    \<and> bytes_at u d (length res + 1) = res @ [0] \<and> writes_in {d..<d + int (length res) + 1} s u
    \<and> (m = 64 \<and> n = 64 \<and> load_byte s r \<noteq> 47 \<longrightarrow> shell_path_capacity < int (length res))"
proof -
  have hd: "hd (bytes_at s r n) = load_byte s r" using assms(1) by (cases n) (auto simp: bytes_at_def upt_conv_Cons simp del: upt_Suc)
  have dr: "{d..<d + int m + int n + 2} \<inter> {r..<r + int n} = {}" and dc: "{d..<d + int m + int n + 2} \<inter> {c..<c + int m} = {}"
    using assms(3) by blast+
  have one: "bytes_at s c m = [47] \<longleftrightarrow> m = 1 \<and> load_byte s c = 47"
    by (cases m) (auto simp: bytes_at_def upt_conv_Cons simp del: upt_Suc)
  consider "load_byte s r = 47" | "load_byte s r \<noteq> 47" "m = 1 \<and> load_byte s c = 47" | "load_byte s r \<noteq> 47" "\<not> (m = 1 \<and> load_byte s c = 47)" by blast
  then show ?thesis
  proof cases
    case 1
    then have "{d..<d + int n + 1} \<inter> {r..<r + int n} = {}" using dr by (auto simp: disjoint_iff)
    note c = copy_terminated [OF this, of s]
    then show ?thesis using 1 c assms(1) by (simp add: shell_resolve_path_def resolved_def hd)
  next
    case 2
    define t where "t = store_byte s d 47"
    have run: "shell_resolve_path s c (int m) r (int n) d = (int (Suc n), shell_copy_buffer t (d + int 1) r (int n))"
      using 2 assms(1) by (simp add: shell_resolve_path_def t_def shell_copy_buffer_def Let_def ac_simps)
    have "bytes_at t d 1 = [47]" by (simp add: bytes_at_def t_def load_store_byte)
    moreover have "writes_in {d..<d + int 1 + int n + 1} s t" unfolding t_def by (intro writes_in_byte) simp
    moreover have "{d..<d + int 1 + int n + 1} \<inter> {r..<r + int n} = {}" using dr 2 by (auto simp: disjoint_iff)
    ultimately have u: "bytes_at (shell_copy_buffer t (d + int 1) r (int n)) d (1 + Suc n) = [47] @ bytes_at s r n @ [0]"
      "writes_in {d..<d + int 1 + int n + 1} s (shell_copy_buffer t (d + int 1) r (int n))" by (rule append_path)+
    have "resolved (bytes_at s c m) (bytes_at s r n) = 47 # bytes_at s r n" using 2 one by (simp add: resolved_def hd)
    moreover have "writes_in {d..<d + int (Suc n) + 1} s (shell_copy_buffer t (d + int 1) r (int n))"
      using u(2) by (rule writes_in_mono) simp
    ultimately show ?thesis using run u(1) 2 by simp
  next
    case 3
    define t where "t = store_byte (shell_copy_buffer s d c (int m)) (d + int m) 47"
    have run: "shell_resolve_path s c (int m) r (int n) d = (int (m + Suc n), shell_copy_buffer t (d + int (Suc m)) r (int n))"
      using 3 assms(1,2) by (simp add: shell_resolve_path_def t_def shell_copy_buffer_def Let_def ac_simps)
    have "{d..<d + int m + 1} \<inter> {c..<c + int m} = {}" using dc by (auto simp: disjoint_iff)
    note c = copy_terminated [OF this, of s]
    have "bytes_at t d m = bytes_at (shell_copy_buffer s d c (int m)) d m"
      unfolding t_def by (rule bytes_at_mem) (simp add: store_byte_def)
    also have "\<dots> = bytes_at s c m" using c(1) by (simp add: bytes_at_Suc)
    finally have "bytes_at t d (Suc m) = bytes_at s c m @ [47]" by (simp add: bytes_at_Suc t_def load_store_byte)
    moreover have "writes_in {d..<d + int (Suc m) + int n + 1} s (shell_copy_buffer s d c (int m))" using c(2) by (rule writes_in_mono) auto
    then have "writes_in {d..<d + int (Suc m) + int n + 1} s t" unfolding t_def by (rule writes_in_trans) (intro writes_in_byte, simp)
    moreover have "{d..<d + int (Suc m) + int n + 1} \<inter> {r..<r + int n} = {}" using dr by (auto simp: disjoint_iff)
    ultimately have u: "bytes_at (shell_copy_buffer t (d + int (Suc m)) r (int n)) d (Suc m + Suc n) = (bytes_at s c m @ [47]) @ bytes_at s r n @ [0]"
      "writes_in {d..<d + int (Suc m) + int n + 1} s (shell_copy_buffer t (d + int (Suc m)) r (int n))" by (rule append_path)+
    have "resolved (bytes_at s c m) (bytes_at s r n) = bytes_at s c m @ 47 # bytes_at s r n" using 3 one by (auto simp: resolved_def hd)
    moreover have "writes_in {d..<d + int (m + Suc n) + 1} s (shell_copy_buffer t (d + int (Suc m)) r (int n))"
      using u(2) by (rule writes_in_mono) simp
    ultimately show ?thesis using run u(1) by (simp add: shell_path_capacity_def)
  qed
qed

theorem shell_path_resolves_witness:
  "\<exists>u. shell_resolve_path (store_bytes (store_bytes blank_machine 100 [47, 97]) 200 [98, 99]) 100 2 200 2 300 = (5, u)
    \<and> bytes_at u 300 6 = [47, 97, 47, 98, 99, 0]"
proof -
  define s where "s = store_bytes (store_bytes blank_machine 100 [47, 97]) 200 [98, 99]"
  have "[0..<2] = [0, 1 :: nat]" by (simp add: upt_rec)
  then have b: "bytes_at s 100 2 = [47, 97]" "bytes_at s 200 2 = [98, 99]" by (simp_all add: s_def bytes_at_def load_store_byte)
  have dis: "{300..<306} \<inter> ({200..<202} \<union> {100..<102 :: int}) = {}" by auto
  show ?thesis
    using shell_path_resolves [of 2 2 300 200 100 s] dis b unfolding s_def [symmetric]
    by (auto simp: resolved_def eval_nat_numeral)
qed

section \<open>The line editor\<close>

lemma input_byte_bounded:
  assumes "shell_input_byte others line_buf read_buf io_buf stat_buf path_buf cwd_buf cwd_len_ptr i (l, s) = Some (l', s')"
    and "0 \<le> l" "l < shell_line_capacity"
  shows "0 \<le> l' \<and> l' < shell_line_capacity"
  using assms by (auto simp: shell_input_byte_def Let_def shell_line_capacity_def bind_eq_Some_conv split: if_splits prod.splits)

lemma input_bounded:
  assumes "for_range 0 n (shell_input_byte others line_buf read_buf io_buf stat_buf path_buf cwd_buf cwd_len_ptr) (l, s) = Some (l', s')"
    and "0 \<le> l" "l < shell_line_capacity"
  shows "0 \<le> l' \<and> l' < shell_line_capacity"
proof (cases "0 \<le> n")
  case True
  have "(\<lambda>(l, s). 0 \<le> l \<and> l < shell_line_capacity) (l', s')"
    by (rule for_range_inv [OF assms(1), where P = "\<lambda>i (l, s). 0 \<le> l \<and> l < shell_line_capacity"])
      (use assms True input_byte_bounded in auto)
  then show ?thesis by simp
qed (use assms in simp)

text \<open>C30: Whatever bytes arrive, in any number of rounds, the length of the line being edited stays
  between zero and 127, so the line and its closing zero fit the line buffer.\<close>

theorem shell_line_bounded:
  assumes "0 \<le> l" "l < shell_line_capacity"
  shows "(\<forall>n l' s'. for_range 0 n (shell_input_byte others line_buf read_buf io_buf stat_buf path_buf cwd_buf cwd_len_ptr) (l, s)
        = Some (l', s') \<longrightarrow> 0 \<le> l' \<and> l' < shell_line_capacity)
    \<and> (\<forall>rounds l' s'. shell_rounds rounds others line_buf read_buf io_buf stat_buf path_buf cwd_buf cwd_len_ptr (l, s)
        = Some (l', s') \<longrightarrow> 0 \<le> l' \<and> l' < shell_line_capacity)"
proof (intro conjI allI impI)
  fix rounds l' s'
  assume "shell_rounds rounds others line_buf read_buf io_buf stat_buf path_buf cwd_buf cwd_len_ptr (l, s) = Some (l', s')"
  then have "0 \<le> l' \<and> l' < shell_line_capacity" using assms
  proof (induction rounds arbitrary: l s)
    case (Suc rounds)
    then obtain l1 s1 where r: "shell_round others line_buf read_buf io_buf stat_buf path_buf cwd_buf cwd_len_ptr (l, s) = Some (l1, s1)"
      "shell_rounds rounds others line_buf read_buf io_buf stat_buf path_buf cwd_buf cwd_len_ptr (l1, s1) = Some (l', s')"
      by (auto simp: bind_eq_Some_conv)
    have "0 \<le> l1 \<and> l1 < shell_line_capacity"
      using r(1) Suc.prems input_bounded by (auto simp: shell_round_def bind_eq_Some_conv)
    then show ?case using Suc.IH [OF r(2)] by simp
  qed simp
  then show "0 \<le> l'" "l' < shell_line_capacity" by simp_all
qed (use input_bounded assms in blast)+

theorem shell_line_bounded_witness:
  "\<exists>s'. for_range 0 2 (shell_input_byte Some 100 300 0 0 0 0 0) (127, store_bytes blank_machine 300 [65, 8]) = Some (126, s')
    \<and> 0 \<le> (126 :: int) \<and> 126 < shell_line_capacity"
proof -
  have "\<exists>s'. for_range 0 2 (shell_input_byte Some 100 300 0 0 0 0 0) (127, store_bytes blank_machine 300 [65, 8]) = Some (126, s')"
    by (simp add: for_range_step shell_input_byte_def load_store_byte shell_line_capacity_def)
  then show ?thesis
    using shell_line_bounded [of 127 Some 100 300 0 0 0 0 0 "store_bytes blank_machine 300 [65, 8]"] by (auto simp: shell_line_capacity_def)
qed

end
