(* ===== verification/Spec2Isabelle.thy ===== *)
theory Spec2Isabelle
  imports MemoryBoot KernelProps VfsMount DeviceProps SyscallProps ShellProps
begin

text \<open>
  A verification of the pco_os kernel, the Python sources under \<^verbatim>\<open>src/src/kernel/\<close> that Codon compiles to a
  freestanding x86-64 kernel, and of the script \<^verbatim>\<open>src/scripts/build-initramfs.py\<close> that packs its file system.

  \<^bold>\<open>The program.\<close>  A UEFI loader hands a block of boot information to \<open>kernel_main\<close>.  The kernel mounts the initramfs
  in an in-memory file system, builds a physical page allocator from the firmware's memory map, moves to page tables
  of its own, programs the local interrupt controller, and starts a scheduler of eight tasks with an idle task, two
  kernel tasks and user programs loaded from ELF files.  User programs and the serial shell reach files, tasks and the
  clock through system calls; the timer interrupt charges ticks and preempts user tasks.

  \<^bold>\<open>The machine.\<close>  \<open>Machine\<close> has one record, \<open>machine\<close>: a byte-addressed memory, the early heap, CR3, the kernel stack of
  the task state segment, the interrupt table register, the saved registers, device registers, the serial line in both directions.  All state of the
  kernel lives in that memory, in blocks of quadwords reached through checked accessors, exactly as in the sources:
  \<open>load_qword_region\<close> and its companions are the functions of \<^verbatim>\<open>ksupport.py\<close>.  A function that can end in \<open>panic\<close>
  returns an option and \<^const>\<open>None\<close> is the halted kernel; the messages are kept as arguments but not told apart.
  Integers are Codon's 64-bit integers: values of type \<^typ>\<open>int\<close> in range, with the wrap-around \<open>i64\<close> written where a
  sum can leave the range.  A \<open>while\<close> loop that counts is \<open>for_range\<close>, with a rule for total correctness; a loop that
  waits for a device is a \<open>partial_function\<close> into option, so not returning is \<^const>\<open>None\<close>.

  \<^bold>\<open>Theories and sources.\<close>
  \<^item> \<open>Prelude\<close>, \<open>Machine\<close>: integers, masks, loops; \<^verbatim>\<open>khal.py\<close>, \<^verbatim>\<open>ksupport.py\<close>.  The locale \<open>qword_memory\<close> is the
    interface of a memory of quadwords, interpreted on \<open>load_qword\<close> and \<open>put_qword\<close>.
  \<^item> \<open>Console\<close>, \<open>Boot\<close>: \<^verbatim>\<open>kconsole.py\<close>, \<^verbatim>\<open>kboot.py\<close>.
  \<^item> \<open>Pmm\<close>, \<open>PmmInit\<close>: the page allocator of \<^verbatim>\<open>kmemory.py\<close>, its abstraction to a record of regions and recycled pages,
    the locale \<open>page_allocator\<close> with its interpretation, initialisation from the memory map, runs of clients.
  \<^item> \<open>Vmm\<close>, \<open>Paging\<close>, \<open>AddressSpace\<close>, \<open>TaskSpace\<close>, \<open>KernelSpace\<close>, \<open>VmmProps\<close>: page tables of \<^verbatim>\<open>kmemory.py\<close>; the table
    walk as a function from page numbers to frames, mapping, unmapping, protection, task spaces, the kernel's own space.
  \<^item> \<open>Elf\<close>: \<^verbatim>\<open>kelf.py\<close> against a specification of acceptable images without loops.
  \<^item> \<open>Devices\<close>, \<open>DeviceProps\<close>: \<^verbatim>\<open>kapic.py\<close>, \<^verbatim>\<open>ktime.py\<close>, \<^verbatim>\<open>kexceptions.py\<close>, \<^verbatim>\<open>kidt.py\<close>, with the routines of
    \<^verbatim>\<open>src/src/arch/x86_64/interrupts.s\<close> that write a gate and load the table register.
  \<^item> \<open>Vfs\<close> to \<open>VfsMount\<close>: \<^verbatim>\<open>kvfs.py\<close>; tables as families of fields, descriptors (locale \<open>descriptor_table\<close>, interpreted
    for the three kinds of descriptor), paths, file contents as lists, the typing of nodes and descriptors along the
    step relation \<open>vfs_step\<close> with opening, creation and truncation (\<open>VfsTyped\<close>, \<open>VfsOpen\<close>), start-up.
  \<^item> \<open>Initramfs\<close>: the builder, with the image layout it promises.
  \<^item> \<open>Sched\<close> to \<open>SchedProps\<close>, \<open>Tasks\<close>: \<^verbatim>\<open>ksched.py\<close>; the ready ring (locale \<open>bounded_queue\<close>), the choice of the next
    task as a function on lists, the invariant \<open>sched_ok\<close> and the step relation \<open>sched_step\<close>, exit, waiting, programs;
    \<open>SchedTick\<close> has the tick that ends a system call.
  \<^item> \<open>Syscall\<close>, \<open>SyscallProps\<close>: \<^verbatim>\<open>ksyscall.py\<close>.  \<open>Shell\<close>, \<open>ShellProps\<close>: \<^verbatim>\<open>kshell.py\<close>.
  \<^item> \<open>Kernel\<close>, \<open>KernelProps\<close>, \<open>MemoryBoot\<close>: \<^verbatim>\<open>kernel.py\<close>, the timer interrupt and the memory part of start-up.

  \<^bold>\<open>What is shown.\<close>
  \<^item> Memory: usable memory is handed out page by page and never twice; mapping and unmapping change exactly one page of
    a translation; task spaces are identities made of fresh pages and their release returns every table; the whole
    start-up sequence returns and leaves the first four GiB translated to themselves.
  \<^item> Programs: the ELF validator accepts exactly the images of its specification, and what it accepts stays inside the
    file and the 64-page window.
  \<^item> Files: what is written is read back; nodes and descriptors stay well typed under every sequence of operations and
    a write with room in the heap returns and changes one file; descriptors are accounted for; paths normalise as specified where \<open>..\<close> stays shallow; an
    image made by the builder is mounted with its names and contents.
  \<^item> Scheduling: the invariant holds along every run, the choice refines a list function and is fair, exit hands
    children over, ticks are charged once, the break stays in its bounds, the timer interrupt preempts user tasks and
    saves them word for word.
  \<^item> System calls: user memory is accepted exactly when it lies in the task's parts, strings are copied or refused
    without effect, refused buffers answer -1 after the tick of the call.  Shell: paths resolve against the working directory, the edited line
    stays in its buffer.
  \<^item> Errors: the inputs on which the code halts or answers -1 are characterised; four theorems show behaviour the
    sources do not intend (a slash left by \<open>..\<close>, a program header table outside the file, an unknown system call, a
    resolved path without a bound).

  \<^bold>\<open>Parameters and bounds.\<close>  What happens outside the modelled code is an argument: \<open>irq\<close> (the interrupt a \<^verbatim>\<open>hlt\<close> waited
  for), \<open>device\<close> (the timer counter between two reads), \<open>trap\<close> (the processor raising an exception), \<open>others\<close> (what other
  tasks do while the caller is switched out), \<open>arch\<close> (the assembly that loads segments), \<open>walk\<close> (the files below a
  directory).  Tasks and the shell loop for ever in the sources; they take a number of rounds, and the theorems hold
  for every number.  The counters of the ready ring only grow, so the scheduler's theorems ask for fewer than \<open>2^62\<close>
  enqueued tasks so far, which no machine reaches.  The fixed sizes of the sources are bounds of the theorems: the region
  table of the page allocator has 64 places (\<open>init_pmm\<close> halts exactly when the usable memory needs more), its recycle stack
  2048 (freeing one page more halts), the file system 32 nodes and 32 descriptors; the early heap is never given back, so
  what allocates from it is shown to return while it has room.  Memory addresses and sizes handed in by the loader are
  below \<open>2^62\<close>; of an ELF image the sums of offset and size are asked to stay below \<open>2^63\<close>, because the validator
  does not test it.  The kernel runs on the identity mapping the theorems establish and
  the user window of a task is read through its own page tables; the model reads both as memory addresses.

  \<^bold>\<open>Not modelled.\<close>  The assembly under \<^verbatim>\<open>src/src/arch/\<close> and the UEFI loader are not Python; their effects that the kernel
  relies on (saving and loading registers, CR3, ports, gates, the table register) are operations of the machine.  The wrapper
  \<open>enter_user_mode\<close> of \<^verbatim>\<open>khal.py\<close>, assembly that never returns, has no caller in the Python sources, and \<^verbatim>\<open>cpuid\<close>, \<^verbatim>\<open>sti\<close>
  and \<^verbatim>\<open>hlt\<close> have no effect on the modelled state.  The user programs are data to the kernel.  Walking directories and
  reading and writing files on the build host is the argument \<open>walk\<close> and the result of \<open>main\<close>.  Cloning of the kernel
  address space, the loading of programs into pages and the self-tests of the file system, the scheduler and the shell
  are translated and have no theorem of their own.
\<close>

section \<open>Start-up of memory management\<close>

text \<open>
  C13: From what the boot loader leaves (a memory map of any number of entries whose usable ranges are disjoint,
  fit the 64 places of the region table and hold at least eight pages, a boot block outside them, and room in the early
  heap), the memory part of \<open>kernel_main\<close> returns: allocator, report, self-test,
  address space, report, self-test.  At most seven of the usable pages are then in use, all the others are free in the
  allocator, whose invariant holds, and every address of the first four GiB translates to itself.
\<close>

theorem memory_boots:
  assumes "boot_block_ok s bp"
  shows "\<exists>p vs t K. memory_boot s bp = Some (p, vs, t) \<and> K \<subseteq> boot_pages s bp \<and> card K \<le> 7
    \<and> pmm_inv t p \<and> pmm_pages t p = boot_pages s bp - K
    \<and> (\<forall>virt. 0 \<le> virt \<and> virt < 0x100000000 \<longrightarrow> vmm_translate t vs virt = Some virt)"
proof -
  obtain p vs t K where r: "memory_boot s bp = Some (p, vs, t)" "mem_ok p (boot_pages s bp) t K" "card K \<le> 7"
      "\<forall>virt. 0 \<le> virt \<and> virt < 0x100000000 \<longrightarrow> vmm_translate t vs virt = Some virt"
    using memory_boot_run [OF assms] by blast
  then show ?thesis using mem_ok_pages [OF r(2)] mem_ok_sub [OF r(2)] by (auto simp: mem_ok_def)
qed

theorem memory_boots_witness:
  "\<exists>p vs t. memory_boot sample_boot 0x9000 = Some (p, vs, t) \<and> vmm_translate t vs 0x18000ABC = Some 0x18000ABC
    \<and> pmm_pages t p \<subseteq> sample_ram"
  using memory_boots [OF sample_block_ok, unfolded sample_pages] by fastforce

end
